(* ===== verification/Interleaving.thy ===== *)
theory Interleaving
  imports Prelude "HOL-Library.Multiset"
begin

text \<open>
  Programs whose runs interleave: a program is its next atomic step and what remains after it. A
  schedule lets the threads of a list take turns on one shared state. The last sections have
  a rule for invariants of such runs: a thread owns permits, which it earns and spends by its steps.
\<close>

section \<open>Programs in atomic steps\<close>

datatype ('s, 'e, 'a) prog = Done "'e + 'a" | Step "'s \<Rightarrow> ('s, 'e, 'a) prog \<times> 's"

lemma prog_induct [case_names Done Step]:
  assumes "\<And>r. P (Done r)" "\<And>g. (\<And>s. P (fst (g s))) \<Longrightarrow> P (Step g)"
  shows "P p"
proof (induction p)
  case (Step g)
  have "P (fst (g s))" for s by (rule Step.IH [of "g s"]) (auto intro: fsts.intros)
  then show ?case by (rule assms(2))
qed (rule assms(1))

definition atom :: "('s, 'e, 'a) proc \<Rightarrow> ('s, 'e, 'a) prog" where
  "atom m = Step (\<lambda>s. case m s of (r, s') \<Rightarrow> (Done r, s'))"

definition p_ret :: "'a \<Rightarrow> ('s, 'e, 'a) prog" where
  "p_ret x = Done (Inr x)"

definition p_throw :: "'e \<Rightarrow> ('s, 'e, 'a) prog" where
  "p_throw e = Done (Inl e)"

primrec p_onError :: "('s, 'e, 'a) prog \<Rightarrow> ('e \<Rightarrow> ('s, 'f, 'b) prog) \<Rightarrow> ('a \<Rightarrow> ('s, 'f, 'b) prog)
    \<Rightarrow> ('s, 'f, 'b) prog" where
  "p_onError (Done r) h f = (case r of Inl e \<Rightarrow> h e | Inr x \<Rightarrow> f x)"
| "p_onError (Step g) h f = Step (map_prod (\<lambda>p. p_onError p h f) id \<circ> g)"

definition p_andThen :: "('s, 'e, 'a) prog \<Rightarrow> ('a \<Rightarrow> ('s, 'e, 'b) prog) \<Rightarrow> ('s, 'e, 'b) prog" where
  "p_andThen p f = p_onError p p_throw f"

text \<open>A run that nothing interrupts.\<close>

primrec alone :: "('s, 'e, 'a) prog \<Rightarrow> ('s, 'e, 'a) proc" where
  "alone (Done r) = (\<lambda>s. (r, s))"
| "alone (Step g) = (\<lambda>s. case map_prod alone id (g s) of (rest, s') \<Rightarrow> rest s')"

named_theorems alone_simps "runs that nothing interrupts"

lemma alone_atom [alone_simps]: "alone (atom m) = m"
  by (rule ext) (simp add: atom_def split: prod.split)

lemma alone_ret [alone_simps]: "alone (p_ret x) = ret x" "alone (p_throw e) = throw e"
  by (rule ext, simp add: p_ret_def p_throw_def)+

lemma alone_onError [alone_simps]:
  "alone (p_onError p h f) = onError (alone p) (\<lambda>e. alone (h e)) (\<lambda>x. alone (f x))"
proof (rule ext)
  fix s show "alone (p_onError p h f) s = onError (alone p) (\<lambda>e. alone (h e)) (\<lambda>x. alone (f x)) s"
  proof (induction p arbitrary: s rule: prog_induct)
    case (Done r)
    then show ?case by (cases r) (simp_all add: onError_def)
  next
    case (Step g)
    then show ?case by (simp add: onError_def split_beta map_prod_def)
  qed
qed

lemma alone_andThen [alone_simps]: "alone (p_andThen p f) = andThen (alone p) (\<lambda>x. alone (f x))"
  by (rule ext) (simp add: p_andThen_def alone_simps onError_def andThen_def split: prod.split sum.split)

lemma alone_if [alone_simps]: "alone (if b then p else q) = (if b then alone p else alone q)"
  by simp

lemma alone_option [alone_simps]:
  "alone (case y of None \<Rightarrow> p | Some x \<Rightarrow> f x) = (case y of None \<Rightarrow> alone p | Some x \<Rightarrow> alone (f x))"
  by (simp split: option.split)

lemma alone_sum [alone_simps]:
  "alone (case y of Inl e \<Rightarrow> f e | Inr x \<Rightarrow> g x) = (case y of Inl e \<Rightarrow> alone (f e) | Inr x \<Rightarrow> alone (g x))"
  by (simp split: sum.split)

lemma alone_prod [alone_simps]: "alone (case y of (a, b) \<Rightarrow> f a b) = (case y of (a, b) \<Rightarrow> alone (f a b))"
  by (simp split: prod.split)

section \<open>Schedules\<close>

inductive sched_step :: "('s, 'e, 'a) prog list \<times> 's \<Rightarrow> ('s, 'e, 'a) prog list \<times> 's \<Rightarrow> bool" where
  turn: "k < length ps \<Longrightarrow> ps ! k = Step g \<Longrightarrow> g s = (p, s') \<Longrightarrow> sched_step (ps, s) (ps[k := p], s')"

inductive_cases sched_stepE: "sched_step (ps, s) (qs, t)"

abbreviation sched_steps :: "('s, 'e, 'a) prog list \<times> 's \<Rightarrow> ('s, 'e, 'a) prog list \<times> 's \<Rightarrow> bool" where
  "sched_steps \<equiv> sched_step\<^sup>*\<^sup>*"

text \<open>Some turns of one program, and a run of it without interruption, as parts of a schedule.\<close>

primrec turns :: "nat \<Rightarrow> ('s, 'e, 'a) prog \<Rightarrow> 's \<Rightarrow> ('s, 'e, 'a) prog \<times> 's" where
  "turns 0 p s = (p, s)"
| "turns (Suc n) p s =
     (case p of Done r \<Rightarrow> (p, s) | Step g \<Rightarrow> (case g s of (rest, s') \<Rightarrow> turns n rest s'))"

lemma turns_steps:
  assumes "k < length ps" "turns n (ps ! k) s = (p, t)"
  shows "sched_steps (ps, s) (ps[k := p], t)"
  using assms
proof (induction n arbitrary: ps s)
  case 0
  then show ?case by (metis Pair_inject list_update_id rtranclp.rtrancl_refl turns.simps(1))
next
  case (Suc n)
  show ?case
  proof (cases "ps ! k")
    case (Done r)
    with Suc.prems have "ps[k := p] = ps" "t = s" by (auto simp: list_update_id)
    then show ?thesis by simp
  next
    case (Step g)
    obtain q s' where g: "g s = (q, s')" by fastforce
    have "sched_step (ps, s) (ps[k := q], s')" by (rule turn [OF Suc.prems(1) Step g])
    moreover have "sched_steps (ps[k := q], s') (ps[k := q, k := p], t)"
      using Suc.prems Step g by (intro Suc.IH) simp_all
    ultimately show ?thesis by simp
  qed
qed

lemma alone_turns: "alone p s = (r, t) \<Longrightarrow> \<exists>n. turns n p s = (Done r, t)"
proof (induction p arbitrary: s rule: prog_induct)
  case (Done r')
  then have "turns 0 (Done r') s = (Done r, t)" by simp
  then show ?case by blast
next
  case (Step g)
  obtain q s' where g: "g s = (q, s')" by fastforce
  with Step.prems have "alone q s' = (r, t)" by simp
  with Step.IH [of s s'] g obtain n where "turns n q s' = (Done r, t)" by auto
  with g have "turns (Suc n) (Step g) s = (Done r, t)" by simp
  then show ?case by blast
qed

lemma alone_steps:
  "k < length ps \<Longrightarrow> alone (ps ! k) s = (r, t) \<Longrightarrow> sched_steps (ps, s) (ps[k := Done r], t)"
  using alone_turns turns_steps by metis

text \<open>The first turns of a program, for evaluation.\<close>

named_theorems turns_simps "the first turns of a program"

lemma turns_onError:
  "turns (Suc n) (p_onError (atom m) h f) s =
     (case m s of (Inl e, t) \<Rightarrow> turns n (h e) t | (Inr x, t) \<Rightarrow> turns n (f x) t)"
  by (simp add: atom_def split_beta split: sum.split)

lemma turns_andThen:
  "turns (Suc n) (p_andThen (atom m) f) s =
     (case m s of (Inl e, t) \<Rightarrow> turns n (p_throw e) t | (Inr x, t) \<Rightarrow> turns n (f x) t)"
  unfolding p_andThen_def by (rule turns_onError)

lemma turns_numeral [turns_simps]:
  "turns (numeral k) (p_onError (atom m) h f) s =
     (case m s of (Inl e, t) \<Rightarrow> turns (pred_numeral k) (h e) t
      | (Inr x, t) \<Rightarrow> turns (pred_numeral k) (f x) t)"
  "turns (numeral k) (p_andThen (atom m) f') s =
     (case m s of (Inl e, t) \<Rightarrow> turns (pred_numeral k) (p_throw e) t
      | (Inr x, t) \<Rightarrow> turns (pred_numeral k) (f' x) t)"
  unfolding numeral_eq_Suc by (rule turns_onError, rule turns_andThen)

lemma onError_ret [turns_simps]: "p_onError (p_ret x) h f = f x" "p_onError (p_throw e) h f = h e"
  by (simp_all add: p_ret_def p_throw_def)

lemma andThen_ret_prog [turns_simps]: "p_andThen (p_ret x) f = f x" "p_andThen (p_throw e) f = p_throw e"
  by (simp_all add: p_andThen_def onError_ret)

lemma onError_assoc [turns_simps]:
  "p_onError (p_onError p h f) h' f' = p_onError p (\<lambda>e. p_onError (h e) h' f') (\<lambda>x. p_onError (f x) h' f')"
proof (induction p rule: prog_induct)
  case (Done r)
  then show ?case by (cases r) simp_all
next
  case (Step g)
  then show ?case by (simp add: fun_eq_iff map_prod_def split_beta)
qed

lemma andThen_assoc_prog [turns_simps]:
  "p_andThen (p_andThen p f) g = p_andThen p (\<lambda>x. p_andThen (f x) g)"
  "p_onError (p_andThen p f) h f' = p_onError p h (\<lambda>x. p_onError (f x) h f')"
  "p_andThen (p_onError q h' f'') g' = p_onError q (\<lambda>e. p_andThen (h' e) g') (\<lambda>x. p_andThen (f'' x) g')"
  by (simp_all add: p_andThen_def onError_assoc onError_ret)

text \<open>A schedule of two programs: some turns of the first, then all of the second, then the rest of the first.\<close>

definition interrupted :: "nat \<Rightarrow> ('s, 'e, 'a) prog \<Rightarrow> ('s, 'e, 'a) prog \<Rightarrow> 's \<Rightarrow> ('e + 'a) \<times> ('e + 'a) \<times> 's" where
  "interrupted n p q s =
     (case turns n p s of (rest, s1) \<Rightarrow>
      case alone q s1 of (second, s2) \<Rightarrow>
      case alone rest s2 of (first, s3) \<Rightarrow> (first, second, s3))"

lemma interrupted_steps:
  assumes "interrupted n p q s = (first, second, t)"
  shows "sched_steps ([p, q], s) ([Done first, Done second], t)"
proof -
  obtain rest s1 s2 where run: "turns n p s = (rest, s1)" "alone q s1 = (second, s2)" "alone rest s2 = (first, t)"
    using assms by (auto simp: interrupted_def split: prod.splits)
  have "sched_steps ([p, q], s) ([rest, q], s1)" using turns_steps [of 0 "[p, q]" n s] run(1) by simp
  also have "sched_steps ([rest, q], s1) ([rest, Done second], s2)"
    using alone_steps [of 1 "[rest, q]" s1] run(2) by simp
  also have "sched_steps ([rest, Done second], s2) ([Done first, Done second], t)"
    using alone_steps [of 0 "[rest, Done second]" s2] run(3) by simp
  finally show ?thesis .
qed

section \<open>Permits\<close>

text \<open>
  \<open>I M s\<close> is the invariant of the shared state when the threads own the permits \<open>M\<close> together, \<open>mv\<close> what
  a step of any thread may do to the state. A thread that owns \<open>M\<close> and knows \<open>K\<close> of the state abides
  by the invariant when each of its steps keeps it, whatever the others own, and when
  what it knows cannot be taken away by the others. \<open>Q\<close> is what it ends with.
\<close>

definition stable :: "('s \<Rightarrow> 's \<Rightarrow> bool) \<Rightarrow> ('s \<Rightarrow> bool) \<Rightarrow> bool" where
  "stable mv K \<longleftrightarrow> (\<forall>s s'. mv s s' \<longrightarrow> K s \<longrightarrow> K s')"

lemma stable_True [simp]: "stable mv (\<lambda>_. True)"
  by (simp add: stable_def)

lemma stable_conj: "stable mv K \<Longrightarrow> stable mv L \<Longrightarrow> stable mv (\<lambda>s. K s \<and> L s)"
  by (simp add: stable_def)

primrec abides :: "('k multiset \<Rightarrow> 's \<Rightarrow> bool) \<Rightarrow> ('s \<Rightarrow> 's \<Rightarrow> bool)
    \<Rightarrow> ('e + 'a \<Rightarrow> 'k multiset \<Rightarrow> ('s \<Rightarrow> bool) \<Rightarrow> bool) \<Rightarrow> ('s, 'e, 'a) prog
    \<Rightarrow> 'k multiset \<Rightarrow> ('s \<Rightarrow> bool) \<Rightarrow> bool" where
  "abides I mv Q (Done r) = Q r"
| "abides I mv Q (Step g) = (\<lambda>M K. \<forall>s F. stable mv K \<longrightarrow> K s \<longrightarrow> I (M + F) s \<longrightarrow>
     (case map_prod (abides I mv Q) id (g s) of (rest, s') \<Rightarrow>
       \<exists>M' K'. (\<forall>F. I (M + F) s \<longrightarrow> I (M' + F) s') \<and> mv s s' \<and> stable mv K' \<and> K' s' \<and> rest M' K'))"

lemma abides_Step:
  "abides I mv Q (Step g) M K \<longleftrightarrow> (\<forall>s F. stable mv K \<longrightarrow> K s \<longrightarrow> I (M + F) s \<longrightarrow>
     (\<exists>M' K'. (\<forall>F. I (M + F) s \<longrightarrow> I (M' + F) (snd (g s))) \<and> mv s (snd (g s)) \<and> stable mv K' \<and>
       K' (snd (g s)) \<and> abides I mv Q (fst (g s)) M' K'))"
  by (simp add: split_beta map_prod_def)

declare abides.simps(2) [simp del]

lemma abides_onError:
  assumes "abides I mv Q p M K" "\<And>e M K. Q (Inl e) M K \<Longrightarrow> abides I mv R (h e) M K"
    and "\<And>x M K. Q (Inr x) M K \<Longrightarrow> abides I mv R (f x) M K"
  shows "abides I mv R (p_onError p h f) M K"
  using assms(1)
proof (induction p arbitrary: M K rule: prog_induct)
  case (Done r)
  with assms(2,3) show ?case by (cases r) simp_all
next
  case (Step g)
  show ?case
    unfolding p_onError.simps abides_Step
  proof (intro allI impI)
    fix s F assume "stable mv K" "K s" "I (M + F) s"
    with Step.prems obtain M' K' where
      "\<forall>F. I (M + F) s \<longrightarrow> I (M' + F) (snd (g s))" "mv s (snd (g s))" "stable mv K'" "K' (snd (g s))"
      "abides I mv Q (fst (g s)) M' K'" unfolding abides_Step by meson
    with Step.IH [of s M' K'] show "\<exists>M' K'. (\<forall>F. I (M + F) s \<longrightarrow>
        I (M' + F) (snd ((map_prod (\<lambda>p. p_onError p h f) id \<circ> g) s))) \<and>
      mv s (snd ((map_prod (\<lambda>p. p_onError p h f) id \<circ> g) s)) \<and> stable mv K' \<and>
      K' (snd ((map_prod (\<lambda>p. p_onError p h f) id \<circ> g) s)) \<and>
      abides I mv R (fst ((map_prod (\<lambda>p. p_onError p h f) id \<circ> g) s)) M' K'"
      by (intro exI [of _ M'] exI [of _ K']) simp
  qed
qed

lemma abides_andThen:
  assumes "abides I mv Q p M K" "\<And>e M K. Q (Inl e) M K \<Longrightarrow> R (Inl e) M K"
    and "\<And>x M K. Q (Inr x) M K \<Longrightarrow> abides I mv R (f x) M K"
  shows "abides I mv R (p_andThen p f) M K"
  unfolding p_andThen_def by (rule abides_onError [OF assms(1)]) (simp_all add: assms p_throw_def)

lemma abides_ret [simp]:
  "abides I mv Q (p_ret x) M K = Q (Inr x) M K" "abides I mv Q (p_throw e) M K = Q (Inl e) M K"
  by (simp_all add: p_ret_def p_throw_def)

lemma abides_if:
  "(b \<Longrightarrow> abides I mv Q p M K) \<Longrightarrow> (\<not> b \<Longrightarrow> abides I mv Q q M K) \<Longrightarrow> abides I mv Q (if b then p else q) M K"
  by simp

text \<open>One atomic step, then the rest.\<close>

lemma abides_atom_onError:
  assumes "\<And>s F r s'. stable mv K \<Longrightarrow> K s \<Longrightarrow> I (M + F) s \<Longrightarrow> m s = (r, s') \<Longrightarrow>
    \<exists>M' K'. (\<forall>F. I (M + F) s \<longrightarrow> I (M' + F) s') \<and> mv s s' \<and> stable mv K' \<and> K' s' \<and>
      abides I mv R (case r of Inl e \<Rightarrow> h e | Inr x \<Rightarrow> f x) M' K'"
  shows "abides I mv R (p_onError (atom m) h f) M K"
  unfolding atom_def p_onError.simps abides_Step
proof (intro allI impI)
  fix s F assume "stable mv K" "K s" "I (M + F) s"
  moreover obtain r s' where m: "m s = (r, s')" by fastforce
  ultimately show "\<exists>M' K'. (\<forall>F. I (M + F) s \<longrightarrow> I (M' + F) (snd ((map_prod (\<lambda>p. p_onError p h f) id \<circ>
        (\<lambda>s. case m s of (r, s') \<Rightarrow> (Done r, s'))) s))) \<and>
      mv s (snd ((map_prod (\<lambda>p. p_onError p h f) id \<circ> (\<lambda>s. case m s of (r, s') \<Rightarrow> (Done r, s'))) s)) \<and>
      stable mv K' \<and> K' (snd ((map_prod (\<lambda>p. p_onError p h f) id \<circ> (\<lambda>s. case m s of (r, s') \<Rightarrow> (Done r, s'))) s)) \<and>
      abides I mv R (fst ((map_prod (\<lambda>p. p_onError p h f) id \<circ> (\<lambda>s. case m s of (r, s') \<Rightarrow> (Done r, s'))) s)) M' K'"
    using assms [OF _ _ _ m] by (simp add: m)
qed

lemma abides_atom_andThen:
  assumes "\<And>s F r s'. stable mv K \<Longrightarrow> K s \<Longrightarrow> I (M + F) s \<Longrightarrow> m s = (r, s') \<Longrightarrow>
    \<exists>M' K'. (\<forall>F. I (M + F) s \<longrightarrow> I (M' + F) s') \<and> mv s s' \<and> stable mv K' \<and> K' s' \<and>
      (case r of Inl e \<Rightarrow> R (Inl e) M' K' | Inr x \<Rightarrow> abides I mv R (f x) M' K')"
  shows "abides I mv R (p_andThen (atom m) f) M K"
  unfolding p_andThen_def
proof (rule abides_atom_onError)
  fix s F r s' assume "stable mv K" "K s" "I (M + F) s" "m s = (r, s')"
  from assms [OF this] show "\<exists>M' K'. (\<forall>F. I (M + F) s \<longrightarrow> I (M' + F) s') \<and> mv s s' \<and> stable mv K' \<and> K' s' \<and>
      abides I mv R (case r of Inl e \<Rightarrow> p_throw e | Inr x \<Rightarrow> f x) M' K'"
    by (cases r) (simp_all add: p_throw_def)
qed

section \<open>Quiet programs\<close>

text \<open>A program that neither needs nor earns a permit.\<close>

primrec quiet :: "('k multiset \<Rightarrow> 's \<Rightarrow> bool) \<Rightarrow> ('s \<Rightarrow> 's \<Rightarrow> bool) \<Rightarrow> ('s, 'e, 'a) prog \<Rightarrow> bool" where
  "quiet I mv (Done r) = True"
| "quiet I mv (Step g) = (\<forall>s. case map_prod (quiet I mv) id (g s) of (rest, s') \<Rightarrow>
     (\<forall>M. I M s \<longrightarrow> I M s' \<and> mv s s') \<and> rest)"

named_theorems quiet_intros "introduction rules for quiet programs"

lemma quiet_Step:
  "quiet I mv (Step g) \<longleftrightarrow> (\<forall>s. (\<forall>M. I M s \<longrightarrow> I M (snd (g s)) \<and> mv s (snd (g s))) \<and> quiet I mv (fst (g s)))"
  by (simp add: split_beta map_prod_def)

declare quiet.simps(2) [simp del]

lemma quiet_ret [quiet_intros]: "quiet I mv (p_ret x)" "quiet I mv (p_throw e)"
  by (simp_all add: p_ret_def p_throw_def)

lemma quiet_atom: "(\<And>M s r s'. I M s \<Longrightarrow> m s = (r, s') \<Longrightarrow> I M s' \<and> mv s s') \<Longrightarrow> quiet I mv (atom m)"
  by (simp add: atom_def quiet_Step split_beta) (metis prod.collapse)

lemma quiet_onError [quiet_intros]:
  assumes "quiet I mv p" "\<And>e. quiet I mv (h e)" "\<And>x. quiet I mv (f x)"
  shows "quiet I mv (p_onError p h f)"
  using assms(1)
proof (induction p rule: prog_induct)
  case (Done r)
  with assms(2,3) show ?case by (cases r) simp_all
next
  case (Step g)
  then show ?case by (simp add: quiet_Step)
qed

lemma quiet_andThen [quiet_intros]:
  "quiet I mv p \<Longrightarrow> (\<And>x. quiet I mv (f x)) \<Longrightarrow> quiet I mv (p_andThen p f)"
  unfolding p_andThen_def by (intro quiet_intros)

lemma quiet_if [quiet_intros]:
  "(b \<Longrightarrow> quiet I mv p) \<Longrightarrow> (\<not> b \<Longrightarrow> quiet I mv q) \<Longrightarrow> quiet I mv (if b then p else q)"
  by simp

lemma quiet_case_prod [quiet_intros]:
  "(\<And>a b. quiet I mv (f a b)) \<Longrightarrow> quiet I mv (case x of (a, b) \<Rightarrow> f a b)"
  by (simp split: prod.split)

lemma quiet_case_option [quiet_intros]:
  "quiet I mv p \<Longrightarrow> (\<And>x. quiet I mv (f x)) \<Longrightarrow> quiet I mv (case y of None \<Rightarrow> p | Some x \<Rightarrow> f x)"
  by (simp split: option.split)

lemma quiet_case_sum [quiet_intros]:
  "(\<And>x. quiet I mv (f x)) \<Longrightarrow> (\<And>x. quiet I mv (g x)) \<Longrightarrow>
   quiet I mv (case y of Inl x \<Rightarrow> f x | Inr x \<Rightarrow> g x)"
  by (simp split: sum.split)

lemma quiet_abides:
  assumes "quiet I mv p" "\<And>r. Q r M K"
  shows "abides I mv Q p M K"
  using assms(1)
proof (induction p rule: prog_induct)
  case (Done r)
  show ?case using assms(2) by simp
next
  case (Step g)
  then show ?case unfolding abides_Step quiet_Step stable_def by (metis (no_types, lifting))
qed

lemma abides_quiet:
  assumes "quiet I mv p" "\<And>e. R (Inl e) M K" "\<And>x. abides I mv R (f x) M K"
  shows "abides I mv R (p_andThen p f) M K"
proof (rule abides_andThen)
  show "abides I mv (\<lambda>r M' K'. M' = M \<and> K' = K) p M K" by (rule quiet_abides [OF assms(1)]) simp
qed (use assms(2,3) in simp_all)

lemma abides_quiet_onError:
  assumes "quiet I mv p" "\<And>e. abides I mv R (h e) M K" "\<And>x. abides I mv R (f x) M K"
  shows "abides I mv R (p_onError p h f) M K"
proof (rule abides_onError)
  show "abides I mv (\<lambda>r M' K'. M' = M \<and> K' = K) p M K" by (rule quiet_abides [OF assms(1)]) simp
qed (use assms(2,3) in simp_all)

text \<open>What a program returns, whatever the states it meets.\<close>

primrec yields :: "('e + 'a \<Rightarrow> bool) \<Rightarrow> ('s, 'e, 'a) prog \<Rightarrow> bool" where
  "yields P (Done r) = P r"
| "yields P (Step g) = (\<forall>s. fst (map_prod (yields P) id (g s)))"

named_theorems yields_intros "introduction rules for what programs return"

lemma yields_ret [yields_intros]:
  "P (Inr x) \<Longrightarrow> yields P (p_ret x)" "P (Inl e) \<Longrightarrow> yields P (p_throw e)"
  by (simp_all add: p_ret_def p_throw_def)

lemma yields_atom: "(\<And>s. P (fst (m s))) \<Longrightarrow> yields P (atom m)"
  by (simp add: atom_def split_beta)

lemma yields_onError:
  assumes "yields P p" "\<And>e. P (Inl e) \<Longrightarrow> yields Q (h e)" "\<And>x. P (Inr x) \<Longrightarrow> yields Q (f x)"
  shows "yields Q (p_onError p h f)"
  using assms(1)
proof (induction p rule: prog_induct)
  case (Done r)
  with assms(2,3) show ?case by (cases r) simp_all
next
  case (Step g)
  then show ?case by simp
qed

lemma yields_mono: "yields P p \<Longrightarrow> (\<And>r. P r \<Longrightarrow> Q r) \<Longrightarrow> yields Q p"
  by (induction p rule: prog_induct) simp_all

lemma yields_any: "yields (\<lambda>_. True) p"
  by (induction p rule: prog_induct) simp_all

lemma yields_andThen:
  assumes "yields P p" "\<And>e. P (Inl e) \<Longrightarrow> Q (Inl e)" "\<And>x. P (Inr x) \<Longrightarrow> yields Q (f x)"
  shows "yields Q (p_andThen p f)"
  unfolding p_andThen_def by (rule yields_onError [OF assms(1)]) (simp_all add: assms p_throw_def)

lemmas yields_seq [yields_intros] = yields_andThen [OF yields_any] yields_onError [OF yields_any]

lemma yields_if [yields_intros]:
  "(b \<Longrightarrow> yields P p) \<Longrightarrow> (\<not> b \<Longrightarrow> yields P q) \<Longrightarrow> yields P (if b then p else q)"
  by simp

lemma yields_case_option [yields_intros]:
  "(y = None \<Longrightarrow> yields P p) \<Longrightarrow> (\<And>x. y = Some x \<Longrightarrow> yields P (f x)) \<Longrightarrow>
   yields P (case y of None \<Rightarrow> p | Some x \<Rightarrow> f x)"
  by (simp split: option.split)

lemma yields_case_sum [yields_intros]:
  "(\<And>x. yields P (f x)) \<Longrightarrow> (\<And>x. yields P (g x)) \<Longrightarrow> yields P (case y of Inl x \<Rightarrow> f x | Inr x \<Rightarrow> g x)"
  by (simp split: sum.split)

lemma quiet_yields:
  assumes "quiet I mv p" "yields P p"
  shows "abides I mv (\<lambda>r M' K'. M' = M \<and> K' = K \<and> P r) p M K"
  using assms
proof (induction p rule: prog_induct)
  case (Done r)
  then show ?case by simp
next
  case (Step g)
  then show ?case unfolding abides_Step quiet_Step stable_def by (simp, metis (no_types, lifting))
qed

lemma abides_mono:
  assumes "abides I mv Q p M K" "\<And>r M K. Q r M K \<Longrightarrow> R r M K"
  shows "abides I mv R p M K"
  using assms(1)
proof (induction p arbitrary: M K rule: prog_induct)
  case (Done r)
  with assms(2) show ?case by simp
next
  case (Step g)
  then show ?case unfolding abides_Step by (meson rangeI)
qed

lemma abides_quiet_yields:
  assumes "quiet I mv p" "yields P p" "\<And>r. P r \<Longrightarrow> R r M K"
  shows "abides I mv R p M K"
  by (rule abides_mono [OF quiet_yields [OF assms(1,2)]]) (use assms(3) in auto)

section \<open>The rule for schedules\<close>

definition owns :: "('k multiset \<Rightarrow> 's \<Rightarrow> bool) \<Rightarrow> ('s \<Rightarrow> 's \<Rightarrow> bool)
    \<Rightarrow> ('e + 'a \<Rightarrow> 'k multiset \<Rightarrow> ('s \<Rightarrow> bool) \<Rightarrow> bool) \<Rightarrow> ('s, 'e, 'a) prog list
    \<Rightarrow> 'k multiset list \<Rightarrow> ('s \<Rightarrow> bool) list \<Rightarrow> 's \<Rightarrow> bool" where
  "owns I mv Q ps Ms Ks s \<longleftrightarrow> length Ms = length ps \<and> length Ks = length ps \<and> I (sum_list Ms) s \<and>
     (\<forall>k < length ps. stable mv (Ks ! k) \<and> (Ks ! k) s \<and> abides I mv Q (ps ! k) (Ms ! k) (Ks ! k))"

lemma sum_list_nth_frame:
  fixes Ms :: "'k multiset list"
  assumes "k < length Ms"
  obtains F where "sum_list Ms = Ms ! k + F" "\<And>M. sum_list (Ms[k := M]) = M + F"
proof
  let ?F = "sum_list (take k Ms) + sum_list (drop (Suc k) Ms)"
  have "sum_list (take k Ms @ Ms ! k # drop (Suc k) Ms) = Ms ! k + ?F" by simp
  then show "sum_list Ms = Ms ! k + ?F" using assms by (simp only: id_take_nth_drop [symmetric])
  show "sum_list (Ms[k := M]) = M + ?F" for M using assms by (simp add: upd_conv_take_nth_drop)
qed

lemma owns_step:
  assumes "sched_step (ps, s) (qs, t)" "owns I mv Q ps Ms Ks s"
  shows "\<exists>Ms' Ks'. owns I mv Q qs Ms' Ks' t"
proof (rule sched_stepE [OF assms(1)])
  fix k g p assume k: "k < length ps" "ps ! k = Step g" "g s = (p, t)" and qs: "qs = ps[k := p]"
  from assms(2) have len: "length Ms = length ps" "length Ks = length ps" by (simp_all add: owns_def)
  have "k < length Ms" using k len by simp
  from sum_list_nth_frame [OF this] obtain F
    where F: "sum_list Ms = Ms ! k + F" "\<And>M. sum_list (Ms[k := M]) = M + F" by metis
  have "stable mv (Ks ! k)" "(Ks ! k) s" "I (Ms ! k + F) s" "abides I mv Q (Step g) (Ms ! k) (Ks ! k)"
    using assms(2) k F(1) by (auto simp: owns_def)
  then obtain M' K' where *: "I (M' + F) t" "mv s t" "stable mv K'" "K' t" "abides I mv Q p M' K'"
    unfolding abides_Step by (metis k(3) fst_conv snd_conv)
  have "owns I mv Q qs (Ms[k := M']) (Ks[k := K']) t"
    unfolding owns_def
  proof (intro conjI allI impI)
    show "I (sum_list (Ms[k := M'])) t" using * by (simp add: F)
    fix j assume "j < length qs"
    then have j: "j < length ps" by (simp add: qs)
    then have "stable mv (Ks ! j)" "(Ks ! j) s" "abides I mv Q (ps ! j) (Ms ! j) (Ks ! j)"
      using assms(2) by (simp_all add: owns_def)
    moreover from this(1,2) have "(Ks ! j) t" using *(2) by (simp add: stable_def)
    ultimately show "stable mv (Ks[k := K'] ! j)" "(Ks[k := K'] ! j) t"
      "abides I mv Q (qs ! j) (Ms[k := M'] ! j) (Ks[k := K'] ! j)"
      using * j by (cases "j = k"; simp add: qs len)+
  qed (simp_all add: qs len)
  then show ?thesis by blast
qed

lemma owns_steps:
  assumes "sched_steps (ps, s) (qs, t)" "owns I mv Q ps Ms Ks s"
  shows "\<exists>Ms' Ks'. owns I mv Q qs Ms' Ks' t"
  using assms
proof (induction arbitrary: rule: rtranclp_induct2)
  case refl
  then show ?case by blast
next
  case (step qs t rs u)
  then show ?case using owns_step by metis
qed

end
