(* ===== verification/GoNum.thy ===== *)
theory GoNum
  imports Complex_Main Prelude "HOL-Library.Log_Nat"
begin

text \<open>
  Go's numbers as the program uses them: 64-bit signed integers with their wrap-around
  (\<open>int\<close>, \<open>int64\<close> and \<open>time.Duration\<close> on a 64-bit target) and \<open>float64\<close>.
\<close>

section \<open>64-bit integers\<close>

definition wrap64 :: "int \<Rightarrow> int" where
  "wrap64 x = (x + 2 ^ 63) mod 2 ^ 64 - 2 ^ 63"

definition in64 :: "int \<Rightarrow> bool" where
  "in64 x \<longleftrightarrow> - (2 ^ 63) \<le> x \<and> x < 2 ^ 63"

lemma wrap64_id [simp]: "in64 x \<Longrightarrow> wrap64 x = x"
  by (simp add: wrap64_def in64_def)

lemma in64_wrap64 [simp]: "in64 (wrap64 x)"
proof -
  have "0 \<le> (x + 2 ^ 63) mod 2 ^ 64" and "(x + 2 ^ 63) mod 2 ^ 64 < 2 ^ 64" by simp_all
  then show ?thesis unfolding wrap64_def in64_def by simp
qed

lemma wrap64_idem [simp]: "wrap64 (wrap64 x) = wrap64 x"
  by (rule wrap64_id) simp

section \<open>Double precision floating point\<close>

text \<open>
  A \<open>float64\<close> is a finite value, an infinity or NaN. The finite values are carried as the
  rational they denote; the two zeros are one value, which no operation of the program can
  tell apart. Every operation rounds its exact result to nearest, ties to even.
\<close>

datatype f64 = Fin rat | PosInf | NegInf | NaN

text \<open>The exponent of the binade of a positive rational, \<open>2 powi binade x \<le> x < 2 powi (binade x + 1)\<close>.\<close>

definition binade :: "rat \<Rightarrow> int" where
  "binade x = (if 1 \<le> x then bitlen \<lfloor>x\<rfloor> - 1 else - bitlen (\<lceil>1 / x\<rceil> - 1))"

definition ulp_exp :: "rat \<Rightarrow> int" where
  "ulp_exp x = max (binade x - 52) (- 1074)"

definition ulp :: "rat \<Rightarrow> rat" where
  "ulp x = 2 powi ulp_exp x"

definition round_even :: "rat \<Rightarrow> int" where
  "round_even x = (let f = \<lfloor>x\<rfloor>; d = x - of_int f in
     if d < 1 / 2 then f else if 1 / 2 < d then f + 1 else if even f then f else f + 1)"

definition rnd :: "rat \<Rightarrow> rat" where
  "rnd x = (if x = 0 then 0 else of_int (round_even (x / ulp \<bar>x\<bar>)) * ulp \<bar>x\<bar>)"

definition round_f64 :: "rat \<Rightarrow> f64" where
  "round_f64 x = (let r = rnd x in
     if 2 ^ 1024 \<le> r then PosInf else if r \<le> - (2 ^ 1024) then NegInf else Fin r)"

text \<open>The conversion \<open>float64(n)\<close> of an integer.\<close>

definition f64_of_int :: "int \<Rightarrow> f64" where
  "f64_of_int n = round_f64 (of_int n)"

text \<open>
  Division. Where the divisor of a finite dividend can be a zero in the program, it is the
  positive one; the equation for it says so.
\<close>

fun f64_div :: "f64 \<Rightarrow> f64 \<Rightarrow> f64" where
  "f64_div NaN _ = NaN"
| "f64_div _ NaN = NaN"
| "f64_div (Fin a) (Fin b) =
     (if b = 0 then (if a = 0 then NaN else if 0 < a then PosInf else NegInf)
      else round_f64 (a / b))"
| "f64_div (Fin a) _ = Fin 0"
| "f64_div PosInf (Fin b) = (if b < 0 then NegInf else PosInf)"
| "f64_div NegInf (Fin b) = (if b < 0 then PosInf else NegInf)"
| "f64_div _ _ = NaN"

text \<open>The comparisons: a NaN compares false with everything.\<close>

instantiation f64 :: ord
begin

fun less_f64 :: "f64 \<Rightarrow> f64 \<Rightarrow> bool" where
  "less_f64 NaN _ = False"
| "less_f64 _ NaN = False"
| "less_f64 (Fin a) (Fin b) = (a < b)"
| "less_f64 (Fin _) PosInf = True"
| "less_f64 (Fin _) NegInf = False"
| "less_f64 PosInf _ = False"
| "less_f64 NegInf NegInf = False"
| "less_f64 NegInf _ = True"

fun less_eq_f64 :: "f64 \<Rightarrow> f64 \<Rightarrow> bool" where
  "less_eq_f64 NaN _ = False"
| "less_eq_f64 _ NaN = False"
| "less_eq_f64 (Fin a) (Fin b) = (a \<le> b)"
| "less_eq_f64 (Fin _) PosInf = True"
| "less_eq_f64 (Fin _) NegInf = False"
| "less_eq_f64 PosInf PosInf = True"
| "less_eq_f64 PosInf _ = False"
| "less_eq_f64 NegInf _ = True"

instance ..

end

lemma f64_not_le_iff: "x \<noteq> NaN \<Longrightarrow> y \<noteq> NaN \<Longrightarrow> (\<not> (x :: f64) \<le> y) = (y < x)"
  by (cases x; cases y) auto

lemma f64_less_irrefl [simp]: "\<not> (x :: f64) < x"
  by (cases x) auto

lemma f64_less_NaN [simp]: "\<not> x < NaN" "\<not> x \<le> NaN"
  by (cases x; simp)+

subsection \<open>Rounding is monotone and exact where it can be\<close>

lemma power_int_of_nat: "0 \<le> k \<Longrightarrow> (2 :: rat) powi k = of_int (2 ^ nat k)"
  by (simp add: power_int_def)

lemma pow2_less_iff: "(2 :: rat) powi a < 2 powi b \<longleftrightarrow> a < b"
  by (metis linorder_not_less one_less_numeral_iff power_int_increasing
      power_int_strict_increasing semiring_norm(76) less_imp_le)

lemma pow2_split: "e \<le> k \<Longrightarrow> (2 :: rat) powi k = of_int (2 ^ nat (k - e)) * 2 powi e"
  by (subst power_int_of_nat [symmetric]) (simp_all add: power_int_add [symmetric])

lemma bitlen_bounds_rat:
  assumes "0 < n"
  shows "2 powi (bitlen n - 1) \<le> (of_int n :: rat)" and "(of_int (n + 1) :: rat) \<le> 2 powi bitlen n"
proof -
  from assms have pos: "0 < bitlen n"
    using bitlen_nonneg [of n] bitlen_eq_zero_iff [of n] by linarith
  from bitlen_bounds [OF assms]
  have lo: "2 ^ nat (bitlen n - 1) \<le> n" and hi: "n + 1 \<le> 2 ^ nat (bitlen n)" by simp_all
  show "2 powi (bitlen n - 1) \<le> (of_int n :: rat)"
    using lo pos by (simp only: power_int_of_nat of_int_le_iff)
  show "(of_int (n + 1) :: rat) \<le> 2 powi bitlen n"
    using hi pos by (simp only: power_int_of_nat of_int_le_iff)
qed

lemma binade_bounds:
  assumes "0 < x"
  shows "2 powi binade x \<le> x" and "x < 2 powi (binade x + 1)"
proof -
  have "2 powi binade x \<le> x \<and> x < 2 powi (binade x + 1)"
  proof (cases "1 \<le> x")
    case True
    then have n: "0 < \<lfloor>x\<rfloor>" by simp
    have "of_int \<lfloor>x\<rfloor> \<le> x" and "x < of_int (\<lfloor>x\<rfloor> + 1)" by linarith+
    then have "2 powi (bitlen \<lfloor>x\<rfloor> - 1) \<le> x" and "x < 2 powi bitlen \<lfloor>x\<rfloor>"
      using bitlen_bounds_rat [OF n] by linarith+
    with True show ?thesis by (simp add: binade_def)
  next
    case False
    define m where "m = \<lceil>1 / x\<rceil> - 1"
    from False assms have "1 < 1 / x" by simp
    then have m: "0 < m" unfolding m_def by linarith
    have b: "of_int m < 1 / x" "1 / x \<le> of_int (m + 1)" unfolding m_def by linarith+
    from b(2) bitlen_bounds_rat(2) [OF m] have "1 / x \<le> 2 powi bitlen m" by linarith
    then have lo: "2 powi (- bitlen m) \<le> x"
      using assms by (simp add: power_int_minus field_simps)
    from b(1) bitlen_bounds_rat(1) [OF m] have "2 powi (bitlen m - 1) < 1 / x" by linarith
    then have "x < 1 / 2 powi (bitlen m - 1)"
      using assms by (simp add: field_simps)
    also have "\<dots> = 2 powi (- bitlen m + 1)"
      by (simp add: power_int_minus [symmetric] divide_inverse)
    finally show ?thesis using lo False by (simp add: binade_def m_def)
  qed
  then show "2 powi binade x \<le> x" and "x < 2 powi (binade x + 1)" by simp_all
qed

lemma binade_mono:
  assumes "0 < x" "x \<le> y"
  shows "binade x \<le> binade y"
proof -
  have "2 powi binade x < (2 :: rat) powi (binade y + 1)"
    using binade_bounds(1) [OF assms(1)] binade_bounds(2) [of y] assms by linarith
  then show ?thesis by (simp add: pow2_less_iff)
qed

lemma round_even_mono: "x \<le> y \<Longrightarrow> round_even x \<le> round_even y"
proof -
  assume le: "x \<le> y"
  then have fl: "\<lfloor>x\<rfloor> \<le> \<lfloor>y\<rfloor>" by (rule floor_mono)
  show ?thesis
  proof (cases "\<lfloor>x\<rfloor> = \<lfloor>y\<rfloor>")
    case True
    with le show ?thesis by (auto simp: round_even_def Let_def)
  next
    case False
    with fl have "\<lfloor>x\<rfloor> + 1 \<le> \<lfloor>y\<rfloor>" by simp
    then show ?thesis by (auto simp: round_even_def Let_def)
  qed
qed

lemma round_even_of_int [simp]: "round_even (of_int n) = n"
  by (simp add: round_even_def)

lemma ulp_pos [simp]: "0 < ulp x"
  by (simp add: ulp_def)

lemma rnd_pos: "0 < x \<Longrightarrow> rnd x = of_int (round_even (x / ulp x)) * ulp x"
  by (simp add: rnd_def)

lemma rnd_upper:
  assumes "0 < x" "ulp_exp x \<le> k" "x \<le> 2 powi k"
  shows "rnd x \<le> 2 powi k"
proof -
  have split: "(2 :: rat) powi k = of_int (2 ^ nat (k - ulp_exp x)) * ulp x"
    unfolding ulp_def by (rule pow2_split [OF assms(2)])
  have "x / ulp x \<le> of_int (2 ^ nat (k - ulp_exp x))"
    using assms(3) by (subst pos_divide_le_eq) (simp_all only: ulp_pos split [symmetric])
  from round_even_mono [OF this] have "round_even (x / ulp x) \<le> 2 ^ nat (k - ulp_exp x)"
    by (simp only: round_even_of_int)
  then have "(of_int (round_even (x / ulp x)) :: rat) \<le> of_int (2 ^ nat (k - ulp_exp x))"
    by (simp only: of_int_le_iff)
  then show ?thesis
    unfolding rnd_pos [OF assms(1)] split by (rule mult_right_mono) (simp add: less_imp_le)
qed

lemma rnd_lower:
  assumes "0 < x" "ulp_exp x \<le> k" "2 powi k \<le> x"
  shows "2 powi k \<le> rnd x"
proof -
  have split: "(2 :: rat) powi k = of_int (2 ^ nat (k - ulp_exp x)) * ulp x"
    unfolding ulp_def by (rule pow2_split [OF assms(2)])
  have "of_int (2 ^ nat (k - ulp_exp x)) \<le> x / ulp x"
    using assms(3) by (subst pos_le_divide_eq) (simp_all only: ulp_pos split [symmetric])
  from round_even_mono [OF this] have "2 ^ nat (k - ulp_exp x) \<le> round_even (x / ulp x)"
    by (simp only: round_even_of_int)
  then have "of_int (2 ^ nat (k - ulp_exp x)) \<le> (of_int (round_even (x / ulp x)) :: rat)"
    by (simp only: of_int_le_iff)
  then show ?thesis
    unfolding rnd_pos [OF assms(1)] split by (rule mult_right_mono) (simp add: less_imp_le)
qed

lemma rnd_mono_pos:
  assumes "0 < x" "x \<le> y"
  shows "rnd x \<le> rnd y"
proof (cases "ulp_exp x = ulp_exp y")
  case True
  then have u: "ulp y = ulp x" by (simp add: ulp_def)
  have "x / ulp x \<le> y / ulp x" using assms(2) by (simp add: divide_right_mono less_imp_le)
  from round_even_mono [OF this]
  have "of_int (round_even (x / ulp x)) * ulp x \<le> of_int (round_even (y / ulp x)) * ulp x"
    by (intro mult_right_mono) (simp_all add: less_imp_le)
  with assms show ?thesis by (simp add: rnd_pos u)
next
  case False
  from assms have y: "0 < y" by simp
  have "binade x \<le> binade y" by (rule binade_mono [OF assms])
  with False have lt: "binade x < binade y" and e: "ulp_exp y = binade y - 52" "-1022 < binade y"
    by (auto simp: ulp_exp_def max_def split: if_splits)
  have "x < 2 powi (binade x + 1)" by (rule binade_bounds(2) [OF assms(1)])
  also have "\<dots> \<le> 2 powi binade y" using lt by (intro power_int_increasing) simp_all
  finally have "rnd x \<le> 2 powi binade y"
    using lt e assms(1) by (intro rnd_upper) (simp_all add: ulp_exp_def)
  also have "\<dots> \<le> rnd y"
    using e y binade_bounds(1) [OF y] by (intro rnd_lower) simp_all
  finally show ?thesis .
qed

lemma rnd_nonneg: "0 \<le> x \<Longrightarrow> 0 \<le> rnd x"
proof (cases "x = 0")
  case False
  assume "0 \<le> x"
  with False have x: "0 < x" by simp
  have "round_even (of_int 0) \<le> round_even (x / ulp x)"
    using x by (intro round_even_mono) (simp add: less_imp_le)
  then show ?thesis unfolding rnd_pos [OF x] by (simp del: of_int_0 add: less_imp_le)
qed (simp add: rnd_def)

lemma rnd_mono: "0 \<le> x \<Longrightarrow> x \<le> y \<Longrightarrow> rnd x \<le> rnd y"
  by (cases "x = 0") (auto simp: rnd_nonneg rnd_mono_pos rnd_def [of 0])

lemma rnd_exact_int: "0 < x \<Longrightarrow> x = of_int n \<Longrightarrow> ulp_exp x \<le> 0 \<Longrightarrow> rnd x = x"
proof -
  assume x: "0 < x" "x = of_int n" and e: "ulp_exp x \<le> 0"
  have inv: "1 / ulp x = of_int (2 ^ nat (- ulp_exp x))"
    using e pow2_split [of "ulp_exp x" 0] by (simp add: ulp_def divide_eq_eq)
  have "x / ulp x = of_int (n * 2 ^ nat (- ulp_exp x))"
    using inv x(2) by (simp add: divide_inverse)
  then have "round_even (x / ulp x) = n * 2 ^ nat (- ulp_exp x)"
    by (simp only: round_even_of_int)
  then have "rnd x = of_int n * of_int (2 ^ nat (- ulp_exp x)) * ulp x"
    unfolding rnd_pos [OF x(1)] by simp
  also have "\<dots> = of_int n" unfolding inv [symmetric] by (simp add: less_imp_neq [symmetric])
  finally show ?thesis using x by simp
qed

lemma rnd_of_int:
  assumes "0 \<le> n" "n < 2 ^ 53"
  shows "rnd (of_int n) = of_int n"
proof (cases "n = 0")
  case False
  with assms have x: "0 < (of_int n :: rat)" by simp
  have "2 powi binade (of_int n) \<le> (of_int n :: rat)" by (rule binade_bounds(1) [OF x])
  also have "\<dots> < of_int (2 ^ 53)" using assms by (simp only: of_int_less_iff)
  also have "\<dots> = 2 powi 53" by simp
  finally have "binade (of_int n) < 53" by (simp only: pow2_less_iff)
  then show ?thesis by (intro rnd_exact_int [OF x refl]) (simp add: ulp_exp_def)
qed (simp add: rnd_def)

text \<open>Values up to \<open>2 ^ 53\<close> stay far from the overflow threshold.\<close>

lemma round_f64_Fin:
  assumes "0 \<le> x" "x \<le> 2 ^ 53"
  shows "round_f64 x = Fin (rnd x)"
proof -
  have "rnd x \<le> rnd (2 ^ 53)" using assms by (rule rnd_mono)
  also have "rnd (2 ^ 53) = 2 ^ 53" by code_simp
  also have "(2 ^ 53 :: rat) < 2 ^ 1024" by (rule power_strict_increasing) simp_all
  finally have "rnd x < 2 ^ 1024" .
  moreover have "0 \<le> rnd x" using assms(1) by (rule rnd_nonneg)
  moreover have "(0 :: rat) < 2 ^ 1024" by simp
  ultimately show ?thesis by (simp add: round_f64_def Let_def)
qed

end
