(* ===== verification/GoTime.thy ===== *)
theory GoTime
  imports GoNum
begin

text \<open>
  The part of Go's \<open>time\<close> package the program uses. A \<open>time.Time\<close> is the integer number of
  nanoseconds since the Unix epoch; instants are unbounded here, Go keeps 64-bit seconds and
  overflows after 292 billion years only. A \<open>time.Duration\<close> is a 64-bit count of nanoseconds,
  so the arithmetic on durations wraps, as it does in Go.
\<close>

type_synonym time = int
type_synonym duration = int

text \<open>The zero value \<open>time.Time{}\<close>: January 1 of year 1, 00:00 UTC.\<close>

definition zero_time :: time where
  "zero_time = - 62135596800 * 10 ^ 9"

definition IsZero :: "time \<Rightarrow> bool" where
  "IsZero t \<longleftrightarrow> t = zero_time"

definition Millisecond :: duration where "Millisecond = 10 ^ 6"
definition Second :: duration where "Second = 10 ^ 9"
definition Minute :: duration where "Minute = 60 * 10 ^ 9"

text \<open>The expression \<open>time.Duration(n) * unit\<close> and the negation of a duration.\<close>

definition Duration :: "int \<Rightarrow> duration \<Rightarrow> duration" where
  "Duration n unit = wrap64 (n * unit)"

definition neg_dur :: "duration \<Rightarrow> duration" where
  "neg_dur d = wrap64 (- d)"

definition Add :: "time \<Rightarrow> duration \<Rightarrow> time" where
  "Add t d = t + d"

definition Before :: "time \<Rightarrow> time \<Rightarrow> bool" where
  "Before t u \<longleftrightarrow> t < u"

definition After :: "time \<Rightarrow> time \<Rightarrow> bool" where
  "After t u \<longleftrightarrow> u < t"

text \<open>\<open>UnixMilli\<close> and \<open>Unix\<close> round towards minus infinity, as \<open>div\<close> does.\<close>

definition UnixMilli :: "time \<Rightarrow> int" where
  "UnixMilli t = t div 10 ^ 6"

definition Unix :: "time \<Rightarrow> int" where
  "Unix t = t div 10 ^ 9"

text \<open>\<open>Truncate\<close> rounds down to a multiple of the duration since the zero time.\<close>

definition Truncate :: "time \<Rightarrow> duration \<Rightarrow> time" where
  "Truncate t d = (if d \<le> 0 then t else t - (t - zero_time) mod d)"

lemmas time_defs = Add_def Before_def After_def

lemma Duration_Second_small:
  assumes "0 < n" "n \<le> 9223372036"
  shows "Duration n Second = n * 10 ^ 9" "0 < Duration n Second"
proof -
  from assms have "in64 (n * 10 ^ 9)" by (simp add: in64_def)
  then show "Duration n Second = n * 10 ^ 9" by (simp add: Duration_def Second_def)
  with assms show "0 < Duration n Second" by simp
qed

lemma UnixMilli_mono: "t \<le> u \<Longrightarrow> UnixMilli t \<le> UnixMilli u"
  unfolding UnixMilli_def by (rule zdiv_mono1) simp_all

lemma Truncate_le: "Truncate t d \<le> t"
  by (simp add: Truncate_def)

lemma Truncate_gt: "0 < d \<Longrightarrow> t - d < Truncate t d"
  using pos_mod_bound [of d "t - zero_time"] by (simp add: Truncate_def)

end
