(* ===== verification/GoStrings.thy ===== *)
theory GoStrings
  imports Main "HOL-Library.Sublist"
begin

text \<open>
  The part of Go's \<open>strings\<close> package the program uses, on strings as byte sequences (UTF-8, as
  in Go). \<open>TrimSpace\<close> removes every Unicode white space rune at both ends. \<open>ToLower\<close> is exact
  on ASCII letters and on the two runes outside ASCII whose lower case is an ASCII letter
  (U+0130 and the Kelvin sign U+212A); every other byte is kept, where Go may map a rune outside
  ASCII to another one outside ASCII. The program only compares lowered strings with ASCII
  constants, so this never changes a result.
\<close>

definition byte :: "char \<Rightarrow> nat" where
  "byte c = of_char c"

definition ascii_space :: "char \<Rightarrow> bool" where
  "ascii_space c \<longleftrightarrow> byte c \<in> {9, 10, 11, 12, 13, 32}"

definition wide_spaces :: "string list" where
  "wide_spaces =
     [[CHR 0xC2, CHR 0x85], [CHR 0xC2, CHR 0xA0], [CHR 0xE1, CHR 0x9A, CHR 0x80],
      [CHR 0xE2, CHR 0x80, CHR 0x80], [CHR 0xE2, CHR 0x80, CHR 0x81], [CHR 0xE2, CHR 0x80, CHR 0x82],
      [CHR 0xE2, CHR 0x80, CHR 0x83], [CHR 0xE2, CHR 0x80, CHR 0x84], [CHR 0xE2, CHR 0x80, CHR 0x85],
      [CHR 0xE2, CHR 0x80, CHR 0x86], [CHR 0xE2, CHR 0x80, CHR 0x87], [CHR 0xE2, CHR 0x80, CHR 0x88],
      [CHR 0xE2, CHR 0x80, CHR 0x89], [CHR 0xE2, CHR 0x80, CHR 0x8A], [CHR 0xE2, CHR 0x80, CHR 0xA8],
      [CHR 0xE2, CHR 0x80, CHR 0xA9], [CHR 0xE2, CHR 0x80, CHR 0xAF], [CHR 0xE2, CHR 0x81, CHR 0x9F],
      [CHR 0xE3, CHR 0x80, CHR 0x80]]"

text \<open>The number of bytes of the white space rune at the front, 0 if there is none.\<close>

definition front_space :: "string list \<Rightarrow> string \<Rightarrow> nat" where
  "front_space wide s = (case s of [] \<Rightarrow> 0
     | c # _ \<Rightarrow> if ascii_space c then 1
               else (case find (\<lambda>w. prefix w s) wide of None \<Rightarrow> 0 | Some w \<Rightarrow> length w))"

lemma front_space_le: "front_space wide s \<le> length s"
  by (auto simp: front_space_def find_Some_iff split: list.splits option.splits
      dest!: nth_mem prefix_length_le)

function trim_front :: "string list \<Rightarrow> string \<Rightarrow> string" where
  "trim_front wide s =
     (if front_space wide s = 0 then s else trim_front wide (drop (front_space wide s) s))"
  by pat_completeness auto
termination
proof (relation "measure (\<lambda>(_, s). length s)", goal_cases)
  case (2 wide s)
  then show ?case using front_space_le [of wide s] by simp
qed simp

declare trim_front.simps [simp del]

definition TrimSpace :: "string \<Rightarrow> string" where
  "TrimSpace s = rev (trim_front (map rev wide_spaces) (rev (trim_front wide_spaces s)))"

text \<open>Setting bit 5 of an upper case ASCII letter adds 32 to it.\<close>

definition lower_ascii :: "char \<Rightarrow> char" where
  "lower_ascii c = (if 65 \<le> byte c \<and> byte c \<le> 90
     then (case c of Char b0 b1 b2 b3 b4 _ b6 b7 \<Rightarrow> Char b0 b1 b2 b3 b4 True b6 b7) else c)"

fun ToLower :: "string \<Rightarrow> string" where
  "ToLower [] = []"
| "ToLower (c # cs) =
     (if c = CHR 0xC4 \<and> take 1 cs = [CHR 0xB0] then CHR ''i'' # ToLower (drop 1 cs)
      else if c = CHR 0xE2 \<and> take 2 cs = [CHR 0x84, CHR 0xAA] then CHR ''k'' # ToLower (drop 2 cs)
      else lower_ascii c # ToLower cs)"

lemma trim_front_Nil [simp]: "trim_front wide [] = []"
  by (subst trim_front.simps) (simp add: front_space_def)

lemma TrimSpace_Nil [simp]: "TrimSpace [] = []"
  by (simp add: TrimSpace_def)

lemma front_space_trim_front [simp]: "front_space wide (trim_front wide s) = 0"
proof (induction wide s rule: trim_front.induct)
  case (1 wide s)
  then show ?case
    by (cases "front_space wide s = 0") (simp_all add: trim_front.simps [of wide s])
qed

lemma trim_front_id: "front_space wide s = 0 \<Longrightarrow> trim_front wide s = s"
  by (subst trim_front.simps) simp

lemma suffix_trim_front: "suffix (trim_front wide s) s"
proof (induction wide s rule: trim_front.induct)
  case (1 wide s)
  show ?case
  proof (cases "front_space wide s = 0")
    case False
    from "1" [OF this] have "suffix (trim_front wide (drop (front_space wide s) s)) s"
      using suffix_drop suffix_order.trans by blast
    with False show ?thesis by (simp add: trim_front.simps [of wide s])
  qed (simp add: trim_front_id)
qed


text \<open>A string that starts and ends with ASCII characters other than spaces is left alone.\<close>

lemma front_space_ascii:
  assumes "byte c < 128" "\<not> ascii_space c" "\<forall>w \<in> set wide. w \<noteq> [] \<and> 128 \<le> byte (hd w)"
  shows "front_space wide (c # cs) = 0"
proof -
  have "\<not> prefix w (c # cs)" if "w \<in> set wide" for w
    using assms(1,3) that by (cases w) force+
  then have "find (\<lambda>w. prefix w (c # cs)) wide = None" by (simp add: find_None_iff)
  with assms(2) show ?thesis by (simp add: front_space_def)
qed

lemma wide_spaces_high:
  "\<forall>w \<in> set wide_spaces. w \<noteq> [] \<and> 128 \<le> byte (hd w)"
  "\<forall>w \<in> set (map rev wide_spaces). w \<noteq> [] \<and> 128 \<le> byte (hd w)"
  by (simp_all add: wide_spaces_def byte_def)

definition no_space_ends :: "string \<Rightarrow> bool" where
  "no_space_ends s \<longleftrightarrow> s = [] \<or> (byte (hd s) < 128 \<and> \<not> ascii_space (hd s) \<and>
     byte (last s) < 128 \<and> \<not> ascii_space (last s))"

lemma TrimSpace_id: "no_space_ends s \<Longrightarrow> TrimSpace s = s"
proof (cases "s = []")
  case False
  assume ends: "no_space_ends s"
  from False obtain c cs where s: "s = c # cs" by (cases s) auto
  from False obtain d ds where r: "rev s = d # ds" by (cases "rev s") auto
  then have d: "last s = d" by (metis hd_rev list.sel(1))
  have "trim_front wide_spaces s = s"
    using ends False s by (intro trim_front_id) (simp add: no_space_ends_def front_space_ascii wide_spaces_high)
  moreover have "trim_front (map rev wide_spaces) (rev s) = rev s"
    unfolding r using ends False d
    by (intro trim_front_id front_space_ascii [OF _ _ wide_spaces_high(2)])
      (simp_all add: no_space_ends_def)
  ultimately show ?thesis by (simp add: TrimSpace_def)
qed simp



text \<open>Spaces around such a string are removed.\<close>

lemma trim_front_spaces:
  "list_all ascii_space ws \<Longrightarrow> trim_front wide (ws @ s) = trim_front wide s"
proof (induction ws)
  case (Cons c ws)
  then show ?case by (simp add: trim_front.simps [of wide "c # ws @ s"] front_space_def)
qed simp

lemma TrimSpace_spaces:
  assumes "list_all ascii_space ws" "list_all ascii_space ws'" "no_space_ends s" "s \<noteq> []"
  shows "TrimSpace (ws @ s @ ws') = s"
proof -
  from assms(4) obtain c cs where s: "s = c # cs" by (cases s) auto
  have "front_space wide_spaces (s @ ws') = 0"
    using assms(3) s by (simp add: no_space_ends_def front_space_ascii wide_spaces_high)
  then have "trim_front wide_spaces (ws @ s @ ws') = s @ ws'"
    using trim_front_spaces [OF assms(1), of wide_spaces "s @ ws'"] by (simp add: trim_front_id)
  moreover have "list_all ascii_space (rev ws')" using assms(2) by simp
  ultimately have "TrimSpace (ws @ s @ ws') = rev (trim_front (map rev wide_spaces) (rev s))"
    by (simp add: TrimSpace_def trim_front_spaces)
  moreover have "trim_front wide_spaces s = s"
    using assms(3) s by (intro trim_front_id) (simp add: no_space_ends_def front_space_ascii wide_spaces_high)
  ultimately show ?thesis using TrimSpace_id [OF assms(3)] by (simp add: TrimSpace_def)
qed

end
