(* ===== verification/GoJson.thy ===== *)
theory GoJson
  imports GoNum GoStrings
begin

text \<open>
  JSON documents as \<open>encoding/json\<close> sees them after tokenising: a number literal without fraction
  and exponent is the integer, any other the exact rational it denotes, strings are decoded to bytes, objects keep their members in order with
  duplicates. \<open>any\<close> is what \<open>encoding/json\<close> stores in an interface value: numbers become
  \<open>float64\<close>, an object becomes a map (here an association list with distinct keys, a later
  duplicate replacing an earlier one).
\<close>

datatype json = JNull | JBool bool | JInt int | JNumber rat | JString string | JArray "json list"
  | JObject "(string \<times> json) list"

datatype any = AnyNil | AnyBool bool | AnyNumber f64 | AnyString string | AnySlice "any list"
  | AnyMap "(string \<times> any) list"

text \<open>A Go map as an association list: insertion replaces, an absent key is appended.\<close>

fun map_put :: "'k \<Rightarrow> 'v \<Rightarrow> ('k \<times> 'v) list \<Rightarrow> ('k \<times> 'v) list" where
  "map_put k v [] = [(k, v)]"
| "map_put k v ((k', v') # m) = (if k' = k then (k, v) # m else (k', v') # map_put k v m)"

lemma map_of_map_put [simp]: "map_of (map_put k v m) = (map_of m)(k \<mapsto> v)"
  by (induction k v m rule: map_put.induct) (auto simp: fun_eq_iff)

lemma set_keys_map_put: "fst ` set (map_put k v m) = insert k (fst ` set m)"
  by (induction k v m rule: map_put.induct) auto

lemma distinct_map_put: "distinct (map fst m) \<Longrightarrow> distinct (map fst (map_put k v m))"
proof (induction k v m rule: map_put.induct)
  case (2 k v k' v' m)
  then show ?case using set_keys_map_put [of k v m] by auto
qed simp

text \<open>
  A number literal is out of range for \<open>float64\<close> when it rounds to an infinity; decoding then
  fails (the result \<open>None\<close>).
\<close>

definition json_float :: "rat \<Rightarrow> f64 option" where
  "json_float q = (case round_f64 q of Fin r \<Rightarrow> Some (Fin r) | _ \<Rightarrow> None)"

fun any_of_json :: "json \<Rightarrow> any option"
and any_of_list :: "json list \<Rightarrow> any list option"
and any_of_members :: "(string \<times> json) list \<Rightarrow> (string \<times> any) list \<Rightarrow> (string \<times> any) list option"
where
  "any_of_json JNull = Some AnyNil"
| "any_of_json (JBool b) = Some (AnyBool b)"
| "any_of_json (JInt n) = map_option AnyNumber (json_float (of_int n))"
| "any_of_json (JNumber q) = map_option AnyNumber (json_float q)"
| "any_of_json (JString s) = Some (AnyString s)"
| "any_of_json (JArray js) = map_option AnySlice (any_of_list js)"
| "any_of_json (JObject ms) = map_option AnyMap (any_of_members ms [])"
| "any_of_list [] = Some []"
| "any_of_list (j # js) =
     (case any_of_json j of None \<Rightarrow> None | Some a \<Rightarrow> map_option ((#) a) (any_of_list js))"
| "any_of_members [] acc = Some acc"
| "any_of_members ((k, j) # ms) acc =
     (case any_of_json j of None \<Rightarrow> None | Some a \<Rightarrow> any_of_members ms (map_put k a acc))"


section \<open>Decoding into a value\<close>

text \<open>
  \<open>Decoder.Decode\<close> with \<open>DisallowUnknownFields\<close>: a target of type \<open>'a\<close> has fields, each with its
  name and the way its value is decoded into the target. A member matches a field whose name is
  equal up to letter case; \<open>foldName\<close> also maps U+017F to S and the Kelvin sign to K. A member
  that matches no field, or a value of the wrong type, makes the whole decoding fail
  (\<open>None\<close>; the text of the error is not modelled). \<open>null\<close> leaves the target as it is.
\<close>

fun fold_name :: "string \<Rightarrow> string" where
  "fold_name [] = []"
| "fold_name (c # cs) =
     (if c = CHR 0xC5 \<and> take 1 cs = [CHR 0xBF] then CHR ''S'' # fold_name (drop 1 cs)
      else if c = CHR 0xE2 \<and> take 2 cs = [CHR 0x84, CHR 0xAA] then CHR ''K'' # fold_name (drop 2 cs)
      else (if 97 \<le> byte c \<and> byte c \<le> 122
            then (case c of Char b0 b1 b2 b3 b4 _ b6 b7 \<Rightarrow> Char b0 b1 b2 b3 b4 False b6 b7) else c)
        # fold_name cs)"

type_synonym 'a decoder = "json \<Rightarrow> 'a \<Rightarrow> 'a option"

definition field_for :: "(string \<times> 'a decoder) list \<Rightarrow> string \<Rightarrow> 'a decoder option" where
  "field_for fields key =
     map_option snd (find (\<lambda>(name, _). fold_name name = fold_name key) fields)"

fun decode_members :: "(string \<times> 'a decoder) list \<Rightarrow> (string \<times> json) list \<Rightarrow> 'a \<Rightarrow> 'a option" where
  "decode_members fields [] x = Some x"
| "decode_members fields ((key, j) # ms) x =
     (case field_for fields key of
        None \<Rightarrow> None
      | Some dec \<Rightarrow>
          (case dec j x of None \<Rightarrow> None | Some y \<Rightarrow> decode_members fields ms y))"

definition decode_struct :: "(string \<times> 'a decoder) list \<Rightarrow> 'a decoder" where
  "decode_struct fields j x = (case j of
     JNull \<Rightarrow> Some x | JObject ms \<Rightarrow> decode_members fields ms x | _ \<Rightarrow> None)"

definition decode_string :: "(string \<Rightarrow> 'a \<Rightarrow> 'a) \<Rightarrow> 'a decoder" where
  "decode_string put j x = (case j of JNull \<Rightarrow> Some x | JString s \<Rightarrow> Some (put s x) | _ \<Rightarrow> None)"

definition decode_float :: "(f64 \<Rightarrow> 'a \<Rightarrow> 'a) \<Rightarrow> 'a decoder" where
  "decode_float put j x = (case j of
     JNull \<Rightarrow> Some x
   | JInt n \<Rightarrow> map_option (\<lambda>f. put f x) (json_float (of_int n))
   | JNumber q \<Rightarrow> map_option (\<lambda>f. put f x) (json_float q)
   | _ \<Rightarrow> None)"

text \<open>An \<open>int\<close> takes integer literals in its range only, a \<open>bool\<close> takes \<open>true\<close> and \<open>false\<close>.\<close>

definition decode_int :: "(int \<Rightarrow> 'a \<Rightarrow> 'a) \<Rightarrow> 'a decoder" where
  "decode_int put j x = (case j of
     JNull \<Rightarrow> Some x | JInt n \<Rightarrow> if in64 n then Some (put n x) else None | _ \<Rightarrow> None)"

definition decode_bool :: "(bool \<Rightarrow> 'a \<Rightarrow> 'a) \<Rightarrow> 'a decoder" where
  "decode_bool put j x = (case j of JNull \<Rightarrow> Some x | JBool b \<Rightarrow> Some (put b x) | _ \<Rightarrow> None)"

text \<open>
  A \<open>map[string]string\<close>: members are added to the map the field holds, \<open>null\<close> as a member is the
  empty string, \<open>null\<close> for the map is the nil map (read as the empty one).
\<close>

fun decode_string_members :: "(string \<times> json) list \<Rightarrow> (string \<rightharpoonup> string) \<Rightarrow> (string \<rightharpoonup> string) option" where
  "decode_string_members [] m = Some m"
| "decode_string_members ((k, j) # ms) m = (case j of
     JNull \<Rightarrow> decode_string_members ms (m(k \<mapsto> ''''))
   | JString s \<Rightarrow> decode_string_members ms (m(k \<mapsto> s))
   | _ \<Rightarrow> None)"

definition decode_string_map ::
  "('a \<Rightarrow> (string \<rightharpoonup> string)) \<Rightarrow> ((string \<rightharpoonup> string) \<Rightarrow> 'a \<Rightarrow> 'a) \<Rightarrow> 'a decoder" where
  "decode_string_map get put j x = (case j of
     JNull \<Rightarrow> Some (put Map.empty x)
   | JObject ms \<Rightarrow> map_option (\<lambda>m. put m x) (decode_string_members ms (get x))
   | _ \<Rightarrow> None)"

text \<open>A \<open>map[string]any\<close>; \<open>None\<close> is the nil map.\<close>

definition decode_any_map :: "('a \<Rightarrow> (string \<times> any) list option)
    \<Rightarrow> ((string \<times> any) list option \<Rightarrow> 'a \<Rightarrow> 'a) \<Rightarrow> 'a decoder" where
  "decode_any_map get put j x = (case j of
     JNull \<Rightarrow> Some (put None x)
   | JObject ms \<Rightarrow> map_option (\<lambda>m. put (Some m) x)
       (any_of_members ms (case get x of None \<Rightarrow> [] | Some m \<Rightarrow> m))
   | _ \<Rightarrow> None)"

text \<open>
  \<open>json.Unmarshal\<close> into a struct ignores the members that match no field. A slice is decoded
  element by element, each into the element already there, if any, else into the zero value;
  \<open>null\<close> makes it nil.
\<close>

fun unmarshal_members :: "(string \<times> 'a decoder) list \<Rightarrow> (string \<times> json) list \<Rightarrow> 'a \<Rightarrow> 'a option" where
  "unmarshal_members fields [] x = Some x"
| "unmarshal_members fields ((key, j) # ms) x =
     (case field_for fields key of
        None \<Rightarrow> unmarshal_members fields ms x
      | Some dec \<Rightarrow>
          (case dec j x of None \<Rightarrow> None | Some y \<Rightarrow> unmarshal_members fields ms y))"

definition unmarshal_struct :: "(string \<times> 'a decoder) list \<Rightarrow> 'a decoder" where
  "unmarshal_struct fields j x = (case j of
     JNull \<Rightarrow> Some x | JObject ms \<Rightarrow> unmarshal_members fields ms x | _ \<Rightarrow> None)"

fun unmarshal_elements :: "'b decoder \<Rightarrow> 'b \<Rightarrow> json list \<Rightarrow> 'b list \<Rightarrow> 'b list option" where
  "unmarshal_elements dec zero [] old = Some []"
| "unmarshal_elements dec zero (j # js) old =
     (case dec j (case old of [] \<Rightarrow> zero | y # _ \<Rightarrow> y) of
        None \<Rightarrow> None
      | Some y \<Rightarrow> map_option ((#) y) (unmarshal_elements dec zero js (drop 1 old)))"

definition unmarshal_slice ::
  "('a \<Rightarrow> 'b list) \<Rightarrow> ('b list \<Rightarrow> 'a \<Rightarrow> 'a) \<Rightarrow> 'b \<Rightarrow> 'b decoder \<Rightarrow> 'a decoder" where
  "unmarshal_slice get put zero dec j x = (case j of
     JNull \<Rightarrow> Some (put [] x)
   | JArray js \<Rightarrow> map_option (\<lambda>ys. put ys x) (unmarshal_elements dec zero js (get x))
   | _ \<Rightarrow> None)"

text \<open>A field read through the struct that embeds it.\<close>

definition decode_in :: "('a \<Rightarrow> 'b) \<Rightarrow> ('b \<Rightarrow> 'a \<Rightarrow> 'a) \<Rightarrow> 'b decoder \<Rightarrow> 'a decoder" where
  "decode_in get put dec j x = map_option (\<lambda>y. put y x) (dec j (get x))"

text \<open>A decoded object has only members that match fields.\<close>

definition knows :: "(string \<times> 'a decoder) list \<Rightarrow> string \<Rightarrow> bool" where
  "knows fields key \<longleftrightarrow> fold_name key \<in> fold_name ` fst ` set fields"

lemma field_for_knows: "field_for fields key \<noteq> None \<longleftrightarrow> knows fields key"
proof -
  have "field_for fields key = None \<longleftrightarrow> (\<forall>p \<in> set fields. fold_name (fst p) \<noteq> fold_name key)"
    by (auto simp: field_for_def find_None_iff split: prod.splits)
  then show ?thesis by (simp add: knows_def image_image image_iff) metis
qed

lemma decode_members_known:
  "decode_members fields ms x = Some y \<Longrightarrow> (k, j) \<in> set ms \<Longrightarrow> knows fields k"
  by (induction fields ms x rule: decode_members.induct)
    (auto simp: field_for_knows [symmetric] split: option.splits)

lemma decode_struct_object:
  assumes "decode_struct fields j x = Some y" "y \<noteq> x"
  obtains k v ms where "j = JObject ((k, v) # ms)" "knows fields k"
    "\<forall>(k', v') \<in> set ((k, v) # ms). knows fields k'"
proof -
  from assms obtain ms where j: "j = JObject ms" and ms: "decode_members fields ms x = Some y"
    by (auto simp: decode_struct_def split: json.splits)
  from ms assms(2) obtain k v ms' where "ms = (k, v) # ms'" by (cases ms) auto
  with j decode_members_known [OF ms] that show thesis by auto
qed

end
