(* ===== verification/Domain.thy ===== *)
theory Domain
  imports GoTime GoStrings GoJson
begin

text \<open>
  The package \<open>internal/domain\<close>: errors, transactions, gateway runtime state and statistics,
  and the routing configuration with its defaults and its validation.
\<close>

section \<open>Errors\<close>

text \<open>
  \<open>domain/errors.go\<close> declares the sentinels. An error value is a sentinel, a sentinel wrapped
  by \<open>fmt.Errorf("%w: ...", sentinel, args)\<close>, or another error; a formatted message is kept as
  its format and its arguments.
\<close>

datatype sentinel = ErrConflict | ErrGatewayMismatch | ErrInvalidCallback | ErrInvalidStatus
  | ErrNoAvailableGateway | ErrNotFound | ErrUnsupportedGateway

datatype go_error = Sentinel sentinel | Wrapf sentinel string "string list"
  | Errorf string "string list"

text \<open>\<open>errors.Is(err, sentinel)\<close>.\<close>

fun errors_Is :: "go_error \<Rightarrow> sentinel \<Rightarrow> bool" where
  "errors_Is (Sentinel s) t = (s = t)"
| "errors_Is (Wrapf s _ _) t = (s = t)"
| "errors_Is (Errorf _ _) t = False"

section \<open>Transactions\<close>

text \<open>
  \<open>type TransactionStatus string\<close>: the three constants, and any other string (the zero value
  is the empty one).
\<close>

datatype TransactionStatus = TransactionStatusPending | TransactionStatusSuccess
  | TransactionStatusFailure | TransactionStatusOther string

record Transaction =
  tx_ID :: string
  tx_OrderID :: string
  tx_AttemptNo :: int
  tx_Amount :: f64
  tx_PaymentInstrument :: "(string \<times> any) list option"
  tx_Gateway :: string
  tx_GatewayReferenceID :: string
  tx_Status :: TransactionStatus
  tx_FailureReason :: string
  tx_CreatedAt :: time
  tx_UpdatedAt :: time
  tx_CompletedAt :: "time option"

definition IsFinal :: "TransactionStatus \<Rightarrow> bool" where
  "IsFinal s \<longleftrightarrow> s = TransactionStatusSuccess \<or> s = TransactionStatusFailure"

definition ParseTransactionStatus :: "string \<Rightarrow> go_error + TransactionStatus" where
  "ParseTransactionStatus value =
     (let status = ToLower (TrimSpace value) in
      if status = ''pending'' then Inr TransactionStatusPending
      else if status = ''success'' then Inr TransactionStatusSuccess
      else if status = ''failure'' then Inr TransactionStatusFailure
      else Inl (Wrapf ErrInvalidStatus ''%w: %s'' [value]))"

lemma IsFinal_simps [simp]:
  "IsFinal TransactionStatusSuccess" "IsFinal TransactionStatusFailure"
  "\<not> IsFinal TransactionStatusPending" "\<not> IsFinal (TransactionStatusOther s)"
  by (simp_all add: IsFinal_def)

lemma IsFinal_cases:
  assumes "IsFinal s"
  obtains "s = TransactionStatusSuccess" | "s = TransactionStatusFailure"
  using assms by (auto simp: IsFinal_def)

section \<open>Gateways\<close>

datatype GatewayState = GatewayStateHealthy | GatewayStateUnhealthy | GatewayStateHalfOpen
  | GatewayStateOther string

record HalfOpenProbe =
  hp_TransactionID :: string
  hp_ExpiresAtUnixMilli :: int

record GatewayRuntimeState =
  rt_Gateway :: string
  rt_State :: GatewayState
  rt_UnhealthyUntil :: time
  rt_HalfOpenInFlight :: int
  rt_HalfOpenProbes :: "HalfOpenProbe list"
  rt_UpdatedAt :: time

record GatewayEvent =
  ge_Gateway :: string
  ge_TransactionID :: string
  ge_Status :: TransactionStatus
  ge_CreatedAt :: time

record GatewayStats =
  gs_Gateway :: string
  gs_Successes :: int
  gs_Failures :: int
  gs_Total :: int
  gs_SuccessRate :: f64

record GatewayInitiation =
  gi_ReferenceID :: string

record GatewayCallback =
  gcb_TransactionID :: string
  gcb_OrderID :: string
  gcb_Gateway :: string
  gcb_Status :: TransactionStatus
  gcb_Reason :: string

record OrderGatewayAttemptSummary =
  og_OrderID :: string
  og_Gateway :: string
  og_Failures :: int
  og_Successes :: int
  og_Blacklisted :: bool
  og_UpdatedAt :: time

section \<open>Configuration\<close>

record RoutingConfig =
  rc_HealthWindowSeconds :: int
  rc_UnhealthyCooldownSeconds :: int
  rc_MinCallbackCount :: int
  rc_SuccessRateThreshold :: f64
  rc_HalfOpenProbeCount :: int
  rc_HalfOpenProbeTimeoutSeconds :: int
  rc_OrderGatewayFailureThreshold :: int

record GatewayConfig =
  gc_Name :: string
  gc_Enabled :: bool
  gc_Weight :: int

record AppConfig =
  ac_Routing :: RoutingConfig
  ac_Gateways :: "GatewayConfig list"

definition DefaultRoutingConfig :: RoutingConfig where
  "DefaultRoutingConfig = \<lparr>
     rc_HealthWindowSeconds = 15 * 60,
     rc_UnhealthyCooldownSeconds = 30 * 60,
     rc_MinCallbackCount = 10,
     rc_SuccessRateThreshold = round_f64 (90 / 100),
     rc_HalfOpenProbeCount = 1,
     rc_HalfOpenProbeTimeoutSeconds = 60,
     rc_OrderGatewayFailureThreshold = 2\<rparr>"

text \<open>The two steps of \<open>WithDefaults\<close> on the threshold: the default, then the percentage.\<close>

definition threshold_WithDefaults :: "f64 \<Rightarrow> f64" where
  "threshold_WithDefaults t =
     (let t1 = (if t \<le> Fin 0 then rc_SuccessRateThreshold DefaultRoutingConfig else t) in
      if Fin 1 < t1 then f64_div t1 (Fin 100) else t1)"

definition positive_or :: "int \<Rightarrow> int \<Rightarrow> int" where
  "positive_or d n = (if n \<le> 0 then d else n)"

definition WithDefaults :: "AppConfig \<Rightarrow> AppConfig" where
  "WithDefaults c = (let defaults = DefaultRoutingConfig; r = ac_Routing c in
     c\<lparr>ac_Routing := \<lparr>
       rc_HealthWindowSeconds =
         positive_or (rc_HealthWindowSeconds defaults) (rc_HealthWindowSeconds r),
       rc_UnhealthyCooldownSeconds =
         positive_or (rc_UnhealthyCooldownSeconds defaults) (rc_UnhealthyCooldownSeconds r),
       rc_MinCallbackCount =
         positive_or (rc_MinCallbackCount defaults) (rc_MinCallbackCount r),
       rc_SuccessRateThreshold = threshold_WithDefaults (rc_SuccessRateThreshold r),
       rc_HalfOpenProbeCount =
         positive_or (rc_HalfOpenProbeCount defaults) (rc_HalfOpenProbeCount r),
       rc_HalfOpenProbeTimeoutSeconds =
         positive_or (rc_HalfOpenProbeTimeoutSeconds defaults) (rc_HalfOpenProbeTimeoutSeconds r),
       rc_OrderGatewayFailureThreshold =
         positive_or (rc_OrderGatewayFailureThreshold defaults)
           (rc_OrderGatewayFailureThreshold r)\<rparr>\<rparr>)"

text \<open>
  The loop of \<open>Validate\<close> over the gateways: \<open>names\<close> are the names seen, the result is the number
  of enabled gateways or the first error.
\<close>

fun validate_gateways :: "string set \<Rightarrow> int \<Rightarrow> GatewayConfig list \<Rightarrow> go_error + int" where
  "validate_gateways names n [] = Inr n"
| "validate_gateways names n (g # gs) =
     (if gc_Name g = '''' then Inl (Errorf ''gateway name is required'' [])
      else if gc_Name g \<in> names then Inl (Errorf ''duplicate gateway %q'' [gc_Name g])
      else if gc_Enabled g \<and> gc_Weight g \<le> 0
        then Inl (Errorf ''enabled gateway %q must have positive weight'' [gc_Name g])
      else validate_gateways (insert (gc_Name g) names) (if gc_Enabled g then n + 1 else n) gs)"

text \<open>\<open>None\<close> is the nil error.\<close>

definition Validate :: "AppConfig \<Rightarrow> go_error option" where
  "Validate c = (
     if ac_Gateways c = [] then Some (Errorf ''at least one gateway must be configured'' [])
     else case validate_gateways {} 0 (ac_Gateways c) of
       Inl e \<Rightarrow> Some e
     | Inr enabledCount \<Rightarrow>
         if enabledCount = 0 then Some (Errorf ''at least one gateway must be enabled'' [])
         else if rc_SuccessRateThreshold (ac_Routing c) \<le> Fin 0 \<or>
                 Fin 1 < rc_SuccessRateThreshold (ac_Routing c)
           then Some (Errorf ''success_rate_threshold must be in the range (0, 1]'' [])
         else if rc_OrderGatewayFailureThreshold (ac_Routing c) \<le> 0
           then Some (Errorf ''order_gateway_failure_threshold must be greater than zero'' [])
         else None)"

section \<open>What the configuration guarantees\<close>

definition valid_gateways :: "GatewayConfig list \<Rightarrow> bool" where
  "valid_gateways gs \<longleftrightarrow> distinct (map gc_Name gs) \<and> (\<exists>g \<in> set gs. gc_Enabled g) \<and>
     (\<forall>g \<in> set gs. gc_Name g \<noteq> '''' \<and> (gc_Enabled g \<longrightarrow> 0 < gc_Weight g))"

lemma validate_gateways_Inr:
  "validate_gateways names n gs = Inr m \<longleftrightarrow>
     (\<forall>g \<in> set gs. gc_Name g \<noteq> '''' \<and> gc_Name g \<notin> names \<and> (gc_Enabled g \<longrightarrow> 0 < gc_Weight g)) \<and>
     distinct (map gc_Name gs) \<and> m = n + int (length (filter gc_Enabled gs))"
  by (induction names n gs rule: validate_gateways.induct) (auto simp: image_iff)

lemma filter_length_0: "length (filter P xs) = 0 \<longleftrightarrow> \<not> (\<exists>x \<in> set xs. P x)"
  by (simp add: filter_empty_conv)

lemma Validate_None:
  "Validate c = None \<longleftrightarrow> valid_gateways (ac_Gateways c) \<and>
     \<not> rc_SuccessRateThreshold (ac_Routing c) \<le> Fin 0 \<and>
     \<not> Fin 1 < rc_SuccessRateThreshold (ac_Routing c) \<and>
     0 < rc_OrderGatewayFailureThreshold (ac_Routing c)"
proof (cases "validate_gateways {} 0 (ac_Gateways c)")
  case (Inl e)
  then have "\<nexists>m. validate_gateways {} 0 (ac_Gateways c) = Inr m" by simp
  then have "\<not> valid_gateways (ac_Gateways c)"
    by (auto simp: validate_gateways_Inr valid_gateways_def)
  with Inl show ?thesis by (simp add: Validate_def)
next
  case (Inr m)
  then have m: "m = int (length (filter gc_Enabled (ac_Gateways c)))"
    and ok: "valid_gateways (ac_Gateways c) \<longleftrightarrow> (\<exists>g \<in> set (ac_Gateways c). gc_Enabled g)"
    by (auto simp: validate_gateways_Inr valid_gateways_def)
  have "m = 0 \<longleftrightarrow> \<not> valid_gateways (ac_Gateways c)"
    unfolding ok m of_nat_eq_0_iff by (rule filter_length_0)
  with Inr ok show ?thesis by (auto simp: Validate_def not_le)
qed

lemma positive_or_pos: "0 < d \<Longrightarrow> 0 < positive_or d n"
  by (simp add: positive_or_def)

lemma positive_or_id [simp]: "0 < n \<Longrightarrow> positive_or d n = n"
  by (simp add: positive_or_def)

lemma WithDefaults_Gateways [simp]: "ac_Gateways (WithDefaults c) = ac_Gateways c"
  by (simp add: WithDefaults_def Let_def)

lemma WithDefaults_pos:
  "0 < rc_HealthWindowSeconds (ac_Routing (WithDefaults c))"
  "0 < rc_UnhealthyCooldownSeconds (ac_Routing (WithDefaults c))"
  "0 < rc_MinCallbackCount (ac_Routing (WithDefaults c))"
  "0 < rc_HalfOpenProbeCount (ac_Routing (WithDefaults c))"
  "0 < rc_HalfOpenProbeTimeoutSeconds (ac_Routing (WithDefaults c))"
  "0 < rc_OrderGatewayFailureThreshold (ac_Routing (WithDefaults c))"
  by (simp_all add: WithDefaults_def Let_def DefaultRoutingConfig_def positive_or_pos)

lemma threshold_WithDefaults_id:
  "\<not> t \<le> Fin 0 \<Longrightarrow> \<not> Fin 1 < t \<Longrightarrow> threshold_WithDefaults t = t"
  by (simp add: threshold_WithDefaults_def)

lemma WithDefaults_id:
  assumes "0 < rc_HealthWindowSeconds (ac_Routing c)" "0 < rc_UnhealthyCooldownSeconds (ac_Routing c)"
    "0 < rc_MinCallbackCount (ac_Routing c)" "0 < rc_HalfOpenProbeCount (ac_Routing c)"
    "0 < rc_HalfOpenProbeTimeoutSeconds (ac_Routing c)"
    "0 < rc_OrderGatewayFailureThreshold (ac_Routing c)"
    "\<not> rc_SuccessRateThreshold (ac_Routing c) \<le> Fin 0"
    "\<not> Fin 1 < rc_SuccessRateThreshold (ac_Routing c)"
  shows "WithDefaults c = c"
  using assms by (simp add: WithDefaults_def Let_def threshold_WithDefaults_id)

lemma WithDefaults_validated:
  "Validate (WithDefaults c) = None \<Longrightarrow> WithDefaults (WithDefaults c) = WithDefaults c"
  by (rule WithDefaults_id) (simp_all add: WithDefaults_pos Validate_None)


text \<open>The default threshold is the double next to 0.9.\<close>

lemma default_threshold: "round_f64 (9 / 10) = Fin (8106479329266893 / 9007199254740992)"
proof -
  have "rnd (9 / 10) = 8106479329266893 / 9007199254740992" by code_simp
  then show ?thesis using round_f64_Fin [of "9 / 10"] by simp
qed

text \<open>The word of a status, and lower case on ASCII strings.\<close>

fun status_word :: "TransactionStatus \<Rightarrow> string" where
  "status_word TransactionStatusPending = ''pending''"
| "status_word TransactionStatusSuccess = ''success''"
| "status_word TransactionStatusFailure = ''failure''"
| "status_word (TransactionStatusOther s) = s"

lemma ToLower_ascii: "list_all (\<lambda>c. byte c < 128) s \<Longrightarrow> ToLower s = map lower_ascii s"
  by (induction s) (auto simp: byte_def)

section \<open>Properties\<close>

text \<open>
  Reading a status accepts each of the three known words in any mixture of upper and lower
  case ASCII letters and with any ASCII white space around it, and yields that status.
\<close>
theorem ParseTransactionStatus_word:
  assumes "list_all ascii_space ws" "list_all ascii_space ws'" "list_all (\<lambda>c. byte c < 128) w"
    and "map lower_ascii w = status_word st" "st \<in> {TransactionStatusPending, TransactionStatusSuccess,
      TransactionStatusFailure}"
  shows "ParseTransactionStatus (ws @ w @ ws') = Inr st"
proof -
  have w: "w \<noteq> []" using assms(4,5) by auto
  have ends: "\<not> ascii_space c" if "lower_ascii c = d" "\<not> ascii_space d" for c d
    using that by (auto simp: lower_ascii_def ascii_space_def byte_def)
  have hd: "lower_ascii (hd w) = hd (status_word st)" and last: "lower_ascii (last w) = last (status_word st)"
    using assms(4) w by (metis hd_map, metis last_map)
  have "\<not> ascii_space (hd (status_word st))" "\<not> ascii_space (last (status_word st))"
    using assms(5) by (auto simp: ascii_space_def byte_def)
  with ends [OF hd] ends [OF last] have "no_space_ends w"
    using assms(3) w by (simp add: no_space_ends_def list_all_iff)
  from TrimSpace_spaces [OF assms(1,2) this w] have "TrimSpace (ws @ w @ ws') = w" .
  moreover have "ToLower w = status_word st" using ToLower_ascii [OF assms(3)] assms(4) by simp
  ultimately show ?thesis using assms(5) by (auto simp: ParseTransactionStatus_def)
qed

theorem ParseTransactionStatus_word_witness:
  "ParseTransactionStatus ([CHR '' ''] @ ''Success'' @ [CHR 0x0A]) = Inr TransactionStatusSuccess"
  by (rule ParseTransactionStatus_word)
    (simp_all add: ascii_space_def byte_def lower_ascii_def)

text \<open>
  A configuration that is accepted after the defaults are filled in is settled: filling them in
  again, as every service does on each read, changes nothing; its gateways have distinct non-empty
  names, one is enabled, the enabled ones have positive weights, and every setting is positive.
\<close>
theorem accepted_config_settled:
  assumes "Validate (WithDefaults c) = None"
  shows "WithDefaults (WithDefaults c) = WithDefaults c \<and>
    distinct (map gc_Name (ac_Gateways c)) \<and> (\<exists>g \<in> set (ac_Gateways c). gc_Enabled g) \<and>
    (\<forall>g \<in> set (ac_Gateways c). gc_Name g \<noteq> '''' \<and> (gc_Enabled g \<longrightarrow> 0 < gc_Weight g)) \<and>
    (let r = ac_Routing (WithDefaults c) in 0 < rc_HealthWindowSeconds r \<and>
       0 < rc_UnhealthyCooldownSeconds r \<and> 0 < rc_MinCallbackCount r \<and>
       0 < rc_HalfOpenProbeCount r \<and> 0 < rc_HalfOpenProbeTimeoutSeconds r \<and>
       0 < rc_OrderGatewayFailureThreshold r \<and>
       \<not> rc_SuccessRateThreshold r \<le> Fin 0 \<and> \<not> Fin 1 < rc_SuccessRateThreshold r)"
  using WithDefaults_validated [OF assms] assms
  by (simp add: Validate_None valid_gateways_def Let_def WithDefaults_pos)

theorem accepted_config_settled_witness:
  "let c = \<lparr>ac_Routing = \<lparr>rc_HealthWindowSeconds = 900, rc_UnhealthyCooldownSeconds = 1800,
      rc_MinCallbackCount = 10, rc_SuccessRateThreshold = Fin (1 / 2), rc_HalfOpenProbeCount = 1,
      rc_HalfOpenProbeTimeoutSeconds = 60, rc_OrderGatewayFailureThreshold = 2\<rparr>,
     ac_Gateways = [\<lparr>gc_Name = ''payu'', gc_Enabled = True, gc_Weight = 1\<rparr>]\<rparr> in
   WithDefaults (WithDefaults c) = WithDefaults c"
  unfolding Let_def
  by (rule conjunct1 [OF accepted_config_settled])
    (simp add: Validate_None valid_gateways_def WithDefaults_def positive_or_def threshold_WithDefaults_def)

text \<open>
  A success rate threshold written as a percentage above 1 and up to 100 is taken as that
  many hundredths, rounded to the nearest float64, and passes the validation.
\<close>
theorem percent_threshold:
  assumes "1 < q" "q \<le> 100"
  shows "threshold_WithDefaults (Fin q) = Fin (rnd (q / 100)) \<and> 0 < rnd (q / 100) \<and> rnd (q / 100) \<le> 1"
proof -
  have "rnd (1 / 128) \<le> rnd (q / 100)" "rnd (q / 100) \<le> rnd 1"
    using assms by (intro rnd_mono; simp)+
  moreover have "rnd (1 / 128) = 1 / 128" "rnd 1 = 1" by code_simp+
  ultimately have "0 < rnd (q / 100)" "rnd (q / 100) \<le> 1" by linarith+
  moreover have "round_f64 (q / 100) = Fin (rnd (q / 100))"
    using assms by (intro round_f64_Fin) simp_all
  ultimately show ?thesis using assms by (simp add: threshold_WithDefaults_def)
qed

theorem percent_threshold_witness:
  "threshold_WithDefaults (Fin 90) = Fin (rnd (90 / 100)) \<and> rnd (90 / 100) \<le> 1"
  using percent_threshold [of 90] by simp

text \<open>
  A threshold that is not a number passes the validation, and the defaults leave it alone; since
  every comparison with it is false, no success rate is ever below it.
\<close>
theorem nan_threshold_accepted:
  assumes "Validate (WithDefaults c) = None"
  shows "Validate (WithDefaults (c\<lparr>ac_Routing := (ac_Routing c)\<lparr>rc_SuccessRateThreshold := NaN\<rparr>\<rparr>)) = None \<and>
    \<not> rate < rc_SuccessRateThreshold (ac_Routing
      (WithDefaults (c\<lparr>ac_Routing := (ac_Routing c)\<lparr>rc_SuccessRateThreshold := NaN\<rparr>\<rparr>)))"
proof -
  let ?d = "c\<lparr>ac_Routing := (ac_Routing c)\<lparr>rc_SuccessRateThreshold := NaN\<rparr>\<rparr>"
  have "rc_SuccessRateThreshold (ac_Routing (WithDefaults ?d)) = NaN"
    by (simp add: WithDefaults_def threshold_WithDefaults_def)
  moreover have "valid_gateways (ac_Gateways (WithDefaults ?d))"
    using assms by (simp add: Validate_None)
  ultimately show ?thesis by (simp add: Validate_None WithDefaults_pos)
qed

theorem nan_threshold_accepted_witness:
  "let c = \<lparr>ac_Routing = DefaultRoutingConfig\<lparr>rc_SuccessRateThreshold := NaN\<rparr>,
     ac_Gateways = [\<lparr>gc_Name = ''payu'', gc_Enabled = True, gc_Weight = 1\<rparr>]\<rparr> in
   Validate (WithDefaults c) = None"
proof -
  let ?c = "\<lparr>ac_Routing = DefaultRoutingConfig\<lparr>rc_SuccessRateThreshold := Fin (1 / 2)\<rparr>,
     ac_Gateways = [\<lparr>gc_Name = ''payu'', gc_Enabled = True, gc_Weight = 1\<rparr>]\<rparr>"
  have "Validate (WithDefaults ?c) = None"
    by (simp add: Validate_None valid_gateways_def WithDefaults_def positive_or_def
      threshold_WithDefaults_def DefaultRoutingConfig_def)
  from nan_threshold_accepted [OF this] show ?thesis by (simp add: DefaultRoutingConfig_def)
qed

end
