(* ===== verification/Ports.thy ===== *)
theory Ports
  imports Domain
begin

text \<open>
  The package \<open>internal/ports\<close>. An interface value is a record of its methods, each a procedure
  on the state behind the implementation, so the services are written over any implementation
  as the Go code is. The locales state what the services rely on: the laws an implementation
  promises, over an abstraction of its state. The memory repositories interpret them.
\<close>

section \<open>The interfaces\<close>

record 't TransactionRepository =
  tr_NextAttempt :: "string \<Rightarrow> ('t, go_error, int) proc"
  tr_Save :: "Transaction \<Rightarrow> ('t, go_error, unit) proc"
  tr_GetByID :: "string \<Rightarrow> ('t, go_error, Transaction) proc"
  tr_Complete :: "string \<Rightarrow> TransactionStatus \<Rightarrow> string \<Rightarrow> time
    \<Rightarrow> ('t, go_error, Transaction \<times> bool) proc"

record 'h GatewayHealthRepository =
  hr_Ensure :: "string \<Rightarrow> time \<Rightarrow> ('h, go_error, unit) proc"
  hr_Get :: "string \<Rightarrow> ('h, go_error, GatewayRuntimeState) proc"
  hr_Save :: "GatewayRuntimeState \<Rightarrow> ('h, go_error, unit) proc"
  hr_PruneExpiredHalfOpenProbes :: "string \<Rightarrow> time \<Rightarrow> ('h, go_error, GatewayRuntimeState) proc"
  hr_TryAcquireHalfOpenProbe :: "string \<Rightarrow> string \<Rightarrow> int \<Rightarrow> time \<Rightarrow> time
    \<Rightarrow> ('h, go_error, GatewayRuntimeState \<times> bool) proc"
  hr_ReleaseHalfOpenProbe :: "string \<Rightarrow> string \<Rightarrow> time
    \<Rightarrow> ('h, go_error, GatewayRuntimeState \<times> bool) proc"
  hr_RecordEvent :: "GatewayEvent \<Rightarrow> duration \<Rightarrow> ('h, go_error, unit) proc"
  hr_StatsSince :: "string \<Rightarrow> time \<Rightarrow> time \<Rightarrow> duration \<Rightarrow> ('h, go_error, GatewayStats) proc"

text \<open>The result \<open>map[string]struct{}\<close> is a set of gateway names.\<close>

record 'b OrderGatewayBlacklistRepository =
  or_BlacklistedGateways :: "string \<Rightarrow> ('b, go_error, string set) proc"
  or_RecordOutcome :: "string \<Rightarrow> string \<Rightarrow> TransactionStatus \<Rightarrow> int \<Rightarrow> time
    \<Rightarrow> ('b, go_error, OrderGatewayAttemptSummary \<times> bool) proc"

text \<open>
  A gateway client and the registry of clients: \<open>Client(gateway)\<close> is \<open>(client, ok)\<close>. A client
  may fail; what it does at the payment provider is outside the program.
\<close>

type_synonym PaymentGatewayClient = "Transaction \<Rightarrow> go_error + GatewayInitiation"

type_synonym GatewayClientRegistry = "string \<Rightarrow> PaymentGatewayClient option"

text \<open>A callback decoder on a payload (\<open>None\<close>: not a JSON document).\<close>

type_synonym GatewayCallbackDecoder = "json option \<Rightarrow> go_error + GatewayCallback"

section \<open>What a half-open gateway's probes are\<close>

definition live_probe :: "time \<Rightarrow> HalfOpenProbe \<Rightarrow> bool" where
  "live_probe now p \<longleftrightarrow> hp_TransactionID p \<noteq> '''' \<and> UnixMilli now < hp_ExpiresAtUnixMilli p"

definition with_probes :: "HalfOpenProbe list \<Rightarrow> GatewayRuntimeState \<Rightarrow> GatewayRuntimeState" where
  "with_probes ps st = st\<lparr>rt_HalfOpenProbes := ps, rt_HalfOpenInFlight := int (length ps)\<rparr>"

definition live_probes :: "time \<Rightarrow> GatewayRuntimeState \<Rightarrow> HalfOpenProbe list" where
  "live_probes now st = filter (live_probe now) (rt_HalfOpenProbes st)"

definition initial_state :: "string \<Rightarrow> time \<Rightarrow> GatewayRuntimeState" where
  "initial_state g now = \<lparr>rt_Gateway = g, rt_State = GatewayStateHealthy,
     rt_UnhealthyUntil = zero_time, rt_HalfOpenInFlight = 0, rt_HalfOpenProbes = [],
     rt_UpdatedAt = now\<rparr>"

definition new_probe :: "string \<Rightarrow> time \<Rightarrow> HalfOpenProbe" where
  "new_probe tid expiresAt =
     \<lparr>hp_TransactionID = tid, hp_ExpiresAtUnixMilli = UnixMilli expiresAt\<rparr>"

text \<open>Equality of two states but for the time of the last update.\<close>

definition same_state :: "GatewayRuntimeState \<Rightarrow> GatewayRuntimeState \<Rightarrow> bool" where
  "same_state a b \<longleftrightarrow> a = b\<lparr>rt_UpdatedAt := rt_UpdatedAt a\<rparr>"

lemma with_probes_simps [simp]:
  "rt_Gateway (with_probes ps st) = rt_Gateway st"
  "rt_State (with_probes ps st) = rt_State st"
  "rt_UnhealthyUntil (with_probes ps st) = rt_UnhealthyUntil st"
  "rt_HalfOpenProbes (with_probes ps st) = ps"
  "rt_HalfOpenInFlight (with_probes ps st) = int (length ps)"
  "rt_UpdatedAt (with_probes ps st) = rt_UpdatedAt st"
  by (simp_all add: with_probes_def)

lemma same_stateD:
  assumes "same_state a b"
  shows "rt_Gateway a = rt_Gateway b" "rt_State a = rt_State b"
    "rt_UnhealthyUntil a = rt_UnhealthyUntil b" "rt_HalfOpenProbes a = rt_HalfOpenProbes b"
    "rt_HalfOpenInFlight a = rt_HalfOpenInFlight b"
  using assms by (cases a; cases b; simp add: same_state_def)+

lemma same_state_refl [simp]: "same_state a a"
  by (simp add: same_state_def)

section \<open>The contracts\<close>

locale gateway_health_repository =
  fixes R :: "'h GatewayHealthRepository"
    and states :: "'h \<Rightarrow> string \<rightharpoonup> GatewayRuntimeState"
  assumes Ensure_ok: "hr_Ensure R g now h = (Inr u, h') \<Longrightarrow>
      states h' = (if states h g = None then (states h)(g \<mapsto> initial_state g now) else states h)"
    and Get_ok: "hr_Get R g h = (Inr st, h') \<Longrightarrow> states h g = Some st \<and> states h' = states h"
    and Save_ok: "hr_Save R st h = (Inr u, h') \<Longrightarrow> states h' = (states h)(rt_Gateway st \<mapsto> st)"
    and Prune_ok: "hr_PruneExpiredHalfOpenProbes R g now h = (Inr st, h') \<Longrightarrow>
      \<exists>st0. states h g = Some st0 \<and> states h' = (states h)(g \<mapsto> st) \<and>
        same_state st (if rt_State st0 = GatewayStateHalfOpen
                       then with_probes (live_probes now st0) st0 else st0)"
    and TryAcquire_ok: "hr_TryAcquireHalfOpenProbe R g tid maxn expires now h = (Inr (st, ok), h') \<Longrightarrow>
      \<exists>st0. states h g = Some st0 \<and> states h' = (states h)(g \<mapsto> st) \<and>
        ok = (rt_State st0 = GatewayStateHalfOpen \<and> int (length (live_probes now st0)) < maxn) \<and>
        same_state st
          (if rt_State st0 \<noteq> GatewayStateHalfOpen then st0
           else if ok then with_probes (live_probes now st0 @ [new_probe tid expires]) st0
           else with_probes (live_probes now st0) st0)"
    and Release_ok: "hr_ReleaseHalfOpenProbe R g tid now h = (Inr (st, ok), h') \<Longrightarrow>
      \<exists>st0. states h g = Some st0 \<and> states h' = (states h)(g \<mapsto> st) \<and>
        ok = (rt_State st0 = GatewayStateHalfOpen \<and>
              (\<exists>p \<in> set (live_probes now st0). hp_TransactionID p = tid)) \<and>
        same_state st
          (if rt_State st0 \<noteq> GatewayStateHalfOpen then st0
           else with_probes (filter (\<lambda>p. hp_TransactionID p \<noteq> tid) (live_probes now st0)) st0)"
    and RecordEvent_ok: "hr_RecordEvent R ev keep h = (Inr u, h') \<Longrightarrow> states h' = states h"
    and StatsSince_ok: "hr_StatsSince R g since until b h = (Inr stats, h') \<Longrightarrow>
      states h' = states h \<and> gs_Gateway stats = g"

text \<open>
  The stronger contract of a repository in which an operation that reports an error has changed
  nothing, \<open>Ensure\<close>, \<open>Save\<close> and \<open>RecordEvent\<close> never fail, and the others fail only for a
  gateway that has no state.
\<close>

locale local_health_repository = gateway_health_repository R states
  for R :: "'h GatewayHealthRepository" and states +
  assumes Ensure_total: "fst (hr_Ensure R g now h) = Inr ()"
    and Save_total: "fst (hr_Save R st h) = Inr ()"
    and RecordEvent_total: "fst (hr_RecordEvent R ev keep h) = Inr ()"
    and StatsSince_total: "\<exists>stats. fst (hr_StatsSince R g since until b h) = Inr stats"
    and Get_total: "hr_Get R g h = (Inl er, h') \<Longrightarrow> states h g = None \<and> h' = h"
    and Prune_total:
      "hr_PruneExpiredHalfOpenProbes R g now h = (Inl er, h') \<Longrightarrow> states h g = None \<and> h' = h"
    and TryAcquire_total: "hr_TryAcquireHalfOpenProbe R g tid maxn expires now h = (Inl er, h') \<Longrightarrow>
      states h g = None \<and> h' = h"
    and Release_total: "hr_ReleaseHalfOpenProbe R g tid now h = (Inl er, h') \<Longrightarrow>
      states h g = None \<and> h' = h"

locale transaction_repository =
  fixes T :: "'t TransactionRepository"
    and txns :: "'t \<Rightarrow> string \<rightharpoonup> Transaction"
    and attempts :: "'t \<Rightarrow> string \<Rightarrow> int"
  assumes NextAttempt_ok: "tr_NextAttempt T o_id t = (Inr n, t') \<Longrightarrow>
      n = attempts t o_id + 1 \<and> attempts t' = (attempts t)(o_id := n) \<and> txns t' = txns t"
    and Save_ok: "tr_Save T x t = (Inr u, t') \<Longrightarrow>
      txns t (tx_ID x) = None \<and> txns t' = (txns t)(tx_ID x \<mapsto> x) \<and> attempts t' = attempts t"
    and GetByID_ok: "tr_GetByID T i t = (Inr x, t') \<Longrightarrow> txns t i = Some x \<and> t' = t"
    and Complete_changed: "tr_Complete T i st reason now t = (Inr (x, True), t') \<Longrightarrow>
      IsFinal st \<and> attempts t' = attempts t \<and> (\<exists>x0. txns t i = Some x0 \<and> \<not> IsFinal (tx_Status x0) \<and>
        x = x0\<lparr>tx_Status := st, tx_FailureReason := reason, tx_UpdatedAt := now,
               tx_CompletedAt := Some now\<rparr> \<and>
        txns t' = (txns t)(i \<mapsto> x))"
    and Complete_unchanged: "tr_Complete T i st reason now t = (Inr (x, False), t') \<Longrightarrow>
      IsFinal st \<and> txns t i = Some x \<and> tx_Status x = st \<and> t' = t"
    and error_unchanged:
      "tr_NextAttempt T o_id t = (Inl er, t') \<Longrightarrow> t' = t"
      "tr_Save T x t = (Inl er, t') \<Longrightarrow> t' = t"
      "tr_GetByID T i t = (Inl er, t') \<Longrightarrow> t' = t"
      "tr_Complete T i st reason now t = (Inl er, t') \<Longrightarrow> t' = t"

text \<open>
  The blacklist contract, over the numbers of outcomes recorded for an order at a gateway and
  the set of gateways blacklisted for an order.
\<close>

locale order_gateway_blacklist_repository =
  fixes B :: "'b OrderGatewayBlacklistRepository"
    and failures :: "'b \<Rightarrow> string \<Rightarrow> string \<Rightarrow> int"
    and successes :: "'b \<Rightarrow> string \<Rightarrow> string \<Rightarrow> int"
    and blacklisted :: "'b \<Rightarrow> string \<Rightarrow> string set"
  assumes BlacklistedGateways_ok: "or_BlacklistedGateways B o_id b = (Inr gs, b') \<Longrightarrow>
      gs = blacklisted b o_id \<and> b' = b"
    and RecordOutcome_ok:
      "or_RecordOutcome B o_id g st threshold now b = (Inr (summary, newly), b') \<Longrightarrow>
      IsFinal st \<and>
      successes b' = (successes b)(o_id := (successes b o_id)
        (g := successes b o_id g + (if st = TransactionStatusSuccess then 1 else 0))) \<and>
      failures b' = (failures b)(o_id := (failures b o_id)
        (g := failures b o_id g + (if st = TransactionStatusFailure then 1 else 0))) \<and>
      blacklisted b' = (blacklisted b)(o_id :=
        (if st = TransactionStatusSuccess then blacklisted b o_id - {g}
         else if successes b o_id g = 0 \<and> max 1 threshold \<le> failures b o_id g + 1
           then insert g (blacklisted b o_id) else blacklisted b o_id)) \<and>
      newly = (g \<in> blacklisted b' o_id \<and> g \<notin> blacklisted b o_id)"
    and error_unchanged:
      "or_BlacklistedGateways B o_id b = (Inl er, b') \<Longrightarrow> b' = b"
      "or_RecordOutcome B o_id g st threshold now b = (Inl er, b') \<Longrightarrow> b' = b"

end
