(* ===== verification/Environment.thy ===== *)
theory Environment
  imports Ports
begin

text \<open>
  What the services read from their surroundings, and \<open>internal/service/clock.go\<close>,
  \<open>internal/service/id.go\<close>. Every call of \<open>clock.Now()\<close>, \<open>configProvider.Current(ctx)\<close> and
  \<open>idGenerator.NewID(prefix)\<close> may give another answer, because time passes, the file watcher
  replaces the configuration and the identifiers are random. The environment holds the answers
  in the order they are asked for; a call consumes the next one.
\<close>

record Env =
  env_clock :: "nat \<Rightarrow> time"
  env_ticks :: nat
  env_config :: "nat \<Rightarrow> AppConfig"
  env_reads :: nat
  env_ids :: "nat \<Rightarrow> string \<Rightarrow> string"
  env_issued :: nat

definition Clock_Now :: "('z Env_scheme, 'e, time) proc" where
  "Clock_Now s = (Inr (env_clock s (env_ticks s)), s\<lparr>env_ticks := Suc (env_ticks s)\<rparr>)"

definition ConfigProvider_Current :: "('z Env_scheme, 'e, AppConfig) proc" where
  "ConfigProvider_Current s = (Inr (env_config s (env_reads s)), s\<lparr>env_reads := Suc (env_reads s)\<rparr>)"

definition IDGenerator_NewID :: "string \<Rightarrow> ('z Env_scheme, 'e, string) proc" where
  "IDGenerator_NewID pfx s =
     (Inr (env_ids s (env_issued s) pfx), s\<lparr>env_issued := Suc (env_issued s)\<rparr>)"

lemma andThen_Now [simp]:
  "andThen Clock_Now f s = f (env_clock s (env_ticks s)) (s\<lparr>env_ticks := Suc (env_ticks s)\<rparr>)"
  by (simp add: andThen_def Clock_Now_def)

lemma andThen_Current [simp]:
  "andThen ConfigProvider_Current f s =
     f (env_config s (env_reads s)) (s\<lparr>env_reads := Suc (env_reads s)\<rparr>)"
  by (simp add: andThen_def ConfigProvider_Current_def)

lemma andThen_NewID [simp]:
  "andThen (IDGenerator_NewID p) f s =
     f (env_ids s (env_issued s) p) (s\<lparr>env_issued := Suc (env_issued s)\<rparr>)"
  by (simp add: andThen_def IDGenerator_NewID_def)

section \<open>Identifiers\<close>

definition hex_digit :: "nat \<Rightarrow> char" where
  "hex_digit d = ''0123456789abcdef'' ! d"

fun hex_nat :: "nat \<Rightarrow> string" where
  "hex_nat n = (if n < 16 then [hex_digit n] else hex_nat (n div 16) @ [hex_digit (n mod 16)])"

fun dec_nat :: "nat \<Rightarrow> string" where
  "dec_nat n = (if n < 10 then [hex_digit n] else dec_nat (n div 10) @ [hex_digit (n mod 10)])"

declare hex_nat.simps [simp del] dec_nat.simps [simp del]

text \<open>The verbs \<open>%x\<close> and \<open>%d\<close> on a signed integer.\<close>

definition fmt_x :: "int \<Rightarrow> string" where
  "fmt_x n = (if n < 0 then ''-'' @ hex_nat (nat (- n)) else hex_nat (nat n))"

definition fmt_d :: "int \<Rightarrow> string" where
  "fmt_d n = (if n < 0 then ''-'' @ dec_nat (nat (- n)) else dec_nat (nat n))"

text \<open>\<open>hex.EncodeToString\<close>: two digits for every byte.\<close>

definition hex_bytes :: "nat list \<Rightarrow> string" where
  "hex_bytes bs = concat (map (\<lambda>b. [hex_digit (b div 16 mod 16), hex_digit (b mod 16)]) bs)"

definition sanitizePrefix :: "string \<Rightarrow> string" where
  "sanitizePrefix pfx = (let p = TrimSpace (ToLower pfx) in if p = '''' then ''id'' else p)"

text \<open>
  \<open>RandomIDGenerator.NewID\<close>, over what \<open>rand.Read\<close> gave (\<open>None\<close>: it failed) and the instant
  \<open>time.Now()\<close> returned; \<open>UnixNano\<close> is a 64-bit number.
\<close>

definition RandomIDGenerator_NewID :: "nat list option \<Rightarrow> time \<Rightarrow> string \<Rightarrow> string" where
  "RandomIDGenerator_NewID bytes now pfx =
     (case bytes of
        None \<Rightarrow> sanitizePrefix pfx @ ''_'' @ fmt_d (wrap64 now)
      | Some bs \<Rightarrow> sanitizePrefix pfx @ ''_'' @ fmt_x (wrap64 now) @ ''_'' @ hex_bytes bs)"


section \<open>Identifiers are unique\<close>

definition digit_value :: "char \<Rightarrow> nat" where
  "digit_value c = (if of_char c < (58 :: nat) then of_char c - 48 else of_char c - 87)"

definition hex_value :: "string \<Rightarrow> nat" where
  "hex_value s = foldl (\<lambda>n c. 16 * n + digit_value c) 0 s"

lemma less_16_cases: "d < 16 \<Longrightarrow> d \<in> {0, 1, 2, 3, 4, 5, 6, 7, 8, 9, 10, 11, 12, 13, 14, 15 :: nat}"
  unfolding insert_iff empty_iff by arith

lemma hex_digit_value [simp]: "d < 16 \<Longrightarrow> digit_value (hex_digit d) = d"
  by (drule less_16_cases) (auto simp: digit_value_def hex_digit_def)

lemma hex_digit_char: "d < 16 \<Longrightarrow> hex_digit d \<noteq> CHR ''_'' \<and> hex_digit d \<noteq> CHR ''-''"
  by (drule less_16_cases) (auto simp: hex_digit_def)

lemma hex_nat_value [simp]: "hex_value (hex_nat n) = n"
proof (induction n rule: hex_nat.induct)
  case (1 n)
  then show ?case by (simp add: hex_nat.simps [of n] hex_value_def)
qed

lemma hex_nat_chars: "CHR ''_'' \<notin> set (hex_nat n) \<and> CHR ''-'' \<notin> set (hex_nat n)"
proof (induction n rule: hex_nat.induct)
  case (1 n)
  then show ?case using hex_digit_char [of n] hex_digit_char [of "n mod 16"]
    by (auto simp: hex_nat.simps [of n])
qed

lemma fmt_x_inj: "fmt_x a = fmt_x b \<Longrightarrow> a = b"
proof -
  assume eq: "fmt_x a = fmt_x b"
  have inj: "hex_nat m = hex_nat n \<Longrightarrow> m = n" for m n using hex_nat_value by metis
  have sign: "hex_nat m \<noteq> CHR ''-'' # s" for m s using hex_nat_chars [of m] by auto
  from eq show ?thesis
    by (cases "a < 0"; cases "b < 0") (auto simp: fmt_x_def sign sign [symmetric] dest: inj)
qed

lemma fmt_x_chars: "CHR ''_'' \<notin> set (fmt_x a)"
  using hex_nat_chars by (simp add: fmt_x_def)

lemma hex_bytes_inj:
  "hex_bytes bs = hex_bytes cs \<Longrightarrow> list_all (\<lambda>b. b < 256) bs \<Longrightarrow> list_all (\<lambda>b. b < 256) cs \<Longrightarrow> bs = cs"
proof (induction bs arbitrary: cs)
  case (Cons b bs)
  then obtain c cs' where cs: "cs = c # cs'" by (cases cs) (auto simp: hex_bytes_def)
  with Cons.prems have eq: "hex_digit (b div 16 mod 16) = hex_digit (c div 16 mod 16)"
    "hex_digit (b mod 16) = hex_digit (c mod 16)" "hex_bytes bs = hex_bytes cs'"
    by (simp_all add: hex_bytes_def)
  have "b < 256" "c < 256" using Cons.prems cs by simp_all
  then have small: "b div 16 < 16" "c div 16 < 16" by simp_all
  have "digit_value (hex_digit (b div 16)) = digit_value (hex_digit (c div 16))"
    "digit_value (hex_digit (b mod 16)) = digit_value (hex_digit (c mod 16))"
    using eq small by simp_all
  then have "b div 16 = c div 16" "b mod 16 = c mod 16" using small by simp_all
  then have "b = c" by (metis div_mult_mod_eq)
  with Cons cs eq(3) show ?case by simp
qed (auto simp: hex_bytes_def split: list.splits)

lemma split_at_char: "x \<notin> set us \<Longrightarrow> x \<notin> set vs \<Longrightarrow> us @ x # ys = vs @ x # zs \<Longrightarrow> us = vs \<and> ys = zs"
  by (induction us arbitrary: vs) (case_tac vs; force)+

text \<open>
  Two identifiers generated for the same prefix are equal only if they were generated in the same
  nanosecond from the same random bytes.
\<close>
theorem NewID_injective:
  assumes "RandomIDGenerator_NewID (Some bs) t p = RandomIDGenerator_NewID (Some cs) u p"
    and "in64 t" "in64 u" "list_all (\<lambda>b. b < 256) bs" "list_all (\<lambda>b. b < 256) cs"
  shows "t = u \<and> bs = cs"
proof -
  have "fmt_x t @ CHR ''_'' # hex_bytes bs = fmt_x u @ CHR ''_'' # hex_bytes cs"
    using assms(1-3) by (simp add: RandomIDGenerator_NewID_def)
  from split_at_char [OF fmt_x_chars fmt_x_chars this] show ?thesis
    using fmt_x_inj hex_bytes_inj assms(4,5) by blast
qed

theorem NewID_injective_witness:
  "RandomIDGenerator_NewID (Some [1, 255]) 5 ''txn'' = ''txn_5_01ff'' \<and>
   \<not> (\<exists>t < 5. 0 \<le> t \<and> RandomIDGenerator_NewID (Some [1, 255]) t ''txn'' =
      RandomIDGenerator_NewID (Some [1, 255]) 5 ''txn'')"
proof -
  have "t = 5" if "0 \<le> t" "t < 5" "RandomIDGenerator_NewID (Some [1, 255]) t ''txn'' =
      RandomIDGenerator_NewID (Some [1, 255]) 5 ''txn''" for t
    using NewID_injective [OF that(3)] that(1,2) by (simp add: in64_def)
  moreover have "RandomIDGenerator_NewID (Some [1, 255]) 5 ''txn'' = ''txn_5_01ff''" by code_simp
  ultimately show ?thesis by fastforce
qed

end
