(* ===== verification/HealthService.thy ===== *)
theory HealthService
  imports Environment
begin

text \<open>
  \<open>internal/service/health_service.go\<close>: the gateway health state machine over a health
  repository, with a short-lived local cache of states. The record of the service extends the
  environment with the repository's state, so that the services that embed it extend it in turn.
  Logging is left out. The cache is read and written under \<open>cacheMu\<close>; a method is a sequence of
  repository calls and cache accesses, run here without interruption.
\<close>

record cachedGatewayState =
  cg_state :: GatewayRuntimeState
  cg_expiresAt :: time

record 'h HealthService = Env +
  hs_repository :: 'h
  hs_cacheTTL :: duration
  hs_stateCache :: "string \<rightharpoonup> cachedGatewayState"

text \<open>A call of the repository from the service.\<close>

definition on_repo :: "('h, 'e, 'a) proc \<Rightarrow> (('h, 'z) HealthService_scheme, 'e, 'a) proc" where
  "on_repo m s = (case m (hs_repository s) of (r, h') \<Rightarrow> (r, s\<lparr>hs_repository := h'\<rparr>))"

definition HealthService_SetCacheTTL ::
  "duration \<Rightarrow> (('h, 'z) HealthService_scheme, go_error, unit) proc" where
  "HealthService_SetCacheTTL ttl s =
     (if ttl \<le> 0 then (Inr (), s)
      else (Inr (), s\<lparr>hs_cacheTTL := ttl, hs_stateCache := Map.empty\<rparr>))"

definition setCachedState ::
  "GatewayRuntimeState \<Rightarrow> time \<Rightarrow> (('h, 'z) HealthService_scheme, go_error, unit) proc" where
  "setCachedState state now = modify (\<lambda>s. s\<lparr>hs_stateCache := (hs_stateCache s)
     (rt_Gateway state \<mapsto> \<lparr>cg_state = state, cg_expiresAt = Add now (hs_cacheTTL s)\<rparr>)\<rparr>)"

definition cachedState :: "'h GatewayHealthRepository \<Rightarrow> string \<Rightarrow> time
    \<Rightarrow> (('h, 'z) HealthService_scheme, go_error, GatewayRuntimeState) proc" where
  "cachedState R gateway now =
     andThen (gets (\<lambda>s. hs_stateCache s gateway)) (\<lambda>cached.
     if (case cached of None \<Rightarrow> False | Some c \<Rightarrow> Before now (cg_expiresAt c))
     then ret (cg_state (the cached))
     else
       andThen (on_repo (hr_Ensure R gateway now)) (\<lambda>_.
       andThen (on_repo (hr_Get R gateway)) (\<lambda>state.
       andThen (setCachedState state now) (\<lambda>_.
       ret state))))"

text \<open>\<open>PrepareForRouting\<close>: first the cooldown of an unhealthy gateway, then its probes.\<close>

definition PrepareForRouting :: "'h GatewayHealthRepository \<Rightarrow> string \<Rightarrow> RoutingConfig
    \<Rightarrow> (('h, 'z) HealthService_scheme, go_error, GatewayRuntimeState) proc" where
  "PrepareForRouting R gateway routing =
     andThen Clock_Now (\<lambda>now.
     andThen (cachedState R gateway now) (\<lambda>state.
     andThen
       (if rt_State state = GatewayStateUnhealthy \<and> \<not> IsZero (rt_UnhealthyUntil state) \<and>
           \<not> Before now (rt_UnhealthyUntil state)
        then
          (let state1 = state\<lparr>rt_State := GatewayStateHalfOpen, rt_HalfOpenInFlight := 0,
                 rt_UpdatedAt := now\<rparr> in
           andThen (on_repo (hr_Save R state1)) (\<lambda>_.
           andThen (setCachedState state1 now) (\<lambda>_.
           ret state1)))
        else ret state) (\<lambda>state.
     if rt_State state = GatewayStateHalfOpen then
       andThen (on_repo (hr_PruneExpiredHalfOpenProbes R gateway now)) (\<lambda>state.
       andThen (setCachedState state now) (\<lambda>_.
       ret state))
     else ret state)))"

definition MarkProbeSelected :: "'h GatewayHealthRepository \<Rightarrow> string \<Rightarrow> string
    \<Rightarrow> (('h, 'z) HealthService_scheme, go_error, unit) proc" where
  "MarkProbeSelected R gateway transactionID =
     andThen ConfigProvider_Current (\<lambda>current.
     let cfg = WithDefaults current in
     andThen Clock_Now (\<lambda>now.
     let expiresAt = Add now (Duration (rc_HalfOpenProbeTimeoutSeconds (ac_Routing cfg)) Second) in
     andThen (on_repo (hr_TryAcquireHalfOpenProbe R gateway transactionID
         (rc_HalfOpenProbeCount (ac_Routing cfg)) expiresAt now)) (\<lambda>(state, acquired).
     andThen (setCachedState state now) (\<lambda>_.
     if \<not> acquired then throw (Sentinel ErrNoAvailableGateway) else ret ()))))"

definition ReleaseProbe :: "'h GatewayHealthRepository \<Rightarrow> string \<Rightarrow> string
    \<Rightarrow> (('h, 'z) HealthService_scheme, go_error, unit) proc" where
  "ReleaseProbe R gateway transactionID =
     andThen Clock_Now (\<lambda>now.
     andThen (on_repo (hr_ReleaseHalfOpenProbe R gateway transactionID now)) (\<lambda>(state, released).
     setCachedState state now))"

definition markUnhealthy :: "GatewayRuntimeState \<Rightarrow> RoutingConfig \<Rightarrow> time \<Rightarrow> GatewayRuntimeState" where
  "markUnhealthy state routing now = state\<lparr>
     rt_State := GatewayStateUnhealthy,
     rt_UnhealthyUntil := Add now (Duration (rc_UnhealthyCooldownSeconds routing) Second),
     rt_HalfOpenInFlight := 0, rt_HalfOpenProbes := [], rt_UpdatedAt := now\<rparr>"

text \<open>The assignments that make a state healthy, which \<open>RecordOutcome\<close> has twice.\<close>

definition markHealthy :: "GatewayRuntimeState \<Rightarrow> time \<Rightarrow> GatewayRuntimeState" where
  "markHealthy state now = state\<lparr>
     rt_State := GatewayStateHealthy, rt_UnhealthyUntil := zero_time,
     rt_HalfOpenInFlight := 0, rt_HalfOpenProbes := [], rt_UpdatedAt := now\<rparr>"

definition markHalfOpen :: "GatewayRuntimeState \<Rightarrow> time \<Rightarrow> GatewayRuntimeState" where
  "markHalfOpen state now = state\<lparr>
     rt_State := GatewayStateHalfOpen,
     rt_HalfOpenInFlight := 0, rt_HalfOpenProbes := [], rt_UpdatedAt := now\<rparr>"

definition windowStart :: "RoutingConfig \<Rightarrow> time \<Rightarrow> time" where
  "windowStart routing now =
     Add now (wrap64 (neg_dur (rc_HealthWindowSeconds routing) * Second))"

definition retention_of :: "RoutingConfig \<Rightarrow> duration" where
  "retention_of routing = Duration (wrap64 (rc_HealthWindowSeconds routing * 2)) Second"

text \<open>The end of \<open>RecordOutcome\<close>: the new state is saved, cached and returned.\<close>

definition saveOutcome :: "'h GatewayHealthRepository \<Rightarrow> time \<Rightarrow> GatewayStats \<Rightarrow> GatewayRuntimeState
    \<Rightarrow> (('h, 'z) HealthService_scheme, go_error, GatewayRuntimeState \<times> GatewayStats) proc" where
  "saveOutcome R now stats state =
     andThen (on_repo (hr_Save R state)) (\<lambda>_.
     andThen (setCachedState state now) (\<lambda>_.
     ret (state, stats)))"

text \<open>The switch of \<open>RecordOutcome\<close> on the state read from the repository.\<close>

definition switchOutcome :: "'h GatewayHealthRepository \<Rightarrow> RoutingConfig \<Rightarrow> time \<Rightarrow> string \<Rightarrow> string
    \<Rightarrow> TransactionStatus \<Rightarrow> GatewayStats \<Rightarrow> GatewayRuntimeState
    \<Rightarrow> (('h, 'z) HealthService_scheme, go_error, GatewayRuntimeState \<times> GatewayStats) proc" where
  "switchOutcome R routing now gateway transactionID status stats state =
     (case rt_State state of
        GatewayStateHalfOpen \<Rightarrow>
          andThen (on_repo (hr_ReleaseHalfOpenProbe R gateway transactionID now))
            (\<lambda>(state, released).
          if \<not> released then
            andThen (setCachedState state now) (\<lambda>_. ret (state, stats))
          else if status = TransactionStatusSuccess then
            saveOutcome R now stats (markHealthy state now)
          else if status = TransactionStatusFailure then
            saveOutcome R now stats (markUnhealthy state routing now)
          else saveOutcome R now stats state)
      | GatewayStateUnhealthy \<Rightarrow>
          (if IsZero (rt_UnhealthyUntil state) \<or> \<not> Before now (rt_UnhealthyUntil state)
           then saveOutcome R now stats (markHalfOpen state now)
           else saveOutcome R now stats state)
      | _ \<Rightarrow>
          (if gs_Total stats \<ge> rc_MinCallbackCount routing \<and>
              gs_SuccessRate stats < rc_SuccessRateThreshold routing
           then saveOutcome R now stats (markUnhealthy state routing now)
           else saveOutcome R now stats (markHealthy state now)))"

definition HealthService_RecordOutcome :: "'h GatewayHealthRepository \<Rightarrow> string \<Rightarrow> string
    \<Rightarrow> TransactionStatus
    \<Rightarrow> (('h, 'z) HealthService_scheme, go_error, GatewayRuntimeState \<times> GatewayStats) proc" where
  "HealthService_RecordOutcome R gateway transactionID status =
     andThen Clock_Now (\<lambda>now.
     andThen ConfigProvider_Current (\<lambda>current.
     let routing = ac_Routing (WithDefaults current) in
     andThen (on_repo (hr_Ensure R gateway now)) (\<lambda>_.
     andThen
       (if IsFinal status
        then on_repo (hr_RecordEvent R \<lparr>ge_Gateway = gateway, ge_TransactionID = transactionID,
               ge_Status = status, ge_CreatedAt = now\<rparr> (retention_of routing))
        else ret ()) (\<lambda>_.
     andThen (on_repo (hr_Get R gateway)) (\<lambda>state.
     andThen (on_repo (hr_StatsSince R gateway (windowStart routing now) now Minute)) (\<lambda>stats.
     switchOutcome R routing now gateway transactionID status stats state))))))"

definition HealthService_State :: "'h GatewayHealthRepository \<Rightarrow> string
    \<Rightarrow> (('h, 'z) HealthService_scheme, go_error, GatewayRuntimeState) proc" where
  "HealthService_State R gateway =
     andThen Clock_Now (\<lambda>now.
     andThen (on_repo (hr_Ensure R gateway now)) (\<lambda>_.
     andThen (on_repo (hr_Get R gateway)) (\<lambda>state.
     andThen
       (if rt_State state = GatewayStateHalfOpen
        then on_repo (hr_PruneExpiredHalfOpenProbes R gateway now) else ret state) (\<lambda>state.
     andThen (setCachedState state now) (\<lambda>_.
     ret state)))))"

definition HealthService_Stats :: "'h GatewayHealthRepository \<Rightarrow> string
    \<Rightarrow> (('h, 'z) HealthService_scheme, go_error, GatewayStats) proc" where
  "HealthService_Stats R gateway =
     andThen ConfigProvider_Current (\<lambda>current.
     let routing = ac_Routing (WithDefaults current) in
     andThen Clock_Now (\<lambda>now.
     on_repo (hr_StatsSince R gateway (windowStart routing now) now Minute)))"

section \<open>The specification: one step of the health state machine\<close>

text \<open>What is stored for a gateway once \<open>Ensure\<close> has run.\<close>

definition entry :: "(string \<rightharpoonup> GatewayRuntimeState) \<Rightarrow> string \<Rightarrow> time \<Rightarrow> GatewayRuntimeState" where
  "entry m g now = (case m g of None \<Rightarrow> initial_state g now | Some st \<Rightarrow> st)"

definition is_probe :: "time \<Rightarrow> string \<Rightarrow> GatewayRuntimeState \<Rightarrow> bool" where
  "is_probe now tid st \<longleftrightarrow> (\<exists>p \<in> set (live_probes now st). hp_TransactionID p = tid)"

definition without_probe :: "time \<Rightarrow> string \<Rightarrow> GatewayRuntimeState \<Rightarrow> GatewayRuntimeState" where
  "without_probe now tid st =
     with_probes (filter (\<lambda>p. hp_TransactionID p \<noteq> tid) (live_probes now st)) st"

text \<open>
  The state after an outcome, as a pure function of the state before it: the machine of the
  README, with the callbacks of transactions that hold no probe set apart.
\<close>

definition next_state :: "RoutingConfig \<Rightarrow> time \<Rightarrow> string \<Rightarrow> TransactionStatus \<Rightarrow> GatewayStats
    \<Rightarrow> GatewayRuntimeState \<Rightarrow> GatewayRuntimeState" where
  "next_state routing now tid status stats st =
     (case rt_State st of
        GatewayStateHalfOpen \<Rightarrow>
          if \<not> is_probe now tid st then without_probe now tid st
          else if status = TransactionStatusSuccess then markHealthy st now
          else if status = TransactionStatusFailure then markUnhealthy st routing now
          else without_probe now tid st
      | GatewayStateUnhealthy \<Rightarrow>
          if IsZero (rt_UnhealthyUntil st) \<or> \<not> Before now (rt_UnhealthyUntil st)
          then markHalfOpen st now else st
      | _ \<Rightarrow>
          if gs_Total stats \<ge> rc_MinCallbackCount routing \<and>
             gs_SuccessRate stats < rc_SuccessRateThreshold routing
          then markUnhealthy st routing now else markHealthy st now)"

text \<open>The state after \<open>PrepareForRouting\<close>, and after a look at the state, again without the store.\<close>

definition pruned :: "time \<Rightarrow> GatewayRuntimeState \<Rightarrow> GatewayRuntimeState" where
  "pruned now st =
     (if rt_State st = GatewayStateHalfOpen then with_probes (live_probes now st) st else st)"

definition cooled_down :: "time \<Rightarrow> GatewayRuntimeState \<Rightarrow> bool" where
  "cooled_down now st \<longleftrightarrow> rt_State st = GatewayStateUnhealthy \<and>
     \<not> IsZero (rt_UnhealthyUntil st) \<and> \<not> Before now (rt_UnhealthyUntil st)"

definition prepared :: "time \<Rightarrow> GatewayRuntimeState \<Rightarrow> GatewayRuntimeState" where
  "prepared now st = pruned now
     (if cooled_down now st
      then st\<lparr>rt_State := GatewayStateHalfOpen, rt_HalfOpenInFlight := 0, rt_UpdatedAt := now\<rparr>
      else st)"

definition cache_put :: "('h, 'z) HealthService_scheme \<Rightarrow> string \<Rightarrow> GatewayRuntimeState \<Rightarrow> time
    \<Rightarrow> (string \<rightharpoonup> cachedGatewayState)" where
  "cache_put s g st now =
     (hs_stateCache s)(g \<mapsto> \<lparr>cg_state = st, cg_expiresAt = Add now (hs_cacheTTL s)\<rparr>)"

lemma entry_simps [simp]:
  "m g = Some st \<Longrightarrow> entry m g now = st" "m g = None \<Longrightarrow> entry m g now = initial_state g now"
  by (simp_all add: entry_def)

lemma mark_simps [simp]:
  "rt_Gateway (markUnhealthy st r now) = rt_Gateway st"
  "rt_Gateway (markHealthy st now) = rt_Gateway st"
  "rt_Gateway (markHalfOpen st now) = rt_Gateway st"
  "rt_State (markUnhealthy st r now) = GatewayStateUnhealthy"
  "rt_State (markHealthy st now) = GatewayStateHealthy"
  "rt_State (markHalfOpen st now) = GatewayStateHalfOpen"
  "rt_HalfOpenProbes (markUnhealthy st r now) = []"
  "rt_HalfOpenProbes (markHealthy st now) = []"
  "rt_HalfOpenProbes (markHalfOpen st now) = []"
  "rt_HalfOpenInFlight (markUnhealthy st r now) = 0"
  "rt_HalfOpenInFlight (markHealthy st now) = 0"
  "rt_HalfOpenInFlight (markHalfOpen st now) = 0"
  "rt_UnhealthyUntil (markUnhealthy st r now) =
     Add now (Duration (rc_UnhealthyCooldownSeconds r) Second)"
  by (simp_all add: markUnhealthy_def markHealthy_def markHalfOpen_def)

lemma same_state_mark:
  assumes "same_state a (with_probes ps b)"
  shows "markHealthy a now = markHealthy b now" "markUnhealthy a r now = markUnhealthy b r now"
  using assms by (cases a; cases b; simp add: same_state_def with_probes_def markHealthy_def
      markUnhealthy_def)+

lemma initial_state_simps [simp]:
  "rt_Gateway (initial_state g now) = g" "rt_State (initial_state g now) = GatewayStateHealthy"
  "rt_HalfOpenProbes (initial_state g now) = []" "rt_HalfOpenInFlight (initial_state g now) = 0"
  by (simp_all add: initial_state_def)

lemma without_probe_simps [simp]:
  "rt_Gateway (without_probe now tid st) = rt_Gateway st"
  "rt_State (without_probe now tid st) = rt_State st"
  by (simp_all add: without_probe_def)

section \<open>Repository calls from the service\<close>

lemma on_repo_Inr:
  "on_repo m s = (Inr x, s') \<longleftrightarrow>
     (\<exists>h'. m (hs_repository s) = (Inr x, h') \<and> s' = s\<lparr>hs_repository := h'\<rparr>)"
  by (auto simp: on_repo_def split: prod.splits)

lemma on_repo_Inl:
  "on_repo m s = (Inl e, s') \<longleftrightarrow>
     (\<exists>h'. m (hs_repository s) = (Inl e, h') \<and> s' = s\<lparr>hs_repository := h'\<rparr>)"
  by (auto simp: on_repo_def split: prod.splits)

lemma andThen_on_repo:
  "m (hs_repository s) = (Inr x, h') \<Longrightarrow> andThen (on_repo m) f s = f x (s\<lparr>hs_repository := h'\<rparr>)"
  by (simp add: andThen_def on_repo_def)

lemma andThen_setCachedState [simp]:
  "andThen (setCachedState st now) f s = f () (s\<lparr>hs_stateCache := cache_put s (rt_Gateway st) st now\<rparr>)"
  by (simp add: setCachedState_def cache_put_def)

lemma setCachedState_run [simp]:
  "setCachedState st now s = (Inr (), s\<lparr>hs_stateCache := cache_put s (rt_Gateway st) st now\<rparr>)"
  by (simp add: setCachedState_def cache_put_def)

lemma cache_put_upd [simp]:
  "cache_put (s\<lparr>hs_repository := h\<rparr>) g st now = cache_put s g st now"
  "cache_put (s\<lparr>env_ticks := n\<rparr>) g st now = cache_put s g st now"
  "cache_put (s\<lparr>env_reads := n\<rparr>) g st now = cache_put s g st now"
  "cache_put (s\<lparr>hs_stateCache := cache_put s g st' now'\<rparr>) g st now = cache_put s g st now"
  by (simp_all add: cache_put_def)

text \<open>
  A method changes the repository and the cache and consumes readings of the clock and the
  configuration; \<open>health_frame\<close> says that it changes nothing else.
\<close>

definition health_frame :: "('h, 'z) HealthService_scheme \<Rightarrow> ('h, 'z) HealthService_scheme \<Rightarrow> bool" where
  "health_frame s s' \<longleftrightarrow> s' = s\<lparr>env_ticks := env_ticks s', env_reads := env_reads s',
     hs_repository := hs_repository s', hs_stateCache := hs_stateCache s'\<rparr>"

lemma health_frame_refl [simp]: "health_frame s s"
  by (simp add: health_frame_def)

lemma health_frame_trans: "health_frame s t \<Longrightarrow> health_frame t u \<Longrightarrow> health_frame s u"
  by (cases s; cases t; cases u) (simp add: health_frame_def)

lemma health_frame_upd [simp]:
  "health_frame s (t\<lparr>hs_repository := h\<rparr>) = health_frame s t"
  "health_frame s (t\<lparr>hs_stateCache := c\<rparr>) = health_frame s t"
  "health_frame s (t\<lparr>env_ticks := n\<rparr>) = health_frame s t"
  "health_frame s (t\<lparr>env_reads := n\<rparr>) = health_frame s t"
  "health_frame (s\<lparr>hs_repository := h\<rparr>) t = health_frame s t"
  "health_frame (s\<lparr>hs_stateCache := c\<rparr>) t = health_frame s t"
  "health_frame (s\<lparr>env_ticks := n\<rparr>) t = health_frame s t"
  "health_frame (s\<lparr>env_reads := n\<rparr>) t = health_frame s t"
  by (cases s; cases t; simp add: health_frame_def)+

lemma health_frameD:
  assumes "health_frame s s'"
  shows "env_clock s' = env_clock s" "env_config s' = env_config s" "env_ids s' = env_ids s"
    "env_issued s' = env_issued s" "hs_cacheTTL s' = hs_cacheTTL s"
    "HealthService.more s' = HealthService.more s"
  using assms by (cases s; cases s'; simp add: health_frame_def)+

context gateway_health_repository
begin

lemma Ensure_entry:
  "hr_Ensure R g now h = (Inr u, h') \<Longrightarrow> states h' = (states h)(g \<mapsto> entry (states h) g now)"
  by (auto simp: Ensure_ok entry_def fun_eq_iff split: option.splits)

lemma Release_spec:
  assumes "hr_ReleaseHalfOpenProbe R g tid now h = (Inr (st, ok), h')" "states h g = Some st0"
    "rt_State st0 = GatewayStateHalfOpen"
  shows "ok = is_probe now tid st0" "same_state st (without_probe now tid st0)"
    "states h' = (states h)(g \<mapsto> st)"
  using Release_ok [OF assms(1)] assms(2,3) by (auto simp: is_probe_def without_probe_def)

lemma saveOutcome_ok:
  assumes "saveOutcome R now stats st s = (Inr (st', stats'), s')"
  shows "st' = st \<and> stats' = stats \<and>
    states (hs_repository s') = (states (hs_repository s))(rt_Gateway st \<mapsto> st) \<and>
    hs_stateCache s' = cache_put s (rt_Gateway st) st now \<and>
    env_ticks s' = env_ticks s \<and> env_reads s' = env_reads s \<and> health_frame s s'"
  using assms by (auto simp: saveOutcome_def on_repo_Inr elim!: andThen_Inr dest!: Save_ok)

lemma switchOutcome_ok:
  assumes run: "switchOutcome R routing now g tid status stats st0 s = (Inr (st, stats'), s')"
    and st0: "states (hs_repository s) g = Some st0" and key: "rt_Gateway st0 = g"
  shows "same_state st (next_state routing now tid status stats st0) \<and> stats' = stats \<and>
    rt_Gateway st = g \<and> states (hs_repository s') = (states (hs_repository s))(g \<mapsto> st) \<and>
    hs_stateCache s' = cache_put s g st now \<and>
    env_ticks s' = env_ticks s \<and> env_reads s' = env_reads s \<and> health_frame s s'"
proof (cases "rt_State st0 = GatewayStateHalfOpen")
  case False
  then show ?thesis
    using run key
    by (cases "rt_State st0")
      (auto simp: switchOutcome_def next_state_def split: if_splits dest!: saveOutcome_ok)
next
  case True
  from run True obtain st1 ok h1
    where rel: "hr_ReleaseHalfOpenProbe R g tid now (hs_repository s) = (Inr (st1, ok), h1)"
      and rest: "(if \<not> ok then andThen (setCachedState st1 now) (\<lambda>_. ret (st1, stats))
        else if status = TransactionStatusSuccess then saveOutcome R now stats (markHealthy st1 now)
        else if status = TransactionStatusFailure
          then saveOutcome R now stats (markUnhealthy st1 routing now)
        else saveOutcome R now stats st1) (s\<lparr>hs_repository := h1\<rparr>) = (Inr (st, stats'), s')"
    by (auto simp: switchOutcome_def on_repo_Inr elim!: andThen_Inr)
  note spec = Release_spec [OF rel st0 True]
  have key1: "rt_Gateway st1 = g" using same_stateD(1) [OF spec(2)] key by simp
  note marks = same_state_mark [OF spec(2) [unfolded without_probe_def]]
  show ?thesis
    using rest spec key key1 True
    by (auto simp: next_state_def marks split: if_splits dest!: saveOutcome_ok)
qed

lemma RecordOutcome_ok:
  fixes s :: "('h, 'z) HealthService_scheme"
  defines "m \<equiv> states (hs_repository s)" and "now \<equiv> env_clock s (env_ticks s)"
    and "routing \<equiv> ac_Routing (WithDefaults (env_config s (env_reads s)))"
  assumes run: "HealthService_RecordOutcome R g tid status s = (Inr (st, stats), s')"
    and key: "rt_Gateway (entry m g now) = g"
  shows "same_state st (next_state routing now tid status stats (entry m g now)) \<and>
    rt_Gateway st = g \<and> gs_Gateway stats = g \<and>
    states (hs_repository s') = m(g \<mapsto> st) \<and> hs_stateCache s' = cache_put s g st now \<and>
    env_ticks s' = Suc (env_ticks s) \<and> env_reads s' = Suc (env_reads s) \<and> health_frame s s'"
proof -
  define s0 where "s0 = s\<lparr>env_ticks := Suc (env_ticks s), env_reads := Suc (env_reads s)\<rparr>"
  from run obtain u1 h1 u2 h2 st0 h3 stats3 h4
    where e1: "hr_Ensure R g now (hs_repository s) = (Inr u1, h1)"
      and e2: "states h2 = states h1"
      and e3: "hr_Get R g h2 = (Inr st0, h3)"
      and e4: "hr_StatsSince R g (windowStart routing now) now Minute h3 = (Inr stats3, h4)"
      and e5: "switchOutcome R routing now g tid status stats3 st0 (s0\<lparr>hs_repository := h4\<rparr>)
                 = (Inr (st, stats), s')"
    by (auto simp: HealthService_RecordOutcome_def Let_def on_repo_Inr now_def routing_def s0_def
        elim!: andThen_Inr split: if_splits) (metis RecordEvent_ok)+
  have st0: "st0 = entry m g now" and m4: "states h4 = m(g \<mapsto> entry m g now)"
    using Ensure_entry [OF e1] e2 Get_ok [OF e3] StatsSince_ok [OF e4] by (simp_all add: m_def)
  from switchOutcome_ok [OF e5] key m4 st0 StatsSince_ok [OF e4]
  show ?thesis by (auto simp: s0_def)
qed

end

section \<open>The cache and the stored states\<close>

text \<open>
  In one process every write to the repository goes through the service, which caches the state
  it wrote: an entry of the cache, fresh or not, is the stored state.
\<close>

definition coherent :: "(string \<rightharpoonup> GatewayRuntimeState) \<Rightarrow> (string \<rightharpoonup> cachedGatewayState) \<Rightarrow> bool" where
  "coherent m c \<longleftrightarrow> (\<forall>g e. c g = Some e \<longrightarrow> m g = Some (cg_state e))"

definition wf_gateway :: "string \<Rightarrow> GatewayRuntimeState \<Rightarrow> bool" where
  "wf_gateway g st \<longleftrightarrow> rt_Gateway st = g \<and> (\<forall>x. rt_State st \<noteq> GatewayStateOther x) \<and>
     rt_HalfOpenInFlight st = int (length (rt_HalfOpenProbes st)) \<and>
     (rt_State st \<noteq> GatewayStateHalfOpen \<longrightarrow> rt_HalfOpenProbes st = [])"

definition wf_states :: "(string \<rightharpoonup> GatewayRuntimeState) \<Rightarrow> bool" where
  "wf_states m \<longleftrightarrow> (\<forall>g st. m g = Some st \<longrightarrow> wf_gateway g st)"

lemma coherentD: "coherent m c \<Longrightarrow> c g = Some e \<Longrightarrow> m g = Some (cg_state e)"
  by (simp add: coherent_def)

lemma coherent_empty [simp]: "coherent m Map.empty"
  by (simp add: coherent_def)

lemma coherent_put:
  "coherent m (hs_stateCache s) \<Longrightarrow> coherent (m(g \<mapsto> st)) (cache_put s g st now)"
  by (simp add: coherent_def cache_put_def)

lemma wf_statesD: "wf_states m \<Longrightarrow> m g = Some st \<Longrightarrow> wf_gateway g st"
  by (simp add: wf_states_def)

lemma wf_states_upd: "wf_states m \<Longrightarrow> wf_gateway g st \<Longrightarrow> wf_states (m(g \<mapsto> st))"
  by (simp add: wf_states_def)

lemma wf_gateway_Gateway: "wf_gateway g st \<Longrightarrow> rt_Gateway st = g"
  by (simp add: wf_gateway_def)

lemma wf_entry: "wf_states m \<Longrightarrow> wf_gateway g (entry m g now)"
  by (cases "m g") (simp_all add: wf_states_def wf_gateway_def)

lemma wf_same_state: "same_state a b \<Longrightarrow> wf_gateway g a = wf_gateway g b"
  using same_stateD [of a b] by (simp add: wf_gateway_def)

lemma wf_with_probes:
  "wf_gateway g st \<Longrightarrow> rt_State st = GatewayStateHalfOpen \<Longrightarrow> wf_gateway g (with_probes ps st)"
  by (simp add: wf_gateway_def)

lemma wf_marks:
  assumes "rt_Gateway st = g"
  shows "wf_gateway g (markUnhealthy st r now)" "wf_gateway g (markHealthy st now)"
    "wf_gateway g (markHalfOpen st now)"
  using assms by (simp_all add: wf_gateway_def)

lemma wf_next_state:
  "wf_gateway g st \<Longrightarrow> wf_gateway g (next_state routing now tid status stats st)"
  by (cases "rt_State st")
    (auto simp: next_state_def without_probe_def wf_marks wf_with_probes wf_gateway_Gateway)

lemma live_probes_upd [simp]:
  "live_probes now (st\<lparr>rt_State := x, rt_HalfOpenInFlight := n, rt_UpdatedAt := u\<rparr>) =
     live_probes now st"
  by (simp add: live_probes_def)

lemma wf_pruned: "wf_gateway g st \<Longrightarrow> wf_gateway g (pruned now st)"
  by (simp add: pruned_def wf_with_probes)

lemma wf_prepared: "wf_gateway g st \<Longrightarrow> wf_gateway g (prepared now st)"
  unfolding prepared_def
  by (rule wf_pruned) (auto simp: wf_gateway_def cooled_down_def)

context gateway_health_repository
begin

lemma Prune_pruned:
  assumes "hr_PruneExpiredHalfOpenProbes R g now h = (Inr st, h')"
  shows "\<exists>st0. states h g = Some st0 \<and> states h' = (states h)(g \<mapsto> st) \<and> same_state st (pruned now st0)"
  using Prune_ok [OF assms] by (simp add: pruned_def)

text \<open>The state a method works on and what it leaves in the repository and in the cache.\<close>

lemma cachedState_ok:
  fixes s :: "('h, 'z) HealthService_scheme"
  defines "m \<equiv> states (hs_repository s)"
  assumes run: "cachedState R g now s = (Inr st, s')"
    and wf: "wf_states m" and coh: "coherent m (hs_stateCache s)"
  shows "st = entry m g now \<and> states (hs_repository s') = m(g \<mapsto> st) \<and> health_frame s s' \<and>
    env_ticks s' = env_ticks s \<and> env_reads s' = env_reads s \<and>
    (hs_stateCache s' = cache_put s g st now \<or>
     hs_stateCache s' = hs_stateCache s \<and> states (hs_repository s') = m)"
proof (cases "case hs_stateCache s g of None \<Rightarrow> False | Some c \<Rightarrow> Before now (cg_expiresAt c)")
  case True
  then obtain e where e: "hs_stateCache s g = Some e" "Before now (cg_expiresAt e)"
    by (auto split: option.splits)
  from coherentD [OF coh e(1)] have "m g = Some (cg_state e)" .
  with run e show ?thesis by (auto simp: cachedState_def map_upd_triv m_def)
next
  case False
  with run obtain u1 h1 h2
    where e1: "hr_Ensure R g now (hs_repository s) = (Inr u1, h1)"
      and e2: "hr_Get R g h1 = (Inr st, h2)"
      and s': "s' = s\<lparr>hs_repository := h2, hs_stateCache := cache_put s (rt_Gateway st) st now\<rparr>"
    by (auto simp: cachedState_def on_repo_Inr elim!: andThen_Inr split: option.splits)
  have "st = entry m g now" "states h2 = m(g \<mapsto> entry m g now)"
    using Ensure_entry [OF e1] Get_ok [OF e2] by (simp_all add: m_def)
  with s' wf_gateway_Gateway [OF wf_entry [OF wf, of g now]] show ?thesis by auto
qed

lemma PrepareForRouting_ok:
  fixes s :: "('h, 'z) HealthService_scheme"
  defines "m \<equiv> states (hs_repository s)" and "now \<equiv> env_clock s (env_ticks s)"
  assumes run: "PrepareForRouting R g routing s = (Inr st, s')"
    and wf: "wf_states m" and coh: "coherent m (hs_stateCache s)"
  shows "same_state st (prepared now (entry m g now)) \<and>
    states (hs_repository s') = m(g \<mapsto> st) \<and> health_frame s s' \<and>
    env_ticks s' = Suc (env_ticks s) \<and> env_reads s' = env_reads s \<and>
    (hs_stateCache s' = cache_put s g st now \<or>
     hs_stateCache s' = hs_stateCache s \<and> states (hs_repository s') = m)"
proof -
  define s0 where "s0 = s\<lparr>env_ticks := Suc (env_ticks s)\<rparr>"
  define st0 where "st0 = entry m g now"
  define st1 where "st1 = (if cooled_down now st0 then st0\<lparr>rt_State := GatewayStateHalfOpen,
     rt_HalfOpenInFlight := 0, rt_UpdatedAt := now\<rparr> else st0)"
  have key: "rt_Gateway st1 = g"
    using wf_gateway_Gateway [OF wf_entry [OF wf, of g now]] by (simp add: st1_def st0_def)
  from run obtain st0' s1 st2 s2
    where c: "cachedState R g now s0 = (Inr st0', s1)"
      and t: "(if cooled_down now st0'
        then (let state1 = st0'\<lparr>rt_State := GatewayStateHalfOpen, rt_HalfOpenInFlight := 0,
                 rt_UpdatedAt := now\<rparr> in
           andThen (on_repo (hr_Save R state1)) (\<lambda>_.
           andThen (setCachedState state1 now) (\<lambda>_. ret state1)))
        else ret st0') s1 = (Inr st2, s2)"
      and p: "(if rt_State st2 = GatewayStateHalfOpen then
         andThen (on_repo (hr_PruneExpiredHalfOpenProbes R g now)) (\<lambda>state.
         andThen (setCachedState state now) (\<lambda>_. ret state))
         else ret st2) s2 = (Inr st, s')"
    unfolding PrepareForRouting_def andThen_Now cooled_down_def now_def s0_def
    by (elim andThen_Inr) blast
  have st0': "st0' = st0" and m1: "states (hs_repository s1) = m(g \<mapsto> st0)"
    and f1: "health_frame s s1" "env_ticks s1 = Suc (env_ticks s)" "env_reads s1 = env_reads s"
    and c1: "hs_stateCache s1 = cache_put s g st0 now \<or>
      hs_stateCache s1 = hs_stateCache s \<and> states (hs_repository s1) = m"
    using cachedState_ok [OF c] wf coh
    by (auto simp: m_def st0_def s0_def)
  have step2: "st2 = st1 \<and> states (hs_repository s2) = m(g \<mapsto> st1) \<and> health_frame s s2 \<and>
     env_ticks s2 = Suc (env_ticks s) \<and> env_reads s2 = env_reads s \<and>
     (hs_stateCache s2 = cache_put s g st1 now \<or>
      hs_stateCache s2 = hs_stateCache s \<and> states (hs_repository s2) = m)"
  proof (cases "cooled_down now st0")
    case True
    then show ?thesis
      using t key m1 c1 f1
      by (auto simp: st0' Let_def on_repo_Inr st1_def cache_put_def health_frameD
          elim!: andThen_Inr dest!: Save_ok)
  next
    case False
    with t m1 c1 f1 show ?thesis by (auto simp: st0' st1_def)
  qed
  have prep: "prepared now st0 = pruned now st1" by (simp add: prepared_def st1_def)
  show ?thesis
  proof (cases "rt_State st1 = GatewayStateHalfOpen")
    case True
    with p step2 obtain h3
      where pr: "hr_PruneExpiredHalfOpenProbes R g now (hs_repository s2) = (Inr st, h3)"
      and s': "s' = s2\<lparr>hs_repository := h3, hs_stateCache := cache_put s2 (rt_Gateway st) st now\<rparr>"
      by (auto simp: on_repo_Inr elim!: andThen_Inr)
    from Prune_pruned [OF pr] step2 have same: "same_state st (pruned now st1)"
      and m3: "states h3 = m(g \<mapsto> st)" by auto
    have "rt_Gateway st = g" using same_stateD(1) [OF same] key by (simp add: pruned_def)
    moreover have "cache_put s2 g st now = cache_put s g st now"
      using step2 by (auto simp: cache_put_def health_frameD)
    ultimately show ?thesis using same m3 s' prep step2 by (simp add: st0_def)
  next
    case False
    with p step2 have "st = st1" "s' = s2" by simp_all
    with step2 prep False show ?thesis by (auto simp: st0_def pruned_def)
  qed
qed

lemma State_ok:
  fixes s :: "('h, 'z) HealthService_scheme"
  defines "m \<equiv> states (hs_repository s)" and "now \<equiv> env_clock s (env_ticks s)"
  assumes run: "HealthService_State R g s = (Inr st, s')" and wf: "wf_states m"
  shows "same_state st (pruned now (entry m g now)) \<and>
    states (hs_repository s') = m(g \<mapsto> st) \<and> hs_stateCache s' = cache_put s g st now \<and>
    env_ticks s' = Suc (env_ticks s) \<and> env_reads s' = env_reads s \<and> health_frame s s'"
proof -
  have key0: "rt_Gateway (entry m g now) = g" by (rule wf_gateway_Gateway [OF wf_entry [OF wf]])
  from run obtain u1 h1 st0 h2 h3
    where e1: "hr_Ensure R g now (hs_repository s) = (Inr u1, h1)"
      and e2: "hr_Get R g h1 = (Inr st0, h2)"
      and e3: "if rt_State st0 = GatewayStateHalfOpen
        then hr_PruneExpiredHalfOpenProbes R g now h2 = (Inr st, h3) else st = st0 \<and> h3 = h2"
      and s': "s' = s\<lparr>env_ticks := Suc (env_ticks s), hs_repository := h3,
        hs_stateCache := cache_put s (rt_Gateway st) st now\<rparr>"
    by (auto simp: HealthService_State_def on_repo_Inr now_def elim!: andThen_Inr split: if_splits)
  have st0: "st0 = entry m g now" and m2: "states h2 = m(g \<mapsto> entry m g now)"
    using Ensure_entry [OF e1] Get_ok [OF e2] by (simp_all add: m_def)
  have "same_state st (pruned now st0) \<and> states h3 = m(g \<mapsto> st)"
  proof (cases "rt_State st0 = GatewayStateHalfOpen")
    case True
    with e3 Prune_pruned [of g now h2 st h3] m2 st0 show ?thesis by auto
  next
    case False
    with e3 m2 st0 show ?thesis by (simp add: pruned_def)
  qed
  moreover from this have "rt_Gateway st = g"
    using key0 st0 same_stateD(1) [of st "pruned now st0"] by (simp add: pruned_def split: if_splits)
  ultimately show ?thesis using s' st0 by simp
qed

lemma Stats_ok:
  "HealthService_Stats R g s = (Inr stats, s') \<Longrightarrow>
   states (hs_repository s') = states (hs_repository s) \<and> gs_Gateway stats = g \<and>
   hs_stateCache s' = hs_stateCache s \<and>
   env_ticks s' = Suc (env_ticks s) \<and> env_reads s' = Suc (env_reads s) \<and> health_frame s s'"
  by (auto simp: HealthService_Stats_def Let_def on_repo_Inr dest!: StatsSince_ok)

lemma MarkProbeSelected_acquired:
  fixes s :: "('h, 'z) HealthService_scheme"
  defines "m \<equiv> states (hs_repository s)" and "now \<equiv> env_clock s (env_ticks s)"
    and "routing \<equiv> ac_Routing (WithDefaults (env_config s (env_reads s)))"
  assumes run: "MarkProbeSelected R g tid s = (Inr u, s')" and wf: "wf_states m"
  shows "\<exists>st0 st. m g = Some st0 \<and> rt_State st0 = GatewayStateHalfOpen \<and>
    int (length (live_probes now st0)) < rc_HalfOpenProbeCount routing \<and>
    same_state st (with_probes (live_probes now st0 @ [new_probe tid
      (Add now (Duration (rc_HalfOpenProbeTimeoutSeconds routing) Second))]) st0) \<and>
    states (hs_repository s') = m(g \<mapsto> st) \<and> hs_stateCache s' = cache_put s g st now \<and>
    env_ticks s' = Suc (env_ticks s) \<and> env_reads s' = Suc (env_reads s) \<and> health_frame s s'"
proof -
  from run obtain st h1
    where acq: "hr_TryAcquireHalfOpenProbe R g tid (rc_HalfOpenProbeCount routing)
        (Add now (Duration (rc_HalfOpenProbeTimeoutSeconds routing) Second)) now
        (hs_repository s) = (Inr (st, True), h1)"
      and s': "s' = s\<lparr>env_reads := Suc (env_reads s), env_ticks := Suc (env_ticks s),
        hs_repository := h1, hs_stateCache := cache_put s (rt_Gateway st) st now\<rparr>"
    by (auto simp: MarkProbeSelected_def Let_def on_repo_Inr now_def routing_def
        elim!: andThen_Inr split: if_splits)
  from TryAcquire_ok [OF acq] obtain st0 where st0: "m g = Some st0"
    "rt_State st0 = GatewayStateHalfOpen"
    "int (length (live_probes now st0)) < rc_HalfOpenProbeCount routing"
    and st: "same_state st (with_probes (live_probes now st0 @ [new_probe tid
      (Add now (Duration (rc_HalfOpenProbeTimeoutSeconds routing) Second))]) st0)"
    and m1: "states h1 = m(g \<mapsto> st)"
    by (auto simp: m_def)
  have "rt_Gateway st = g"
    using same_stateD(1) [OF st] wf_gateway_Gateway [OF wf_statesD [OF wf st0(1)]] by simp
  with st0 st m1 s' show ?thesis by auto
qed

lemma ReleaseProbe_ok:
  fixes s :: "('h, 'z) HealthService_scheme"
  defines "m \<equiv> states (hs_repository s)" and "now \<equiv> env_clock s (env_ticks s)"
  assumes run: "ReleaseProbe R g tid s = (Inr u, s')" and wf: "wf_states m"
  shows "\<exists>st0 st. m g = Some st0 \<and>
    same_state st (if rt_State st0 = GatewayStateHalfOpen then without_probe now tid st0 else st0) \<and>
    states (hs_repository s') = m(g \<mapsto> st) \<and> hs_stateCache s' = cache_put s g st now \<and>
    env_ticks s' = Suc (env_ticks s) \<and> env_reads s' = env_reads s \<and> health_frame s s'"
proof -
  from run obtain st ok h1
    where rel: "hr_ReleaseHalfOpenProbe R g tid now (hs_repository s) = (Inr (st, ok), h1)"
      and s': "s' = s\<lparr>env_ticks := Suc (env_ticks s), hs_repository := h1,
        hs_stateCache := cache_put s (rt_Gateway st) st now\<rparr>"
    by (auto simp: ReleaseProbe_def on_repo_Inr now_def elim!: andThen_Inr)
  from Release_ok [OF rel] obtain st0 where st0: "m g = Some st0"
    and st1: "same_state st (if rt_State st0 \<noteq> GatewayStateHalfOpen then st0
      else with_probes (filter (\<lambda>p. hp_TransactionID p \<noteq> tid) (live_probes now st0)) st0)"
    and m1: "states h1 = m(g \<mapsto> st)"
    unfolding m_def by blast
  from st1 have st: "same_state st
      (if rt_State st0 = GatewayStateHalfOpen then without_probe now tid st0 else st0)"
    by (simp add: without_probe_def split: if_splits)
  have "rt_Gateway st = g"
    using same_stateD(1) [OF st] wf_gateway_Gateway [OF wf_statesD [OF wf st0]]
    by (simp split: if_splits)
  with st0 st m1 s' show ?thesis by auto
qed

end

section \<open>A repository that does not fail\<close>

context local_health_repository
begin

lemma never_fails:
  "hr_Ensure R g now h \<noteq> (Inl er, h')" "hr_Save R st h \<noteq> (Inl er, h')"
  "hr_RecordEvent R ev keep h \<noteq> (Inl er, h')" "hr_StatsSince R g since until b h \<noteq> (Inl er, h')"
  using Ensure_total [of g now h] Save_total [of st h] RecordEvent_total [of ev keep h]
    StatsSince_total [of g since until b h] by auto

lemma saveOutcome_never_fails: "saveOutcome R now stats st s \<noteq> (Inl er, s')"
  by (auto simp: saveOutcome_def on_repo_Inr on_repo_Inl never_fails elim!: andThen_Inl)

lemma switchOutcome_never_fails:
  "states (hs_repository s) g = Some st0 \<Longrightarrow>
   switchOutcome R routing now g tid status stats st0 s \<noteq> (Inl er, s')"
  by (cases "rt_State st0")
    (auto simp: switchOutcome_def on_repo_Inr on_repo_Inl saveOutcome_never_fails
      elim!: andThen_Inl split: if_splits dest!: Release_total)

lemma Get_Ensured:
  assumes "hr_Ensure R g now h = (Inr u, h1)" "states h2 = states h1"
  shows "hr_Get R g h2 \<noteq> (Inl er, h3)"
  using Ensure_entry [OF assms(1)] assms(2) by (auto dest!: Get_total)

lemma RecordOutcome_never_fails: "HealthService_RecordOutcome R g tid status s \<noteq> (Inl er, s')"
proof
  assume "HealthService_RecordOutcome R g tid status s = (Inl er, s')"
  then obtain u1 h1 h2 where e1: "hr_Ensure R g (env_clock s (env_ticks s)) (hs_repository s) = (Inr u1, h1)"
    and e2: "states h2 = states h1"
    and bad: "(\<exists>h3. hr_Get R g h2 = (Inl er, h3)) \<or>
      (\<exists>st0 h3 s3 r n stats. hr_Get R g h2 = (Inr st0, h3) \<and>
         states (hs_repository s3) = states h3 \<and>
         switchOutcome R r n g tid status stats st0 s3 = (Inl er, s'))"
    by (auto simp: HealthService_RecordOutcome_def Let_def on_repo_Inr on_repo_Inl never_fails
        elim!: andThen_Inl split: if_splits)
      (metis RecordEvent_ok StatsSince_ok HealthService.select_convs(1) HealthService.surjective
        HealthService.update_convs(1))+
  then show False
    using Get_Ensured [OF e1 e2] Get_ok [of g h2] by (metis switchOutcome_never_fails)
qed

lemma cachedState_never_fails: "cachedState R g now s \<noteq> (Inl er, s')"
  by (auto simp: cachedState_def on_repo_Inr on_repo_Inl never_fails Get_Ensured
      elim!: andThen_Inl split: if_splits)

lemma Prune_after_Get:
  "hr_Get R g h = (Inr st, h') \<Longrightarrow> hr_PruneExpiredHalfOpenProbes R g now h' \<noteq> (Inl er, h'')"
  by (auto dest!: Get_ok Prune_total)

lemma State_never_fails: "HealthService_State R g s \<noteq> (Inl er, s')"
  by (auto simp: HealthService_State_def on_repo_Inr on_repo_Inl never_fails Get_Ensured
      Prune_after_Get elim!: andThen_Inl split: if_splits)

lemma Stats_never_fails: "HealthService_Stats R g s \<noteq> (Inl er, s')"
  by (auto simp: HealthService_Stats_def Let_def on_repo_Inl never_fails)

end

end
