(* ===== verification/MemoryHealth.thy ===== *)
theory MemoryHealth
  imports Ports
begin

text \<open>
  \<open>internal/adapters/repository/memory/gateway_health_repository.go\<close>: the runtime states by
  gateway and the retained callback events. Every method runs under the repository's lock.
  Slices are values here. The code filters \<open>HalfOpenProbes\<close> in place, so a copy of a state handed
  out earlier can see its elements move; the repository itself reads only the slice it stores.
\<close>

record MemoryHealth =
  mh_states :: "string \<rightharpoonup> GatewayRuntimeState"
  mh_events :: "GatewayEvent list"

definition MemHealth_New :: MemoryHealth where
  "MemHealth_New = \<lparr>mh_states = Map.empty, mh_events = []\<rparr>"

definition gateway_not_found :: "string \<Rightarrow> go_error" where
  "gateway_not_found gateway = Wrapf ErrNotFound ''%w: gateway %q'' [gateway]"

definition MemHealth_Ensure :: "string \<Rightarrow> time \<Rightarrow> (MemoryHealth, go_error, unit) proc" where
  "MemHealth_Ensure gateway now r =
     (case mh_states r gateway of
        Some _ \<Rightarrow> (Inr (), r)
      | None \<Rightarrow> (Inr (), r\<lparr>mh_states := (mh_states r)(gateway \<mapsto>
          \<lparr>rt_Gateway = gateway, rt_State = GatewayStateHealthy, rt_UnhealthyUntil = zero_time,
           rt_HalfOpenInFlight = 0, rt_HalfOpenProbes = [], rt_UpdatedAt = now\<rparr>)\<rparr>))"

definition MemHealth_Get :: "string \<Rightarrow> (MemoryHealth, go_error, GatewayRuntimeState) proc" where
  "MemHealth_Get gateway r =
     (case mh_states r gateway of
        None \<Rightarrow> (Inl (gateway_not_found gateway), r)
      | Some state \<Rightarrow> (Inr state, r))"

definition MemHealth_Save :: "GatewayRuntimeState \<Rightarrow> (MemoryHealth, go_error, unit) proc" where
  "MemHealth_Save state r =
     (Inr (), r\<lparr>mh_states := (mh_states r)(rt_Gateway state \<mapsto> state)\<rparr>)"

definition pruneExpiredHalfOpenProbes :: "GatewayRuntimeState \<Rightarrow> time \<Rightarrow> GatewayRuntimeState" where
  "pruneExpiredHalfOpenProbes state now =
     (if rt_HalfOpenProbes state = [] then state\<lparr>rt_HalfOpenInFlight := 0\<rparr>
      else
       (let nowMillis = UnixMilli now;
            probes = filter (\<lambda>probe. hp_TransactionID probe \<noteq> '''' \<and>
                       hp_ExpiresAtUnixMilli probe > nowMillis) (rt_HalfOpenProbes state) in
        state\<lparr>rt_HalfOpenProbes := probes, rt_HalfOpenInFlight := int (length probes)\<rparr>))"

definition MemHealth_PruneExpiredHalfOpenProbes ::
  "string \<Rightarrow> time \<Rightarrow> (MemoryHealth, go_error, GatewayRuntimeState) proc" where
  "MemHealth_PruneExpiredHalfOpenProbes gateway now r =
     (case mh_states r gateway of
        None \<Rightarrow> (Inl (gateway_not_found gateway), r)
      | Some state \<Rightarrow>
          if rt_State state \<noteq> GatewayStateHalfOpen then (Inr state, r)
          else
           (let state' = (pruneExpiredHalfOpenProbes state now)\<lparr>rt_UpdatedAt := now\<rparr> in
            (Inr state', r\<lparr>mh_states := (mh_states r)(gateway \<mapsto> state')\<rparr>)))"

definition MemHealth_TryAcquireHalfOpenProbe :: "string \<Rightarrow> string \<Rightarrow> int \<Rightarrow> time \<Rightarrow> time
    \<Rightarrow> (MemoryHealth, go_error, GatewayRuntimeState \<times> bool) proc" where
  "MemHealth_TryAcquireHalfOpenProbe gateway transactionID maxInFlight expiresAt now r =
     (case mh_states r gateway of
        None \<Rightarrow> (Inl (gateway_not_found gateway), r)
      | Some state \<Rightarrow>
          if rt_State state \<noteq> GatewayStateHalfOpen then (Inr (state, False), r)
          else
           (let state1 = pruneExpiredHalfOpenProbes state now in
            if rt_HalfOpenInFlight state1 \<ge> maxInFlight then
              (Inr (state1, False), r\<lparr>mh_states := (mh_states r)(gateway \<mapsto> state1)\<rparr>)
            else
             (let probes = rt_HalfOpenProbes state1 @
                    [\<lparr>hp_TransactionID = transactionID,
                      hp_ExpiresAtUnixMilli = UnixMilli expiresAt\<rparr>];
                  state2 = state1\<lparr>rt_HalfOpenProbes := probes,
                    rt_HalfOpenInFlight := int (length probes), rt_UpdatedAt := now\<rparr> in
              (Inr (state2, True), r\<lparr>mh_states := (mh_states r)(gateway \<mapsto> state2)\<rparr>))))"

definition MemHealth_ReleaseHalfOpenProbe :: "string \<Rightarrow> string \<Rightarrow> time
    \<Rightarrow> (MemoryHealth, go_error, GatewayRuntimeState \<times> bool) proc" where
  "MemHealth_ReleaseHalfOpenProbe gateway transactionID now r =
     (case mh_states r gateway of
        None \<Rightarrow> (Inl (gateway_not_found gateway), r)
      | Some state \<Rightarrow>
          if rt_State state \<noteq> GatewayStateHalfOpen then (Inr (state, False), r)
          else
           (let state1 = pruneExpiredHalfOpenProbes state now;
                probes = filter (\<lambda>probe. hp_TransactionID probe \<noteq> transactionID)
                  (rt_HalfOpenProbes state1);
                released = (\<exists>probe \<in> set (rt_HalfOpenProbes state1).
                  hp_TransactionID probe = transactionID);
                state2 = state1\<lparr>rt_HalfOpenProbes := probes,
                  rt_HalfOpenInFlight := int (length probes), rt_UpdatedAt := now\<rparr> in
            (Inr (state2, released), r\<lparr>mh_states := (mh_states r)(gateway \<mapsto> state2)\<rparr>)))"

definition MemHealth_RecordEvent :: "GatewayEvent \<Rightarrow> duration \<Rightarrow> (MemoryHealth, go_error, unit) proc" where
  "MemHealth_RecordEvent event retention r =
     (let cutoff = Add (ge_CreatedAt event) (neg_dur retention);
          retained = filter (\<lambda>existing. \<not> Before (ge_CreatedAt existing) cutoff) (mh_events r) in
      (Inr (), r\<lparr>mh_events := retained @ [event]\<rparr>))"

text \<open>The loop of \<open>StatsSince\<close>: the numbers of successes and failures among the events.\<close>

fun count_events :: "string \<Rightarrow> time \<Rightarrow> time \<Rightarrow> GatewayEvent list \<Rightarrow> int \<times> int \<Rightarrow> int \<times> int" where
  "count_events gateway since until [] (s, f) = (s, f)"
| "count_events gateway since until (e # es) (s, f) =
     (if ge_Gateway e = gateway \<and> \<not> Before (ge_CreatedAt e) since \<and> \<not> After (ge_CreatedAt e) until
      then (case ge_Status e of
              TransactionStatusSuccess \<Rightarrow> count_events gateway since until es (s + 1, f)
            | TransactionStatusFailure \<Rightarrow> count_events gateway since until es (s, f + 1)
            | _ \<Rightarrow> count_events gateway since until es (s, f))
      else count_events gateway since until es (s, f))"

text \<open>The end of both \<open>StatsSince\<close> methods: the total and the success rate.\<close>

definition stats_of_counts :: "string \<Rightarrow> int \<times> int \<Rightarrow> GatewayStats" where
  "stats_of_counts gateway counts = (let s = fst counts; f = snd counts; total = s + f in
     \<lparr>gs_Gateway = gateway, gs_Successes = s, gs_Failures = f, gs_Total = total,
      gs_SuccessRate = (if total > 0 then f64_div (f64_of_int s) (f64_of_int total) else Fin 0)\<rparr>)"

definition MemHealth_StatsSince :: "string \<Rightarrow> time \<Rightarrow> time \<Rightarrow> duration
    \<Rightarrow> (MemoryHealth, go_error, GatewayStats) proc" where
  "MemHealth_StatsSince gateway since until bucketSize r =
     (Inr (stats_of_counts gateway (count_events gateway since until (mh_events r) (0, 0))), r)"

definition MemHealth :: "MemoryHealth GatewayHealthRepository" where
  "MemHealth = \<lparr>hr_Ensure = MemHealth_Ensure, hr_Get = MemHealth_Get, hr_Save = MemHealth_Save,
     hr_PruneExpiredHalfOpenProbes = MemHealth_PruneExpiredHalfOpenProbes,
     hr_TryAcquireHalfOpenProbe = MemHealth_TryAcquireHalfOpenProbe,
     hr_ReleaseHalfOpenProbe = MemHealth_ReleaseHalfOpenProbe,
     hr_RecordEvent = MemHealth_RecordEvent, hr_StatsSince = MemHealth_StatsSince\<rparr>"

lemma MemHealth_simps [simp]:
  "hr_Ensure MemHealth = MemHealth_Ensure" "hr_Get MemHealth = MemHealth_Get"
  "hr_Save MemHealth = MemHealth_Save"
  "hr_PruneExpiredHalfOpenProbes MemHealth = MemHealth_PruneExpiredHalfOpenProbes"
  "hr_TryAcquireHalfOpenProbe MemHealth = MemHealth_TryAcquireHalfOpenProbe"
  "hr_ReleaseHalfOpenProbe MemHealth = MemHealth_ReleaseHalfOpenProbe"
  "hr_RecordEvent MemHealth = MemHealth_RecordEvent"
  "hr_StatsSince MemHealth = MemHealth_StatsSince"
  by (simp_all add: MemHealth_def)

lemmas MemHealth_probe_defs = MemHealth_PruneExpiredHalfOpenProbes_def
  MemHealth_TryAcquireHalfOpenProbe_def MemHealth_ReleaseHalfOpenProbe_def

lemmas MemHealth_store_defs = MemHealth_Ensure_def MemHealth_Get_def MemHealth_Save_def
  MemHealth_RecordEvent_def MemHealth_StatsSince_def

lemma prune_eq: "pruneExpiredHalfOpenProbes st now = with_probes (live_probes now st) st"
proof -
  have live: "live_probe now = (\<lambda>probe. hp_TransactionID probe \<noteq> '''' \<and>
      hp_ExpiresAtUnixMilli probe > UnixMilli now)"
    by (rule ext) (simp add: live_probe_def)
  show ?thesis
    by (simp add: pruneExpiredHalfOpenProbes_def with_probes_def live_probes_def live Let_def)
qed

text \<open>The probe operations on a gateway that has a state, over the live probes.\<close>

lemma MemHealth_Prune_Some:
  "mh_states r g = Some st \<Longrightarrow> MemHealth_PruneExpiredHalfOpenProbes g now r =
     (if rt_State st \<noteq> GatewayStateHalfOpen then (Inr st, r)
      else let st' = (with_probes (live_probes now st) st)\<lparr>rt_UpdatedAt := now\<rparr> in
           (Inr st', r\<lparr>mh_states := (mh_states r)(g \<mapsto> st')\<rparr>))"
  by (simp add: MemHealth_PruneExpiredHalfOpenProbes_def prune_eq)

lemma MemHealth_TryAcquire_Some:
  "mh_states r g = Some st \<Longrightarrow> MemHealth_TryAcquireHalfOpenProbe g tid maxn expires now r =
     (if rt_State st \<noteq> GatewayStateHalfOpen then (Inr (st, False), r)
      else if maxn \<le> int (length (live_probes now st)) then
        (let st' = with_probes (live_probes now st) st in
         (Inr (st', False), r\<lparr>mh_states := (mh_states r)(g \<mapsto> st')\<rparr>))
      else
        (let st' = (with_probes (live_probes now st @ [new_probe tid expires]) st)
               \<lparr>rt_UpdatedAt := now\<rparr> in
         (Inr (st', True), r\<lparr>mh_states := (mh_states r)(g \<mapsto> st')\<rparr>)))"
  by (simp add: MemHealth_TryAcquireHalfOpenProbe_def prune_eq Let_def with_probes_def new_probe_def)

lemma MemHealth_Release_Some:
  "mh_states r g = Some st \<Longrightarrow> MemHealth_ReleaseHalfOpenProbe g tid now r =
     (if rt_State st \<noteq> GatewayStateHalfOpen then (Inr (st, False), r)
      else
        (let st' = (with_probes (filter (\<lambda>p. hp_TransactionID p \<noteq> tid) (live_probes now st)) st)
               \<lparr>rt_UpdatedAt := now\<rparr> in
         (Inr (st', \<exists>p \<in> set (live_probes now st). hp_TransactionID p = tid),
          r\<lparr>mh_states := (mh_states r)(g \<mapsto> st')\<rparr>)))"
  by (simp add: MemHealth_ReleaseHalfOpenProbe_def prune_eq Let_def with_probes_def)

lemma MemHealth_probe_None:
  assumes "mh_states r g = None"
  shows "MemHealth_PruneExpiredHalfOpenProbes g now r = (Inl (gateway_not_found g), r)"
    "MemHealth_TryAcquireHalfOpenProbe g tid maxn expires now r = (Inl (gateway_not_found g), r)"
    "MemHealth_ReleaseHalfOpenProbe g tid now r = (Inl (gateway_not_found g), r)"
  using assms by (simp_all add: MemHealth_probe_defs)

lemma same_state_UpdatedAt [simp]: "same_state (a\<lparr>rt_UpdatedAt := now\<rparr>) a"
  by (simp add: same_state_def)

interpretation memhealth: local_health_repository MemHealth mh_states
proof (standard, goal_cases)
  case (1 g now h u h')
  then show ?case
    by (auto simp: MemHealth_Ensure_def initial_state_def split: option.splits)
next
  case (4 g now h st h')
  then show ?case
    by (cases "mh_states h g")
      (auto simp: MemHealth_probe_None MemHealth_Prune_Some Let_def map_upd_triv split: if_splits)
next
  case (5 g tid maxn expires now h st ok h')
  then show ?case
    by (cases "mh_states h g")
      (auto simp: MemHealth_probe_None MemHealth_TryAcquire_Some Let_def map_upd_triv split: if_splits)
next
  case (6 g tid now h st ok h')
  then show ?case
    by (cases "mh_states h g")
      (auto simp: MemHealth_probe_None MemHealth_Release_Some Let_def map_upd_triv split: if_splits)
next
  case (14 g now h e h')
  then show ?case
    by (cases "mh_states h g")
      (auto simp: MemHealth_probe_None MemHealth_Prune_Some Let_def split: if_splits)
next
  case (15 g tid maxn expires now h e h')
  then show ?case
    by (cases "mh_states h g")
      (auto simp: MemHealth_probe_None MemHealth_TryAcquire_Some Let_def split: if_splits)
next
  case (16 g tid now h e h')
  then show ?case
    by (cases "mh_states h g")
      (auto simp: MemHealth_probe_None MemHealth_Release_Some Let_def split: if_splits)
qed (auto simp: MemHealth_store_defs stats_of_counts_def Let_def split: option.splits)


text \<open>The quotient of two small counts.\<close>

lemma rate_of_counts:
  assumes "0 \<le> s" "0 \<le> f" "s + f < 2 ^ 53"
  shows "0 < s + f \<Longrightarrow> f64_div (f64_of_int s) (f64_of_int (s + f)) =
    Fin (rnd (of_int s / of_int (s + f)))"
proof -
  assume pos: "0 < s + f"
  have exact: "f64_of_int n = Fin (of_int n)" if "0 \<le> n" "n \<le> s + f" for n
  proof -
    have "n < 2 ^ 53" using that assms(3) by simp
    then have "(of_int n :: rat) \<le> of_int (2 ^ 53)" by (simp only: of_int_le_iff)
    then show ?thesis using that rnd_of_int [OF that(1) \<open>n < 2 ^ 53\<close>]
      by (simp add: f64_of_int_def round_f64_Fin)
  qed
  have "(of_int s / of_int (s + f) :: rat) \<le> 1" using assms pos by (simp add: divide_le_eq_1)
  moreover have "(0 :: rat) \<le> of_int s / of_int (s + f)" using assms by simp
  moreover have "(1 :: rat) \<le> 2 ^ 53" by simp
  ultimately have "round_f64 (of_int s / of_int (s + f)) = Fin (rnd (of_int s / of_int (s + f)))"
    by (intro round_f64_Fin) linarith+
  then show ?thesis using exact [of s] exact [of "s + f"] assms pos by simp
qed

section \<open>Properties\<close>

definition in_window :: "string \<Rightarrow> time \<Rightarrow> time \<Rightarrow> TransactionStatus \<Rightarrow> GatewayEvent \<Rightarrow> bool" where
  "in_window gateway since until status e \<longleftrightarrow> ge_Gateway e = gateway \<and> since \<le> ge_CreatedAt e \<and>
     ge_CreatedAt e \<le> until \<and> ge_Status e = status"

lemma count_events_eq:
  "count_events g since until es (s, f) =
     (s + int (length (filter (in_window g since until TransactionStatusSuccess) es)),
      f + int (length (filter (in_window g since until TransactionStatusFailure) es)))"
proof (induction es arbitrary: s f)
  case (Cons e es)
  then show ?case by (cases "ge_Status e") (simp_all add: in_window_def time_defs)
qed simp

definition window_count :: "MemoryHealth \<Rightarrow> string \<Rightarrow> time \<Rightarrow> time \<Rightarrow> TransactionStatus \<Rightarrow> int" where
  "window_count r gateway since until status =
     int (length (filter (in_window gateway since until status) (mh_events r)))"

text \<open>
  The statistics of a gateway count exactly the recorded successes and failures of that gateway
  between the two instants, both included; the success rate is 0 when there are none, and otherwise
  the quotient of the two counts rounded once to a float64, so it lies between 0 and 1.
\<close>
theorem StatsSince_counts:
  assumes "window_count r g since until TransactionStatusSuccess +
    window_count r g since until TransactionStatusFailure < 2 ^ 53"
  shows "\<exists>stats. MemHealth_StatsSince g since until b r = (Inr stats, r) \<and> gs_Gateway stats = g \<and>
    gs_Successes stats = window_count r g since until TransactionStatusSuccess \<and> gs_Failures stats = window_count r g since until TransactionStatusFailure \<and>
    gs_Total stats = gs_Successes stats + gs_Failures stats \<and>
    gs_SuccessRate stats = (if gs_Total stats = 0 then Fin 0
      else Fin (rnd (of_int (gs_Successes stats) / of_int (gs_Total stats)))) \<and>
    Fin 0 \<le> gs_SuccessRate stats \<and> gs_SuccessRate stats \<le> Fin 1"
proof -
  define s where "s = window_count r g since until TransactionStatusSuccess"
  define f where "f = window_count r g since until TransactionStatusFailure"
  have sf: "0 \<le> s" "0 \<le> f" "s + f < 2 ^ 53" using assms by (simp_all add: s_def f_def window_count_def)
  have run: "MemHealth_StatsSince g since until b r = (Inr (stats_of_counts g (s, f)), r)"
    by (simp add: MemHealth_StatsSince_def count_events_eq s_def f_def window_count_def)
  have fields: "gs_Gateway (stats_of_counts g (s, f)) = g" "gs_Successes (stats_of_counts g (s, f)) = s"
    "gs_Failures (stats_of_counts g (s, f)) = f" "gs_Total (stats_of_counts g (s, f)) = s + f"
    by (simp_all add: stats_of_counts_def Let_def)
  let ?q = "of_int s / of_int (s + f) :: rat"
  have rate: "gs_SuccessRate (stats_of_counts g (s, f)) = (if s + f = 0 then Fin 0 else Fin (rnd ?q))"
    using sf rate_of_counts [OF sf] by (auto simp: stats_of_counts_def)
  have "0 \<le> ?q" using sf by simp
  moreover have "?q \<le> 1"
  proof (cases "s + f = 0")
    case False
    with sf have "0 < (of_int (s + f) :: rat)" by (simp only: of_int_0_less_iff)
    with sf show ?thesis by (simp add: divide_le_eq_1)
  qed simp
  ultimately have "0 \<le> rnd ?q" "rnd ?q \<le> rnd 1" using rnd_nonneg [of ?q] rnd_mono [of ?q 1] by simp_all
  moreover have "rnd 1 = 1" by code_simp
  ultimately show ?thesis
    unfolding run using rate sf fields by (simp add: s_def [symmetric] f_def [symmetric])
qed

theorem StatsSince_counts_witness:
  "\<exists>stats. MemHealth_StatsSince ''payu'' 0 10 60 (MemHealth_New\<lparr>mh_events :=
      [\<lparr>ge_Gateway = ''payu'', ge_TransactionID = ''t'', ge_Status = TransactionStatusSuccess,
        ge_CreatedAt = 10\<rparr>]\<rparr>) = (Inr stats, MemHealth_New\<lparr>mh_events :=
      [\<lparr>ge_Gateway = ''payu'', ge_TransactionID = ''t'', ge_Status = TransactionStatusSuccess,
        ge_CreatedAt = 10\<rparr>]\<rparr>) \<and> gs_Successes stats = 1"
  using StatsSince_counts [of "MemHealth_New\<lparr>mh_events :=
      [\<lparr>ge_Gateway = ''payu'', ge_TransactionID = ''t'', ge_Status = TransactionStatusSuccess,
        ge_CreatedAt = 10\<rparr>]\<rparr>" "''payu''" 0 10 60]
  by (auto simp: window_count_def in_window_def)

text \<open>
  Recording an event may forget older events, but never one that a window ending at or after the
  new event and no longer than the retention can see: the counts in such a window are those of the
  full history.
\<close>
theorem RecordEvent_keeps_window:
  assumes "MemHealth_RecordEvent e retention r = (Inr u, r')" "in64 retention" "0 \<le> retention"
    and "ge_CreatedAt e - retention \<le> since"
  shows "window_count r' g since until st =
    window_count (r\<lparr>mh_events := mh_events r @ [e]\<rparr>) g since until st"
proof -
  have neg: "neg_dur retention = - retention"
    using assms(2,3) by (simp add: neg_dur_def in64_def)
  have "filter (in_window g since until st) (filter (\<lambda>x. \<not> Before (ge_CreatedAt x)
      (Add (ge_CreatedAt e) (neg_dur retention))) (mh_events r)) =
    filter (in_window g since until st) (mh_events r)"
    unfolding filter_filter using assms(4) by (intro filter_cong) (auto simp: in_window_def neg time_defs)
  with assms(1) show ?thesis by (auto simp: MemHealth_RecordEvent_def window_count_def Let_def)
qed

theorem RecordEvent_keeps_window_witness:
  "window_count (snd (MemHealth_RecordEvent \<lparr>ge_Gateway = ''payu'', ge_TransactionID = ''t'',
      ge_Status = TransactionStatusSuccess, ge_CreatedAt = 100\<rparr> 20 MemHealth_New)) ''payu'' 90 100
      TransactionStatusSuccess =
   window_count (MemHealth_New\<lparr>mh_events := mh_events MemHealth_New @ [\<lparr>ge_Gateway = ''payu'',
      ge_TransactionID = ''t'', ge_Status = TransactionStatusSuccess, ge_CreatedAt = 100\<rparr>]\<rparr>)
      ''payu'' 90 100 TransactionStatusSuccess"
  by (rule RecordEvent_keeps_window [where retention = 20 and u = "()"])
    (simp_all add: MemHealth_RecordEvent_def Let_def in64_def)

text \<open>
  C37: rounding the success rate never trips a gateway that meets its threshold: if the exact quotient
  of the counts is at least the threshold, a float64 value, the computed rate is not below it.
\<close>
theorem threshold_met_no_trip:
  assumes "0 \<le> s" "0 \<le> f" "0 < s + f" "s + f < 2 ^ 53"
    and "rnd t = t" "0 \<le> t" "t \<le> of_int s / of_int (s + f)"
  shows "\<not> gs_SuccessRate (stats_of_counts g (s, f)) < Fin t"
proof -
  have "t \<le> rnd (of_int s / of_int (s + f))" using rnd_mono [OF assms(6,7)] assms(5) by simp
  then show ?thesis using rate_of_counts [OF assms(1,2,4,3)] assms(3) by (simp add: stats_of_counts_def)
qed

theorem threshold_met_no_trip_witness:
  "\<not> gs_SuccessRate (stats_of_counts ''payu'' (1, 1)) < Fin (1 / 2)"
proof (rule threshold_met_no_trip)
  show "rnd (1 / 2) = 1 / 2" by code_simp
qed simp_all

text \<open>
  A probe is admitted only while fewer live probes than the configured number are in flight, so
  after every attempt to acquire one that number is at most the maximum, or what it was before
  minus the expired probes; a probe that was admitted holds exactly one more slot.
\<close>
theorem TryAcquire_bound:
  assumes "MemHealth_TryAcquireHalfOpenProbe g tid maxn expires now r = (Inr (st', ok), r')"
    and "mh_states r g = Some st" "rt_State st = GatewayStateHalfOpen"
  shows "mh_states r' g = Some st' \<and> rt_HalfOpenInFlight st' = int (length (rt_HalfOpenProbes st')) \<and>
    (ok \<longleftrightarrow> int (length (live_probes now st)) < maxn) \<and>
    rt_HalfOpenInFlight st' \<le> max maxn (int (length (live_probes now st))) \<and>
    rt_HalfOpenProbes st' = live_probes now st @ (if ok then [new_probe tid expires] else [])"
  using assms(1) MemHealth_TryAcquire_Some [OF assms(2), of tid maxn expires now] assms(3)
  by (auto simp: Let_def with_probes_def split: if_splits)

theorem TryAcquire_bound_witness:
  "\<exists>st' ok r'. MemHealth_TryAcquireHalfOpenProbe ''payu'' ''t'' 1 100 5 (MemHealth_New\<lparr>mh_states :=
      [''payu'' \<mapsto> (initial_state ''payu'' 0)\<lparr>rt_State := GatewayStateHalfOpen\<rparr>]\<rparr>) =
     (Inr (st', ok), r') \<and> rt_HalfOpenInFlight st' \<le> 1"
proof -
  let ?st = "(initial_state ''payu'' 0)\<lparr>rt_State := GatewayStateHalfOpen\<rparr>"
  let ?r = "MemHealth_New\<lparr>mh_states := [''payu'' \<mapsto> ?st]\<rparr>"
  obtain st' ok r' where run: "MemHealth_TryAcquireHalfOpenProbe ''payu'' ''t'' 1 100 5 ?r = (Inr (st', ok), r')"
    by (simp add: MemHealth_TryAcquireHalfOpenProbe_def pruneExpiredHalfOpenProbes_def initial_state_def Let_def)
  from TryAcquire_bound [OF this, of ?st] have "rt_HalfOpenInFlight st' \<le> 1"
    by (simp add: live_probes_def initial_state_def)
  with run show ?thesis by blast
qed

end
