(* ===== verification/HealthMachine.thy ===== *)
theory HealthMachine
  imports HealthService MemoryHealth
begin

text \<open>
  The health service as a state machine. \<open>health_inv\<close> is its invariant over any repository that
  meets the contract; \<open>health_edge\<close> is the diagram of the README with the guard of each edge. The
  memory repository never fails, so on it every method moves every gateway along the diagram and
  keeps the invariant.
\<close>

section \<open>The invariant\<close>

definition health_inv :: "('h \<Rightarrow> string \<rightharpoonup> GatewayRuntimeState) \<Rightarrow> ('h, 'z) HealthService_scheme \<Rightarrow> bool" where
  "health_inv states s \<longleftrightarrow> wf_states (states (hs_repository s)) \<and>
     coherent (states (hs_repository s)) (hs_stateCache s)"

lemma health_invD:
  assumes "health_inv states s"
  shows "wf_states (states (hs_repository s))" "coherent (states (hs_repository s)) (hs_stateCache s)"
  using assms by (simp_all add: health_inv_def)

lemma health_inv_put:
  assumes "health_inv states s" "wf_gateway g st"
    and "states (hs_repository s') = (states (hs_repository s))(g \<mapsto> st)"
    and "hs_stateCache s' = cache_put s g st now"
  shows "health_inv states s'"
  using assms by (simp add: health_inv_def wf_states_upd coherent_put)

lemma health_inv_upd [simp]:
  "health_inv states (s\<lparr>env_ticks := n\<rparr>) = health_inv states s"
  "health_inv states (s\<lparr>env_reads := n\<rparr>) = health_inv states s"
  "health_inv states (s\<lparr>env_issued := n\<rparr>) = health_inv states s"
  by (simp_all add: health_inv_def)

section \<open>The diagram\<close>

text \<open>
  \<open>health_edge now st st'\<close>: the moves a gateway may make at the instant \<open>now\<close>. In the half-open
  state the probes change freely here; a trip out of it needs a live probe.
\<close>

inductive health_edge :: "time \<Rightarrow> GatewayRuntimeState \<Rightarrow> GatewayRuntimeState \<Rightarrow> bool"
  for now st st' where
  healthy: "rt_State st = GatewayStateHealthy \<Longrightarrow> rt_State st' = GatewayStateHealthy \<Longrightarrow>
     health_edge now st st'"
| trip: "rt_State st = GatewayStateHealthy \<Longrightarrow> rt_State st' = GatewayStateUnhealthy \<Longrightarrow>
     health_edge now st st'"
| cooling: "rt_State st = GatewayStateUnhealthy \<Longrightarrow> rt_State st' = GatewayStateUnhealthy \<Longrightarrow>
     rt_UnhealthyUntil st' = rt_UnhealthyUntil st \<Longrightarrow> health_edge now st st'"
| cooled: "rt_State st = GatewayStateUnhealthy \<Longrightarrow> rt_State st' = GatewayStateHalfOpen \<Longrightarrow>
     rt_UnhealthyUntil st \<le> now \<or> IsZero (rt_UnhealthyUntil st) \<Longrightarrow> health_edge now st st'"
| probing: "rt_State st = GatewayStateHalfOpen \<Longrightarrow> rt_State st' = GatewayStateHalfOpen \<Longrightarrow>
     health_edge now st st'"
| recover: "rt_State st = GatewayStateHalfOpen \<Longrightarrow> rt_State st' = GatewayStateHealthy \<Longrightarrow>
     live_probes now st \<noteq> [] \<Longrightarrow> health_edge now st st'"
| relapse: "rt_State st = GatewayStateHalfOpen \<Longrightarrow> rt_State st' = GatewayStateUnhealthy \<Longrightarrow>
     live_probes now st \<noteq> [] \<Longrightarrow> health_edge now st st'"

inductive_simps health_edge_iff: "health_edge now st st'"

lemma health_edge_refl: "wf_gateway g st \<Longrightarrow> health_edge now st st"
  by (cases "rt_State st") (auto simp: health_edge_iff wf_gateway_def)

lemma health_edge_same: "same_state b b' \<Longrightarrow> health_edge now a b = health_edge now a b'"
  using same_stateD [of b b'] by (simp add: health_edge_iff)

lemma is_probe_live: "is_probe now tid st \<Longrightarrow> live_probes now st \<noteq> []"
  by (auto simp: is_probe_def)

lemma health_edge_next:
  assumes "wf_gateway g st"
  shows "health_edge now st (next_state routing now tid status stats st)"
  using assms is_probe_live [of now tid st]
  by (cases "rt_State st") (auto simp: health_edge_iff next_state_def Before_def wf_gateway_def)

lemma health_edge_with_probes:
  "rt_State st = GatewayStateHalfOpen \<Longrightarrow> health_edge now st (with_probes ps st)"
  by (simp add: health_edge_iff)

text \<open>The moves that routing alone makes: the end of a cooldown and changes of the probes.\<close>

inductive route_edge :: "time \<Rightarrow> GatewayRuntimeState \<Rightarrow> GatewayRuntimeState \<Rightarrow> bool" for now st st' where
  same: "rt_State st' = rt_State st \<Longrightarrow> rt_UnhealthyUntil st' = rt_UnhealthyUntil st \<Longrightarrow>
     route_edge now st st'"
| cooled: "rt_State st = GatewayStateUnhealthy \<Longrightarrow> rt_State st' = GatewayStateHalfOpen \<Longrightarrow>
     rt_UnhealthyUntil st \<le> now \<Longrightarrow> rt_UnhealthyUntil st' = rt_UnhealthyUntil st \<Longrightarrow>
     route_edge now st st'"

inductive_simps route_edge_iff: "route_edge now st st'"

lemma route_edge_refl [simp]: "route_edge now st st"
  by (rule route_edge.same) simp_all

lemma route_edge_trans:
  "route_edge t a b \<Longrightarrow> route_edge u b c \<Longrightarrow> t \<le> v \<Longrightarrow> u \<le> v \<Longrightarrow> route_edge v a c"
  by (auto simp: route_edge_iff)

lemma route_edge_mono: "route_edge t a b \<Longrightarrow> t \<le> v \<Longrightarrow> route_edge v a b"
  by (auto simp: route_edge_iff)

lemma route_edge_health: "wf_gateway g a \<Longrightarrow> route_edge now a b \<Longrightarrow> health_edge now a b"
  by (cases "rt_State a") (auto simp: route_edge_iff health_edge_iff wf_gateway_def)

lemma route_edge_same: "same_state b b' \<Longrightarrow> route_edge now a b = route_edge now a b'"
  using same_stateD [of b b'] by (simp add: route_edge_iff)

lemma route_edge_with_probes [simp]: "route_edge now st (with_probes ps st)"
  by (simp add: route_edge_iff)

lemma route_edge_pruned [simp]: "route_edge now st (pruned now st)"
  by (simp add: pruned_def)

lemma route_edge_without_probe [simp]: "route_edge now st (without_probe t tid st)"
  by (simp add: without_probe_def)

lemma route_edge_prepared: "route_edge now st (prepared now st)"
  by (auto simp: prepared_def pruned_def cooled_down_def route_edge_iff Before_def)

text \<open>Two collections of states related gateway by gateway; a gateway without a state is new.\<close>

definition route_moves :: "time \<Rightarrow> (string \<rightharpoonup> GatewayRuntimeState) \<Rightarrow> (string \<rightharpoonup> GatewayRuntimeState) \<Rightarrow> bool" where
  "route_moves now m m' \<longleftrightarrow> (\<forall>g. case m g of
      None \<Rightarrow> (case m' g of None \<Rightarrow> True | Some st' \<Rightarrow> rt_State st' = GatewayStateHealthy)
    | Some st \<Rightarrow> (case m' g of None \<Rightarrow> False | Some st' \<Rightarrow> route_edge now st st'))"

lemma route_moves_refl [simp]: "route_moves now m m"
  by (simp add: route_moves_def split: option.split)

lemma route_moves_trans:
  assumes "route_moves t m1 m2" "route_moves u m2 m3" "t \<le> v" "u \<le> v"
  shows "route_moves v m1 m3"
  unfolding route_moves_def
proof
  fix g
  from assms(1,2) have "case m1 g of
      None \<Rightarrow> (case m2 g of None \<Rightarrow> True | Some st' \<Rightarrow> rt_State st' = GatewayStateHealthy)
    | Some st \<Rightarrow> (case m2 g of None \<Rightarrow> False | Some st' \<Rightarrow> route_edge t st st')"
    "case m2 g of
      None \<Rightarrow> (case m3 g of None \<Rightarrow> True | Some st' \<Rightarrow> rt_State st' = GatewayStateHealthy)
    | Some st \<Rightarrow> (case m3 g of None \<Rightarrow> False | Some st' \<Rightarrow> route_edge u st st')"
    by (auto simp: route_moves_def)
  then show "case m1 g of
      None \<Rightarrow> (case m3 g of None \<Rightarrow> True | Some st' \<Rightarrow> rt_State st' = GatewayStateHealthy)
    | Some st \<Rightarrow> (case m3 g of None \<Rightarrow> False | Some st' \<Rightarrow> route_edge v st st')"
    using assms(3,4) by (auto split: option.splits simp: route_edge_iff)
qed

lemma route_moves_entry:
  assumes "route_edge now (entry m g t) st"
  shows "route_moves now m (m(g \<mapsto> st))"
proof (cases "m g")
  case None
  with assms have "rt_State st = GatewayStateHealthy" by (auto simp: route_edge_iff)
  with None show ?thesis by (auto simp: route_moves_def split: option.split)
next
  case (Some a)
  with assms show ?thesis by (auto simp: route_moves_def split: option.split)
qed


section \<open>Every method keeps the invariant and moves along the diagram\<close>

context local_health_repository
begin

lemma PrepareForRouting_never_fails:
  assumes inv: "health_inv states s"
  shows "PrepareForRouting R g routing s \<noteq> (Inl er, s')"
proof
  define now where "now = env_clock s (env_ticks s)"
  define s0 where "s0 = s\<lparr>env_ticks := Suc (env_ticks s)\<rparr>"
  assume "PrepareForRouting R g routing s = (Inl er, s')"
  then obtain st1 s1 st2 h2 h3 where c: "cachedState R g now s0 = (Inr st1, s1)"
    and s2: "states h2 = (states (hs_repository s1))(rt_Gateway st1 \<mapsto> st2) \<or>
      states h2 = states (hs_repository s1)"
    and p: "hr_PruneExpiredHalfOpenProbes R g now h2 = (Inl er, h3)"
    unfolding PrepareForRouting_def andThen_Now now_def s0_def
    by (auto simp: Let_def on_repo_Inr on_repo_Inl never_fails cachedState_never_fails
        elim!: andThen_Inl andThen_Inr split: if_splits dest!: Save_ok) metis+
  from health_invD [OF inv] cachedState_ok [OF c]
  have "states (hs_repository s1) g = Some st1" by (auto simp: s0_def)
  with s2 Prune_total [OF p] show False by (auto split: if_splits)
qed

lemma PrepareForRouting_runs:
  fixes s :: "('h, 'z) HealthService_scheme"
  defines "m \<equiv> states (hs_repository s)" and "now \<equiv> env_clock s (env_ticks s)"
  assumes inv: "health_inv states s"
  shows "\<exists>st s'. PrepareForRouting R g routing s = (Inr st, s') \<and>
    same_state st (prepared now (entry m g now)) \<and> states (hs_repository s') = m(g \<mapsto> st) \<and>
    health_inv states s' \<and> health_frame s s' \<and>
    env_ticks s' = Suc (env_ticks s) \<and> env_reads s' = env_reads s"
proof -
  obtain r s' where run: "PrepareForRouting R g routing s = (r, s')" by fastforce
  with PrepareForRouting_never_fails [OF inv] obtain st where r: "r = Inr st"
    by (cases r) auto
  note ok = PrepareForRouting_ok [OF run [unfolded r] health_invD [OF inv]]
  have "wf_gateway g st"
    using ok wf_same_state [of st] wf_prepared [OF wf_entry [OF health_invD(1) [OF inv]]]
    by (auto simp: now_def)
  then have "health_inv states s'"
    using ok inv health_inv_put [OF inv, of g st s' now]
    by (auto simp: now_def health_inv_def wf_states_upd)
  then show ?thesis using run r ok by (auto simp: m_def now_def)
qed

lemma MarkProbeSelected_any:
  fixes s :: "('h, 'z) HealthService_scheme"
  defines "m \<equiv> states (hs_repository s)" and "now \<equiv> env_clock s (env_ticks s)"
  assumes run: "MarkProbeSelected R g tid s = (r, s')" and inv: "health_inv states s"
  shows "health_inv states s' \<and> health_frame s s' \<and>
    route_moves now m (states (hs_repository s')) \<and>
    env_ticks s' = Suc (env_ticks s) \<and> env_reads s' = Suc (env_reads s)"
proof -
  define routing where "routing = ac_Routing (WithDefaults (env_config s (env_reads s)))"
  obtain a h1 where acq: "hr_TryAcquireHalfOpenProbe R g tid (rc_HalfOpenProbeCount routing)
        (Add now (Duration (rc_HalfOpenProbeTimeoutSeconds routing) Second)) now
        (hs_repository s) = (a, h1)" by fastforce
  show ?thesis
  proof (cases a)
    case (Inl er)
    with acq TryAcquire_total have "h1 = hs_repository s" by blast
    with Inl acq run inv show ?thesis
      by (auto simp: MarkProbeSelected_def Let_def andThen_def on_repo_def now_def routing_def
          ConfigProvider_Current_def Clock_Now_def m_def)
  next
    case (Inr p)
    obtain st ok where p: "p = (st, ok)" by fastforce
    have s': "s' = s\<lparr>env_reads := Suc (env_reads s), env_ticks := Suc (env_ticks s),
        hs_repository := h1, hs_stateCache := cache_put s (rt_Gateway st) st now\<rparr>"
      using run acq Inr p
      by (cases ok) (simp_all add: MarkProbeSelected_def Let_def now_def routing_def
          andThen_on_repo)
    from TryAcquire_ok [OF acq [unfolded Inr p]] obtain st0 where st0: "m g = Some st0"
      and m1: "states h1 = m(g \<mapsto> st)" and st: "same_state st
          (if rt_State st0 \<noteq> GatewayStateHalfOpen then st0
           else if ok then with_probes (live_probes now st0 @ [new_probe tid
             (Add now (Duration (rc_HalfOpenProbeTimeoutSeconds routing) Second))]) st0
           else with_probes (live_probes now st0) st0)"
      unfolding m_def by blast
    have wf0: "wf_gateway g st0" using wf_statesD [OF health_invD(1) [OF inv]] st0 m_def by blast
    have wf: "wf_gateway g st"
      using wf_same_state [OF st] wf0 by (auto simp: wf_with_probes split: if_splits)
    have edge: "route_edge now st0 st"
      by (subst route_edge_same [OF st]) auto
    with st0 have "route_moves now m (m(g \<mapsto> st))" by (intro route_moves_entry [of _ _ _ now]) simp
    moreover have "health_inv states s'"
      by (rule health_inv_put [OF inv wf]) (use m1 s' wf_gateway_Gateway [OF wf] m_def in auto)
    ultimately show ?thesis using s' m1 by simp
  qed
qed

lemma ReleaseProbe_any:
  fixes s :: "('h, 'z) HealthService_scheme"
  defines "m \<equiv> states (hs_repository s)" and "now \<equiv> env_clock s (env_ticks s)"
  assumes run: "ReleaseProbe R g tid s = (r, s')" and inv: "health_inv states s"
  shows "health_inv states s' \<and> health_frame s s' \<and>
    route_moves now m (states (hs_repository s')) \<and>
    env_ticks s' = Suc (env_ticks s) \<and> env_reads s' = env_reads s"
proof (cases r)
  case (Inl er)
  with run obtain h1 where "hr_ReleaseHalfOpenProbe R g tid now (hs_repository s) = (Inl er, h1)"
    and s': "s' = s\<lparr>env_ticks := Suc (env_ticks s), hs_repository := h1\<rparr>"
    by (auto simp: ReleaseProbe_def on_repo_Inl now_def elim!: andThen_Inl)
  with Release_total have "h1 = hs_repository s" by blast
  with s' inv show ?thesis by (simp add: m_def)
next
  case (Inr u)
  note wf = health_invD(1) [OF inv]
  from ReleaseProbe_ok [OF run [unfolded Inr] wf] obtain st0 st where st0: "m g = Some st0"
    and st: "same_state st
      (if rt_State st0 = GatewayStateHalfOpen then without_probe now tid st0 else st0)"
    and m1: "states (hs_repository s') = m(g \<mapsto> st)" "hs_stateCache s' = cache_put s g st now"
    and rest: "health_frame s s'" "env_ticks s' = Suc (env_ticks s)" "env_reads s' = env_reads s"
    unfolding m_def now_def by blast
  have wf0: "wf_gateway g st0" using wf_statesD [OF wf] st0 m_def by blast
  have "wf_gateway g st"
    using wf_same_state [OF st] wf0 by (auto simp: wf_with_probes without_probe_def split: if_splits)
  then have "health_inv states s'" using m1 by (intro health_inv_put [OF inv]) (auto simp: m_def)
  moreover have "route_edge now st0 st" by (subst route_edge_same [OF st]) auto
  with st0 have "route_moves now m (m(g \<mapsto> st))" by (intro route_moves_entry [of _ _ _ now]) simp
  ultimately show ?thesis using m1 rest by simp
qed

lemma State_runs:
  fixes s :: "('h, 'z) HealthService_scheme"
  defines "m \<equiv> states (hs_repository s)" and "now \<equiv> env_clock s (env_ticks s)"
  assumes inv: "health_inv states s"
  shows "\<exists>st s'. HealthService_State R g s = (Inr st, s') \<and>
    same_state st (pruned now (entry m g now)) \<and> states (hs_repository s') = m(g \<mapsto> st) \<and>
    health_inv states s' \<and> health_frame s s' \<and>
    env_ticks s' = Suc (env_ticks s) \<and> env_reads s' = env_reads s"
proof -
  obtain r s' where run: "HealthService_State R g s = (r, s')" by fastforce
  with State_never_fails obtain st where r: "r = Inr st" by (cases r) auto
  note ok = State_ok [OF run [unfolded r] health_invD(1) [OF inv]]
  have "wf_gateway g st"
    using ok wf_same_state [of st] wf_pruned [OF wf_entry [OF health_invD(1) [OF inv]]]
    by (auto simp: now_def)
  then have "health_inv states s'" using ok by (intro health_inv_put [OF inv]) auto
  then show ?thesis using run r ok by (auto simp: m_def now_def)
qed

lemma Stats_runs:
  fixes s :: "('h, 'z) HealthService_scheme"
  assumes inv: "health_inv states s"
  shows "\<exists>stats s'. HealthService_Stats R g s = (Inr stats, s') \<and>
    states (hs_repository s') = states (hs_repository s) \<and> gs_Gateway stats = g \<and>
    health_inv states s' \<and> health_frame s s' \<and>
    env_ticks s' = Suc (env_ticks s) \<and> env_reads s' = Suc (env_reads s)"
proof -
  obtain r s' where run: "HealthService_Stats R g s = (r, s')" by fastforce
  with Stats_never_fails obtain st where r: "r = Inr st" by (cases r) auto
  note ok = Stats_ok [OF run [unfolded r]]
  then have "health_inv states s'" using inv by (simp add: health_inv_def)
  then show ?thesis using run r ok by auto
qed

lemma RecordOutcome_runs:
  fixes s :: "('h, 'z) HealthService_scheme"
  defines "m \<equiv> states (hs_repository s)" and "now \<equiv> env_clock s (env_ticks s)"
    and "routing \<equiv> ac_Routing (WithDefaults (env_config s (env_reads s)))"
  assumes inv: "health_inv states s"
  shows "\<exists>st stats s'. HealthService_RecordOutcome R g tid status s = (Inr (st, stats), s') \<and>
    same_state st (next_state routing now tid status stats (entry m g now)) \<and>
    health_edge now (entry m g now) st \<and> gs_Gateway stats = g \<and>
    states (hs_repository s') = m(g \<mapsto> st) \<and> health_inv states s' \<and> health_frame s s' \<and>
    env_ticks s' = Suc (env_ticks s) \<and> env_reads s' = Suc (env_reads s)"
proof -
  obtain r s' where run: "HealthService_RecordOutcome R g tid status s = (r, s')" by fastforce
  then obtain p where p: "r = Inr p"
    using RecordOutcome_never_fails [of g tid status s] by (cases r) auto
  obtain st stats where r: "r = Inr (st, stats)" by (cases p) (simp add: p)
  have wf: "wf_gateway g (entry m g now)" by (simp add: wf_entry health_invD(1) [OF inv] m_def)
  note ok = RecordOutcome_ok [OF run [unfolded r] wf_gateway_Gateway [OF wf [unfolded m_def now_def]]]
  have "wf_gateway g st"
    using ok wf_same_state [of st] wf_next_state [OF wf] by (auto simp: m_def now_def)
  then have "health_inv states s'" using ok by (intro health_inv_put [OF inv]) auto
  moreover have "health_edge now (entry m g now) st"
    using ok health_edge_next [OF wf, of now routing tid status stats] health_edge_same
    by (auto simp: m_def now_def routing_def)
  ultimately show ?thesis using run r ok by (auto simp: m_def now_def routing_def)
qed

end


section \<open>Properties\<close>

text \<open>What the memory repository holds when the statistics of an outcome are computed.\<close>

definition retained :: "RoutingConfig \<Rightarrow> time \<Rightarrow> GatewayEvent list \<Rightarrow> GatewayEvent list" where
  "retained routing now es =
     filter (\<lambda>e. \<not> Before (ge_CreatedAt e) (Add now (neg_dur (retention_of routing)))) es"

lemma switchOutcome_stats:
  "switchOutcome R routing now g tid status stats st0 s = (Inr (st, stats'), s') \<Longrightarrow> stats' = stats"
  by (auto simp: switchOutcome_def saveOutcome_def elim!: andThen_Inr split: GatewayState.splits if_splits)

lemma RecordOutcome_stats:
  fixes s :: "(MemoryHealth, 'z) HealthService_scheme"
  defines "now \<equiv> env_clock s (env_ticks s)"
    and "routing \<equiv> ac_Routing (WithDefaults (env_config s (env_reads s)))"
  assumes run: "HealthService_RecordOutcome MemHealth g tid status s = (Inr (st, stats), s')"
    and final: "IsFinal status"
  shows "stats = stats_of_counts g (count_events g (windowStart routing now) now
    (retained routing now (mh_events (hs_repository s)) @
      [\<lparr>ge_Gateway = g, ge_TransactionID = tid, ge_Status = status, ge_CreatedAt = now\<rparr>]) (0, 0))"
proof -
  define ev where "ev = \<lparr>ge_Gateway = g, ge_TransactionID = tid, ge_Status = status, ge_CreatedAt = now\<rparr>"
  define h1 where "h1 = snd (MemHealth_Ensure g now (hs_repository s))"
  define h2 where "h2 = snd (MemHealth_RecordEvent ev (retention_of routing) h1)"
  have h1: "MemHealth_Ensure g now (hs_repository s) = (Inr (), h1)"
    "mh_events h1 = mh_events (hs_repository s)"
    "mh_states h1 g = Some (entry (mh_states (hs_repository s)) g now)"
    by (auto simp: h1_def MemHealth_Ensure_def entry_def initial_state_def split: option.splits)
  have h2: "MemHealth_RecordEvent ev (retention_of routing) h1 = (Inr (), h2)"
    "mh_states h2 = mh_states h1"
    "mh_events h2 = retained routing now (mh_events (hs_repository s)) @ [ev]"
    by (simp_all add: h2_def MemHealth_RecordEvent_def Let_def retained_def ev_def h1)
  let ?st0 = "entry (mh_states (hs_repository s)) g now"
  let ?stats = "stats_of_counts g (count_events g (windowStart routing now) now (mh_events h2) (0, 0))"
  let ?s1 = "s\<lparr>env_ticks := Suc (env_ticks s), env_reads := Suc (env_reads s), hs_repository := h2\<rparr>"
  have get: "MemHealth_Get g h2 = (Inr ?st0, h2)" by (simp add: MemHealth_Get_def h1(3) h2(2))
  have since: "MemHealth_StatsSince g (windowStart routing now) now Minute h2 = (Inr ?stats, h2)"
    by (simp add: MemHealth_StatsSince_def)
  have "HealthService_RecordOutcome MemHealth g tid status s =
      switchOutcome MemHealth routing now g tid status ?stats ?st0 ?s1"
    using final h1(1) h2(1) get since
    by (simp add: HealthService_RecordOutcome_def now_def [symmetric] routing_def [symmetric]
      andThen_on_repo ev_def [symmetric])
  with run have "switchOutcome MemHealth routing now g tid status ?stats ?st0 ?s1 = (Inr (st, stats), s')"
    by simp
  then have "stats = ?stats" by (rule switchOutcome_stats)
  then show ?thesis by (simp add: h2(3) ev_def)
qed

text \<open>
  C19: over the memory repository, recording an outcome always succeeds and is one step of the health
  machine: the new state of the gateway is the specified successor of its old state (the initial
  healthy state if it had none), up to the time of its last update, under the statistics of the
  window that ends now, with this outcome counted; no other gateway changes.
\<close>
theorem RecordOutcome_refines:
  fixes s :: "(MemoryHealth, 'z) HealthService_scheme"
  defines "now \<equiv> env_clock s (env_ticks s)" and "m \<equiv> mh_states (hs_repository s)"
    and "routing \<equiv> ac_Routing (WithDefaults (env_config s (env_reads s)))"
  assumes "health_inv mh_states s" "IsFinal status"
  shows "\<exists>st stats s'. HealthService_RecordOutcome MemHealth g tid status s = (Inr (st, stats), s') \<and>
    stats = stats_of_counts g (count_events g (windowStart routing now) now
      (retained routing now (mh_events (hs_repository s)) @
        [\<lparr>ge_Gateway = g, ge_TransactionID = tid, ge_Status = status, ge_CreatedAt = now\<rparr>]) (0, 0)) \<and>
    same_state st (next_state routing now tid status stats (entry m g now)) \<and>
    mh_states (hs_repository s') = m(g \<mapsto> st) \<and> health_inv mh_states s'"
  using memhealth.RecordOutcome_runs [OF assms(4), of g tid status]
    RecordOutcome_stats [OF _ assms(5), of g tid] unfolding now_def m_def routing_def by metis

text \<open>
  A callback whose transaction holds no live probe of a half-open gateway leaves the gateway
  half-open with exactly its live probes, whatever the outcome was.
\<close>
theorem stale_outcome_keeps_probes:
  fixes s :: "(MemoryHealth, 'z) HealthService_scheme"
  defines "now \<equiv> env_clock s (env_ticks s)"
  assumes "health_inv mh_states s" "mh_states (hs_repository s) g = Some st0"
    and "rt_State st0 = GatewayStateHalfOpen"
    and "tid \<notin> hp_TransactionID ` set (live_probes now st0)"
  shows "\<exists>st stats s'. HealthService_RecordOutcome MemHealth g tid status s = (Inr (st, stats), s') \<and>
    rt_State st = GatewayStateHalfOpen \<and> rt_HalfOpenProbes st = live_probes now st0 \<and>
    mh_states (hs_repository s') g = Some st"
proof -
  have "\<not> is_probe now tid st0" using assms(5) by (auto simp: is_probe_def)
  moreover have "filter (\<lambda>p. hp_TransactionID p \<noteq> tid) (live_probes now st0) = live_probes now st0"
    using assms(5) by (intro filter_True) auto
  ultimately have "next_state r now tid status x st0 = with_probes (live_probes now st0) st0" for r x
    using assms(4) by (simp add: next_state_def without_probe_def)
  then show ?thesis
    using memhealth.RecordOutcome_runs [OF assms(2), of g tid status] assms(3,4)
    by (fastforce simp: now_def dest: same_stateD)
qed

text \<open>
  Preparing a gateway for routing makes it half-open exactly when it already was, or when it was
  unhealthy and the end of its cooldown is reached; a healthy gateway stays healthy, and the probes
  that remain are the live ones.
\<close>
theorem PrepareForRouting_cooldown:
  fixes s :: "(MemoryHealth, 'z) HealthService_scheme"
  defines "now \<equiv> env_clock s (env_ticks s)"
  assumes "health_inv mh_states s" "mh_states (hs_repository s) g = Some st0"
  shows "\<exists>st s'. PrepareForRouting MemHealth g routing s = (Inr st, s') \<and>
    (rt_State st = GatewayStateHalfOpen \<longleftrightarrow> rt_State st0 = GatewayStateHalfOpen \<or>
       (rt_State st0 = GatewayStateUnhealthy \<and> \<not> IsZero (rt_UnhealthyUntil st0) \<and>
        rt_UnhealthyUntil st0 \<le> now)) \<and>
    (rt_State st = GatewayStateHealthy \<longleftrightarrow> rt_State st0 = GatewayStateHealthy) \<and>
    rt_HalfOpenProbes st = live_probes now st0 \<and> mh_states (hs_repository s') g = Some st"
proof -
  from memhealth.PrepareForRouting_runs [OF assms(2), of g routing] assms(3)
  obtain st s' where run: "PrepareForRouting MemHealth g routing s = (Inr st, s')"
    "same_state st (prepared now st0)" "mh_states (hs_repository s') = (mh_states (hs_repository s))(g \<mapsto> st)"
    by (auto simp: now_def)
  have wf: "wf_gateway g st0" by (rule wf_statesD [OF health_invD(1) [OF assms(2)] assms(3)])
  have "(rt_State (prepared now st0) = GatewayStateHalfOpen \<longleftrightarrow> rt_State st0 = GatewayStateHalfOpen \<or>
       (rt_State st0 = GatewayStateUnhealthy \<and> \<not> IsZero (rt_UnhealthyUntil st0) \<and>
        rt_UnhealthyUntil st0 \<le> now)) \<and>
    (rt_State (prepared now st0) = GatewayStateHealthy \<longleftrightarrow> rt_State st0 = GatewayStateHealthy) \<and>
    rt_HalfOpenProbes (prepared now st0) = live_probes now st0"
    using wf by (cases "rt_State st0")
      (auto simp: prepared_def pruned_def cooled_down_def Before_def wf_gateway_def live_probes_def)
  with run same_stateD [OF run(2)] show ?thesis by auto
qed

end
