(* ===== verification/RoutingService.thy ===== *)
theory RoutingService
  imports HealthMachine "HOL-Library.Word"
begin

text \<open>
  \<open>internal/service/routing_service.go\<close>: the snapshot of routable gateways with its local cache,
  and the weighted selection by an atomic counter. The record extends the health service that
  the routing service points to; both share the clock and the configuration provider.
\<close>

record routingSnapshot =
  sn_healthy :: "GatewayConfig list"
  sn_probes :: "GatewayConfig list"
  sn_expiresAt :: time

record GatewaySelection =
  sel_Gateway :: GatewayConfig
  sel_HalfOpenProbe :: bool

record GatewaySelectionRequest =
  sr_TransactionID :: string
  sr_OrderID :: string
  sr_ExcludedGateways :: "string set"

record 'h RoutingService = "'h HealthService" +
  rs_counter :: "64 word"
  rs_cacheTTL :: duration
  rs_cache :: routingSnapshot

definition empty_snapshot :: routingSnapshot where
  "empty_snapshot = \<lparr>sn_healthy = [], sn_probes = [], sn_expiresAt = zero_time\<rparr>"

definition RoutingService_SetCacheTTL ::
  "duration \<Rightarrow> (('h, 'z) RoutingService_scheme, go_error, unit) proc" where
  "RoutingService_SetCacheTTL ttl s =
     (if ttl \<le> 0 then (Inr (), s)
      else (Inr (), s\<lparr>rs_cacheTTL := ttl, rs_cache := empty_snapshot\<rparr>))"

text \<open>The loop of \<open>snapshot\<close> over the configured gateways; \<open>next\<close> is the snapshot being built.\<close>

fun snapshotLoop :: "'h GatewayHealthRepository \<Rightarrow> RoutingConfig \<Rightarrow> GatewayConfig list
    \<Rightarrow> routingSnapshot \<Rightarrow> (('h, 'z) RoutingService_scheme, go_error, routingSnapshot) proc" where
  "snapshotLoop R routing [] snap = ret snap"
| "snapshotLoop R routing (gateway # gateways) snap =
     (if \<not> gc_Enabled gateway \<or> gc_Weight gateway \<le> 0
      then snapshotLoop R routing gateways snap
      else
        andThen (PrepareForRouting R (gc_Name gateway) routing) (\<lambda>state.
        snapshotLoop R routing gateways
          (case rt_State state of
             GatewayStateHealthy \<Rightarrow> snap\<lparr>sn_healthy := sn_healthy snap @ [gateway]\<rparr>
           | GatewayStateHalfOpen \<Rightarrow>
               if rt_HalfOpenInFlight state < rc_HalfOpenProbeCount routing
               then snap\<lparr>sn_probes := sn_probes snap @ [gateway]\<rparr> else snap
           | _ \<Rightarrow> snap)))"

text \<open>
  \<open>snapshot\<close>: the cache is read under the read lock, then again under the write lock before it is
  rebuilt; an error of the loop leaves the cache as it was.
\<close>

definition snapshot ::
  "'h GatewayHealthRepository \<Rightarrow> (('h, 'z) RoutingService_scheme, go_error, routingSnapshot) proc" where
  "snapshot R =
     andThen Clock_Now (\<lambda>now.
     andThen (gets rs_cache) (\<lambda>cached.
     if Before now (sn_expiresAt cached) then ret cached
     else
       andThen (gets rs_cache) (\<lambda>cache.
       if Before now (sn_expiresAt cache) then ret cache
       else
         andThen ConfigProvider_Current (\<lambda>current.
         let cfg = WithDefaults current in
         andThen (gets rs_cacheTTL) (\<lambda>ttl.
         andThen (snapshotLoop R (ac_Routing cfg) (ac_Gateways cfg)
             \<lparr>sn_healthy = [], sn_probes = [], sn_expiresAt = Add now ttl\<rparr>) (\<lambda>snap.
         andThen (modify (\<lambda>s. s\<lparr>rs_cache := snap\<rparr>)) (\<lambda>_.
         ret snap)))))))"

definition invalidateCache :: "(('h, 'z) RoutingService_scheme, go_error, unit) proc" where
  "invalidateCache = modify (\<lambda>s. s\<lparr>rs_cache := empty_snapshot\<rparr>)"

text \<open>The two loops of \<open>selectWeighted\<close>; sums of weights are 64-bit.\<close>

fun total_weight :: "int \<Rightarrow> GatewayConfig list \<Rightarrow> int" where
  "total_weight tot [] = tot"
| "total_weight tot (candidate # cs) =
     total_weight (if gc_Weight candidate > 0 then wrap64 (tot + gc_Weight candidate) else tot) cs"

fun pick_slot :: "int \<Rightarrow> int \<Rightarrow> GatewayConfig list \<Rightarrow> GatewayConfig option" where
  "pick_slot slot running [] = None"
| "pick_slot slot running (candidate # cs) =
     (if gc_Weight candidate \<le> 0 then pick_slot slot running cs
      else
       (let running' = wrap64 (running + gc_Weight candidate) in
        if slot < running' then Some candidate else pick_slot slot running' cs))"

text \<open>\<open>None\<close> stands for \<open>GatewayConfig{}, false\<close>.\<close>

definition selectWeighted :: "GatewayConfig list
    \<Rightarrow> (('h, 'z) RoutingService_scheme, go_error, GatewayConfig option) proc" where
  "selectWeighted candidates s =
     (if candidates = [] then (Inr None, s)
      else
       (let tot = total_weight 0 candidates in
        if tot \<le> 0 then (Inr None, s)
        else
         (let counter = rs_counter s + 1;
              slot = sint (counter mod word_of_int tot) in
          (Inr (Some (case pick_slot slot 0 candidates of
                        Some candidate \<Rightarrow> candidate | None \<Rightarrow> last candidates)),
           s\<lparr>rs_counter := counter\<rparr>))))"

definition filterExcluded :: "GatewayConfig list \<Rightarrow> string set \<Rightarrow> GatewayConfig list" where
  "filterExcluded candidates excluded =
     (if candidates = [] \<or> excluded = {} then candidates
      else filter (\<lambda>candidate. gc_Name candidate \<notin> excluded) candidates)"

text \<open>The end of \<open>SelectGateway\<close>: a healthy gateway.\<close>

definition selectHealthy :: "GatewayConfig list
    \<Rightarrow> (('h, 'z) RoutingService_scheme, go_error, GatewaySelection) proc" where
  "selectHealthy healthy =
     andThen (selectWeighted healthy) (\<lambda>selected.
     case selected of
       None \<Rightarrow> throw (Sentinel ErrNoAvailableGateway)
     | Some gateway \<Rightarrow> ret \<lparr>sel_Gateway = gateway, sel_HalfOpenProbe = False\<rparr>)"

definition SelectGateway :: "'h GatewayHealthRepository \<Rightarrow> GatewaySelectionRequest
    \<Rightarrow> (('h, 'z) RoutingService_scheme, go_error, GatewaySelection) proc" where
  "SelectGateway R request =
     andThen (snapshot R) (\<lambda>snap.
     let probes = filterExcluded (sn_probes snap) (sr_ExcludedGateways request);
         healthy = filterExcluded (sn_healthy snap) (sr_ExcludedGateways request) in
     if probes \<noteq> [] then
       andThen (selectWeighted probes) (\<lambda>selected.
       case selected of
         None \<Rightarrow> throw (Sentinel ErrNoAvailableGateway)
       | Some gateway \<Rightarrow>
           onError (MarkProbeSelected R (gc_Name gateway) (sr_TransactionID request))
             (\<lambda>err. andThen invalidateCache (\<lambda>_.
                if healthy = [] then throw err else selectHealthy healthy))
             (\<lambda>_. ret \<lparr>sel_Gateway = gateway, sel_HalfOpenProbe = True\<rparr>))
     else selectHealthy healthy)"

section \<open>The weighted selection\<close>

definition weights :: "GatewayConfig list \<Rightarrow> int" where
  "weights cs = sum_list (map gc_Weight cs)"

text \<open>Candidates as the snapshot holds them: positive weights whose sum is an \<open>int\<close>.\<close>

definition good_candidates :: "GatewayConfig list \<Rightarrow> bool" where
  "good_candidates cs \<longleftrightarrow> cs \<noteq> [] \<and> (\<forall>c \<in> set cs. 0 < gc_Weight c) \<and> weights cs < 2 ^ 63"

lemma weights_simps [simp]:
  "weights [] = 0" "weights (c # cs) = gc_Weight c + weights cs"
  by (simp_all add: weights_def)

lemma weights_nonneg: "\<forall>c \<in> set cs. 0 < gc_Weight c \<Longrightarrow> 0 \<le> weights cs"
  by (induction cs) auto

lemma good_candidates_pos: "good_candidates cs \<Longrightarrow> 0 < weights cs"
  using weights_nonneg [of "tl cs"]
  by (cases cs) (auto simp: good_candidates_def)

lemma wrap64_sum:
  assumes "0 \<le> t" "0 < w" "t + w < 2 ^ 63"
  shows "wrap64 (t + w) = t + w"
  using assms by (intro wrap64_id) (simp add: in64_def)

lemma total_weight_eq:
  assumes "\<forall>c \<in> set cs. 0 < gc_Weight c" "0 \<le> t" "t + weights cs < 2 ^ 63"
  shows "total_weight t cs = t + weights cs"
  using assms
proof (induction cs arbitrary: t)
  case (Cons c cs)
  then have "wrap64 (t + gc_Weight c) = t + gc_Weight c"
    using weights_nonneg [of cs] by (intro wrap64_sum) auto
  with Cons show ?case by simp
qed simp

lemma pick_slot_set: "pick_slot slot run cs = Some c \<Longrightarrow> c \<in> set cs"
  by (induction slot run cs rule: pick_slot.induct) (auto simp: Let_def split: if_splits)

lemma pick_slot_Some:
  assumes "\<forall>c \<in> set cs. 0 < gc_Weight c" "0 \<le> run" "run + weights cs < 2 ^ 63"
    "slot < run + weights cs"
  shows "pick_slot slot run cs \<noteq> None \<or> cs = []"
  using assms
proof (induction cs arbitrary: run)
  case (Cons c cs)
  then have "wrap64 (run + gc_Weight c) = run + gc_Weight c"
    using weights_nonneg [of cs] by (intro wrap64_sum) auto
  with Cons show ?case by (cases cs) (auto simp: Let_def)
qed simp

text \<open>Every candidate owns as many slots as its weight.\<close>

lemma slots_of:
  assumes "\<forall>c \<in> set cs. 0 < gc_Weight c" "0 \<le> run" "run + weights cs < 2 ^ 63" "distinct cs"
    "c \<in> set cs"
  shows "card {slot \<in> {run ..< run + weights cs}. pick_slot slot run cs = Some c} = nat (gc_Weight c)"
  using assms
proof (induction cs arbitrary: run)
  case (Cons d cs)
  have W: "0 \<le> weights cs" using Cons.prems(1) by (simp add: weights_nonneg)
  have wrap: "wrap64 (run + gc_Weight d) = run + gc_Weight d"
    using Cons.prems W by (intro wrap64_sum) auto
  have d: "0 < gc_Weight d" using Cons.prems(1) by simp
  define run' where "run' = run + gc_Weight d"
  have pick: "pick_slot slot run (d # cs) = (if slot < run' then Some d else pick_slot slot run' cs)"
    for slot using d wrap by (simp add: run'_def)
  show ?case
  proof (cases "c = d")
    case True
    have "pick_slot slot run' cs \<noteq> Some d" for slot
      using pick_slot_set [of slot run' cs d] Cons.prems(4) by auto
    then have "{slot \<in> {run ..< run + weights (d # cs)}. pick_slot slot run (d # cs) = Some c} =
        {run ..< run'}"
      using W True by (auto simp: pick run'_def simp del: pick_slot.simps)
    then show ?thesis using True by (simp add: run'_def)
  next
    case False
    then have "{slot \<in> {run ..< run + weights (d # cs)}. pick_slot slot run (d # cs) = Some c} =
        {slot \<in> {run' ..< run' + weights cs}. pick_slot slot run' cs = Some c}"
      using d by (auto simp: pick run'_def simp del: pick_slot.simps)
    also have "card \<dots> = nat (gc_Weight c)"
      using Cons.prems False d by (intro Cons.IH) (auto simp: run'_def)
    finally show ?thesis .
  qed
qed simp

lemma slot_eq:
  fixes n :: "64 word"
  assumes "0 < t" "t < 2 ^ 63"
  shows "sint (n mod word_of_int t) = uint n mod t"
proof -
  have u: "uint (word_of_int t :: 64 word) = t"
    using assms by (simp add: uint_word_of_int take_bit_int_eq_self)
  have m: "uint (n mod word_of_int t) = uint n mod t" by (simp add: uint_mod u)
  have "uint n mod t < 2 ^ 63" using assms pos_mod_bound [of t "uint n"] by linarith
  then have "signed_take_bit 63 (uint (n mod word_of_int t)) = uint (n mod word_of_int t)"
    using uint_ge_0 [of "n mod word_of_int t"]
    by (intro signed_take_bit_int_eq_self) (simp_all add: m)
  then show ?thesis by (simp add: sint_uint m)
qed


text \<open>What one selection returns, and what it does to the counter.\<close>

lemma selectWeighted_Some:
  "selectWeighted cs s = (Inr (Some c), s') \<Longrightarrow>
   c \<in> set cs \<and> s' = s\<lparr>rs_counter := rs_counter s + 1\<rparr>"
  by (auto simp: selectWeighted_def Let_def split: if_splits option.splits dest: pick_slot_set)

lemma selectWeighted_None:
  "selectWeighted cs s = (Inr None, s') \<Longrightarrow> s' = s \<and> (cs = [] \<or> total_weight 0 cs \<le> 0)"
  by (auto simp: selectWeighted_def Let_def split: if_splits)

lemma selectWeighted_never_fails: "selectWeighted cs s \<noteq> (Inl e, s')"
  by (simp add: selectWeighted_def Let_def)

lemma selectWeighted_good:
  fixes s :: "('h, 'z) RoutingService_scheme"
  assumes "good_candidates cs"
  shows "\<exists>c. pick_slot (uint (rs_counter s + 1) mod weights cs) 0 cs = Some c \<and>
    selectWeighted cs s = (Inr (Some c), s\<lparr>rs_counter := rs_counter s + 1\<rparr>)"
proof -
  note pos = good_candidates_pos [OF assms]
  have W: "total_weight 0 cs = weights cs" "weights cs < 2 ^ 63" "cs \<noteq> []"
    using assms total_weight_eq [of cs 0] by (auto simp: good_candidates_def)
  have "uint (rs_counter s + 1) mod weights cs < weights cs" using pos by simp
  then obtain c where c: "pick_slot (uint (rs_counter s + 1) mod weights cs) 0 cs = Some c"
    using assms pick_slot_Some [of cs 0] by (fastforce simp: good_candidates_def)
  then show ?thesis
    using slot_eq [OF pos W(2), of "rs_counter s + 1"] W pos by (simp add: selectWeighted_def Let_def)
qed

text \<open>The gateways that consecutive selections from the same candidates return.\<close>

fun selections :: "nat \<Rightarrow> GatewayConfig list \<Rightarrow> ('h, 'z) RoutingService_scheme \<Rightarrow> GatewayConfig list" where
  "selections 0 cs s = []"
| "selections (Suc n) cs s =
     (case selectWeighted cs s of
        (Inr (Some c), s') \<Rightarrow> c # selections n cs s'
      | (_, s') \<Rightarrow> selections n cs s')"

lemma selections_eq:
  fixes s :: "('h, 'z) RoutingService_scheme"
  assumes "good_candidates cs" "uint (rs_counter s) + int n < 2 ^ 64"
  shows "selections n cs s =
    map (\<lambda>k. the (pick_slot ((uint (rs_counter s) + int k) mod weights cs) 0 cs)) [1..<Suc n]"
  using assms(2)
proof (induction n arbitrary: s)
  case (Suc n)
  let ?s = "s\<lparr>rs_counter := rs_counter s + 1\<rparr>"
  have u: "uint (rs_counter s + 1) = uint (rs_counter s) + 1"
    using Suc.prems by (simp add: uint_word_ariths mod_pos_pos_trivial)
  obtain c where c: "pick_slot (uint (rs_counter s + 1) mod weights cs) 0 cs = Some c"
    "selectWeighted cs s = (Inr (Some c), ?s)"
    using selectWeighted_good [OF assms(1), of s] by blast
  have "selections n cs ?s =
      map (\<lambda>k. the (pick_slot ((uint (rs_counter s) + 1 + int k) mod weights cs) 0 cs)) [1..<Suc n]"
    using Suc.IH [of ?s] Suc.prems u by simp
  also have "\<dots> = map (\<lambda>k. the (pick_slot ((uint (rs_counter s) + int k) mod weights cs) 0 cs))
      (map Suc [1..<Suc n])"
    by (simp add: algebra_simps del: upt_Suc map_Suc_upt)
  finally have rest: "selections n cs ?s = map (\<lambda>k. the (pick_slot ((uint (rs_counter s) + int k)
      mod weights cs) 0 cs)) [2..<Suc (Suc n)]"
    by (simp only: map_Suc_upt numeral_2_eq_2 One_nat_def)
  have "[1..<Suc (Suc n)] = 1 # [2..<Suc (Suc n)]"
    by (simp add: upt_conv_Cons numeral_2_eq_2 del: upt_Suc)
  with rest c u show ?case by (simp del: upt_Suc)
qed simp

lemma count_window:
  fixes a W :: int
  assumes "0 < W"
  shows "card {k \<in> {1..<Suc (nat W)}. P ((a + int k) mod W)} = card {r \<in> {0..<W}. P r}"
    (is "card ?A = card ?B")
proof -
  define f where "f k = (a + int k) mod W" for k
  define g where "g r = nat ((r - a - 1) mod W) + 1" for r
  have fg: "f (g r) = r" if "r \<in> {0..<W}" for r
  proof -
    have "f (g r) = (a + 1 + (r - a - 1) mod W) mod W"
      using assms by (simp add: f_def g_def algebra_simps)
    also have "\<dots> = r mod W" unfolding mod_add_right_eq by simp
    finally show ?thesis using that by simp
  qed
  have gf: "g (f k) = k" if "k \<in> {1..<Suc (nat W)}" for k
  proof -
    from that have k: "1 \<le> k" "int k \<le> W" by auto
    have "(f k - a - 1) mod W = (f k - (a + 1)) mod W" by (simp add: algebra_simps)
    also have "\<dots> = (a + int k - (a + 1)) mod W" unfolding f_def by (rule mod_diff_left_eq)
    also have "\<dots> = int k - 1" using k by (simp add: mod_pos_pos_trivial)
    finally show ?thesis using k by (simp add: g_def)
  qed
  have in_range: "g r \<in> {1..<Suc (nat W)}" for r
    using assms pos_mod_bound [of W "r - a - 1"] pos_mod_sign [of W "r - a - 1"]
    by (simp add: g_def nat_less_eq_zless)
  have "bij_betw f ?A ?B"
  proof (rule bij_betw_byWitness [where f' = g])
    show "\<forall>k \<in> ?A. g (f k) = k" using gf by simp
    show "\<forall>r \<in> ?B. f (g r) = r" using fg by simp
    show "f ` ?A \<subseteq> ?B" using assms by (auto simp: f_def)
    show "g ` ?B \<subseteq> ?A"
    proof
      fix k assume "k \<in> g ` ?B"
      then obtain r where r: "r \<in> {0..<W}" "P r" "k = g r" by auto
      with fg [OF r(1)] in_range [of r] show "k \<in> ?A" by (simp add: f_def)
    qed
  qed
  then show ?thesis by (rule bij_betw_same_card)
qed

lemma length_filter_upt: "length (filter P [m..<n]) = card {k \<in> {m..<n}. P k}"
proof -
  have "card (set (filter P [m..<n])) = length (filter P [m..<n])"
    by (intro distinct_card distinct_filter distinct_upt)
  then show ?thesis by (simp only: set_filter set_upt)
qed

lemma count_list_map: "count_list (map f xs) c = length (filter (\<lambda>x. f x = c) xs)"
  by (induction xs) auto

text \<open>
  C33: as many consecutive selections as the weights add up to, from the same candidates, select each
  candidate exactly as often as its weight, as long as the 64-bit counter does not wrap on the way.
\<close>
theorem selections_fair:
  fixes s :: "('h, 'z) RoutingService_scheme"
  assumes good: "good_candidates cs" and dist: "distinct cs" and c: "c \<in> set cs"
    and room: "uint (rs_counter s) + weights cs < 2 ^ 64"
  shows "count_list (selections (nat (weights cs)) cs s) c = nat (gc_Weight c)"
proof -
  let ?W = "weights cs" and ?a = "uint (rs_counter s)"
  let ?pick = "\<lambda>r. pick_slot r 0 cs"
  note pos = good_candidates_pos [OF good]
  have some: "?pick r \<noteq> None" if "r < ?W" for r
    using pick_slot_Some [of cs 0 r] good that by (auto simp: good_candidates_def)
  have "count_list (selections (nat ?W) cs s) c =
      length (filter (\<lambda>k. the (?pick ((?a + int k) mod ?W)) = c) [1..<Suc (nat ?W)])"
    using selections_eq [OF good, of s "nat ?W"] room pos
    by (simp add: count_list_map del: upt_Suc)
  also have "\<dots> = card {k \<in> {1..<Suc (nat ?W)}. the (?pick ((?a + int k) mod ?W)) = c}"
    by (simp add: length_filter_upt del: upt_Suc)
  also have "\<dots> = card {r \<in> {0..<?W}. the (?pick r) = c}"
    using count_window [OF pos, of "\<lambda>r. the (?pick r) = c" ?a] .
  also have "{r \<in> {0..<?W}. the (?pick r) = c} = {r \<in> {0..<?W}. ?pick r = Some c}"
    using some by (auto simp: option.expand)
  also have "card \<dots> = nat (gc_Weight c)"
    using slots_of [of cs 0 c] good dist c by (simp add: good_candidates_def)
  finally show ?thesis .
qed

end
