(* ===== verification/RoutingSpec.thy ===== *)
theory RoutingSpec
  imports RoutingService
begin

text \<open>
  What the routing service does over a repository that meets the contract and does not fail:
  the exact content of a new snapshot, what a selection may return, and that every call keeps
  the invariants and moves gateways along \<open>route_edge\<close> only.
\<close>

section \<open>Frame and invariant\<close>

definition route_frame :: "('h, 'z) RoutingService_scheme \<Rightarrow> ('h, 'z) RoutingService_scheme \<Rightarrow> bool" where
  "route_frame s s' \<longleftrightarrow> s' = s\<lparr>env_ticks := env_ticks s', env_reads := env_reads s',
     hs_repository := hs_repository s', hs_stateCache := hs_stateCache s',
     rs_counter := rs_counter s', rs_cache := rs_cache s'\<rparr>"

lemma route_frame_refl [simp]: "route_frame s s"
  by (simp add: route_frame_def)

lemma route_frame_trans: "route_frame s t \<Longrightarrow> route_frame t u \<Longrightarrow> route_frame s u"
  by (cases s; cases t; cases u) (simp add: route_frame_def)

lemma route_frame_upd [simp]:
  "route_frame s (t\<lparr>rs_counter := c\<rparr>) = route_frame s t"
  "route_frame s (t\<lparr>rs_cache := k\<rparr>) = route_frame s t"
  "route_frame s (t\<lparr>env_ticks := n\<rparr>) = route_frame s t"
  "route_frame s (t\<lparr>env_reads := n\<rparr>) = route_frame s t"
  by (cases s; cases t; simp add: route_frame_def)+

lemma health_frame_route:
  fixes s s' :: "('h, 'z) RoutingService_scheme"
  assumes "health_frame s s'"
  shows "route_frame s s'" "rs_cache s' = rs_cache s" "rs_counter s' = rs_counter s"
    "rs_cacheTTL s' = rs_cacheTTL s"
  using assms by (cases s; cases s'; simp add: health_frame_def route_frame_def)+

lemma route_frameD:
  assumes "route_frame s s'"
  shows "env_clock s' = env_clock s" "env_config s' = env_config s" "env_ids s' = env_ids s"
    "env_issued s' = env_issued s" "hs_cacheTTL s' = hs_cacheTTL s" "rs_cacheTTL s' = rs_cacheTTL s"
    "RoutingService.more s' = RoutingService.more s"
  using assms by (cases s; cases s'; simp add: route_frame_def)+

text \<open>A gateway the snapshot may hold, as some configuration that was read has it.\<close>

definition routable :: "GatewayConfig \<Rightarrow> bool" where
  "routable gateway \<longleftrightarrow> gc_Enabled gateway \<and> 0 < gc_Weight gateway"

definition configured :: "('h, 'z) RoutingService_scheme \<Rightarrow> GatewayConfig \<Rightarrow> bool" where
  "configured s gateway \<longleftrightarrow> routable gateway \<and>
     (\<exists>k < env_reads s. gateway \<in> set (ac_Gateways (env_config s k)))"

definition snapshot_configured :: "('h, 'z) RoutingService_scheme \<Rightarrow> routingSnapshot \<Rightarrow> bool" where
  "snapshot_configured s snap \<longleftrightarrow>
     (\<forall>gateway \<in> set (sn_healthy snap) \<union> set (sn_probes snap). configured s gateway)"

definition routing_inv ::
  "('h \<Rightarrow> string \<rightharpoonup> GatewayRuntimeState) \<Rightarrow> ('h, 'z) RoutingService_scheme \<Rightarrow> bool" where
  "routing_inv states s \<longleftrightarrow> health_inv states s \<and> snapshot_configured s (rs_cache s)"

lemma routing_invD:
  assumes "routing_inv states s"
  shows "health_inv states s" "snapshot_configured s (rs_cache s)"
  using assms by (simp_all add: routing_inv_def)

lemma configured_mono:
  "configured s g \<Longrightarrow> env_config s' = env_config s \<Longrightarrow> env_reads s \<le> env_reads s' \<Longrightarrow> configured s' g"
  unfolding configured_def by (metis order_less_le_trans)

lemma snapshot_configured_mono:
  "snapshot_configured s snap \<Longrightarrow> env_config s' = env_config s \<Longrightarrow> env_reads s \<le> env_reads s' \<Longrightarrow>
   snapshot_configured s' snap"
  unfolding snapshot_configured_def by (blast intro: configured_mono)

lemma snapshot_configured_empty [simp]: "snapshot_configured s empty_snapshot"
  by (simp add: snapshot_configured_def empty_snapshot_def)

lemma routing_inv_health:
  fixes s s' :: "('h, 'z) RoutingService_scheme"
  assumes "routing_inv states s" "health_inv states s'" "health_frame s s'" "env_reads s \<le> env_reads s'"
  shows "routing_inv states s'"
  using assms health_frame_route [OF assms(3)] health_frameD [OF assms(3)]
    snapshot_configured_mono [of s "rs_cache s" s']
  by (simp add: routing_inv_def)

lemma health_inv_route_upd [simp]:
  "health_inv states (s\<lparr>rs_cache := k\<rparr>) = health_inv states s"
  "health_inv states (s\<lparr>rs_counter := c\<rparr>) = health_inv states s"
  by (simp_all add: health_inv_def)

lemma configured_upd [simp]:
  "configured (s\<lparr>rs_cache := k\<rparr>) g = configured s g"
  "configured (s\<lparr>rs_counter := c\<rparr>) g = configured s g"
  by (simp_all add: configured_def)

lemma snapshot_configured_upd [simp]:
  "snapshot_configured (s\<lparr>rs_cache := k\<rparr>) snap = snapshot_configured s snap"
  "snapshot_configured (s\<lparr>rs_counter := c\<rparr>) snap = snapshot_configured s snap"
  "snapshot_configured (s\<lparr>env_ticks := n\<rparr>) snap = snapshot_configured s snap"
  by (simp_all add: snapshot_configured_def configured_def)

lemma routing_inv_upd [simp]:
  "routing_inv states (s\<lparr>rs_counter := c\<rparr>) = routing_inv states s"
  "routing_inv states (s\<lparr>env_ticks := n\<rparr>) = routing_inv states s"
  by (simp_all add: routing_inv_def)

text \<open>Time does not run backwards.\<close>

definition clock_mono :: "('z) Env_scheme \<Rightarrow> bool" where
  "clock_mono s \<longleftrightarrow> (\<forall>i j. i \<le> j \<longrightarrow> env_clock s i \<le> env_clock s j)"

lemma clock_monoD: "clock_mono s \<Longrightarrow> i \<le> j \<Longrightarrow> env_clock s i \<le> env_clock s j"
  by (simp add: clock_mono_def)

section \<open>The snapshot\<close>

definition healthy_in :: "(string \<rightharpoonup> GatewayRuntimeState) \<Rightarrow> GatewayConfig \<Rightarrow> bool" where
  "healthy_in m g \<longleftrightarrow> routable g \<and>
     (\<exists>st. m (gc_Name g) = Some st \<and> rt_State st = GatewayStateHealthy)"

definition probe_in :: "RoutingConfig \<Rightarrow> (string \<rightharpoonup> GatewayRuntimeState) \<Rightarrow> GatewayConfig \<Rightarrow> bool" where
  "probe_in routing m g \<longleftrightarrow> routable g \<and>
     (\<exists>st. m (gc_Name g) = Some st \<and> rt_State st = GatewayStateHalfOpen \<and>
       rt_HalfOpenInFlight st < rc_HalfOpenProbeCount routing)"

context local_health_repository
begin

lemma snapshotLoop_runs:
  fixes s :: "('h, 'z) RoutingService_scheme"
  assumes "health_inv states s"
  shows "\<exists>snap' s'. snapshotLoop R routing gs snap s = (Inr snap', s') \<and>
    health_inv states s' \<and> health_frame s s' \<and> env_reads s' = env_reads s \<and>
    env_ticks s \<le> env_ticks s' \<and>
    (clock_mono s \<longrightarrow> route_moves (env_clock s (env_ticks s'))
       (states (hs_repository s)) (states (hs_repository s'))) \<and>
    (\<forall>n. n \<notin> gc_Name ` set gs \<longrightarrow> states (hs_repository s') n = states (hs_repository s) n) \<and>
    sn_expiresAt snap' = sn_expiresAt snap \<and>
    set (sn_healthy snap') \<subseteq> set (sn_healthy snap) \<union> {g \<in> set gs. routable g} \<and>
    set (sn_probes snap') \<subseteq> set (sn_probes snap) \<union> {g \<in> set gs. routable g} \<and>
    (distinct (map gc_Name gs) \<longrightarrow>
      sn_healthy snap' = sn_healthy snap @ filter (healthy_in (states (hs_repository s'))) gs \<and>
      sn_probes snap' = sn_probes snap @ filter (probe_in routing (states (hs_repository s'))) gs \<and>
      (\<forall>g \<in> set gs. routable g \<longrightarrow> states (hs_repository s') (gc_Name g) \<noteq> None))"
  using assms
proof (induction gs arbitrary: snap s)
  case Nil
  then show ?case by simp
next
  case (Cons g gs)
  show ?case
  proof (cases "routable g")
    case False
    then have skip: "\<not> gc_Enabled g \<or> gc_Weight g \<le> 0" by (auto simp: routable_def)
    from False have "\<not> healthy_in m g" "\<not> probe_in routing m g" for m
      by (simp_all add: healthy_in_def probe_in_def)
    then have filters: "filter (healthy_in m) (g # gs) = filter (healthy_in m) gs"
      "filter (probe_in routing m) (g # gs) = filter (probe_in routing m) gs"
      "{h \<in> set (g # gs). routable h} = {h \<in> set gs. routable h}" for m
      using False by auto
    have rest: "(\<forall>h \<in> set (g # gs). routable h \<longrightarrow> Q h) = (\<forall>h \<in> set gs. routable h \<longrightarrow> Q h)" for Q
      using False by simp
    have loop: "snapshotLoop R routing (g # gs) snap s = snapshotLoop R routing gs snap s"
      using skip by simp
    show ?thesis
      unfolding loop filters rest using Cons.IH [OF Cons.prems, of snap]
      by (elim exE, intro exI) auto
  next
    case True
    let ?now = "env_clock s (env_ticks s)"
    from PrepareForRouting_runs [OF Cons.prems, of "gc_Name g" routing] obtain st s1
      where run: "PrepareForRouting R (gc_Name g) routing s = (Inr st, s1)"
        and st: "same_state st (prepared ?now (entry (states (hs_repository s)) (gc_Name g) ?now))"
        and m1: "states (hs_repository s1) = (states (hs_repository s))(gc_Name g \<mapsto> st)"
        and inv1: "health_inv states s1" and f1: "health_frame s s1"
        and n1: "env_ticks s1 = Suc (env_ticks s)" "env_reads s1 = env_reads s"
      by blast
    define snap1 where "snap1 = (case rt_State st of
        GatewayStateHealthy \<Rightarrow> snap\<lparr>sn_healthy := sn_healthy snap @ [g]\<rparr>
      | GatewayStateHalfOpen \<Rightarrow>
          if rt_HalfOpenInFlight st < rc_HalfOpenProbeCount routing
          then snap\<lparr>sn_probes := sn_probes snap @ [g]\<rparr> else snap
      | _ \<Rightarrow> snap)"
    have loop: "snapshotLoop R routing (g # gs) snap s = snapshotLoop R routing gs snap1 s1"
      using True run by (simp add: routable_def andThen_run snap1_def)
    from Cons.IH [OF inv1, of snap1] obtain snap' s'
      where IH: "snapshotLoop R routing gs snap1 s1 = (Inr snap', s')"
        "health_inv states s'" "health_frame s1 s'" "env_reads s' = env_reads s1"
        "env_ticks s1 \<le> env_ticks s'"
        "clock_mono s1 \<longrightarrow> route_moves (env_clock s1 (env_ticks s'))
          (states (hs_repository s1)) (states (hs_repository s'))"
        and other: "\<forall>n. n \<notin> gc_Name ` set gs \<longrightarrow>
          states (hs_repository s') n = states (hs_repository s1) n"
        and exp: "sn_expiresAt snap' = sn_expiresAt snap1"
        and sub: "set (sn_healthy snap') \<subseteq> set (sn_healthy snap1) \<union> {g \<in> set gs. routable g}"
          "set (sn_probes snap') \<subseteq> set (sn_probes snap1) \<union> {g \<in> set gs. routable g}"
        and ex: "distinct (map gc_Name gs) \<longrightarrow>
          sn_healthy snap' = sn_healthy snap1 @ filter (healthy_in (states (hs_repository s'))) gs \<and>
          sn_probes snap' = sn_probes snap1 @ filter (probe_in routing (states (hs_repository s'))) gs \<and>
          (\<forall>g \<in> set gs. routable g \<longrightarrow> states (hs_repository s') (gc_Name g) \<noteq> None)"
      by blast
    have clk: "env_clock s1 = env_clock s" using f1 by (simp add: health_frameD)
    have "clock_mono s \<longrightarrow> route_moves (env_clock s (env_ticks s'))
       (states (hs_repository s)) (states (hs_repository s'))"
    proof
      assume mono: "clock_mono s"
      have "route_moves ?now (states (hs_repository s)) (states (hs_repository s1))"
        unfolding m1 using route_edge_same [OF st] route_edge_prepared
        by (intro route_moves_entry) blast
      moreover have "route_moves (env_clock s (env_ticks s'))
          (states (hs_repository s1)) (states (hs_repository s'))"
        using IH(6) mono clk by (simp add: clock_mono_def)
      ultimately show "route_moves (env_clock s (env_ticks s'))
          (states (hs_repository s)) (states (hs_repository s'))"
        by (rule route_moves_trans) (use IH(5) n1 clock_monoD [OF mono] in auto)
    qed
    moreover have "distinct (map gc_Name (g # gs)) \<longrightarrow>
      sn_healthy snap' = sn_healthy snap @ filter (healthy_in (states (hs_repository s'))) (g # gs) \<and>
      sn_probes snap' = sn_probes snap @ filter (probe_in routing (states (hs_repository s'))) (g # gs) \<and>
      (\<forall>h \<in> set (g # gs). routable h \<longrightarrow> states (hs_repository s') (gc_Name h) \<noteq> None)"
    proof
      assume dist: "distinct (map gc_Name (g # gs))"
      then have entry: "states (hs_repository s') (gc_Name g) = Some st" using other m1 by simp
      then have kind: "healthy_in (states (hs_repository s')) g = (rt_State st = GatewayStateHealthy)"
        "probe_in routing (states (hs_repository s')) g = (rt_State st = GatewayStateHalfOpen \<and>
          rt_HalfOpenInFlight st < rc_HalfOpenProbeCount routing)"
        using True by (simp_all add: healthy_in_def probe_in_def)
      have tail:
        "sn_healthy snap' = sn_healthy snap1 @ filter (healthy_in (states (hs_repository s'))) gs"
        "sn_probes snap' = sn_probes snap1 @ filter (probe_in routing (states (hs_repository s'))) gs"
        "\<forall>h \<in> set gs. routable h \<longrightarrow> states (hs_repository s') (gc_Name h) \<noteq> None"
        using ex dist by simp_all
      show "sn_healthy snap' = sn_healthy snap @
          filter (healthy_in (states (hs_repository s'))) (g # gs) \<and>
        sn_probes snap' = sn_probes snap @
          filter (probe_in routing (states (hs_repository s'))) (g # gs) \<and>
        (\<forall>h \<in> set (g # gs). routable h \<longrightarrow> states (hs_repository s') (gc_Name h) \<noteq> None)"
        unfolding tail(1,2) using tail(3) entry
        by (cases "rt_State st") (simp_all add: snap1_def kind)
    qed
    moreover have "sn_expiresAt snap1 = sn_expiresAt snap"
      "set (sn_healthy snap1) \<subseteq> insert g (set (sn_healthy snap))"
      "set (sn_probes snap1) \<subseteq> insert g (set (sn_probes snap))"
      by (auto simp: snap1_def split: GatewayState.splits)
    then have "sn_expiresAt snap' = sn_expiresAt snap \<and>
        set (sn_healthy snap') \<subseteq> set (sn_healthy snap) \<union> {h \<in> set (g # gs). routable h} \<and>
        set (sn_probes snap') \<subseteq> set (sn_probes snap) \<union> {h \<in> set (g # gs). routable h}"
      using exp sub True by auto
    moreover have "\<forall>n. n \<notin> gc_Name ` set (g # gs) \<longrightarrow>
        states (hs_repository s') n = states (hs_repository s) n"
      using other m1 by auto
    ultimately show ?thesis
      using IH(1-5) n1 health_frame_trans [OF f1 IH(3)] unfolding loop by auto
  qed
qed

end


context local_health_repository
begin

lemma snapshot_cached:
  assumes "Before (env_clock s (env_ticks s)) (sn_expiresAt (rs_cache s))"
  shows "snapshot R s = (Inr (rs_cache s), s\<lparr>env_ticks := Suc (env_ticks s)\<rparr>)"
  using assms by (simp add: snapshot_def)

lemma snapshot_fresh:
  fixes s :: "('h, 'z) RoutingService_scheme"
  defines "now \<equiv> env_clock s (env_ticks s)" and "cfg \<equiv> WithDefaults (env_config s (env_reads s))"
  assumes inv: "health_inv states s" and expired: "\<not> Before now (sn_expiresAt (rs_cache s))"
  shows "\<exists>snap s'. snapshot R s = (Inr snap, s') \<and> health_inv states s' \<and> route_frame s s' \<and>
    env_reads s' = Suc (env_reads s) \<and> env_ticks s < env_ticks s' \<and> rs_counter s' = rs_counter s \<and>
    (clock_mono s \<longrightarrow> route_moves (env_clock s (env_ticks s'))
       (states (hs_repository s)) (states (hs_repository s'))) \<and>
    rs_cache s' = snap \<and> snapshot_configured s' snap \<and> sn_expiresAt snap = Add now (rs_cacheTTL s) \<and>
    (distinct (map gc_Name (ac_Gateways cfg)) \<longrightarrow>
      sn_healthy snap = filter (healthy_in (states (hs_repository s'))) (ac_Gateways cfg) \<and>
      sn_probes snap = filter (probe_in (ac_Routing cfg) (states (hs_repository s'))) (ac_Gateways cfg) \<and>
      (\<forall>g \<in> set (ac_Gateways cfg). routable g \<longrightarrow> states (hs_repository s') (gc_Name g) \<noteq> None))"
proof -
  define s0 where "s0 = s\<lparr>env_ticks := Suc (env_ticks s), env_reads := Suc (env_reads s)\<rparr>"
  define snap0 where "snap0 = \<lparr>sn_healthy = [], sn_probes = [], sn_expiresAt = Add now (rs_cacheTTL s)\<rparr>"
  have "health_inv states s0" using inv by (simp add: s0_def)
  from snapshotLoop_runs [OF this, of "ac_Routing cfg" "ac_Gateways cfg" snap0] obtain snap s1
    where loop: "snapshotLoop R (ac_Routing cfg) (ac_Gateways cfg) snap0 s0 = (Inr snap, s1)"
      and s1: "health_inv states s1" "health_frame s0 s1" "env_reads s1 = env_reads s0"
        "env_ticks s0 \<le> env_ticks s1"
        "clock_mono s0 \<longrightarrow> route_moves (env_clock s0 (env_ticks s1))
          (states (hs_repository s0)) (states (hs_repository s1))"
      and sub: "sn_expiresAt snap = sn_expiresAt snap0"
        "set (sn_healthy snap) \<subseteq> set (sn_healthy snap0) \<union> {g \<in> set (ac_Gateways cfg). routable g}"
        "set (sn_probes snap) \<subseteq> set (sn_probes snap0) \<union> {g \<in> set (ac_Gateways cfg). routable g}"
      and ex: "distinct (map gc_Name (ac_Gateways cfg)) \<longrightarrow>
        sn_healthy snap = sn_healthy snap0 @ filter (healthy_in (states (hs_repository s1))) (ac_Gateways cfg) \<and>
        sn_probes snap = sn_probes snap0 @
          filter (probe_in (ac_Routing cfg) (states (hs_repository s1))) (ac_Gateways cfg) \<and>
        (\<forall>g \<in> set (ac_Gateways cfg). routable g \<longrightarrow> states (hs_repository s1) (gc_Name g) \<noteq> None)"
    by blast
  have run: "snapshot R s = (Inr snap, s1\<lparr>rs_cache := snap\<rparr>)"
    using expired loop
    by (simp add: snapshot_def Let_def now_def cfg_def s0_def snap0_def andThen_run)
  have cfgd: "ac_Gateways cfg = ac_Gateways (env_config s (env_reads s))" by (simp add: cfg_def)
  have "env_config s1 = env_config s" "env_reads s1 = Suc (env_reads s)"
    using s1(2,3) by (simp_all add: health_frameD s0_def)
  then have "configured s1 g" if "g \<in> set (ac_Gateways cfg)" "routable g" for g
    using that by (auto simp: configured_def cfgd)
  then have "snapshot_configured s1 snap"
    using sub by (auto simp: snapshot_configured_def snap0_def)
  moreover have "route_frame s s1"
    using health_frame_route(1) [of s s1] s1(2) by (simp add: s0_def)
  ultimately show ?thesis
    using run s1 sub(1) ex health_frame_route(3) [OF s1(2)]
    by (intro exI [of _ snap] exI [of _ "s1\<lparr>rs_cache := snap\<rparr>"])
      (simp add: s0_def snap0_def clock_mono_def)
qed

lemma snapshot_runs:
  fixes s :: "('h, 'z) RoutingService_scheme"
  assumes inv: "routing_inv states s"
  shows "\<exists>snap s'. snapshot R s = (Inr snap, s') \<and> routing_inv states s' \<and> route_frame s s' \<and>
    env_reads s \<le> env_reads s' \<and> env_ticks s < env_ticks s' \<and> rs_counter s' = rs_counter s \<and>
    (clock_mono s \<longrightarrow> route_moves (env_clock s (env_ticks s'))
       (states (hs_repository s)) (states (hs_repository s'))) \<and> snapshot_configured s' snap"
proof (cases "Before (env_clock s (env_ticks s)) (sn_expiresAt (rs_cache s))")
  case True
  with inv snapshot_cached [OF this] show ?thesis by (simp add: routing_inv_def)
next
  case False
  from snapshot_fresh [OF routing_invD(1) [OF inv] False] obtain snap s' where
    "snapshot R s = (Inr snap, s')" "health_inv states s'" "route_frame s s'"
    "env_reads s' = Suc (env_reads s)" "env_ticks s < env_ticks s'" "rs_counter s' = rs_counter s"
    "clock_mono s \<longrightarrow> route_moves (env_clock s (env_ticks s'))
       (states (hs_repository s)) (states (hs_repository s'))"
    "rs_cache s' = snap" "snapshot_configured s' snap"
    by blast
  then show ?thesis by (intro exI [of _ snap] exI [of _ s']) (simp add: routing_inv_def)
qed

end


section \<open>The selection\<close>

lemma selectHealthy_Inr:
  "selectHealthy hs s = (Inr sel, s') \<Longrightarrow> sel_Gateway sel \<in> set hs \<and> \<not> sel_HalfOpenProbe sel \<and>
   s' = s\<lparr>rs_counter := rs_counter s + 1\<rparr>"
  by (auto simp: selectHealthy_def elim!: andThen_Inr dest!: selectWeighted_Some split: option.splits)

lemma selectHealthy_Inl:
  "selectHealthy hs s = (Inl e, s') \<Longrightarrow> e = Sentinel ErrNoAvailableGateway \<and> s' = s"
  by (auto simp: selectHealthy_def selectWeighted_never_fails
      elim!: andThen_Inl dest: selectWeighted_None split: option.splits)

lemma filterExcluded_eq: "filterExcluded cs ex = filter (\<lambda>c. gc_Name c \<notin> ex) cs"
  by (auto simp: filterExcluded_def)

definition probe_candidates :: "GatewaySelectionRequest \<Rightarrow> routingSnapshot \<Rightarrow> GatewayConfig list" where
  "probe_candidates request snap = filterExcluded (sn_probes snap) (sr_ExcludedGateways request)"

definition healthy_candidates :: "GatewaySelectionRequest \<Rightarrow> routingSnapshot \<Rightarrow> GatewayConfig list" where
  "healthy_candidates request snap = filterExcluded (sn_healthy snap) (sr_ExcludedGateways request)"

text \<open>The ways a selection may go once the snapshot is there.\<close>

lemma SelectGateway_cases:
  fixes s :: "('h, 'z) RoutingService_scheme"
  assumes run: "SelectGateway R request s = (r, s')" and snap: "snapshot R s = (Inr snap, s1)"
  obtains (healthy) "probe_candidates request snap = []"
      "selectHealthy (healthy_candidates request snap) s1 = (r, s')"
    | (no_slot) "probe_candidates request snap \<noteq> []" "r = Inl (Sentinel ErrNoAvailableGateway)" "s' = s1"
      "total_weight 0 (probe_candidates request snap) \<le> 0"
    | (probe) g u where "g \<in> set (probe_candidates request snap)"
      "MarkProbeSelected R (gc_Name g) (sr_TransactionID request)
         (s1\<lparr>rs_counter := rs_counter s1 + 1\<rparr>) = (Inr u, s')"
      "r = Inr \<lparr>sel_Gateway = g, sel_HalfOpenProbe = True\<rparr>"
    | (no_probe) g e s2 where "g \<in> set (probe_candidates request snap)"
      "MarkProbeSelected R (gc_Name g) (sr_TransactionID request)
         (s1\<lparr>rs_counter := rs_counter s1 + 1\<rparr>) = (Inl e, s2)"
      "(if healthy_candidates request snap = [] then (r, s') = (Inl e, s2\<lparr>rs_cache := empty_snapshot\<rparr>)
        else selectHealthy (healthy_candidates request snap) (s2\<lparr>rs_cache := empty_snapshot\<rparr>) = (r, s'))"
proof (cases "probe_candidates request snap = []")
  case True
  with run snap show ?thesis
    by (intro healthy) (auto simp: SelectGateway_def andThen_run probe_candidates_def
        healthy_candidates_def)
next
  case False
  let ?ps = "probe_candidates request snap"
  have sel: "SelectGateway R request s = andThen (selectWeighted ?ps) (\<lambda>selected.
       case selected of
         None \<Rightarrow> throw (Sentinel ErrNoAvailableGateway)
       | Some gateway \<Rightarrow>
           onError (MarkProbeSelected R (gc_Name gateway) (sr_TransactionID request))
             (\<lambda>err. andThen invalidateCache (\<lambda>_.
                if healthy_candidates request snap = [] then throw err
                else selectHealthy (healthy_candidates request snap)))
             (\<lambda>_. ret \<lparr>sel_Gateway = gateway, sel_HalfOpenProbe = True\<rparr>)) s1"
    using False snap unfolding SelectGateway_def probe_candidates_def healthy_candidates_def
    by (simp add: andThen_run Let_def)
  obtain w s2 where w: "selectWeighted ?ps s1 = (w, s2)" by fastforce
  with selectWeighted_never_fails obtain c where c: "w = Inr c" by (cases w) auto
  show ?thesis
  proof (cases c)
    case None
    with w c selectWeighted_None [of ?ps s1 s2] False sel run show ?thesis
      by (intro no_slot) (auto simp: andThen_run)
  next
    case (Some g)
    with w c selectWeighted_Some [of ?ps s1 g s2]
    have g: "g \<in> set ?ps" and s2: "s2 = s1\<lparr>rs_counter := rs_counter s1 + 1\<rparr>" by auto
    obtain p s3 where p: "MarkProbeSelected R (gc_Name g) (sr_TransactionID request) s2 = (p, s3)"
      by fastforce
    show ?thesis
    proof (cases p)
      case (Inl e)
      with p w c Some sel run s2 g show ?thesis
        by (intro no_probe [of g e s3])
          (auto simp: andThen_run onError_run invalidateCache_def split: if_splits)
    next
      case (Inr u)
      with p w c Some sel run s2 g show ?thesis
        by (intro probe [of g u]) (auto simp: andThen_run onError_run)
    qed
  qed
qed

context local_health_repository
begin

lemma SelectGateway_any:
  fixes s :: "('h, 'z) RoutingService_scheme"
  assumes run: "SelectGateway R request s = (r, s')" and inv: "routing_inv states s"
  shows "routing_inv states s' \<and> route_frame s s' \<and> env_reads s \<le> env_reads s' \<and>
    env_ticks s < env_ticks s' \<and>
    (clock_mono s \<longrightarrow> route_moves (env_clock s (env_ticks s'))
       (states (hs_repository s)) (states (hs_repository s')))"
proof -
  from snapshot_runs [OF inv] obtain snap s1 where snap: "snapshot R s = (Inr snap, s1)"
    and s1: "routing_inv states s1" "route_frame s s1" "env_reads s \<le> env_reads s1"
      "env_ticks s < env_ticks s1"
      "clock_mono s \<longrightarrow> route_moves (env_clock s (env_ticks s1))
         (states (hs_repository s)) (states (hs_repository s1))"
    by blast
  define s1' where "s1' = s1\<lparr>rs_counter := rs_counter s1 + 1\<rparr>"
  have probe_step: "routing_inv states s2 \<and> route_frame s s2 \<and> env_reads s \<le> env_reads s2 \<and>
      env_ticks s < env_ticks s2 \<and> (clock_mono s \<longrightarrow> route_moves (env_clock s (env_ticks s2))
        (states (hs_repository s)) (states (hs_repository s2)))"
    if mark: "MarkProbeSelected R g tid s1' = (q, s2)" for g tid q s2
  proof -
    have inv1: "routing_inv states s1'" using s1(1) by (simp add: s1'_def)
    note any = MarkProbeSelected_any [OF mark routing_invD(1) [OF inv1]]
    have f2: "route_frame s s2"
      using any route_frame_trans [OF s1(2), of s2] health_frame_route(1) [of s1' s2]
      by (cases s1; cases s2) (auto simp: s1'_def route_frame_def)
    have clk: "env_clock s1 = env_clock s" by (simp add: route_frameD [OF s1(2)])
    have "route_moves (env_clock s (env_ticks s2))
        (states (hs_repository s)) (states (hs_repository s2))" if mono: "clock_mono s"
    proof (rule route_moves_trans)
      show "route_moves (env_clock s (env_ticks s1))
         (states (hs_repository s)) (states (hs_repository s1))" using s1(5) mono by simp
      show "route_moves (env_clock s1' (env_ticks s1'))
         (states (hs_repository s1)) (states (hs_repository s2))"
        using any by (simp add: s1'_def)
    qed (use any clock_monoD [OF mono] clk in \<open>simp_all add: s1'_def\<close>)
    moreover have "routing_inv states s2" by (rule routing_inv_health [OF inv1]) (use any in auto)
    ultimately show ?thesis using any f2 s1(3,4) by (simp add: s1'_def)
  qed
  show ?thesis
    using run snap
  proof (cases rule: SelectGateway_cases)
    case healthy
    then show ?thesis
      using s1 by (cases r) (auto dest!: selectHealthy_Inr selectHealthy_Inl)
  next
    case no_slot
    with s1 show ?thesis by simp
  next
    case (probe g u)
    with probe_step show ?thesis unfolding s1'_def by blast
  next
    case (no_probe g e s2)
    let ?t = "s2\<lparr>rs_cache := empty_snapshot\<rparr>"
    from probe_step [unfolded s1'_def, OF no_probe(2)]
    have t: "routing_inv states ?t" "route_frame s ?t" "env_reads s \<le> env_reads ?t"
      "env_ticks s < env_ticks ?t" "clock_mono s \<longrightarrow> route_moves (env_clock s (env_ticks ?t))
        (states (hs_repository s)) (states (hs_repository ?t))"
      by (auto simp: routing_inv_def)
    show ?thesis
    proof (cases "healthy_candidates request snap = []")
      case True
      with no_probe t show ?thesis by simp
    next
      case False
      with no_probe have "selectHealthy (healthy_candidates request snap) ?t = (r, s')" by simp
      then show ?thesis using t
        by (cases r) (auto dest!: selectHealthy_Inr selectHealthy_Inl)
    qed
  qed
qed

lemma SelectGateway_ok:
  fixes s :: "('h, 'z) RoutingService_scheme"
  assumes run: "SelectGateway R request s = (Inr sel, s')" and inv: "routing_inv states s"
  shows "\<exists>snap s1. snapshot R s = (Inr snap, s1) \<and> routing_inv states s1 \<and>
    sel_Gateway sel \<in> set (if sel_HalfOpenProbe sel then sn_probes snap else sn_healthy snap) \<and>
    gc_Name (sel_Gateway sel) \<notin> sr_ExcludedGateways request \<and> configured s' (sel_Gateway sel) \<and>
    (sel_HalfOpenProbe sel \<longrightarrow> (\<exists>u. MarkProbeSelected R (gc_Name (sel_Gateway sel))
       (sr_TransactionID request) (s1\<lparr>rs_counter := rs_counter s1 + 1\<rparr>) = (Inr u, s')))"
proof -
  from snapshot_runs [OF inv] obtain snap s1 where snap: "snapshot R s = (Inr snap, s1)"
    and inv1: "routing_inv states s1" and conf: "snapshot_configured s1 snap"
    by blast
  have cands: "g \<in> set (sn_probes snap) \<and> gc_Name g \<notin> sr_ExcludedGateways request \<and> configured s1 g"
      if "g \<in> set (probe_candidates request snap)" for g
    using that conf
    by (auto simp: probe_candidates_def filterExcluded_eq snapshot_configured_def)
  have cands': "g \<in> set (sn_healthy snap) \<and> gc_Name g \<notin> sr_ExcludedGateways request \<and> configured s1 g"
      if "g \<in> set (healthy_candidates request snap)" for g
    using that conf
    by (auto simp: healthy_candidates_def filterExcluded_eq snapshot_configured_def)
  have marked: "configured s2 g"
    if "configured s1 g" "MarkProbeSelected R h tid (s1\<lparr>rs_counter := rs_counter s1 + 1\<rparr>) = (q, s2)"
    for h tid q s2 g
    using configured_mono [OF that(1), of s2]
      MarkProbeSelected_any [OF that(2)] routing_invD(1) [OF inv1] health_frameD by fastforce
  from run snap show ?thesis
  proof (cases rule: SelectGateway_cases)
    case healthy
    from selectHealthy_Inr [OF healthy(2)] cands' snap inv1 show ?thesis by auto
  next
    case no_slot
    then show ?thesis by simp
  next
    case (probe g u)
    with cands [of g] marked [of g _ _ _ s'] snap inv1 show ?thesis
      by (intro exI [of _ snap] exI [of _ s1]) auto
  next
    case (no_probe g e s2)
    then have "selectHealthy (healthy_candidates request snap) (s2\<lparr>rs_cache := empty_snapshot\<rparr>)
        = (Inr sel, s')" by (simp split: if_splits)
    from selectHealthy_Inr [OF this] cands' marked [OF _ no_probe(2)] snap inv1 show ?thesis by auto
  qed
qed

end


section \<open>A healthy gateway is found\<close>

lemma weights_filter_le: "(\<And>g. P g \<Longrightarrow> Q g) \<Longrightarrow> (\<And>g. Q g \<Longrightarrow> 0 < gc_Weight g) \<Longrightarrow>
   weights (filter P gs) \<le> weights (filter Q gs)"
  by (induction gs) (auto simp: order.strict_implies_order intro: add_increasing)

lemma good_sub:
  assumes "filter P gs \<noteq> []" "\<And>g. P g \<Longrightarrow> routable g" "weights (filter routable gs) < 2 ^ 63"
  shows "good_candidates (filter P gs)"
  using assms weights_filter_le [of P routable gs]
  by (auto simp: good_candidates_def routable_def)

lemma good_total: "good_candidates cs \<Longrightarrow> 0 < total_weight 0 cs"
  using good_candidates_pos [of cs] total_weight_eq [of cs 0] by (simp add: good_candidates_def)

lemma selectHealthy_good:
  "good_candidates cs \<Longrightarrow> \<exists>sel s'. selectHealthy cs s = (Inr sel, s')"
  using selectWeighted_good [of cs s] by (auto simp: selectHealthy_def andThen_run)

lemma route_moves_healthy:
  assumes "route_moves now m m'" "m g = None \<or> (\<exists>st. m g = Some st \<and> rt_State st = GatewayStateHealthy)"
    "m' g \<noteq> None"
  shows "\<exists>st. m' g = Some st \<and> rt_State st = GatewayStateHealthy"
  using assms unfolding route_moves_def
  by (auto simp: route_edge_iff split: option.splits dest!: spec [of _ g])

context local_health_repository
begin

lemma SelectGateway_available:
  fixes s :: "('h, 'z) RoutingService_scheme" and gs :: "GatewayConfig list"
  defines "m \<equiv> states (hs_repository s)" and "now \<equiv> env_clock s (env_ticks s)"
    and "gs \<equiv> ac_Gateways (env_config s (env_reads s))"
  assumes inv: "routing_inv states s" and mono: "clock_mono s"
    and expired: "\<not> Before now (sn_expiresAt (rs_cache s))"
    and names: "distinct (map gc_Name gs)" and fits: "weights (filter routable gs) < 2 ^ 63"
    and g: "g \<in> set gs" "routable g" "gc_Name g \<notin> sr_ExcludedGateways request"
    and healthy: "m (gc_Name g) = None \<or> (\<exists>st. m (gc_Name g) = Some st \<and> rt_State st = GatewayStateHealthy)"
  shows "\<exists>sel s'. SelectGateway R request s = (Inr sel, s')"
proof -
  define routing where "routing = ac_Routing (WithDefaults (env_config s (env_reads s)))"
  from snapshot_fresh [OF routing_invD(1) [OF inv]] expired obtain snap s1
    where snap: "snapshot R s = (Inr snap, s1)"
      and moves: "route_moves (env_clock s (env_ticks s1)) m (states (hs_repository s1))"
      and ex: "sn_healthy snap = filter (healthy_in (states (hs_repository s1))) gs"
        "sn_probes snap = filter (probe_in routing (states (hs_repository s1))) gs"
      and some: "\<forall>g \<in> set gs. routable g \<longrightarrow> states (hs_repository s1) (gc_Name g) \<noteq> None"
    using mono names unfolding now_def gs_def m_def routing_def WithDefaults_Gateways by blast
  have "healthy_in (states (hs_repository s1)) g"
    using route_moves_healthy [OF moves healthy] some g by (auto simp: healthy_in_def)
  then have ne: "healthy_candidates request snap \<noteq> []"
    using g by (auto simp: healthy_candidates_def filterExcluded_eq ex filter_empty_conv)
  have good: "good_candidates (healthy_candidates request snap)"
    using ne fits unfolding healthy_candidates_def filterExcluded_eq ex filter_filter
    by (intro good_sub) (auto simp: healthy_in_def)
  have goodp: "good_candidates (probe_candidates request snap)" if "probe_candidates request snap \<noteq> []"
    using that fits unfolding probe_candidates_def filterExcluded_eq ex filter_filter
    by (intro good_sub) (auto simp: probe_in_def)
  obtain r s' where run: "SelectGateway R request s = (r, s')" by fastforce
  from run snap have "\<exists>sel. r = Inr sel"
  proof (cases rule: SelectGateway_cases)
    case healthy
    with selectHealthy_good [OF good, of s1] show ?thesis by auto
  next
    case no_slot
    with good_total [OF goodp] show ?thesis by simp
  next
    case (probe g u)
    then show ?thesis by simp
  next
    case (no_probe g e s2)
    with ne selectHealthy_good [OF good, of "s2\<lparr>rs_cache := empty_snapshot\<rparr>"] show ?thesis by auto
  qed
  with run show ?thesis by blast
qed

end


section \<open>A selected probe holds a slot\<close>

context local_health_repository
begin

lemma SelectGateway_probe:
  fixes s :: "('h, 'z) RoutingService_scheme"
  assumes run: "SelectGateway R request s = (Inr sel, s')" and inv: "routing_inv states s"
    and probe: "sel_HalfOpenProbe sel"
  shows "\<exists>st k. states (hs_repository s') (gc_Name (sel_Gateway sel)) = Some st \<and>
    rt_State st = GatewayStateHalfOpen \<and>
    sr_TransactionID request \<in> hp_TransactionID ` set (rt_HalfOpenProbes st) \<and> k < env_reads s' \<and>
    rt_HalfOpenInFlight st \<le> rc_HalfOpenProbeCount (ac_Routing (WithDefaults (env_config s k)))"
proof -
  let ?g = "gc_Name (sel_Gateway sel)"
  from SelectGateway_ok [OF run inv] probe obtain snap s1 u where s1: "snapshot R s = (Inr snap, s1)"
    "routing_inv states s1"
    and mark: "MarkProbeSelected R ?g (sr_TransactionID request)
      (s1\<lparr>rs_counter := rs_counter s1 + 1\<rparr>) = (Inr u, s')" by blast
  have conf: "env_config s1 = env_config s"
    using snapshot_runs [OF inv] s1(1) by (auto dest: route_frameD)
  have "wf_states (states (hs_repository (s1\<lparr>rs_counter := rs_counter s1 + 1\<rparr>)))"
    using health_invD(1) [OF routing_invD(1) [OF s1(2)]] by simp
  from MarkProbeSelected_acquired [OF mark this] obtain st0 st where
    st: "rt_State st0 = GatewayStateHalfOpen"
      "int (length (live_probes (env_clock s1 (env_ticks s1)) st0)) <
         rc_HalfOpenProbeCount (ac_Routing (WithDefaults (env_config s (env_reads s1))))"
      "same_state st (with_probes (live_probes (env_clock s1 (env_ticks s1)) st0 @
         [new_probe (sr_TransactionID request) (Add (env_clock s1 (env_ticks s1))
           (Duration (rc_HalfOpenProbeTimeoutSeconds
             (ac_Routing (WithDefaults (env_config s (env_reads s1))))) Second))]) st0)"
      "states (hs_repository s') = (states (hs_repository s1))(?g \<mapsto> st)"
      "env_reads s' = Suc (env_reads s1)"
    by (auto simp: conf)
  with same_stateD [OF st(3)] show ?thesis
    by (intro exI [of _ st] exI [of _ "env_reads s1"]) (auto simp: new_probe_def)
qed

end

section \<open>Properties over the memory repository\<close>

text \<open>
  C16: a selection returns a gateway of some configuration that was read, enabled, with a positive
  weight and not excluded for the order; when it is selected as a probe, the gateway is half-open,
  the transaction holds one of its probes, and the probes in flight are at most the configured number.
\<close>
theorem SelectGateway_sound:
  fixes s :: "(MemoryHealth, 'z) RoutingService_scheme"
  assumes "routing_inv mh_states s" "SelectGateway MemHealth request s = (Inr sel, s')"
  shows "gc_Name (sel_Gateway sel) \<notin> sr_ExcludedGateways request \<and>
    gc_Enabled (sel_Gateway sel) \<and> 0 < gc_Weight (sel_Gateway sel) \<and>
    (\<exists>k < env_reads s'. sel_Gateway sel \<in> set (ac_Gateways (env_config s' k))) \<and>
    (sel_HalfOpenProbe sel \<longrightarrow>
      (\<exists>st k. mh_states (hs_repository s') (gc_Name (sel_Gateway sel)) = Some st \<and>
        rt_State st = GatewayStateHalfOpen \<and>
        sr_TransactionID request \<in> hp_TransactionID ` set (rt_HalfOpenProbes st) \<and> k < env_reads s' \<and>
        rt_HalfOpenInFlight st \<le> rc_HalfOpenProbeCount (ac_Routing (WithDefaults (env_config s k)))))"
  using memhealth.SelectGateway_ok [OF assms(2,1)] memhealth.SelectGateway_probe [OF assms(2,1)]
  by (auto simp: configured_def routable_def)

text \<open>
  C18: when the cached snapshot has expired and the configured gateways have different names, the new one lists exactly the enabled gateways with a
  positive weight that are healthy, and those that are half-open with a free probe slot, both in the
  order of the configuration, and it expires one cache lifetime after it was started.
\<close>
theorem snapshot_exact:
  fixes s :: "(MemoryHealth, 'z) RoutingService_scheme"
  defines "now \<equiv> env_clock s (env_ticks s)" and "cfg \<equiv> WithDefaults (env_config s (env_reads s))"
  assumes "routing_inv mh_states s" "\<not> Before now (sn_expiresAt (rs_cache s))"
    and "distinct (map gc_Name (ac_Gateways cfg))"
  shows "\<exists>snap s'. snapshot MemHealth s = (Inr snap, s') \<and> rs_cache s' = snap \<and>
    sn_expiresAt snap = now + rs_cacheTTL s \<and>
    sn_healthy snap = filter (healthy_in (mh_states (hs_repository s'))) (ac_Gateways cfg) \<and>
    sn_probes snap = filter (probe_in (ac_Routing cfg) (mh_states (hs_repository s'))) (ac_Gateways cfg)"
  using memhealth.snapshot_fresh [OF routing_invD(1) [OF assms(3)] assms(4) [unfolded now_def]] assms(5)
  by (auto simp: now_def cfg_def Add_def)

text \<open>
  C17: a request is served as long as one gateway can take it: if some enabled gateway with a positive
  weight that is not excluded is healthy, or has no state yet, then a selection after the snapshot
  expired succeeds. The names of the configuration are distinct, the weights add up to a 64-bit int and
  the clock does not run backwards.
\<close>
theorem SelectGateway_succeeds:
  fixes s :: "(MemoryHealth, 'z) RoutingService_scheme"
  defines "m \<equiv> mh_states (hs_repository s)" and "gs \<equiv> ac_Gateways (env_config s (env_reads s))"
  assumes "routing_inv mh_states s" "clock_mono s"
    and "sn_expiresAt (rs_cache s) \<le> env_clock s (env_ticks s)"
    and "distinct (map gc_Name gs)" "weights (filter routable gs) < 2 ^ 63"
    and "g \<in> set gs" "gc_Enabled g" "0 < gc_Weight g" "gc_Name g \<notin> sr_ExcludedGateways request"
    and "case m (gc_Name g) of None \<Rightarrow> True | Some st \<Rightarrow> rt_State st = GatewayStateHealthy"
  shows "\<exists>sel s'. SelectGateway MemHealth request s = (Inr sel, s')"
  using memhealth.SelectGateway_available [OF assms(3,4), of g request] assms(5-)
  by (auto simp: m_def gs_def routable_def Before_def split: option.splits)

end
