(* ===== verification/MemoryBlacklist.thy ===== *)
theory MemoryBlacklist
  imports Ports
begin

text \<open>
  \<open>internal/adapters/repository/memory/order_gateway_blacklist_repository.go\<close>: per order and
  gateway a summary of the outcomes of the attempts. An order without outcomes has no inner map;
  the code creates it on the first outcome. The inner map is an association list, so that its
  keys can be ranged over.
\<close>

record MemoryBlacklist =
  mb_summaries :: "string \<rightharpoonup> (string \<times> OrderGatewayAttemptSummary) list"

definition MemBlacklist_New :: MemoryBlacklist where
  "MemBlacklist_New = \<lparr>mb_summaries = Map.empty\<rparr>"

text \<open>The zero value a read of an absent summary gives.\<close>

definition zero_summary :: OrderGatewayAttemptSummary where
  "zero_summary = \<lparr>og_OrderID = '''', og_Gateway = '''', og_Failures = 0, og_Successes = 0,
     og_Blacklisted = False, og_UpdatedAt = zero_time\<rparr>"

definition byGateway :: "MemoryBlacklist \<Rightarrow> string \<Rightarrow> (string \<times> OrderGatewayAttemptSummary) list" where
  "byGateway b orderID = (case mb_summaries b orderID of None \<Rightarrow> [] | Some m \<Rightarrow> m)"

definition summary_of :: "MemoryBlacklist \<Rightarrow> string \<Rightarrow> string \<Rightarrow> OrderGatewayAttemptSummary" where
  "summary_of b orderID gateway =
     (case map_of (byGateway b orderID) gateway of None \<Rightarrow> zero_summary | Some s \<Rightarrow> s)"

definition MemBlacklist_BlacklistedGateways :: "string \<Rightarrow> (MemoryBlacklist, go_error, string set) proc" where
  "MemBlacklist_BlacklistedGateways orderID b =
     (Inr (set (filter (\<lambda>gateway. og_Blacklisted (summary_of b orderID gateway))
       (map fst (byGateway b orderID)))), b)"

definition MemBlacklist_RecordOutcome :: "string \<Rightarrow> string \<Rightarrow> TransactionStatus \<Rightarrow> int \<Rightarrow> time
    \<Rightarrow> (MemoryBlacklist, go_error, OrderGatewayAttemptSummary \<times> bool) proc" where
  "MemBlacklist_RecordOutcome orderID gateway status failureThreshold now b =
     (if \<not> IsFinal status then (Inl (Sentinel ErrInvalidStatus), b)
      else
       (let threshold = (if failureThreshold \<le> 0 then 1 else failureThreshold);
            old = summary_of b orderID gateway;
            summary = old\<lparr>og_OrderID := orderID, og_Gateway := gateway\<rparr>;
            summary1 =
              (case status of
                 TransactionStatusSuccess \<Rightarrow>
                   summary\<lparr>og_Successes := og_Successes summary + 1, og_Blacklisted := False\<rparr>
               | TransactionStatusFailure \<Rightarrow>
                   (let counted = summary\<lparr>og_Failures := og_Failures summary + 1\<rparr> in
                    if og_Successes counted = 0 \<and> og_Failures counted \<ge> threshold
                    then counted\<lparr>og_Blacklisted := True\<rparr> else counted)
               | _ \<Rightarrow> summary);
            newlyBlacklisted = (\<not> og_Blacklisted old \<and> og_Blacklisted summary1);
            summary2 = summary1\<lparr>og_UpdatedAt := now\<rparr> in
        (Inr (summary2, newlyBlacklisted),
         b\<lparr>mb_summaries := (mb_summaries b)(orderID \<mapsto>
             map_put gateway summary2 (byGateway b orderID))\<rparr>)))"

definition MemBlacklist :: "MemoryBlacklist OrderGatewayBlacklistRepository" where
  "MemBlacklist = \<lparr>or_BlacklistedGateways = MemBlacklist_BlacklistedGateways,
     or_RecordOutcome = MemBlacklist_RecordOutcome\<rparr>"

lemma MemBlacklist_simps [simp]:
  "or_BlacklistedGateways MemBlacklist = MemBlacklist_BlacklistedGateways"
  "or_RecordOutcome MemBlacklist = MemBlacklist_RecordOutcome"
  by (simp_all add: MemBlacklist_def)

definition failures_of :: "MemoryBlacklist \<Rightarrow> string \<Rightarrow> string \<Rightarrow> int" where
  "failures_of b o_id g = og_Failures (summary_of b o_id g)"

definition successes_of :: "MemoryBlacklist \<Rightarrow> string \<Rightarrow> string \<Rightarrow> int" where
  "successes_of b o_id g = og_Successes (summary_of b o_id g)"

definition blacklisted_of :: "MemoryBlacklist \<Rightarrow> string \<Rightarrow> string set" where
  "blacklisted_of b o_id = {g. og_Blacklisted (summary_of b o_id g)}"

lemma BlacklistedGateways_eq:
  "MemBlacklist_BlacklistedGateways o_id b = (Inr (blacklisted_of b o_id), b)"
proof -
  have "g \<in> fst ` set (byGateway b o_id)" if "og_Blacklisted (summary_of b o_id g)" for g
  proof (rule ccontr)
    assume "g \<notin> fst ` set (byGateway b o_id)"
    then have "map_of (byGateway b o_id) g = None" by (simp add: map_of_eq_None_iff)
    with that show False by (simp add: summary_of_def zero_summary_def)
  qed
  then show ?thesis by (auto simp: MemBlacklist_BlacklistedGateways_def blacklisted_of_def)
qed

lemma summary_of_update [simp]:
  "summary_of (b\<lparr>mb_summaries := (mb_summaries b)(o_id \<mapsto> map_put g s (byGateway b o_id))\<rparr>) o2 g2 =
     (if o2 = o_id \<and> g2 = g then s else summary_of b o2 g2)"
  by (simp add: summary_of_def byGateway_def)

lemmas abstraction_defs = failures_of_def successes_of_def blacklisted_of_def

interpretation memblacklist:
  order_gateway_blacklist_repository MemBlacklist failures_of successes_of blacklisted_of
proof (standard, goal_cases)
  case (2 o_id g st threshold now b summary newly b')
  then have final: "IsFinal st"
    by (simp add: MemBlacklist_RecordOutcome_def split: if_splits)
  from final show ?case
  proof (cases rule: IsFinal_cases)
    case 1
    with 2 show ?thesis
      by (auto simp: MemBlacklist_RecordOutcome_def Let_def abstraction_defs fun_eq_iff
          split: if_splits)
  next
    case 2
    with \<open>or_RecordOutcome MemBlacklist o_id g st threshold now b = (Inr (summary, newly), b')\<close>
    show ?thesis
      by (auto simp: MemBlacklist_RecordOutcome_def Let_def abstraction_defs fun_eq_iff max_def
          split: if_splits)
  qed
qed (auto simp: BlacklistedGateways_eq MemBlacklist_RecordOutcome_def Let_def split: if_splits)


section \<open>The blacklist over a history of outcomes\<close>

fun record_outcomes :: "int \<Rightarrow> (string \<times> string \<times> TransactionStatus \<times> time) list
    \<Rightarrow> MemoryBlacklist \<Rightarrow> MemoryBlacklist" where
  "record_outcomes n [] b = b"
| "record_outcomes n ((o_id, g, st, now) # os) b =
     record_outcomes n os (snd (MemBlacklist_RecordOutcome o_id g st n now b))"

text \<open>How often an outcome occurs for an order at a gateway.\<close>

definition occurs :: "string \<Rightarrow> string \<Rightarrow> TransactionStatus
    \<Rightarrow> (string \<times> string \<times> TransactionStatus \<times> time) list \<Rightarrow> int" where
  "occurs o_id g st os = int (length (filter (\<lambda>(o2, g2, st2, _). o2 = o_id \<and> g2 = g \<and> st2 = st) os))"

lemma record_outcomes_append:
  "record_outcomes n (os @ os') b = record_outcomes n os' (record_outcomes n os b)"
  by (induction os arbitrary: b) auto

lemma record_outcomes_counts:
  assumes "list_all (\<lambda>(_, _, st, _). IsFinal st) os" "0 < n"
  shows "failures_of (record_outcomes n os MemBlacklist_New) o_id g = occurs o_id g TransactionStatusFailure os \<and>
    successes_of (record_outcomes n os MemBlacklist_New) o_id g = occurs o_id g TransactionStatusSuccess os \<and>
    (g \<in> blacklisted_of (record_outcomes n os MemBlacklist_New) o_id \<longleftrightarrow>
      occurs o_id g TransactionStatusSuccess os = 0 \<and> n \<le> occurs o_id g TransactionStatusFailure os)"
  using assms(1)
proof (induction os rule: rev_induct)
  case Nil
  then show ?case using assms(2)
    by (simp add: abstraction_defs summary_of_def byGateway_def MemBlacklist_New_def zero_summary_def occurs_def)
next
  case (snoc x os)
  obtain o2 g2 st now where x: "x = (o2, g2, st, now)" by (cases x)
  let ?b = "record_outcomes n os MemBlacklist_New"
  from snoc.prems x have fin: "IsFinal st" by simp
  then obtain res b' where run: "MemBlacklist_RecordOutcome o2 g2 st n now ?b = (Inr res, b')"
    by (auto simp: MemBlacklist_RecordOutcome_def Let_def)
  obtain summary newly where res: "res = (summary, newly)" by (cases res)
  have "or_RecordOutcome MemBlacklist o2 g2 st n now ?b = (Inr (summary, newly), b')"
    using run res by simp
  note step = memblacklist.RecordOutcome_ok [OF this]
  have occ: "occurs o_id g st' (os @ [x]) = occurs o_id g st' os +
      (if o2 = o_id \<and> g2 = g \<and> st = st' then 1 else 0)" for st'
    by (simp add: occurs_def x)
  have nonneg: "0 \<le> occurs o_id g st' os" for st' by (simp add: occurs_def)
  have IH: "failures_of ?b o_id g = occurs o_id g TransactionStatusFailure os"
    "successes_of ?b o_id g = occurs o_id g TransactionStatusSuccess os"
    "g \<in> blacklisted_of ?b o_id \<longleftrightarrow>
      occurs o_id g TransactionStatusSuccess os = 0 \<and> n \<le> occurs o_id g TransactionStatusFailure os"
    using snoc.IH snoc.prems by simp_all
  have new: "record_outcomes n (os @ [x]) MemBlacklist_New = b'"
    using run by (simp add: record_outcomes_append x)
  from fin show ?case
  proof (cases rule: IsFinal_cases)
    case 1
    then show ?thesis unfolding new using step IH occ nonneg [of TransactionStatusSuccess] by auto
  next
    case 2
    then show ?thesis unfolding new using step IH occ assms(2) by auto
  qed
qed

text \<open>
  C20: after any history of final outcomes under a constant threshold, a gateway is blacklisted for an
  order exactly when it has no success and at least that many failures in the order's history,
  whatever happened to other orders and gateways in between.
\<close>
theorem blacklist_of_history:
  assumes "list_all (\<lambda>(_, _, st, _). IsFinal st) os" "0 < n"
  shows "\<exists>gs. MemBlacklist_BlacklistedGateways o_id (record_outcomes n os MemBlacklist_New) =
      (Inr gs, record_outcomes n os MemBlacklist_New) \<and>
    (\<forall>g. g \<in> gs \<longleftrightarrow> occurs o_id g TransactionStatusSuccess os = 0 \<and>
       n \<le> occurs o_id g TransactionStatusFailure os)"
  using record_outcomes_counts [OF assms] by (simp add: BlacklistedGateways_eq)

theorem blacklist_of_history_witness:
  "\<exists>gs. fst (MemBlacklist_BlacklistedGateways ''o'' (record_outcomes 2
     [(''o'', ''payu'', TransactionStatusFailure, 1), (''o'', ''payu'', TransactionStatusFailure, 2)]
     MemBlacklist_New)) = Inr gs \<and> ''payu'' \<in> gs"
  using blacklist_of_history [of "[(''o'', ''payu'', TransactionStatusFailure, 1),
      (''o'', ''payu'', TransactionStatusFailure, 2)]" 2 "''o''"]
  by (auto simp: occurs_def)

end
