(* ===== verification/BlacklistService.thy ===== *)
theory BlacklistService
  imports RoutingSpec MemoryBlacklist
begin

text \<open>
  \<open>internal/service/order_gateway_blacklist_service.go\<close>: which gateways an order no longer uses.
  The record extends the routing service, so that one state holds what the services share.
\<close>

record ('h, 'b) OrderGatewayBlacklistService = "'h RoutingService" +
  bs_repository :: 'b

definition on_orders :: "('b, 'e, 'a) proc
    \<Rightarrow> (('h, 'b, 'z) OrderGatewayBlacklistService_scheme, 'e, 'a) proc" where
  "on_orders m s = (case m (bs_repository s) of (r, b') \<Rightarrow> (r, s\<lparr>bs_repository := b'\<rparr>))"

definition OrderGatewayBlacklistService_BlacklistedGateways ::
  "'b OrderGatewayBlacklistRepository \<Rightarrow> string
    \<Rightarrow> (('h, 'b, 'z) OrderGatewayBlacklistService_scheme, go_error, string set) proc" where
  "OrderGatewayBlacklistService_BlacklistedGateways B orderID =
     (if orderID = '''' then ret {} else on_orders (or_BlacklistedGateways B orderID))"

text \<open>The configuration is read first, the clock when the arguments of the call are evaluated.\<close>

definition OrderGatewayBlacklistService_RecordOutcome ::
  "'b OrderGatewayBlacklistRepository \<Rightarrow> Transaction
    \<Rightarrow> (('h, 'b, 'z) OrderGatewayBlacklistService_scheme, go_error, unit) proc" where
  "OrderGatewayBlacklistService_RecordOutcome B transaction =
     andThen ConfigProvider_Current (\<lambda>current.
     let cfg = WithDefaults current in
     andThen Clock_Now (\<lambda>now.
     andThen (on_orders (or_RecordOutcome B (tx_OrderID transaction) (tx_Gateway transaction)
       (tx_Status transaction) (rc_OrderGatewayFailureThreshold (ac_Routing cfg)) now)) (\<lambda>_.
     ret ())))"

lemma on_orders_Inr:
  "on_orders m s = (Inr x, s') \<longleftrightarrow>
     (\<exists>b'. m (bs_repository s) = (Inr x, b') \<and> s' = s\<lparr>bs_repository := b'\<rparr>)"
  by (auto simp: on_orders_def split: prod.splits)

lemma on_orders_Inl:
  "on_orders m s = (Inl e, s') \<longleftrightarrow>
     (\<exists>b'. m (bs_repository s) = (Inl e, b') \<and> s' = s\<lparr>bs_repository := b'\<rparr>)"
  by (auto simp: on_orders_def split: prod.splits)

context order_gateway_blacklist_repository
begin

lemma Service_Blacklisted_ok:
  "OrderGatewayBlacklistService_BlacklistedGateways B o_id s = (Inr gs, s') \<Longrightarrow>
   s' = s \<and> gs = (if o_id = '''' then {} else blacklisted (bs_repository s) o_id)"
  by (auto simp: OrderGatewayBlacklistService_BlacklistedGateways_def on_orders_Inr
      split: if_splits dest!: BlacklistedGateways_ok)

lemma Service_Blacklisted_error:
  "OrderGatewayBlacklistService_BlacklistedGateways B o_id s = (Inl er, s') \<Longrightarrow> s' = s"
  by (auto simp: OrderGatewayBlacklistService_BlacklistedGateways_def on_orders_Inl
      split: if_splits dest!: error_unchanged)

lemma Service_RecordOutcome_ok:
  assumes "OrderGatewayBlacklistService_RecordOutcome B x s = (Inr u, s')"
  obtains summary newly b' where
    "or_RecordOutcome B (tx_OrderID x) (tx_Gateway x) (tx_Status x)
       (rc_OrderGatewayFailureThreshold (ac_Routing (WithDefaults (env_config s (env_reads s)))))
       (env_clock s (env_ticks s)) (bs_repository s) = (Inr (summary, newly), b')"
    "s' = s\<lparr>env_reads := Suc (env_reads s), env_ticks := Suc (env_ticks s), bs_repository := b'\<rparr>"
  using assms
  by (auto simp: OrderGatewayBlacklistService_RecordOutcome_def Let_def on_orders_Inr elim!: andThen_Inr)

end

end
