(* ===== verification/MemoryTransactions.thy ===== *)
theory MemoryTransactions
  imports Ports
begin

text \<open>
  \<open>internal/adapters/repository/memory/transaction_repository.go\<close>. Every method holds the
  repository's lock from its first access to the maps to its return, so a call is one step.
\<close>

record MemoryTransactions =
  mt_transactions :: "string \<rightharpoonup> Transaction"
  mt_attempts :: "string \<rightharpoonup> int"

definition MemTx_New :: MemoryTransactions where
  "MemTx_New = \<lparr>mt_transactions = Map.empty, mt_attempts = Map.empty\<rparr>"

text \<open>Reading an absent key of a Go map gives the zero value.\<close>

definition MemTx_attempts :: "MemoryTransactions \<Rightarrow> string \<Rightarrow> int" where
  "MemTx_attempts t o_id = (case mt_attempts t o_id of None \<Rightarrow> 0 | Some n \<Rightarrow> n)"

definition MemTx_NextAttempt :: "string \<Rightarrow> (MemoryTransactions, go_error, int) proc" where
  "MemTx_NextAttempt orderID t =
     (let n = MemTx_attempts t orderID + 1 in
      (Inr n, t\<lparr>mt_attempts := (mt_attempts t)(orderID \<mapsto> n)\<rparr>))"

definition MemTx_Save :: "Transaction \<Rightarrow> (MemoryTransactions, go_error, unit) proc" where
  "MemTx_Save transaction t =
     (case mt_transactions t (tx_ID transaction) of
        Some _ \<Rightarrow> (Inl (Wrapf ErrConflict ''%w: transaction %q already exists'' [tx_ID transaction]), t)
      | None \<Rightarrow> (Inr (), t\<lparr>mt_transactions :=
                  (mt_transactions t)(tx_ID transaction \<mapsto> transaction)\<rparr>))"

definition MemTx_GetByID :: "string \<Rightarrow> (MemoryTransactions, go_error, Transaction) proc" where
  "MemTx_GetByID transactionID t =
     (case mt_transactions t transactionID of
        None \<Rightarrow> (Inl (Wrapf ErrNotFound ''%w: transaction %q'' [transactionID]), t)
      | Some transaction \<Rightarrow> (Inr transaction, t))"

definition MemTx_Complete :: "string \<Rightarrow> TransactionStatus \<Rightarrow> string \<Rightarrow> time
    \<Rightarrow> (MemoryTransactions, go_error, Transaction \<times> bool) proc" where
  "MemTx_Complete transactionID status reason completedAt t =
     (if \<not> IsFinal status then (Inl (Sentinel ErrInvalidStatus), t)
      else case mt_transactions t transactionID of
        None \<Rightarrow> (Inl (Wrapf ErrNotFound ''%w: transaction %q'' [transactionID]), t)
      | Some transaction \<Rightarrow>
          if IsFinal (tx_Status transaction) then
            (if tx_Status transaction = status then (Inr (transaction, False), t)
             else (Inl (Wrapf ErrConflict ''%w: transaction %q already completed as %q''
                     [transactionID, status_word (tx_Status transaction)]), t))
          else
            (let transaction' = transaction\<lparr>tx_Status := status, tx_FailureReason := reason,
                   tx_UpdatedAt := completedAt, tx_CompletedAt := Some completedAt\<rparr> in
             (Inr (transaction', True),
              t\<lparr>mt_transactions := (mt_transactions t)(transactionID \<mapsto> transaction')\<rparr>)))"

definition MemTx :: "MemoryTransactions TransactionRepository" where
  "MemTx = \<lparr>tr_NextAttempt = MemTx_NextAttempt, tr_Save = MemTx_Save,
     tr_GetByID = MemTx_GetByID, tr_Complete = MemTx_Complete\<rparr>"

lemma MemTx_simps [simp]:
  "tr_NextAttempt MemTx = MemTx_NextAttempt" "tr_Save MemTx = MemTx_Save"
  "tr_GetByID MemTx = MemTx_GetByID" "tr_Complete MemTx = MemTx_Complete"
  by (simp_all add: MemTx_def)

lemmas MemTx_defs = MemTx_NextAttempt_def MemTx_Save_def MemTx_GetByID_def MemTx_Complete_def

interpretation memtx: transaction_repository MemTx mt_transactions MemTx_attempts
proof (standard, goal_cases)
  case (4 i st reason now t x t')
  then show ?case
    by (auto simp: MemTx_Complete_def Let_def MemTx_attempts_def fun_eq_iff
        split: if_splits option.splits)
qed (auto simp: MemTx_defs Let_def MemTx_attempts_def fun_eq_iff split: if_splits option.splits)

section \<open>Completed transactions\<close>

text \<open>The operations of the repository as one datatype, for statements about any sequence of calls.\<close>

datatype tx_op = OpNextAttempt string | OpSave Transaction | OpGetByID string
  | OpComplete string TransactionStatus string time

fun tx_step :: "tx_op \<Rightarrow> MemoryTransactions \<Rightarrow> MemoryTransactions" where
  "tx_step (OpNextAttempt o_id) t = snd (MemTx_NextAttempt o_id t)"
| "tx_step (OpSave x) t = snd (MemTx_Save x t)"
| "tx_step (OpGetByID i) t = snd (MemTx_GetByID i t)"
| "tx_step (OpComplete i st reason now) t = snd (MemTx_Complete i st reason now t)"

definition tx_run :: "tx_op list \<Rightarrow> MemoryTransactions \<Rightarrow> MemoryTransactions" where
  "tx_run = fold tx_step"

text \<open>A call reports that it completed the transaction.\<close>

fun completes :: "string \<Rightarrow> tx_op \<Rightarrow> MemoryTransactions \<Rightarrow> bool" where
  "completes i (OpComplete j st reason now) t =
     (i = j \<and> (case fst (MemTx_Complete j st reason now t) of
        Inr (_, changed) \<Rightarrow> changed | Inl _ \<Rightarrow> False))"
| "completes i _ t = False"

fun count_completes :: "string \<Rightarrow> tx_op list \<Rightarrow> MemoryTransactions \<Rightarrow> nat" where
  "count_completes i [] t = 0"
| "count_completes i (p # ps) t =
     (if completes i p t then 1 else 0) + count_completes i ps (tx_step p t)"

definition final_at :: "string \<Rightarrow> MemoryTransactions \<Rightarrow> bool" where
  "final_at i t \<longleftrightarrow> (\<exists>x. mt_transactions t i = Some x \<and> IsFinal (tx_Status x))"

lemma tx_step_final:
  assumes "mt_transactions t i = Some x" "IsFinal (tx_Status x)"
  shows "mt_transactions (tx_step p t) i = Some x"
  using assms by (cases p) (auto simp: MemTx_defs Let_def split: option.splits if_splits)

lemma completes_not_final: "completes i p t \<Longrightarrow> \<not> final_at i t \<and> final_at i (tx_step p t)"
  by (cases p) (auto simp: final_at_def MemTx_Complete_def Let_def split: option.splits if_splits)

lemma final_at_step: "final_at i t \<Longrightarrow> final_at i (tx_step p t)"
  unfolding final_at_def using tx_step_final by blast

lemma count_completes_final: "final_at i t \<Longrightarrow> count_completes i ps t = 0"
  by (induction ps arbitrary: t) (auto simp: final_at_step dest: completes_not_final)

text \<open>
  Whatever sequence of calls reaches the transaction repository, at most one of them reports
  that it completed a given transaction.
\<close>
theorem complete_once: "count_completes i ps t \<le> 1"
proof (induction ps arbitrary: t)
  case (Cons p ps)
  show ?case
  proof (cases "completes i p t")
    case True
    then have "count_completes i ps (tx_step p t) = 0"
      by (intro count_completes_final) (simp add: completes_not_final)
    with True show ?thesis by simp
  next
    case False
    with Cons show ?thesis by simp
  qed
qed simp

text \<open>
  A transaction that has a final status keeps every field, whatever sequence of calls follows.
\<close>
theorem final_transaction_kept:
  assumes "mt_transactions t i = Some x" "IsFinal (tx_Status x)"
  shows "mt_transactions (tx_run ps t) i = Some x"
  using assms by (induction ps arbitrary: t) (simp_all add: tx_run_def tx_step_final)

definition paid :: Transaction where
  "paid = \<lparr>tx_ID = ''t'', tx_OrderID = ''o'', tx_AttemptNo = 1, tx_Amount = Fin 10,
     tx_PaymentInstrument = None, tx_Gateway = ''payu'', tx_GatewayReferenceID = '''',
     tx_Status = TransactionStatusSuccess, tx_FailureReason = '''', tx_CreatedAt = 0,
     tx_UpdatedAt = 1, tx_CompletedAt = Some 1\<rparr>"

theorem final_transaction_kept_witness:
  "mt_transactions (tx_run [OpComplete ''t'' TransactionStatusFailure ''late'' 2]
     (MemTx_New\<lparr>mt_transactions := [''t'' \<mapsto> paid]\<rparr>)) ''t'' = Some paid"
  by (rule final_transaction_kept) (simp_all add: paid_def)

section \<open>Attempt numbers\<close>

text \<open>The results of a sequence of \<open>NextAttempt\<close> calls for the given orders.\<close>

fun attempt_numbers :: "string list \<Rightarrow> MemoryTransactions \<Rightarrow> int list" where
  "attempt_numbers [] t = []"
| "attempt_numbers (o_id # os) t =
     (case MemTx_NextAttempt o_id t of (r, t') \<Rightarrow>
        (case r of Inr n \<Rightarrow> [n] | Inl _ \<Rightarrow> []) @ attempt_numbers os t')"

text \<open>
  The attempt numbers handed out for any interleaving of orders are consecutive for each order:
  the k-th call gets the order's count so far plus the number of calls for that order up to it.
\<close>
theorem attempt_numbers_consecutive:
  assumes "k < length os"
  shows "length (attempt_numbers os t) = length os \<and>
     attempt_numbers os t ! k =
       MemTx_attempts t (os ! k) + int (count_list (take (Suc k) os) (os ! k))"
  using assms
proof (induction os arbitrary: t k)
  case (Cons o_id os)
  let ?t = "snd (MemTx_NextAttempt o_id t)"
  have at: "MemTx_attempts ?t o2 = MemTx_attempts t o2 + (if o2 = o_id then 1 else 0)" for o2
    by (simp add: MemTx_NextAttempt_def MemTx_attempts_def Let_def)
  have len: "length (attempt_numbers os ?t) = length os"
    using Cons.IH [of 0 ?t] by (cases os) auto
  have nums: "attempt_numbers (o_id # os) t =
      (MemTx_attempts t o_id + 1) # attempt_numbers os ?t"
    by (simp add: MemTx_NextAttempt_def Let_def)
  show ?case
  proof (cases k)
    case 0
    then show ?thesis using len by (simp add: nums del: attempt_numbers.simps)
  next
    case (Suc j)
    with Cons.prems have "j < length os" by simp
    from Cons.IH [OF this, of ?t] Suc len show ?thesis
      by (simp add: nums at del: attempt_numbers.simps)
  qed
qed simp

theorem attempt_numbers_consecutive_witness:
  "attempt_numbers [''a'', ''b'', ''a''] MemTx_New ! 2 = 2"
  using attempt_numbers_consecutive [of 2 "[''a'', ''b'', ''a'']" MemTx_New]
  by (simp add: MemTx_New_def MemTx_attempts_def)

end
