(* ===== verification/TransactionService.thy ===== *)
theory TransactionService
  imports BlacklistService MemoryTransactions MemoryBlacklist
begin

text \<open>
  \<open>internal/service/transaction_service.go\<close>: a transaction is initiated at the gateway the router
  selects, and completed by the gateway's callback. The record is the state behind all services
  and repositories; \<open>ts_hasOrderGateways\<close> is \<open>orderGateways != nil\<close>. The clients of the registry
  are parameters. Logging is left out.
\<close>

record ('h, 'b, 't) TransactionService = "('h, 'b) OrderGatewayBlacklistService" +
  ts_transactions :: 't
  ts_hasOrderGateways :: bool

record InitiateTransactionInput =
  in_OrderID :: string
  in_Amount :: f64
  in_PaymentInstrument :: "(string \<times> any) list option"

record CallbackInput =
  cb_TransactionID :: string
  cb_OrderID :: string
  cb_Gateway :: string
  cb_Status :: TransactionStatus
  cb_Reason :: string

record CallbackResult =
  cr_Transaction :: Transaction
  cr_GatewayState :: GatewayRuntimeState
  cr_GatewayStats :: GatewayStats
  cr_Idempotent :: bool

definition on_txns :: "('t, 'e, 'a) proc \<Rightarrow> (('h, 'b, 't, 'z) TransactionService_scheme, 'e, 'a) proc" where
  "on_txns m s = (case m (ts_transactions s) of (r, t') \<Rightarrow> (r, s\<lparr>ts_transactions := t'\<rparr>))"

definition blacklistedGateways :: "'b OrderGatewayBlacklistRepository \<Rightarrow> string
    \<Rightarrow> (('h, 'b, 't, 'z) TransactionService_scheme, go_error, string set) proc" where
  "blacklistedGateways B orderID =
     andThen (gets ts_hasOrderGateways) (\<lambda>hasOrderGateways.
     if \<not> hasOrderGateways then ret {}
     else OrderGatewayBlacklistService_BlacklistedGateways B orderID)"

text \<open>
  The closure \<open>releaseProbe\<close> of \<open>Initiate\<close> (an error of the release is only logged), and the
  return of an error after it.
\<close>

definition releaseProbe :: "'h GatewayHealthRepository \<Rightarrow> GatewaySelection \<Rightarrow> string
    \<Rightarrow> (('h, 'b, 't, 'z) TransactionService_scheme, go_error, unit) proc" where
  "releaseProbe R selection transactionID =
     (if \<not> sel_HalfOpenProbe selection then ret ()
      else onError (ReleaseProbe R (gc_Name (sel_Gateway selection)) transactionID)
             (\<lambda>_. ret ()) (\<lambda>_. ret ()))"

definition failWith :: "'h GatewayHealthRepository \<Rightarrow> GatewaySelection \<Rightarrow> string \<Rightarrow> go_error
    \<Rightarrow> (('h, 'b, 't, 'z) TransactionService_scheme, go_error, 'a) proc" where
  "failWith R selection transactionID err =
     andThen (releaseProbe R selection transactionID) (\<lambda>_. throw err)"

definition Initiate :: "'h GatewayHealthRepository \<Rightarrow> 't TransactionRepository
    \<Rightarrow> 'b OrderGatewayBlacklistRepository \<Rightarrow> GatewayClientRegistry \<Rightarrow> InitiateTransactionInput
    \<Rightarrow> (('h, 'b, 't, 'z) TransactionService_scheme, go_error, Transaction) proc" where
  "Initiate R T B registry input =
     andThen (IDGenerator_NewID ''txn'') (\<lambda>transactionID.
     andThen (blacklistedGateways B (in_OrderID input)) (\<lambda>excludedGateways.
     andThen (SelectGateway R \<lparr>sr_TransactionID = transactionID, sr_OrderID = in_OrderID input,
         sr_ExcludedGateways = excludedGateways\<rparr>) (\<lambda>selection.
     let gateway = sel_Gateway selection in
     case registry (gc_Name gateway) of
       None \<Rightarrow> failWith R selection transactionID
         (Errorf ''gateway client %q is not registered'' [gc_Name gateway])
     | Some client \<Rightarrow>
         onError (on_txns (tr_NextAttempt T (in_OrderID input))) (failWith R selection transactionID)
           (\<lambda>attemptNo.
         andThen Clock_Now (\<lambda>now.
         let transaction = \<lparr>tx_ID = transactionID, tx_OrderID = in_OrderID input,
               tx_AttemptNo = attemptNo, tx_Amount = in_Amount input,
               tx_PaymentInstrument = in_PaymentInstrument input, tx_Gateway = gc_Name gateway,
               tx_GatewayReferenceID = '''', tx_Status = TransactionStatusPending,
               tx_FailureReason = '''', tx_CreatedAt = now, tx_UpdatedAt = now,
               tx_CompletedAt = None\<rparr> in
         case client transaction of
           Inl err \<Rightarrow> failWith R selection transactionID err
         | Inr initiation \<Rightarrow>
             let transaction = transaction\<lparr>tx_GatewayReferenceID := gi_ReferenceID initiation\<rparr> in
             onError (on_txns (tr_Save T transaction)) (failWith R selection transactionID)
               (\<lambda>_. ret transaction))))))"

definition Callback :: "'h GatewayHealthRepository \<Rightarrow> 't TransactionRepository
    \<Rightarrow> 'b OrderGatewayBlacklistRepository \<Rightarrow> CallbackInput
    \<Rightarrow> (('h, 'b, 't, 'z) TransactionService_scheme, go_error, CallbackResult) proc" where
  "Callback R T B input =
     andThen (on_txns (tr_GetByID T (cb_TransactionID input))) (\<lambda>transaction.
     if tx_Gateway transaction \<noteq> cb_Gateway input then
       throw (Wrapf ErrGatewayMismatch ''%w: transaction gateway %q callback gateway %q''
         [tx_Gateway transaction, cb_Gateway input])
     else if cb_OrderID input \<noteq> '''' \<and> tx_OrderID transaction \<noteq> cb_OrderID input then
       throw (Wrapf ErrConflict ''%w: transaction order %q callback order %q''
         [tx_OrderID transaction, cb_OrderID input])
     else
       andThen Clock_Now (\<lambda>now.
       andThen (on_txns (tr_Complete T (cb_TransactionID input) (cb_Status input) (cb_Reason input)
         now)) (\<lambda>(completed, changed).
       if \<not> changed then
         andThen (HealthService_State R (tx_Gateway completed)) (\<lambda>state.
         andThen (HealthService_Stats R (tx_Gateway completed)) (\<lambda>stats.
         ret \<lparr>cr_Transaction = completed, cr_GatewayState = state, cr_GatewayStats = stats,
              cr_Idempotent = True\<rparr>))
       else
         andThen (HealthService_RecordOutcome R (tx_Gateway completed) (tx_ID completed)
           (tx_Status completed)) (\<lambda>(state, stats).
         andThen (gets ts_hasOrderGateways) (\<lambda>hasOrderGateways.
         andThen (if hasOrderGateways then OrderGatewayBlacklistService_RecordOutcome B completed
                  else ret ()) (\<lambda>_.
         ret \<lparr>cr_Transaction = completed, cr_GatewayState = state, cr_GatewayStats = stats,
              cr_Idempotent = False\<rparr>))))))"

lemma on_txns_Inr:
  "on_txns m s = (Inr x, s') \<longleftrightarrow>
     (\<exists>t'. m (ts_transactions s) = (Inr x, t') \<and> s' = s\<lparr>ts_transactions := t'\<rparr>)"
  by (auto simp: on_txns_def split: prod.splits)

lemma on_txns_Inl:
  "on_txns m s = (Inl e, s') \<longleftrightarrow>
     (\<exists>t'. m (ts_transactions s) = (Inl e, t') \<and> s' = s\<lparr>ts_transactions := t'\<rparr>)"
  by (auto simp: on_txns_def split: prod.splits)

section \<open>The services together\<close>

locale payment_router =
  health: local_health_repository R states +
  txn: transaction_repository T txns attempts +
  orders: order_gateway_blacklist_repository B failures successes blacklisted
  for R :: "'h GatewayHealthRepository" and states
    and T :: "'t TransactionRepository" and txns attempts
    and B :: "'b OrderGatewayBlacklistRepository" and failures successes blacklisted +
  assumes outcome_total:
      "or_RecordOutcome B o_id g st threshold now b = (Inl er, b') \<Longrightarrow> \<not> IsFinal st"
    and get_total: "tr_GetByID T i t = (Inl er, t') \<Longrightarrow> txns t i = None"
    and complete_total: "tr_Complete T i st reason now t = (Inl er, t') \<Longrightarrow> txns t i = Some x \<Longrightarrow>
      \<not> IsFinal st \<or> (IsFinal (tx_Status x) \<and> tx_Status x \<noteq> st)"

end
