(* ===== verification/TransactionSpec.thy ===== *)
theory TransactionSpec
  imports TransactionService
begin

text \<open>
  What \<open>Initiate\<close> and \<open>Callback\<close> do over repositories that meet their contracts: the transaction
  that is returned and stored, what a failed call leaves behind, and the invariants of the health
  and routing services.
\<close>

section \<open>Frames\<close>

lemma route_frame_txn:
  fixes s s' :: "('h, 'b, 't, 'z) TransactionService_scheme"
  assumes "route_frame s s'"
  shows "bs_repository s' = bs_repository s" "ts_transactions s' = ts_transactions s"
    "ts_hasOrderGateways s' = ts_hasOrderGateways s"
  using assms by (cases s; cases s'; simp add: route_frame_def)+

lemma txn_upd_commute [simp]:
  "s\<lparr>ts_transactions := t, env_ticks := n\<rparr> = s\<lparr>env_ticks := n, ts_transactions := t\<rparr>"
  by (cases s) simp

lemma routing_inv_txn_upd [simp]:
  "routing_inv states (s\<lparr>bs_repository := b\<rparr>) = routing_inv states s"
  "routing_inv states (s\<lparr>ts_transactions := t\<rparr>) = routing_inv states s"
  "routing_inv states (s\<lparr>env_issued := n\<rparr>) = routing_inv states s"
  by (simp_all add: routing_inv_def health_inv_def snapshot_configured_def configured_def)

lemma routing_inv_reads:
  "routing_inv states s \<Longrightarrow> routing_inv states (s\<lparr>env_reads := Suc (env_reads s)\<rparr>)"
  using snapshot_configured_mono [of s "rs_cache s" "s\<lparr>env_reads := Suc (env_reads s)\<rparr>"]
  by (simp add: routing_inv_def)

definition excluded_for :: "('b \<Rightarrow> string \<Rightarrow> string set) \<Rightarrow> ('h, 'b, 't, 'z) TransactionService_scheme
    \<Rightarrow> string \<Rightarrow> string set" where
  "excluded_for blacklisted s o_id =
     (if \<not> ts_hasOrderGateways s \<or> o_id = '''' then {} else blacklisted (bs_repository s) o_id)"

text \<open>The transaction a successful \<open>Initiate\<close> returns, at the instant \<open>now\<close>.\<close>

definition initiated :: "InitiateTransactionInput \<Rightarrow> string \<Rightarrow> int \<Rightarrow> string \<Rightarrow> string \<Rightarrow> time \<Rightarrow> Transaction" where
  "initiated input tid n gateway ref now = \<lparr>tx_ID = tid, tx_OrderID = in_OrderID input,
     tx_AttemptNo = n, tx_Amount = in_Amount input,
     tx_PaymentInstrument = in_PaymentInstrument input, tx_Gateway = gateway,
     tx_GatewayReferenceID = ref, tx_Status = TransactionStatusPending,
     tx_FailureReason = '''', tx_CreatedAt = now, tx_UpdatedAt = now, tx_CompletedAt = None\<rparr>"

lemma route_moves_mono: "route_moves t m m' \<Longrightarrow> t \<le> v \<Longrightarrow> route_moves v m m'"
  using route_moves_trans [of t m m' v m' v] by simp

context payment_router
begin

lemma blacklistedGateways_ok:
  "blacklistedGateways B o_id s = (Inr gs, s') \<Longrightarrow> s' = s \<and> gs = excluded_for blacklisted s o_id"
  by (auto simp: blacklistedGateways_def excluded_for_def split: if_splits
      dest!: orders.Service_Blacklisted_ok)

lemma blacklistedGateways_error: "blacklistedGateways B o_id s = (Inl er, s') \<Longrightarrow> s' = s"
  by (auto simp: blacklistedGateways_def split: if_splits dest!: orders.Service_Blacklisted_error)

lemma failWith_runs:
  fixes s :: "('h, 'b, 't, 'z) TransactionService_scheme"
  assumes inv: "routing_inv states s"
  shows "\<exists>s'. failWith R sel tid er s = (Inl er, s') \<and> routing_inv states s' \<and> route_frame s s' \<and>
    env_reads s' = env_reads s \<and> env_ticks s \<le> env_ticks s' \<and>
    (clock_mono s \<longrightarrow> route_moves (env_clock s (env_ticks s'))
       (states (hs_repository s)) (states (hs_repository s'))) \<and>
    (if sel_HalfOpenProbe sel
     then \<exists>r. ReleaseProbe R (gc_Name (sel_Gateway sel)) tid s = (r, s') else s' = s)"
proof (cases "sel_HalfOpenProbe sel")
  case False
  with inv show ?thesis by (simp add: failWith_def releaseProbe_def)
next
  case True
  obtain r s' where rel: "ReleaseProbe R (gc_Name (sel_Gateway sel)) tid s = (r, s')" by fastforce
  from health.ReleaseProbe_any [OF rel routing_invD(1) [OF inv]]
  have any: "health_inv states s'" "health_frame s s'" "env_ticks s' = Suc (env_ticks s)"
    "env_reads s' = env_reads s" "route_moves (env_clock s (env_ticks s))
      (states (hs_repository s)) (states (hs_repository s'))"
    by auto
  have "route_moves (env_clock s (env_ticks s'))
      (states (hs_repository s)) (states (hs_repository s'))" if mono: "clock_mono s"
    using route_moves_mono [OF any(5)] clock_monoD [OF mono] any(3) by simp
  moreover have "failWith R sel tid er s = (Inl er, s')"
    using True rel by (cases r) (simp_all add: failWith_def releaseProbe_def andThen_def onError_def)
  moreover have "routing_inv states s'"
    by (rule routing_inv_health [OF inv any(1,2)]) (simp add: any)
  ultimately show ?thesis using any True rel health_frame_route(1) [OF any(2)] by auto
qed

end


section \<open>A successful initiation\<close>

context payment_router
begin

lemma failWith_not_Inr: "failWith R sel tid er s \<noteq> (Inr y, s')"
  by (auto simp: failWith_def elim!: andThen_Inr)

lemma Initiate_Inr:
  fixes s :: "('h, 'b, 't, 'z) TransactionService_scheme"
  defines "tid \<equiv> env_ids s (env_issued s) ''txn''"
  assumes run: "Initiate R T B registry input s = (Inr x, s')"
  obtains sel s1 client n t1 now ref t2
    where "SelectGateway R \<lparr>sr_TransactionID = tid, sr_OrderID = in_OrderID input,
        sr_ExcludedGateways = excluded_for blacklisted s (in_OrderID input)\<rparr>
        (s\<lparr>env_issued := Suc (env_issued s)\<rparr>) = (Inr sel, s1)"
      and "registry (gc_Name (sel_Gateway sel)) = Some client"
      and "tr_NextAttempt T (in_OrderID input) (ts_transactions s1) = (Inr n, t1)"
      and "now = env_clock s1 (env_ticks s1)"
      and "client (initiated input tid n (gc_Name (sel_Gateway sel)) '''' now)
             = Inr \<lparr>gi_ReferenceID = ref\<rparr>"
      and "x = initiated input tid n (gc_Name (sel_Gateway sel)) ref now"
      and "tr_Save T x t1 = (Inr (), t2)"
      and "s' = s1\<lparr>env_ticks := Suc (env_ticks s1), ts_transactions := t2\<rparr>"
proof -
  let ?s = "s\<lparr>env_issued := Suc (env_issued s)\<rparr>"
  have ex: "excluded_for blacklisted ?s o_id = excluded_for blacklisted s o_id" for o_id
    by (simp add: excluded_for_def)
  from run obtain sel s1 where
    sel: "SelectGateway R \<lparr>sr_TransactionID = tid, sr_OrderID = in_OrderID input,
        sr_ExcludedGateways = excluded_for blacklisted s (in_OrderID input)\<rparr> ?s = (Inr sel, s1)"
    and rest: "(case registry (gc_Name (sel_Gateway sel)) of
       None \<Rightarrow> failWith R sel tid
         (Errorf ''gateway client %q is not registered'' [gc_Name (sel_Gateway sel)])
     | Some client \<Rightarrow>
         onError (on_txns (tr_NextAttempt T (in_OrderID input))) (failWith R sel tid)
           (\<lambda>attemptNo.
         andThen Clock_Now (\<lambda>now.
         let transaction = initiated input tid attemptNo (gc_Name (sel_Gateway sel)) '''' now in
         case client transaction of
           Inl err \<Rightarrow> failWith R sel tid err
         | Inr initiation \<Rightarrow>
             let transaction = transaction\<lparr>tx_GatewayReferenceID := gi_ReferenceID initiation\<rparr> in
             onError (on_txns (tr_Save T transaction)) (failWith R sel tid)
               (\<lambda>_. ret transaction)))) s1 = (Inr x, s')"
    unfolding Initiate_def andThen_NewID tid_def initiated_def
    by (elim andThen_Inr) (auto dest!: blacklistedGateways_ok simp: ex Let_def)
  from rest obtain client where c: "registry (gc_Name (sel_Gateway sel)) = Some client"
    by (cases "registry (gc_Name (sel_Gateway sel))") (auto simp: failWith_not_Inr)
  obtain q t1 where na: "tr_NextAttempt T (in_OrderID input) (ts_transactions s1) = (q, t1)" by fastforce
  obtain n where n: "q = Inr n"
    using rest c na by (cases q) (auto simp: onError_def on_txns_def failWith_not_Inr)
  let ?now = "env_clock s1 (env_ticks s1)"
  let ?s2 = "s1\<lparr>ts_transactions := t1, env_ticks := Suc (env_ticks s1)\<rparr>"
  let ?x = "initiated input tid n (gc_Name (sel_Gateway sel)) '''' ?now"
  have rest2: "(case client ?x of
           Inl err \<Rightarrow> failWith R sel tid err
         | Inr initiation \<Rightarrow>
             onError (on_txns (tr_Save T (?x\<lparr>tx_GatewayReferenceID := gi_ReferenceID initiation\<rparr>)))
               (failWith R sel tid)
               (\<lambda>_. ret (?x\<lparr>tx_GatewayReferenceID := gi_ReferenceID initiation\<rparr>))) ?s2 = (Inr x, s')"
    using rest c na n by (simp add: onError_def on_txns_def Let_def split: sum.splits)
  obtain ini where ini: "client ?x = Inr ini"
    using rest2 by (cases "client ?x") (auto simp: failWith_not_Inr)
  let ?y = "initiated input tid n (gc_Name (sel_Gateway sel)) (gi_ReferenceID ini) ?now"
  have y: "?x\<lparr>tx_GatewayReferenceID := gi_ReferenceID ini\<rparr> = ?y" by (simp add: initiated_def)
  obtain w t2 where sv: "tr_Save T ?y t1 = (w, t2)" by fastforce
  have w: "w = Inr ()" "x = ?y" "s' = ?s2\<lparr>ts_transactions := t2\<rparr>"
    using rest2 ini sv by (cases w; auto simp: y onError_def on_txns_def failWith_not_Inr)+
  show thesis
    by (rule that [OF sel c na [unfolded n] refl, of "gi_ReferenceID ini" t2])
      (use ini sv w in simp_all)
qed

lemma Initiate_ok:
  fixes s :: "('h, 'b, 't, 'z) TransactionService_scheme"
  defines "tid \<equiv> env_ids s (env_issued s) ''txn''" and "t \<equiv> ts_transactions s"
  assumes run: "Initiate R T B registry input s = (Inr x, s')" and inv: "routing_inv states s"
  shows "\<exists>ref now. x = initiated input tid (attempts t (in_OrderID input) + 1) (tx_Gateway x) ref now"
    and "tx_Gateway x \<notin> excluded_for blacklisted s (in_OrderID input)"
    and "registry (tx_Gateway x) \<noteq> None"
    and "\<exists>g. gc_Name g = tx_Gateway x \<and> configured s' g"
    and "txns t tid = None"
    and "txns (ts_transactions s') = (txns t)(tid \<mapsto> x)"
    and "attempts (ts_transactions s') =
      (attempts t)(in_OrderID input := attempts t (in_OrderID input) + 1)"
    and "routing_inv states s'" and "bs_repository s' = bs_repository s"
    and "ts_hasOrderGateways s' = ts_hasOrderGateways s"
    and "env_clock s' = env_clock s" and "env_config s' = env_config s"
    and "env_ticks s < env_ticks s'" and "env_reads s \<le> env_reads s'"
    and "clock_mono s \<Longrightarrow> route_moves (env_clock s (env_ticks s'))
       (states (hs_repository s)) (states (hs_repository s'))"
proof -
  let ?s = "s\<lparr>env_issued := Suc (env_issued s)\<rparr>"
  from run obtain sel s1 client n t1 now ref t2
    where sel: "SelectGateway R \<lparr>sr_TransactionID = tid, sr_OrderID = in_OrderID input,
        sr_ExcludedGateways = excluded_for blacklisted s (in_OrderID input)\<rparr> ?s = (Inr sel, s1)"
      and c: "registry (gc_Name (sel_Gateway sel)) = Some client"
      and na: "tr_NextAttempt T (in_OrderID input) (ts_transactions s1) = (Inr n, t1)"
      and x: "x = initiated input tid n (gc_Name (sel_Gateway sel)) ref now"
      and sv: "tr_Save T x t1 = (Inr (), t2)"
      and s': "s' = s1\<lparr>env_ticks := Suc (env_ticks s1), ts_transactions := t2\<rparr>"
    unfolding tid_def by (rule Initiate_Inr)
  have inv0: "routing_inv states ?s" using inv by simp
  from health.SelectGateway_any [OF sel inv0]
  have s1: "routing_inv states s1" "route_frame ?s s1" "env_reads s \<le> env_reads s1"
    "env_ticks s < env_ticks s1" "clock_mono s \<Longrightarrow> route_moves (env_clock s (env_ticks s1))
       (states (hs_repository s)) (states (hs_repository s1))"
    by (auto simp: clock_mono_def)
  note fr = route_frameD [OF s1(2)] route_frame_txn [OF s1(2)]
  have tx: "tx_Gateway x = gc_Name (sel_Gateway sel)" "tx_ID x = tid"
    using x by (simp_all add: initiated_def)
  have t1: "ts_transactions s1 = t" using fr by (simp add: t_def)
  note n = txn.NextAttempt_ok [OF na [unfolded t1]]
  note saved = txn.Save_ok [OF sv]
  from health.SelectGateway_ok [OF sel inv0] obtain snap s2 where s2: "snapshot R ?s = (Inr snap, s2)"
    "gc_Name (sel_Gateway sel) \<notin> excluded_for blacklisted s (in_OrderID input)"
    "configured s1 (sel_Gateway sel)" by auto
  show "\<exists>ref now. x = initiated input tid (attempts t (in_OrderID input) + 1) (tx_Gateway x) ref now"
    using x tx n by auto
  show "tx_Gateway x \<notin> excluded_for blacklisted s (in_OrderID input)" using s2 tx by simp
  show "registry (tx_Gateway x) \<noteq> None" using c tx by simp
  show "\<exists>g. gc_Name g = tx_Gateway x \<and> configured s' g"
    using s2(3) tx s' by (intro exI [of _ "sel_Gateway sel"]) (simp add: configured_def)
  show "txns t tid = None" using saved n tx by auto
  show "txns (ts_transactions s') = (txns t)(tid \<mapsto> x)" using saved n tx s' by simp
  show "attempts (ts_transactions s') =
      (attempts t)(in_OrderID input := attempts t (in_OrderID input) + 1)"
    using saved n s' by simp
  show "routing_inv states s'" using s1 s' by simp
  show "bs_repository s' = bs_repository s" "ts_hasOrderGateways s' = ts_hasOrderGateways s"
    "env_clock s' = env_clock s" "env_config s' = env_config s" using fr s' by simp_all
  show "env_ticks s < env_ticks s'" "env_reads s \<le> env_reads s'" using s1 s' by simp_all
  show "route_moves (env_clock s (env_ticks s'))
     (states (hs_repository s)) (states (hs_repository s'))" if mono: "clock_mono s"
    using route_moves_mono [OF s1(5) [OF mono]] clock_monoD [OF mono] s' by simp
qed

end


section \<open>A failed initiation\<close>

context payment_router
begin

text \<open>
  What a failed \<open>Initiate\<close> may have done: it stopped before or in the selection, or it went
  through \<open>failWith\<close> in a state that differs from the one after the selection in the attempt
  numbers and the clock only.
\<close>

lemma Initiate_Inl:
  fixes s :: "('h, 'b, 't, 'z) TransactionService_scheme" and input :: InitiateTransactionInput
  defines "tid \<equiv> env_ids s (env_issued s) ''txn''" and "s0 \<equiv> s\<lparr>env_issued := Suc (env_issued s)\<rparr>"
    and "request \<equiv> \<lparr>sr_TransactionID = env_ids s (env_issued s) ''txn'', sr_OrderID = in_OrderID input,
        sr_ExcludedGateways = excluded_for blacklisted s (in_OrderID input)\<rparr>"
  assumes run: "Initiate R T B registry input s = (Inl er, s')"
  obtains (early) "s' = s0" | (select) "SelectGateway R request s0 = (Inl er, s')"
    | (late) sel s1 t2 n where "SelectGateway R request s0 = (Inr sel, s1)"
      "failWith R sel tid er (s1\<lparr>ts_transactions := t2, env_ticks := n\<rparr>) =
        (Inl er :: go_error + Transaction, s')"
      "n = env_ticks s1 \<or> n = Suc (env_ticks s1)"
      "txns t2 = txns (ts_transactions s1)"
      "attempts t2 = attempts (ts_transactions s1) \<or> attempts t2 =
        (attempts (ts_transactions s1))(in_OrderID input :=
           attempts (ts_transactions s1) (in_OrderID input) + 1)"
proof (cases "blacklistedGateways B (in_OrderID input) s0")
  case (Pair q sb)
  show thesis
  proof (cases q)
    case (Inl e)
    with Pair run blacklistedGateways_error [of "in_OrderID input" s0 e sb] have "s' = s0"
      by (simp add: Initiate_def s0_def andThen_run)
    then show ?thesis by (rule early)
  next
    case (Inr ex)
    from blacklistedGateways_ok [of "in_OrderID input" s0 ex sb] Pair Inr
    have ex: "sb = s0" "ex = excluded_for blacklisted s (in_OrderID input)"
      by (simp_all add: s0_def excluded_for_def)
    obtain p s1 where sel: "SelectGateway R request s0 = (p, s1)" by fastforce
    show ?thesis
    proof (cases p)
      case Inl': (Inl e)
      have "s' = s1 \<and> e = er"
        using run Pair Inr ex sel Inl'
        by (simp add: Initiate_def s0_def andThen_run request_def)
      with sel Inl' show ?thesis by (intro select) simp
    next
      case Inr': (Inr sl)
      have fw: "failWith R sl tid e st = (Inl er :: go_error + Transaction, s') \<Longrightarrow> e = er" for e st
        by (auto simp: failWith_def releaseProbe_def onError_def elim!: andThen_Inl
            split: if_splits prod.splits sum.splits)
      have rest: "(case registry (gc_Name (sel_Gateway sl)) of
       None \<Rightarrow> failWith R sl tid
         (Errorf ''gateway client %q is not registered'' [gc_Name (sel_Gateway sl)])
     | Some client \<Rightarrow>
         onError (on_txns (tr_NextAttempt T (in_OrderID input))) (failWith R sl tid)
           (\<lambda>attemptNo.
         andThen Clock_Now (\<lambda>now.
         let transaction = initiated input tid attemptNo (gc_Name (sel_Gateway sl)) '''' now in
         case client transaction of
           Inl err \<Rightarrow> failWith R sl tid err
         | Inr initiation \<Rightarrow>
             let transaction = transaction\<lparr>tx_GatewayReferenceID := gi_ReferenceID initiation\<rparr> in
             onError (on_txns (tr_Save T transaction)) (failWith R sl tid)
               (\<lambda>_. ret transaction)))) s1 = (Inl er, s')"
        using run Pair Inr ex sel Inr'
        unfolding Initiate_def andThen_NewID initiated_def tid_def Let_def s0_def request_def
        by (simp add: andThen_run)
      show ?thesis
      proof (cases "registry (gc_Name (sel_Gateway sl))")
        case None
        with rest have f: "failWith R sl tid (Errorf ''gateway client %q is not registered''
            [gc_Name (sel_Gateway sl)]) s1 = (Inl er :: go_error + Transaction, s')" by simp
        show ?thesis
          by (rule late [OF sel [unfolded Inr'], of "env_ticks s1" "ts_transactions s1"])
            (use f fw [OF f] in simp_all)
      next
        case (Some client)
        obtain a t1 where na: "tr_NextAttempt T (in_OrderID input) (ts_transactions s1) = (a, t1)"
          by fastforce
        show ?thesis
        proof (cases a)
          case Inl2: (Inl e)
          with na have t1: "t1 = ts_transactions s1" using txn.error_unchanged(1) by blast
          from rest Some na Inl2 t1 have f: "failWith R sl tid e s1 = (Inl er :: go_error + Transaction, s')"
            by (simp add: onError_def on_txns_def)
          show ?thesis
            by (rule late [OF sel [unfolded Inr'], of "env_ticks s1" "ts_transactions s1"])
              (use f fw [OF f] in simp_all)
        next
          case Inr2: (Inr n)
          note att = txn.NextAttempt_ok [OF na [unfolded Inr2]]
          let ?s2 = "s1\<lparr>ts_transactions := t1, env_ticks := Suc (env_ticks s1)\<rparr>"
          let ?x = "initiated input tid n (gc_Name (sel_Gateway sl)) '''' (env_clock s1 (env_ticks s1))"
          from rest Some na Inr2 have rest2: "(case client ?x of
               Inl err \<Rightarrow> failWith R sl tid err
             | Inr initiation \<Rightarrow>
                 onError (on_txns (tr_Save T (?x\<lparr>tx_GatewayReferenceID := gi_ReferenceID initiation\<rparr>)))
                   (failWith R sl tid)
                   (\<lambda>_. ret (?x\<lparr>tx_GatewayReferenceID := gi_ReferenceID initiation\<rparr>))) ?s2 = (Inl er, s')"
            by (simp add: onError_def on_txns_def Let_def split: sum.splits)
          have "failWith R sl tid er ?s2 = (Inl er :: go_error + Transaction, s')"
          proof (cases "client ?x")
            case Inl3: (Inl e)
            with rest2 fw [of e ?s2] show ?thesis by simp
          next
            case Inr3: (Inr ini)
            let ?y = "?x\<lparr>tx_GatewayReferenceID := gi_ReferenceID ini\<rparr>"
            obtain w t2 where sv: "tr_Save T ?y t1 = (w, t2)" by fastforce
            with rest2 Inr3 obtain e where w: "w = Inl e"
              by (cases w) (auto simp: onError_def on_txns_def)
            with sv have "t2 = t1" using txn.error_unchanged(2) by blast
            with rest2 Inr3 sv w fw [of e ?s2] show ?thesis by (simp add: onError_def on_txns_def)
          qed
          with att show ?thesis
            by (intro late [OF sel [unfolded Inr'], of "Suc (env_ticks s1)" t1]) simp_all
        qed
      qed
    qed
  qed
qed

lemma Initiate_failed:
  fixes s :: "('h, 'b, 't, 'z) TransactionService_scheme"
  assumes run: "Initiate R T B registry input s = (Inl er, s')" and inv: "routing_inv states s"
  shows "routing_inv states s'" and "txns (ts_transactions s') = txns (ts_transactions s)"
    and "attempts (ts_transactions s') = attempts (ts_transactions s) \<or>
      attempts (ts_transactions s') = (attempts (ts_transactions s))(in_OrderID input :=
        attempts (ts_transactions s) (in_OrderID input) + 1)"
    and "bs_repository s' = bs_repository s" and "ts_hasOrderGateways s' = ts_hasOrderGateways s"
    and "env_clock s' = env_clock s" and "env_config s' = env_config s"
    and "env_ticks s \<le> env_ticks s'" and "env_reads s \<le> env_reads s'"
    and "clock_mono s \<Longrightarrow> route_moves (env_clock s (env_ticks s'))
       (states (hs_repository s)) (states (hs_repository s'))"
proof -
  let ?s = "s\<lparr>env_issued := Suc (env_issued s)\<rparr>"
  have inv0: "routing_inv states ?s" using inv by simp
  have "routing_inv states s' \<and> txns (ts_transactions s') = txns (ts_transactions s) \<and>
    (attempts (ts_transactions s') = attempts (ts_transactions s) \<or>
      attempts (ts_transactions s') = (attempts (ts_transactions s))(in_OrderID input :=
        attempts (ts_transactions s) (in_OrderID input) + 1)) \<and>
    bs_repository s' = bs_repository s \<and> ts_hasOrderGateways s' = ts_hasOrderGateways s \<and>
    env_clock s' = env_clock s \<and> env_config s' = env_config s \<and>
    env_ticks s \<le> env_ticks s' \<and> env_reads s \<le> env_reads s' \<and>
    (clock_mono s \<longrightarrow> route_moves (env_clock s (env_ticks s'))
       (states (hs_repository s)) (states (hs_repository s')))"
    using run
  proof (cases rule: Initiate_Inl)
    case early
    with inv show ?thesis by simp
  next
    case select
    from health.SelectGateway_any [OF select inv0] show ?thesis
      by (auto simp: route_frameD route_frame_txn clock_mono_def)
  next
    case (late sel s1 t2 n)
    let ?s2 = "s1\<lparr>ts_transactions := t2, env_ticks := n\<rparr>"
    from health.SelectGateway_any [OF late(1) inv0]
    have s1: "routing_inv states s1" "route_frame ?s s1" "env_reads s \<le> env_reads s1"
      "env_ticks s < env_ticks s1" "clock_mono s \<longrightarrow> route_moves (env_clock s (env_ticks s1))
         (states (hs_repository s)) (states (hs_repository s1))"
      by (auto simp: clock_mono_def)
    note fr1 = route_frameD [OF s1(2)] route_frame_txn [OF s1(2)]
    have "routing_inv states ?s2" using s1(1) by simp
    then obtain u where "failWith R sel (env_ids s (env_issued s) ''txn'') er ?s2 =
        (Inl er :: go_error + Transaction, u)"
      and u: "routing_inv states u" "route_frame ?s2 u" "env_reads u = env_reads ?s2"
        "env_ticks ?s2 \<le> env_ticks u" "clock_mono ?s2 \<longrightarrow> route_moves (env_clock ?s2 (env_ticks u))
          (states (hs_repository ?s2)) (states (hs_repository u))"
      using failWith_runs by blast
    with late(2) have "u = s'" by simp
    with u have s2: "routing_inv states s'" "route_frame ?s2 s'" "env_reads s' = env_reads s1"
      "n \<le> env_ticks s'" "clock_mono s1 \<longrightarrow> route_moves (env_clock s1 (env_ticks s'))
         (states (hs_repository s1)) (states (hs_repository s'))"
      by (simp_all add: clock_mono_def)
    note fr2 = route_frameD [OF s2(2)] route_frame_txn [OF s2(2)]
    have "env_ticks s1 \<le> env_ticks s'" using late(3) s2(4) by auto
    then have "route_moves (env_clock s (env_ticks s'))
        (states (hs_repository s)) (states (hs_repository s'))" if mono: "clock_mono s"
      using route_moves_trans [of "env_clock s (env_ticks s1)" "states (hs_repository s)"
          "states (hs_repository s1)" "env_clock s (env_ticks s')" "states (hs_repository s')"
          "env_clock s (env_ticks s')"] s1(5) s2(5) mono clock_monoD [OF mono] fr1
      by (simp add: clock_mono_def)
    with s1 s2 fr1 fr2 late(4,5) \<open>env_ticks s1 \<le> env_ticks s'\<close> show ?thesis by auto
  qed
  then show "routing_inv states s'" and "txns (ts_transactions s') = txns (ts_transactions s)"
    and "attempts (ts_transactions s') = attempts (ts_transactions s) \<or>
      attempts (ts_transactions s') = (attempts (ts_transactions s))(in_OrderID input :=
        attempts (ts_transactions s) (in_OrderID input) + 1)"
    and "bs_repository s' = bs_repository s" and "ts_hasOrderGateways s' = ts_hasOrderGateways s"
    and "env_clock s' = env_clock s" and "env_config s' = env_config s"
    and "env_ticks s \<le> env_ticks s'" and "env_reads s \<le> env_reads s'"
    and "clock_mono s \<Longrightarrow> route_moves (env_clock s (env_ticks s'))
       (states (hs_repository s)) (states (hs_repository s'))"
    by blast+
qed

end


section \<open>Callbacks\<close>

text \<open>The transaction of a callback after \<open>Complete\<close>.\<close>

definition completed_at :: "time \<Rightarrow> TransactionStatus \<Rightarrow> string \<Rightarrow> Transaction \<Rightarrow> Transaction" where
  "completed_at now status reason x = x\<lparr>tx_Status := status, tx_FailureReason := reason,
     tx_UpdatedAt := now, tx_CompletedAt := Some now\<rparr>"

lemma completed_at_simps [simp]:
  "tx_ID (completed_at now st r x) = tx_ID x" "tx_OrderID (completed_at now st r x) = tx_OrderID x"
  "tx_Gateway (completed_at now st r x) = tx_Gateway x" "tx_Status (completed_at now st r x) = st"
  "tx_AttemptNo (completed_at now st r x) = tx_AttemptNo x"
  by (simp_all add: completed_at_def)

text \<open>A callback names the gateway of the transaction, and its order if it names one.\<close>

definition callback_matches :: "CallbackInput \<Rightarrow> Transaction \<Rightarrow> bool" where
  "callback_matches input x \<longleftrightarrow> tx_Gateway x = cb_Gateway input \<and>
     (cb_OrderID input = '''' \<or> tx_OrderID x = cb_OrderID input)"

text \<open>A callback the service takes: it matches, and the transaction is pending or ended the same way.\<close>

definition acceptable :: "(string \<rightharpoonup> Transaction) \<Rightarrow> CallbackInput \<Rightarrow> bool" where
  "acceptable m input \<longleftrightarrow> (case m (cb_TransactionID input) of None \<Rightarrow> False
     | Some x \<Rightarrow> callback_matches input x \<and> IsFinal (cb_Status input) \<and>
         (\<not> IsFinal (tx_Status x) \<or> tx_Status x = cb_Status input))"

context payment_router
begin

text \<open>
  A callback is rejected with nothing changed, or it repeats the outcome of a completed
  transaction, or it completes a pending one.
\<close>

lemma Callback_cases:
  fixes s :: "('h, 'b, 't, 'z) TransactionService_scheme"
  defines "now \<equiv> env_clock s (env_ticks s)"
  assumes run: "Callback R T B input s = (r, s')" and inv: "routing_inv states s"
    and keys: "\<forall>i x. txns (ts_transactions s) i = Some x \<longrightarrow> tx_ID x = i"
  obtains (rejected) er where "r = Inl er" "s' = s\<lparr>env_ticks := env_ticks s'\<rparr>" "env_ticks s \<le> env_ticks s'"
      "\<not> acceptable (txns (ts_transactions s)) input"
    | (repeated) x st stats s1 where
      "txns (ts_transactions s) (cb_TransactionID input) = Some x" "callback_matches input x"
      "IsFinal (tx_Status x)" "tx_Status x = cb_Status input"
      "HealthService_State R (tx_Gateway x) (s\<lparr>env_ticks := Suc (env_ticks s)\<rparr>) = (Inr st, s1)"
      "HealthService_Stats R (tx_Gateway x) s1 = (Inr stats, s')"
      "r = Inr \<lparr>cr_Transaction = x, cr_GatewayState = st, cr_GatewayStats = stats, cr_Idempotent = True\<rparr>"
    | (completed) x y st stats t1 s2 where
      "txns (ts_transactions s) (cb_TransactionID input) = Some x" "callback_matches input x"
      "\<not> IsFinal (tx_Status x)" "IsFinal (cb_Status input)"
      "y = completed_at now (cb_Status input) (cb_Reason input) x"
      "txns t1 = (txns (ts_transactions s))(cb_TransactionID input \<mapsto> y)"
      "attempts t1 = attempts (ts_transactions s)"
      "HealthService_RecordOutcome R (tx_Gateway x) (cb_TransactionID input) (cb_Status input)
         (s\<lparr>env_ticks := Suc (env_ticks s), ts_transactions := t1\<rparr>) = (Inr (st, stats), s2)"
      "if ts_hasOrderGateways s
       then OrderGatewayBlacklistService_RecordOutcome B y s2 = (Inr (), s') else s' = s2"
      "r = Inr \<lparr>cr_Transaction = y, cr_GatewayState = st, cr_GatewayStats = stats, cr_Idempotent = False\<rparr>"
proof -
  let ?id = "cb_TransactionID input"
  let ?s1 = "s\<lparr>env_ticks := Suc (env_ticks s)\<rparr>"
  obtain a t where get: "tr_GetByID T ?id (ts_transactions s) = (a, t)" by fastforce
  show thesis
  proof (cases a)
    case (Inl e)
    with get txn.error_unchanged(3) have "t = ts_transactions s" by blast
    with run get Inl have "r = Inl e \<and> s' = s"
      by (simp add: Callback_def andThen_def on_txns_def)
    moreover have "\<not> acceptable (txns (ts_transactions s)) input"
      using get_total [OF get [unfolded Inl]] by (simp add: acceptable_def)
    ultimately show thesis by (intro rejected [of e]) simp_all
  next
    case (Inr x)
    with get txn.GetByID_ok have x: "txns (ts_transactions s) ?id = Some x" and t: "t = ts_transactions s"
      by blast+
    have g: "andThen (on_txns (tr_GetByID T ?id)) f s = f x s" for f
      using get Inr t by (simp add: andThen_def on_txns_def)
    show thesis
    proof (cases "callback_matches input x")
      case False
      then have "\<exists>e. r = Inl e \<and> s' = s"
        using run by (auto simp: Callback_def g callback_matches_def split: if_splits)
      then obtain e where "r = Inl e" "s' = s" by blast
      with False x show thesis by (intro rejected [of e]) (simp_all add: acceptable_def)
    next
      case True
      then have m: "\<not> tx_Gateway x \<noteq> cb_Gateway input"
        "\<not> (cb_OrderID input \<noteq> '''' \<and> tx_OrderID x \<noteq> cb_OrderID input)"
        by (auto simp: callback_matches_def)
      obtain c t1 where c: "tr_Complete T ?id (cb_Status input) (cb_Reason input) now
          (ts_transactions s) = (c, t1)" by fastforce
      show thesis
      proof (cases c)
        case Inl': (Inl e)
        with c txn.error_unchanged(4) have "t1 = ts_transactions s" by blast
        with run c Inl' have "r = Inl e \<and> s' = ?s1"
          unfolding Callback_def g if_not_P [OF m(1)] if_not_P [OF m(2)]
          by (simp add: andThen_def on_txns_def Clock_Now_def now_def)
        with complete_total [OF c [unfolded Inl'] x] x show thesis
          by (intro rejected [of e]) (auto simp: acceptable_def)
      next
        case Inr': (Inr p)
        obtain y changed where p: "p = (y, changed)" by fastforce
        have rest: "(if \<not> changed then
         andThen (HealthService_State R (tx_Gateway y)) (\<lambda>state.
         andThen (HealthService_Stats R (tx_Gateway y)) (\<lambda>stats.
         ret \<lparr>cr_Transaction = y, cr_GatewayState = state, cr_GatewayStats = stats,
              cr_Idempotent = True\<rparr>))
       else
         andThen (HealthService_RecordOutcome R (tx_Gateway y) (tx_ID y)
           (tx_Status y)) (\<lambda>(state, stats).
         andThen (gets ts_hasOrderGateways) (\<lambda>hasOrderGateways.
         andThen (if hasOrderGateways then OrderGatewayBlacklistService_RecordOutcome B y
                  else ret ()) (\<lambda>_.
         ret \<lparr>cr_Transaction = y, cr_GatewayState = state, cr_GatewayStats = stats,
              cr_Idempotent = False\<rparr>)))) (?s1\<lparr>ts_transactions := t1\<rparr>) = (r, s')"
          using run c Inr' p unfolding Callback_def g if_not_P [OF m(1)] if_not_P [OF m(2)]
          by (simp add: andThen_def on_txns_def Clock_Now_def now_def)
        show thesis
        proof (cases changed)
          case False
          with c Inr' p have "tr_Complete T ?id (cb_Status input) (cb_Reason input) now
              (ts_transactions s) = (Inr (y, False), t1)" by simp
          from txn.Complete_unchanged [OF this]
          have u: "IsFinal (cb_Status input)" "txns (ts_transactions s) ?id = Some y"
            "tx_Status y = cb_Status input" "t1 = ts_transactions s" by blast+
          with x have y: "y = x" by simp
          have inv1: "health_inv states ?s1" using inv by (simp add: routing_inv_def)
          from health.State_runs [OF inv1, of "tx_Gateway x"] obtain st s2
            where st: "HealthService_State R (tx_Gateway x) ?s1 = (Inr st, s2)"
              and inv2: "health_inv states s2" by blast
          from health.Stats_runs [OF inv2, of "tx_Gateway x"] obtain stats s3
            where stats: "HealthService_Stats R (tx_Gateway x) s2 = (Inr stats, s3)" by blast
          have t: "?s1\<lparr>ts_transactions := t1\<rparr> = ?s1" using u(4) by (cases s) simp
          have "r = Inr \<lparr>cr_Transaction = x, cr_GatewayState = st, cr_GatewayStats = stats,
              cr_Idempotent = True\<rparr> \<and> s' = s3"
            using rest False y st stats unfolding t by (simp add: andThen_run)
          then show thesis
            using x True u y st stats by (intro repeated [of x st s2 stats]) simp_all
        next
          case changed: True
          with c Inr' p have "tr_Complete T ?id (cb_Status input) (cb_Reason input) now
              (ts_transactions s) = (Inr (y, True), t1)" by simp
          from txn.Complete_changed [OF this] obtain x0
            where u: "IsFinal (cb_Status input)" "attempts t1 = attempts (ts_transactions s)"
              "txns (ts_transactions s) ?id = Some x0" "\<not> IsFinal (tx_Status x0)"
              "y = x0\<lparr>tx_Status := cb_Status input, tx_FailureReason := cb_Reason input,
                 tx_UpdatedAt := now, tx_CompletedAt := Some now\<rparr>"
              "txns t1 = (txns (ts_transactions s))(?id \<mapsto> y)"
            by blast
          with x have y: "y = completed_at now (cb_Status input) (cb_Reason input) x"
            and nf: "\<not> IsFinal (tx_Status x)" by (simp_all add: completed_at_def)
          let ?s2 = "?s1\<lparr>ts_transactions := t1\<rparr>"
          have inv2: "health_inv states ?s2"
            using inv by (simp add: routing_inv_def health_inv_def)
          from health.RecordOutcome_runs [OF inv2, of "tx_Gateway x" ?id "cb_Status input"]
          obtain st stats s3 where ro: "HealthService_RecordOutcome R (tx_Gateway x) ?id
              (cb_Status input) ?s2 = (Inr (st, stats), s3)"
            and f3: "health_frame ?s2 s3" by blast
          have id: "tx_ID x = ?id" using keys x by blast
          have has: "ts_hasOrderGateways s3 = ts_hasOrderGateways s"
            using route_frame_txn(3) [OF health_frame_route(1) [OF f3]] by simp
          define fin :: "(('h, 'b, 't, 'z) TransactionService_scheme, go_error, unit) proc"
            where "fin = (if ts_hasOrderGateways s
            then OrderGatewayBlacklistService_RecordOutcome B y else ret ())"
          have tail: "andThen fin (\<lambda>_. ret \<lparr>cr_Transaction = y, cr_GatewayState = st,
              cr_GatewayStats = stats, cr_Idempotent = False\<rparr>) s3 = (r, s')"
            using rest changed ro has id y by (simp add: andThen_run fin_def)
          have "fin s3 \<noteq> (Inl er, s4)" for er s4
            using outcome_total u(1) y
            by (auto simp: fin_def OrderGatewayBlacklistService_RecordOutcome_def Let_def on_orders_Inl
                elim!: andThen_Inl)
          then obtain s4 where s4: "fin s3 = (Inr (), s4)"
            by (cases "fin s3"; cases "fst (fin s3)") auto
          with tail have "s' = s4" "r = Inr \<lparr>cr_Transaction = y, cr_GatewayState = st,
              cr_GatewayStats = stats, cr_Idempotent = False\<rparr>"
            by (simp_all add: andThen_run)
          then show thesis
            using x True nf u y ro s4
            by (intro completed [of x y t1 st stats s3]) (auto simp: fin_def split: if_splits)
        qed
      qed
    qed
  qed
qed

end

end
