(* ===== verification/System.thy ===== *)
theory System
  imports TransactionSpec
begin

text \<open>
  The services over the memory repositories, as \<open>cmd/payment-gateway-router/main.go\<close> wires them
  with the memory backend: the requests as steps, the reachable states, and the invariants
  that tie the transactions, the recorded events and the order counters together.
\<close>

type_synonym System = "(MemoryHealth, MemoryBlacklist, MemoryTransactions) TransactionService"

interpretation mem: payment_router MemHealth mh_states MemTx mt_transactions MemTx_attempts
  MemBlacklist failures_of successes_of blacklisted_of
  by unfold_locales (auto simp: MemBlacklist_RecordOutcome_def MemTx_GetByID_def MemTx_Complete_def
      Let_def split: if_splits option.splits)

section \<open>Only \<open>RecordOutcome\<close> records events\<close>

definition events_are :: "GatewayEvent list \<Rightarrow> (MemoryHealth, 'z) HealthService_scheme \<Rightarrow> bool" where
  "events_are es s \<longleftrightarrow> mh_events (hs_repository s) = es"

lemma events_are_upd [simp]:
  "events_are es (s\<lparr>env_ticks := n\<rparr>) = events_are es s"
  "events_are es (s\<lparr>env_reads := n\<rparr>) = events_are es s"
  "events_are es (s\<lparr>env_issued := n\<rparr>) = events_are es s"
  "events_are es (s\<lparr>hs_stateCache := c\<rparr>) = events_are es s"
  "events_are es (t\<lparr>rs_counter := k\<rparr>) = events_are es t"
  "events_are es (t\<lparr>rs_cache := sn\<rparr>) = events_are es t"
  "events_are es (u\<lparr>bs_repository := b\<rparr>) = events_are es u"
  "events_are es (v\<lparr>ts_transactions := tx\<rparr>) = events_are es v"
  by (simp_all add: events_are_def)

lemma events_on_repo:
  "(\<And>h. mh_events (snd (m h)) = mh_events h) \<Longrightarrow> preserves (events_are es) (on_repo m)"
  by (auto simp: preserves_def events_are_def on_repo_def split: prod.split)
    (metis snd_conv)

lemma events_MemHealth:
  "mh_events (snd (MemHealth_Ensure g now h)) = mh_events h"
  "mh_events (snd (MemHealth_Get g h)) = mh_events h"
  "mh_events (snd (MemHealth_Save st h)) = mh_events h"
  "mh_events (snd (MemHealth_PruneExpiredHalfOpenProbes g now h)) = mh_events h"
  "mh_events (snd (MemHealth_TryAcquireHalfOpenProbe g tid n e now h)) = mh_events h"
  "mh_events (snd (MemHealth_ReleaseHalfOpenProbe g tid now h)) = mh_events h"
  "mh_events (snd (MemHealth_StatsSince g a b d h)) = mh_events h"
  by (simp_all add: MemHealth_store_defs MemHealth_probe_defs Let_def split: option.split)

lemma events_steps [preserve_intros]:
  "preserves (events_are es) Clock_Now" "preserves (events_are es) ConfigProvider_Current"
  "preserves (events_are es) (IDGenerator_NewID p)" "preserves (events_are es) (setCachedState st now)"
  "preserves (events_are es) (on_repo (hr_Ensure MemHealth g now))"
  "preserves (events_are es) (on_repo (hr_Get MemHealth g))"
  "preserves (events_are es) (on_repo (hr_Save MemHealth st))"
  "preserves (events_are es) (on_repo (hr_PruneExpiredHalfOpenProbes MemHealth g now))"
  "preserves (events_are es) (on_repo (hr_TryAcquireHalfOpenProbe MemHealth g tid n e now))"
  "preserves (events_are es) (on_repo (hr_ReleaseHalfOpenProbe MemHealth g tid now))"
  "preserves (events_are es) (on_repo (hr_StatsSince MemHealth g a b d))"
  by (auto intro!: events_on_repo simp: events_MemHealth)
    (auto simp: preserves_def Clock_Now_def ConfigProvider_Current_def IDGenerator_NewID_def)

lemma events_methods [preserve_intros]:
  "preserves (events_are es) (cachedState MemHealth g now)"
  "preserves (events_are es) (PrepareForRouting MemHealth g r)"
  "preserves (events_are es) (MarkProbeSelected MemHealth g tid)"
  "preserves (events_are es) (ReleaseProbe MemHealth g tid)"
  "preserves (events_are es) (HealthService_State MemHealth g)"
  "preserves (events_are es) (HealthService_Stats MemHealth g)"
  "preserves (events_are es) (saveOutcome MemHealth now stats st)"
  "preserves (events_are es) (switchOutcome MemHealth r now g tid status stats st)"
proof -
  show cached: "preserves (events_are es) (cachedState MemHealth g now)" for g now
    unfolding cachedState_def by (intro preserve_intros)
  show "preserves (events_are es) (PrepareForRouting MemHealth g r)"
    unfolding PrepareForRouting_def Let_def by (intro preserve_intros cached)
  show "preserves (events_are es) (MarkProbeSelected MemHealth g tid)"
    unfolding MarkProbeSelected_def Let_def by (intro preserve_intros)
  show "preserves (events_are es) (ReleaseProbe MemHealth g tid)"
    unfolding ReleaseProbe_def by (intro preserve_intros)
  show "preserves (events_are es) (HealthService_State MemHealth g)"
    unfolding HealthService_State_def by (intro preserve_intros)
  show "preserves (events_are es) (HealthService_Stats MemHealth g)"
    unfolding HealthService_Stats_def Let_def by (intro preserve_intros)
  show save: "preserves (events_are es) (saveOutcome MemHealth now stats st)" for now stats st
    unfolding saveOutcome_def by (intro preserve_intros)
  show "preserves (events_are es) (switchOutcome MemHealth r now g tid status stats st)"
    by (cases "rt_State st")
      (simp_all only: switchOutcome_def GatewayState.case, (intro preserve_intros save)+)
qed

lemma events_RecordOutcome:
  assumes run: "HealthService_RecordOutcome MemHealth g tid status s = (r, s')" and final: "IsFinal status"
  shows "\<exists>keep now. mh_events (hs_repository s') = filter keep (mh_events (hs_repository s)) @
    [\<lparr>ge_Gateway = g, ge_TransactionID = tid, ge_Status = status, ge_CreatedAt = now\<rparr>]"
proof -
  define now where "now = env_clock s (env_ticks s)"
  define routing where "routing = ac_Routing (WithDefaults (env_config s (env_reads s)))"
  define ev where "ev = \<lparr>ge_Gateway = g, ge_TransactionID = tid, ge_Status = status, ge_CreatedAt = now\<rparr>"
  define keep :: "GatewayEvent \<Rightarrow> bool" where "keep e \<longleftrightarrow> \<not> Before (ge_CreatedAt e) (Add now (neg_dur (retention_of routing)))" for e
  define s0 where "s0 = s\<lparr>env_ticks := Suc (env_ticks s), env_reads := Suc (env_reads s)\<rparr>"
  let ?es = "mh_events (hs_repository s)"
  obtain u h1 where ens: "MemHealth_Ensure g now (hs_repository s) = (Inr u, h1)"
    by (cases "mh_states (hs_repository s) g") (auto simp: MemHealth_Ensure_def)
  have h1: "mh_events h1 = ?es" using events_MemHealth(1) [of g now "hs_repository s"] ens by simp
  define h2 where "h2 = h1\<lparr>mh_events := filter keep (mh_events h1) @ [ev]\<rparr>"
  have rec: "MemHealth_RecordEvent ev (retention_of routing) h1 = (Inr (), h2)"
    by (simp add: MemHealth_RecordEvent_def Let_def h2_def keep_def [abs_def] ev_def)
  let ?rest = "andThen (on_repo (hr_Get MemHealth g)) (\<lambda>state.
     andThen (on_repo (hr_StatsSince MemHealth g (windowStart routing now) now Minute)) (\<lambda>stats.
     switchOutcome MemHealth routing now g tid status stats state))"
  have rest: "?rest (s0\<lparr>hs_repository := h2\<rparr>) = (r, s')"
    using run ens rec final
    by (simp add: HealthService_RecordOutcome_def Let_def andThen_on_repo now_def s0_def routing_def ev_def)
  have pres: "preserves (events_are (mh_events h2)) ?rest" by (intro preserve_intros)
  have "events_are (mh_events h2) s'"
    by (rule preservesD [OF pres _ rest]) (simp add: events_are_def)
  then show ?thesis by (auto simp: events_are_def h2_def h1 ev_def)
qed

lemma events_snapshotLoop: "preserves (events_are es) (snapshotLoop MemHealth r gs snap)"
  by (induction gs arbitrary: snap) (auto intro!: preserve_intros)

lemma events_selectWeighted: "preserves (events_are es) (selectWeighted cs)"
  by (auto simp: preserves_def selectWeighted_def Let_def)

lemma events_selectHealthy: "preserves (events_are es) (selectHealthy cs)"
  unfolding selectHealthy_def
  by (intro preserves_andThen events_selectWeighted) (intro preserve_intros)

lemma events_SelectGateway: "preserves (events_are es) (SelectGateway MemHealth req)"
proof -
  have inval: "preserves (events_are es) invalidateCache"
    by (simp add: invalidateCache_def preserves_modify)
  have upd: "preserves (events_are es) (modify (\<lambda>s. s\<lparr>rs_cache := sn\<rparr>))" for sn
    by (simp add: preserves_modify)
  show ?thesis
    unfolding SelectGateway_def snapshot_def Let_def
    by (intro preserve_intros events_selectWeighted events_selectHealthy inval upd events_snapshotLoop)
qed

lemma events_on_txns: "preserves (events_are es) (on_txns m)"
  by (auto simp: preserves_def on_txns_def split: prod.split)

lemma events_Initiate: "preserves (events_are es) (Initiate MemHealth MemTx MemBlacklist reg input)"
proof -
  have orders: "preserves (events_are es) (on_orders m)" for m
    by (auto simp: preserves_def on_orders_def split: prod.split)
  have fw: "preserves (events_are es) (failWith MemHealth sel tid e)" for sel tid e
    unfolding failWith_def releaseProbe_def by (intro preserve_intros)
  have bl: "preserves (events_are es) (blacklistedGateways MemBlacklist o_id)" for o_id
    unfolding blacklistedGateways_def OrderGatewayBlacklistService_BlacklistedGateways_def
    by (intro preserve_intros orders)
  show ?thesis
    unfolding Initiate_def Let_def
    by (intro preserve_intros events_SelectGateway bl fw events_on_txns)
qed


section \<open>Requests and reachable states\<close>

text \<open>
  The requests that reach the services: \<open>POST\<close> initiate, a callback, and the health view, which
  reads the configuration, then the state and the statistics of each gateway. Each runs to its end before the next one.
\<close>

inductive serves :: "GatewayClientRegistry \<Rightarrow> System \<Rightarrow> System \<Rightarrow> bool" for reg where
  initiate: "Initiate MemHealth MemTx MemBlacklist reg input s = (r, s') \<Longrightarrow> serves reg s s'"
| callback: "Callback MemHealth MemTx MemBlacklist input s = (r', s') \<Longrightarrow> serves reg s s'"
| state: "HealthService_State MemHealth g s = (r'', s') \<Longrightarrow> serves reg s s'"
| stats: "HealthService_Stats MemHealth g s = (r''', s') \<Longrightarrow> serves reg s s'"
| config: "(ConfigProvider_Current :: (System, go_error, AppConfig) proc) s = (rc, s') \<Longrightarrow> serves reg s s'"

text \<open>The state in which the program starts; the environment is any.\<close>

definition started :: "System \<Rightarrow> bool" where
  "started s \<longleftrightarrow> hs_repository s = MemHealth_New \<and> hs_stateCache s = Map.empty \<and>
     rs_cache s = empty_snapshot \<and> bs_repository s = MemBlacklist_New \<and>
     ts_transactions s = MemTx_New \<and> ts_hasOrderGateways s"

inductive reachable :: "GatewayClientRegistry \<Rightarrow> System \<Rightarrow> bool" for reg where
  start: "started s \<Longrightarrow> reachable reg s"
| step: "reachable reg s \<Longrightarrow> serves reg s s' \<Longrightarrow> reachable reg s'"

section \<open>The accounts\<close>

definition outcomes :: "MemoryTransactions \<Rightarrow> string \<Rightarrow> string \<Rightarrow> TransactionStatus \<Rightarrow> string set" where
  "outcomes t o_id g st = {i. \<exists>x. mt_transactions t i = Some x \<and> tx_OrderID x = o_id \<and>
     tx_Gateway x = g \<and> tx_Status x = st}"

definition stored_ok :: "MemoryTransactions \<Rightarrow> bool" where
  "stored_ok t \<longleftrightarrow> finite (dom (mt_transactions t)) \<and>
     (\<forall>i x. mt_transactions t i = Some x \<longrightarrow> tx_ID x = i)"

definition attempts_ok :: "MemoryTransactions \<Rightarrow> bool" where
  "attempts_ok t \<longleftrightarrow> (\<forall>o_id. 0 \<le> MemTx_attempts t o_id) \<and>
     (\<forall>i x. mt_transactions t i = Some x \<longrightarrow>
       1 \<le> tx_AttemptNo x \<and> tx_AttemptNo x \<le> MemTx_attempts t (tx_OrderID x)) \<and>
     (\<forall>i j x y. mt_transactions t i = Some x \<longrightarrow> mt_transactions t j = Some y \<longrightarrow> i \<noteq> j \<longrightarrow>
       tx_OrderID x = tx_OrderID y \<longrightarrow> tx_AttemptNo x \<noteq> tx_AttemptNo y)"

definition counters_ok :: "MemoryTransactions \<Rightarrow> MemoryBlacklist \<Rightarrow> bool" where
  "counters_ok t b \<longleftrightarrow> (\<forall>o_id g.
     failures_of b o_id g = int (card (outcomes t o_id g TransactionStatusFailure)) \<and>
     successes_of b o_id g = int (card (outcomes t o_id g TransactionStatusSuccess)))"

definition event_ok :: "MemoryTransactions \<Rightarrow> GatewayEvent \<Rightarrow> bool" where
  "event_ok t e \<longleftrightarrow> (\<exists>x. mt_transactions t (ge_TransactionID e) = Some x \<and>
     tx_Gateway x = ge_Gateway e \<and> tx_Status x = ge_Status e \<and> IsFinal (ge_Status e))"

definition events_ok :: "MemoryTransactions \<Rightarrow> GatewayEvent list \<Rightarrow> bool" where
  "events_ok t es \<longleftrightarrow> distinct (map ge_TransactionID es) \<and> (\<forall>e \<in> set es. event_ok t e)"

definition accounts_ok :: "System \<Rightarrow> bool" where
  "accounts_ok s \<longleftrightarrow> stored_ok (ts_transactions s) \<and> attempts_ok (ts_transactions s) \<and>
     counters_ok (ts_transactions s) (bs_repository s) \<and>
     events_ok (ts_transactions s) (mh_events (hs_repository s)) \<and> ts_hasOrderGateways s"

lemma outcomes_cong:
  "mt_transactions t' = mt_transactions t \<Longrightarrow> outcomes t' o_id g st = outcomes t o_id g st"
  by (simp add: outcomes_def)

lemma outcomes_upd:
  assumes "mt_transactions t' = (mt_transactions t)(i \<mapsto> y)"
    and "\<And>x. mt_transactions t i = Some x \<Longrightarrow> \<not> IsFinal (tx_Status x)" "IsFinal st"
  shows "outcomes t' o_id g st = (if tx_OrderID y = o_id \<and> tx_Gateway y = g \<and> tx_Status y = st
      then insert i (outcomes t o_id g st) else outcomes t o_id g st)"
    and "i \<notin> outcomes t o_id g st"
  using assms by (auto simp: outcomes_def split: if_splits)

lemma outcomes_finite: "stored_ok t \<Longrightarrow> finite (outcomes t o_id g st)"
  by (rule finite_subset [of _ "dom (mt_transactions t)"]) (auto simp: outcomes_def stored_ok_def)

text \<open>A pending transaction is added.\<close>

lemma attempts_ok_new:
  assumes ok: "attempts_ok t" and i: "mt_transactions t i = None"
    and n: "tx_AttemptNo x = MemTx_attempts t (tx_OrderID x) + 1"
    and t': "mt_transactions t' = (mt_transactions t)(i \<mapsto> x)"
      "MemTx_attempts t' = (MemTx_attempts t)(tx_OrderID x := MemTx_attempts t (tx_OrderID x) + 1)"
  shows "attempts_ok t'"
  unfolding attempts_ok_def
proof (intro conjI allI impI)
  fix o_id show "0 \<le> MemTx_attempts t' o_id"
    using ok by (simp add: attempts_ok_def t')
next
  fix j y assume y: "mt_transactions t' j = Some y"
  then show "1 \<le> tx_AttemptNo y"
    using ok n by (auto simp: attempts_ok_def t' split: if_splits)
  show "tx_AttemptNo y \<le> MemTx_attempts t' (tx_OrderID y)"
  proof (cases "j = i")
    case False
    with y ok have "tx_AttemptNo y \<le> MemTx_attempts t (tx_OrderID y)"
      by (simp add: attempts_ok_def t')
    then show ?thesis by (auto simp: t')
  qed (use y n in \<open>simp add: t'\<close>)
next
  fix j k y z
  assume yz: "mt_transactions t' j = Some y" "mt_transactions t' k = Some z" "j \<noteq> k"
    "tx_OrderID y = tx_OrderID z"
  have old: "tx_AttemptNo w < tx_AttemptNo x"
    if "mt_transactions t l = Some w" "tx_OrderID w = tx_OrderID x" for l w
    using ok that n by (fastforce simp: attempts_ok_def)
  show "tx_AttemptNo y \<noteq> tx_AttemptNo z"
    using yz old [of j y] old [of k z] ok
    by (auto simp: t' attempts_ok_def split: if_splits)
qed

lemma accounts_initiated:
  assumes acc: "accounts_ok s"
    and new: "mt_transactions (ts_transactions s) i = None" "tx_ID x = i"
      "tx_Status x = TransactionStatusPending"
      "tx_AttemptNo x = MemTx_attempts (ts_transactions s) (tx_OrderID x) + 1"
    and t': "mt_transactions (ts_transactions s') = (mt_transactions (ts_transactions s))(i \<mapsto> x)"
      "MemTx_attempts (ts_transactions s') = (MemTx_attempts (ts_transactions s))
         (tx_OrderID x := MemTx_attempts (ts_transactions s) (tx_OrderID x) + 1)"
    and rest: "bs_repository s' = bs_repository s"
      "mh_events (hs_repository s') = mh_events (hs_repository s)"
      "ts_hasOrderGateways s' = ts_hasOrderGateways s"
  shows "accounts_ok s'"
proof -
  let ?t = "ts_transactions s" and ?t' = "ts_transactions s'"
  have "outcomes ?t' o_id g st = outcomes ?t o_id g st" if "IsFinal st" for o_id g st
    using outcomes_upd(1) [OF t'(1), of st o_id g] new that by auto
  then have "counters_ok ?t' (bs_repository s')"
    using acc rest by (simp add: accounts_ok_def counters_ok_def)
  moreover have "stored_ok ?t'" using acc t' new by (simp add: accounts_ok_def stored_ok_def)
  moreover have att: "attempts_ok ?t" using acc by (simp add: accounts_ok_def)
  then have "attempts_ok ?t'" by (rule attempts_ok_new) (use new t' in simp_all)
  moreover have "events_ok ?t' (mh_events (hs_repository s'))"
    using acc rest new t' by (fastforce simp: accounts_ok_def events_ok_def event_ok_def)
  ultimately show ?thesis using acc rest by (simp add: accounts_ok_def)
qed


text \<open>A pending transaction is completed: the counters and the events get it once.\<close>

lemma events_ok_completed:
  assumes ok: "events_ok t es" and x: "mt_transactions t i = Some x" "\<not> IsFinal (tx_Status x)"
    and t': "mt_transactions t' = (mt_transactions t)(i \<mapsto> y)" "tx_Gateway y = g" "tx_Status y = st"
    and st: "IsFinal st"
  shows "events_ok t' (filter keep es @ [\<lparr>ge_Gateway = g, ge_TransactionID = i, ge_Status = st,
    ge_CreatedAt = now\<rparr>])"
proof -
  have new: "ge_TransactionID e \<noteq> i" if "e \<in> set es" for e
    using ok that x by (auto simp: events_ok_def event_ok_def)
  have "event_ok t' e" if "e \<in> set es" for e
    using ok that new [OF that] t' by (simp add: events_ok_def event_ok_def)
  moreover have "distinct (map ge_TransactionID (filter keep es))"
    using ok by (simp add: events_ok_def distinct_map_filter)
  ultimately show ?thesis
    using new t' st by (auto simp: events_ok_def event_ok_def)
qed

lemma attempts_ok_completed:
  assumes "attempts_ok t" "mt_transactions t i = Some x"
    and "mt_transactions t' = (mt_transactions t)(i \<mapsto> y)" "MemTx_attempts t' = MemTx_attempts t"
    and "tx_AttemptNo y = tx_AttemptNo x" "tx_OrderID y = tx_OrderID x"
  shows "attempts_ok t'"
  using assms unfolding attempts_ok_def
  by (auto split: if_splits)

lemma counters_ok_completed:
  assumes ok: "counters_ok t b" and fin: "stored_ok t"
    and x: "mt_transactions t i = Some x" "\<not> IsFinal (tx_Status x)"
    and t': "mt_transactions t' = (mt_transactions t)(i \<mapsto> y)" "IsFinal (tx_Status y)"
    and b': "or_RecordOutcome MemBlacklist (tx_OrderID y) (tx_Gateway y) (tx_Status y) threshold now b
        = (Inr res, b')"
  shows "counters_ok t' b'"
proof -
  obtain summary newly where res: "res = (summary, newly)" by fastforce
  note rec = memblacklist.RecordOutcome_ok [OF b' [unfolded res]]
  have upd: "outcomes t' o_id g st = (if tx_OrderID y = o_id \<and> tx_Gateway y = g \<and> tx_Status y = st
      then insert i (outcomes t o_id g st) else outcomes t o_id g st)"
    and new: "i \<notin> outcomes t o_id g st" if "IsFinal st" for o_id g st
    using outcomes_upd [OF t'(1), of st] x that by auto
  have "card (outcomes t' o_id g st) = card (outcomes t o_id g st) +
      (if tx_OrderID y = o_id \<and> tx_Gateway y = g \<and> tx_Status y = st then 1 else 0)"
    if "IsFinal st" for o_id g st
    using upd [OF that] new [OF that] outcomes_finite [OF fin, of o_id g st] by simp
  then show ?thesis
    using ok rec by (auto simp: counters_ok_def)
qed

section \<open>The invariant\<close>

definition sys_inv :: "System \<Rightarrow> bool" where
  "sys_inv s \<longleftrightarrow> routing_inv mh_states s \<and> accounts_ok s"

lemma sys_invD:
  assumes "sys_inv s"
  shows "routing_inv mh_states s" "stored_ok (ts_transactions s)" "attempts_ok (ts_transactions s)"
    "counters_ok (ts_transactions s) (bs_repository s)"
    "events_ok (ts_transactions s) (mh_events (hs_repository s))" "ts_hasOrderGateways s"
  using assms by (simp_all add: sys_inv_def accounts_ok_def)

lemma accounts_same:
  assumes "accounts_ok s" "mt_transactions (ts_transactions s') = mt_transactions (ts_transactions s)"
    "MemTx_attempts (ts_transactions s') = MemTx_attempts (ts_transactions s) \<or>
     MemTx_attempts (ts_transactions s') = (MemTx_attempts (ts_transactions s))
       (o_id := MemTx_attempts (ts_transactions s) o_id + 1)"
    "bs_repository s' = bs_repository s" "ts_hasOrderGateways s' = ts_hasOrderGateways s"
    "mh_events (hs_repository s') = mh_events (hs_repository s)"
  shows "accounts_ok s'"
proof -
  have "attempts_ok (ts_transactions s')"
    using assms(1-3) by (fastforce simp: accounts_ok_def attempts_ok_def)
  then show ?thesis
    using assms outcomes_cong [OF assms(2)]
    by (simp add: accounts_ok_def stored_ok_def counters_ok_def events_ok_def event_ok_def)
qed

lemma Initiate_inv:
  assumes run: "Initiate MemHealth MemTx MemBlacklist reg input s = (r, s')" and inv: "sys_inv s"
  shows "sys_inv s'"
proof -
  have ev: "mh_events (hs_repository s') = mh_events (hs_repository s)"
    using preservesD [OF events_Initiate _ run, of "mh_events (hs_repository s)"]
    by (simp add: events_are_def)
  note rinv = sys_invD(1) [OF inv]
  have acc: "accounts_ok s" using inv by (simp add: sys_inv_def)
  show ?thesis
  proof (cases r)
    case (Inl e)
    note f = mem.Initiate_failed [OF run [unfolded Inl] rinv]
    have "accounts_ok s'" by (rule accounts_same [OF acc f(2,3,4,5) ev])
    with f(1) show ?thesis by (simp add: sys_inv_def)
  next
    case (Inr x)
    note ok = mem.Initiate_ok [OF run [unfolded Inr] rinv]
    from ok(1) have x: "tx_ID x = env_ids s (env_issued s) ''txn''"
      "tx_Status x = TransactionStatusPending" "tx_OrderID x = in_OrderID input"
      "tx_AttemptNo x = MemTx_attempts (ts_transactions s) (in_OrderID input) + 1"
      by (metis initiated_def Transaction.select_convs)+
    have "accounts_ok s'"
      by (rule accounts_initiated [OF acc ok(5) x(1,2)]) (use x ok ev in simp_all)
    with ok(8) show ?thesis by (simp add: sys_inv_def)
  qed
qed

lemma health_step_inv:
  assumes inv: "sys_inv s" and h: "health_inv mh_states s'" "health_frame s s'" "env_reads s \<le> env_reads s'"
    and ev: "mh_events (hs_repository s') = mh_events (hs_repository s)"
  shows "sys_inv s'"
proof -
  note fr = route_frame_txn [OF health_frame_route(1) [OF h(2)]]
  have acc: "accounts_ok s" using inv by (simp add: sys_inv_def)
  have "accounts_ok s'" by (rule accounts_same [OF acc]) (use fr ev in simp_all)
  with routing_inv_health [OF sys_invD(1) [OF inv] h] show ?thesis by (simp add: sys_inv_def)
qed

lemma State_inv:
  assumes run: "HealthService_State MemHealth g s = (r, s')" and inv: "sys_inv s"
  shows "sys_inv s'"
proof -
  from memhealth.State_runs [OF routing_invD(1) [OF sys_invD(1) [OF inv]], of g] run
  have "health_inv mh_states s'" "health_frame s s'" "env_reads s' = env_reads s" by auto
  moreover have "mh_events (hs_repository s') = mh_events (hs_repository s)"
    using preservesD [OF events_methods(5) _ run, of "mh_events (hs_repository s)"]
    by (simp add: events_are_def)
  ultimately show ?thesis by (intro health_step_inv [OF inv]) simp_all
qed

lemma Stats_inv:
  assumes run: "HealthService_Stats MemHealth g s = (r, s')" and inv: "sys_inv s"
  shows "sys_inv s'"
proof -
  from memhealth.Stats_runs [OF routing_invD(1) [OF sys_invD(1) [OF inv]], of g] run
  have "health_inv mh_states s'" "health_frame s s'" "env_reads s' = Suc (env_reads s)" by auto
  moreover have "mh_events (hs_repository s') = mh_events (hs_repository s)"
    using preservesD [OF events_methods(6) _ run, of "mh_events (hs_repository s)"]
    by (simp add: events_are_def)
  ultimately show ?thesis by (intro health_step_inv [OF inv]) simp_all
qed


lemma Callback_inv:
  assumes run: "Callback MemHealth MemTx MemBlacklist input s = (r, s')" and inv: "sys_inv s"
  shows "sys_inv s'"
proof -
  note D = sys_invD [OF inv]
  let ?i = "cb_TransactionID input" and ?t = "ts_transactions s"
  have acc: "accounts_ok s" using inv by (simp add: sys_inv_def)
  have keys: "\<forall>i x. mt_transactions ?t i = Some x \<longrightarrow> tx_ID x = i" using D(2) by (simp add: stored_ok_def)
  from run D(1) keys show ?thesis
  proof (cases rule: mem.Callback_cases)
    case (rejected er)
    have "sys_inv (s\<lparr>env_ticks := env_ticks s'\<rparr>)" using inv by (simp add: sys_inv_def accounts_ok_def)
    with rejected(2) show ?thesis by metis
  next
    case (repeated x st stats s1)
    have "sys_inv (s\<lparr>env_ticks := Suc (env_ticks s)\<rparr>)" using inv by (simp add: sys_inv_def accounts_ok_def)
    from Stats_inv [OF repeated(6) State_inv [OF repeated(5) this]] show ?thesis .
  next
    case (completed x y st stats t1 s2)
    let ?s1 = "s\<lparr>env_ticks := Suc (env_ticks s), ts_transactions := t1\<rparr>"
    have rinv1: "routing_inv mh_states ?s1" using D(1) by simp
    from memhealth.RecordOutcome_runs [OF routing_invD(1) [OF rinv1], of "tx_Gateway x" ?i "cb_Status input"]
    have s2: "health_inv mh_states s2" "health_frame ?s1 s2" "env_reads s2 = Suc (env_reads s)"
      using completed(8) by auto
    have rinv2: "routing_inv mh_states s2"
      by (rule routing_inv_health [OF rinv1 s2(1,2)]) (simp add: s2(3))
    note fr = route_frame_txn [OF health_frame_route(1) [OF s2(2)]]
    from events_RecordOutcome [OF completed(8,4)] obtain keep now where
      ev: "mh_events (hs_repository s2) = filter keep (mh_events (hs_repository s)) @
        [\<lparr>ge_Gateway = tx_Gateway x, ge_TransactionID = ?i, ge_Status = cb_Status input,
          ge_CreatedAt = now\<rparr>]" by auto
    from completed(9) D(6) have "OrderGatewayBlacklistService_RecordOutcome MemBlacklist y s2 = (Inr (), s')"
      by simp
    then obtain summary newly b' where
      bl: "or_RecordOutcome MemBlacklist (tx_OrderID y) (tx_Gateway y) (tx_Status y)
       (rc_OrderGatewayFailureThreshold (ac_Routing (WithDefaults (env_config s2 (env_reads s2)))))
       (env_clock s2 (env_ticks s2)) (bs_repository s2) = (Inr (summary, newly), b')"
      and s': "s' = s2\<lparr>env_reads := Suc (env_reads s2), env_ticks := Suc (env_ticks s2),
        bs_repository := b'\<rparr>"
      by (rule memblacklist.Service_RecordOutcome_ok)
    have y: "tx_ID y = tx_ID x" "tx_OrderID y = tx_OrderID x" "tx_Gateway y = tx_Gateway x"
      "tx_Status y = cb_Status input" "tx_AttemptNo y = tx_AttemptNo x"
      using completed(5) by simp_all
    have "stored_ok t1"
      using D(2) completed(1,6) y by (simp add: stored_ok_def)
    moreover have "attempts_ok t1"
      by (rule attempts_ok_completed [OF D(3) completed(1,6,7)]) (simp_all add: y)
    moreover have "counters_ok t1 b'"
    proof (rule counters_ok_completed [OF D(4,2) completed(1,3,6)])
      show "IsFinal (tx_Status y)" using y completed(4) by simp
    qed (use bl fr in simp)
    moreover have "events_ok t1 (mh_events (hs_repository s2))"
      unfolding ev by (rule events_ok_completed [OF D(5) completed(1,3,6) y(3,4) completed(4)])
    ultimately have "accounts_ok s'" using s' fr D(6) by (simp add: accounts_ok_def)
    moreover have "routing_inv mh_states s'" using routing_inv_reads [OF rinv2] s' by simp
    ultimately show ?thesis by (simp add: sys_inv_def)
  qed
qed

lemma Current_inv:
  assumes "ConfigProvider_Current s = (r, s')" "sys_inv s"
  shows "sys_inv s'"
  using assms routing_inv_reads [OF sys_invD(1) [OF assms(2)]]
  by (auto simp: ConfigProvider_Current_def sys_inv_def accounts_ok_def)

lemma serves_inv: "serves reg s s' \<Longrightarrow> sys_inv s \<Longrightarrow> sys_inv s'"
  by (induction rule: serves.induct) (auto intro: Initiate_inv Callback_inv State_inv Stats_inv Current_inv)

lemma started_inv: "started s \<Longrightarrow> sys_inv s"
  by (auto simp: started_def sys_inv_def accounts_ok_def routing_inv_def health_inv_def wf_states_def
      stored_ok_def attempts_ok_def counters_ok_def events_ok_def outcomes_def MemHealth_New_def
      MemTx_New_def MemBlacklist_New_def MemTx_attempts_def failures_of_def successes_of_def
      summary_of_def byGateway_def zero_summary_def)

lemma reachable_inv: "reachable reg s \<Longrightarrow> sys_inv s"
  by (induction rule: reachable.induct) (auto intro: started_inv serves_inv)


section \<open>What a request does\<close>

definition health_moves :: "System \<Rightarrow> System \<Rightarrow> bool" where
  "health_moves s s' \<longleftrightarrow> (\<forall>g st. mh_states (hs_repository s) g = Some st \<longrightarrow>
     (\<exists>st' k. mh_states (hs_repository s') g = Some st' \<and> k \<le> env_ticks s' \<and>
        health_edge (env_clock s k) st st'))"

lemma health_moves_route:
  assumes "route_moves (env_clock s k) (mh_states (hs_repository s)) (mh_states (hs_repository s'))"
    "sys_inv s" "k \<le> env_ticks s'"
  shows "health_moves s s'"
  unfolding health_moves_def
proof (intro allI impI)
  fix g st assume st: "mh_states (hs_repository s) g = Some st"
  have wf: "wf_gateway g st"
    using wf_statesD [OF health_invD(1) [OF routing_invD(1) [OF sys_invD(1) [OF assms(2)]]] st] .
  from assms(1) st obtain st' where "mh_states (hs_repository s') g = Some st'"
    "route_edge (env_clock s k) st st'"
    by (auto simp: route_moves_def split: option.splits dest!: spec [of _ g])
  with route_edge_health [OF wf] assms(3)
  show "\<exists>st' k. mh_states (hs_repository s') g = Some st' \<and> k \<le> env_ticks s' \<and>
      health_edge (env_clock s k) st st'" by blast
qed

lemma health_moves_upd:
  assumes "mh_states (hs_repository s') = (mh_states (hs_repository s))(g \<mapsto> st')"
    "health_edge (env_clock s k) (entry (mh_states (hs_repository s)) g t) st'"
    "sys_inv s" "k \<le> env_ticks s'"
  shows "health_moves s s'"
  unfolding health_moves_def
proof (intro allI impI)
  fix h st assume st: "mh_states (hs_repository s) h = Some st"
  have wf: "wf_gateway h st"
    using wf_statesD [OF health_invD(1) [OF routing_invD(1) [OF sys_invD(1) [OF assms(3)]]] st] .
  show "\<exists>st' k. mh_states (hs_repository s') h = Some st' \<and> k \<le> env_ticks s' \<and>
      health_edge (env_clock s k) st st'"
    using assms(1,2,4) st health_edge_refl [OF wf] by (cases "h = g") auto
qed

text \<open>The outcome a request records for an order, if it records one.\<close>

definition orders_move :: "System \<Rightarrow> System \<Rightarrow> bool" where
  "orders_move s s' \<longleftrightarrow> bs_repository s' = bs_repository s \<or>
     (\<exists>o_id g st k now res. or_RecordOutcome MemBlacklist o_id g st
        (rc_OrderGatewayFailureThreshold (ac_Routing (WithDefaults (env_config s k)))) now
        (bs_repository s) = (Inr res, bs_repository s'))"

definition env_moves :: "System \<Rightarrow> System \<Rightarrow> bool" where
  "env_moves s s' \<longleftrightarrow> env_clock s' = env_clock s \<and> env_config s' = env_config s \<and>
     env_ticks s \<le> env_ticks s'"

lemma Callback_effect:
  assumes run: "Callback MemHealth MemTx MemBlacklist input s = (r, s')" and inv: "sys_inv s"
  shows "env_moves s s' \<and> orders_move s s' \<and> health_moves s s'"
proof -
  note D = sys_invD [OF inv]
  have keys: "\<forall>i x. mt_transactions (ts_transactions s) i = Some x \<longrightarrow> tx_ID x = i"
    using D(2) by (simp add: stored_ok_def)
  from run D(1) keys show ?thesis
  proof (cases rule: mem.Callback_cases)
    case (rejected er)
    from rejected(2) obtain n where "s' = s\<lparr>env_ticks := n\<rparr>" by blast
    then have same: "hs_repository s' = hs_repository s" "env_clock s' = env_clock s"
      "env_config s' = env_config s" "bs_repository s' = bs_repository s" by simp_all
    have "health_moves s s'"
      by (rule health_moves_route [OF _ inv order.refl]) (simp add: same)
    with same rejected(3) show ?thesis by (simp add: env_moves_def orders_move_def)
  next
    case (repeated x st stats s1)
    let ?s = "s\<lparr>env_ticks := Suc (env_ticks s)\<rparr>"
    let ?now = "env_clock s (Suc (env_ticks s))" and ?m = "mh_states (hs_repository s)"
    have inv0: "health_inv mh_states ?s" using D(1) by (simp add: routing_inv_def)
    from memhealth.State_runs [OF inv0, of "tx_Gateway x"] repeated(5)
    have s1: "health_inv mh_states s1" "health_frame ?s s1" "env_ticks s1 = Suc (Suc (env_ticks s))"
      "mh_states (hs_repository s1) = ?m(tx_Gateway x \<mapsto> st)"
      "same_state st (pruned ?now (entry ?m (tx_Gateway x) ?now))"
      by auto
    from memhealth.Stats_runs [OF s1(1), of "tx_Gateway x"] repeated(6)
    have s': "health_frame s1 s'" "env_ticks s' = Suc (env_ticks s1)"
      "mh_states (hs_repository s') = mh_states (hs_repository s1)" by auto
    have "route_edge ?now (entry ?m (tx_Gateway x) ?now) st"
      by (subst route_edge_same [OF s1(5)]) simp
    then have "route_moves ?now ?m (mh_states (hs_repository s'))"
      unfolding s'(3) s1(4) by (rule route_moves_entry)
    then have "health_moves s s'"
      by (rule health_moves_route [OF _ inv]) (simp add: s' s1)
    moreover have "bs_repository s' = bs_repository s"
      using route_frame_txn(1) [OF health_frame_route(1) [OF s'(1)]]
        route_frame_txn(1) [OF health_frame_route(1) [OF s1(2)]] by simp
    ultimately show ?thesis
      using s1 s' by (simp add: health_frameD env_moves_def orders_move_def)
  next
    case (completed x y st stats t1 s2)
    let ?s1 = "s\<lparr>env_ticks := Suc (env_ticks s), ts_transactions := t1\<rparr>"
    let ?now = "env_clock s (Suc (env_ticks s))" and ?m = "mh_states (hs_repository s)"
    have inv1: "health_inv mh_states ?s1" using D(1) by (simp add: routing_inv_def health_inv_def)
    from memhealth.RecordOutcome_runs [OF inv1, of "tx_Gateway x" "cb_TransactionID input" "cb_Status input"]
    have s2: "health_frame ?s1 s2" "env_ticks s2 = Suc (Suc (env_ticks s))"
      "mh_states (hs_repository s2) = ?m(tx_Gateway x \<mapsto> st)"
      "health_edge ?now (entry ?m (tx_Gateway x) ?now) st"
      using completed(8) by auto
    from completed(9) D(6)
    have "OrderGatewayBlacklistService_RecordOutcome MemBlacklist y s2 = (Inr (), s')" by simp
    then obtain summary newly b' where b': "or_RecordOutcome MemBlacklist (tx_OrderID y) (tx_Gateway y)
        (tx_Status y) (rc_OrderGatewayFailureThreshold (ac_Routing (WithDefaults (env_config s2 (env_reads s2)))))
        (env_clock s2 (env_ticks s2)) (bs_repository s2) = (Inr (summary, newly), b')"
      and s': "s' = s2\<lparr>env_reads := Suc (env_reads s2), env_ticks := Suc (env_ticks s2),
        bs_repository := b'\<rparr>"
      by (rule memblacklist.Service_RecordOutcome_ok)
    have env: "env_clock s2 = env_clock s" "env_config s2 = env_config s"
      using s2(1) by (simp_all add: health_frameD)
    have bs: "bs_repository s2 = bs_repository s"
      using route_frame_txn(1) [OF health_frame_route(1) [OF s2(1)]] by simp
    have "orders_move s s'" unfolding orders_move_def
    proof (intro disjI2 exI)
      show "or_RecordOutcome MemBlacklist (tx_OrderID y) (tx_Gateway y)
        (tx_Status y) (rc_OrderGatewayFailureThreshold (ac_Routing (WithDefaults (env_config s (env_reads s2)))))
        (env_clock s2 (env_ticks s2)) (bs_repository s) = (Inr (summary, newly), bs_repository s')"
        using b' env bs s' by simp
    qed
    moreover have "health_moves s s'"
      by (rule health_moves_upd [OF _ s2(4) inv]) (use s' s2 in simp_all)
    ultimately show ?thesis using s' s2 env by (simp add: env_moves_def)
  qed
qed

lemma Current_effect:
  assumes "ConfigProvider_Current s = (r, s')" "sys_inv s"
  shows "env_moves s s' \<and> orders_move s s' \<and> health_moves s s'"
proof -
  have s': "s' = s\<lparr>env_reads := Suc (env_reads s)\<rparr>" using assms(1) by (simp add: ConfigProvider_Current_def)
  have "health_moves s s'"
    by (rule health_moves_route [OF _ assms(2) order.refl]) (simp add: s')
  then show ?thesis by (simp add: s' env_moves_def orders_move_def)
qed

lemma serves_effect:
  assumes "serves reg s s'" "sys_inv s"
  shows "env_moves s s' \<and> orders_move s s' \<and> (clock_mono s \<longrightarrow> health_moves s s')"
  using assms
proof (induction rule: serves.induct)
  case (initiate input s r s')
  note rinv = sys_invD(1) [OF initiate(2)]
  show ?case
  proof (cases r)
    case (Inl e)
    note f = mem.Initiate_failed [OF initiate(1) [unfolded Inl] rinv]
    from f health_moves_route [OF _ initiate(2) order.refl] show ?thesis
      by (auto simp: env_moves_def orders_move_def)
  next
    case (Inr x)
    note f = mem.Initiate_ok [OF initiate(1) [unfolded Inr] rinv]
    from f health_moves_route [OF _ initiate(2) order.refl] show ?thesis
      by (auto simp: env_moves_def orders_move_def)
  qed
next
  case (callback input s r' s')
  then show ?case using Callback_effect by blast
next
  case (state g s r'' s')
  let ?now = "env_clock s (env_ticks s)" and ?m = "mh_states (hs_repository s)"
  from memhealth.State_runs [OF routing_invD(1) [OF sys_invD(1) [OF state(2)]], of g] state(1)
  obtain st where s': "health_frame s s'" "env_ticks s' = Suc (env_ticks s)"
    "mh_states (hs_repository s') = ?m(g \<mapsto> st)" "same_state st (pruned ?now (entry ?m g ?now))" by auto
  have "route_edge ?now (entry ?m g ?now) st"
    by (subst route_edge_same [OF s'(4)]) simp
  then have "route_moves ?now ?m (mh_states (hs_repository s'))"
    unfolding s'(3) by (rule route_moves_entry)
  then have "health_moves s s'"
    by (rule health_moves_route [OF _ state(2)]) (simp add: s')
  with s' show ?case
    by (simp add: health_frameD env_moves_def orders_move_def
        route_frame_txn(1) [OF health_frame_route(1) [OF s'(1)]])
next
  case (stats g s rq s')
  from memhealth.Stats_runs [OF routing_invD(1) [OF sys_invD(1) [OF stats(2)]], of g] stats(1)
  have s': "health_frame s s'" "env_ticks s' = Suc (env_ticks s)"
    "mh_states (hs_repository s') = mh_states (hs_repository s)" by auto
  have "health_moves s s'"
    by (rule health_moves_route [OF _ stats(2) order.refl]) (simp add: s')
  with s' show ?case
    by (simp add: health_frameD env_moves_def orders_move_def
        route_frame_txn(1) [OF health_frame_route(1) [OF s'(1)]])
next
  case (config s rc s')
  then show ?case using Current_effect by blast
qed

section \<open>The blacklist under a constant threshold\<close>

text \<open>Every configuration read asks for the same number of failures.\<close>

definition threshold_is :: "int \<Rightarrow> System \<Rightarrow> bool" where
  "threshold_is n s \<longleftrightarrow>
     (\<forall>k. rc_OrderGatewayFailureThreshold (ac_Routing (WithDefaults (env_config s k))) = n)"

definition blacklist_exact :: "int \<Rightarrow> MemoryBlacklist \<Rightarrow> bool" where
  "blacklist_exact n b \<longleftrightarrow> (\<forall>o_id g. g \<in> blacklisted_of b o_id \<longleftrightarrow>
     successes_of b o_id g = 0 \<and> n \<le> failures_of b o_id g)"

lemma threshold_pos: "threshold_is n s \<Longrightarrow> 0 < n"
  using WithDefaults_pos(6) by (metis threshold_is_def)

lemma blacklist_exact_step:
  assumes ex: "blacklist_exact n b" and n: "0 < n" and nonneg: "\<And>o_id g. 0 \<le> successes_of b o_id g"
    and run: "or_RecordOutcome MemBlacklist o_id g st n now b = (Inr res, b')"
  shows "blacklist_exact n b'"
proof -
  obtain summary newly where res: "res = (summary, newly)" by fastforce
  note rec = memblacklist.RecordOutcome_ok [OF run [unfolded res]]
  from rec have final: "IsFinal st" by simp
  have max: "max 1 n = n" using n by simp
  show ?thesis
    unfolding blacklist_exact_def
  proof (intro allI)
    fix o2 g2
    note old = ex [unfolded blacklist_exact_def, rule_format, of g2 o2]
    from final show "g2 \<in> blacklisted_of b' o2 \<longleftrightarrow>
        successes_of b' o2 g2 = 0 \<and> n \<le> failures_of b' o2 g2"
      using rec old nonneg [of o_id g] max
      by (cases rule: IsFinal_cases; cases "o2 = o_id \<and> g2 = g") (auto split: if_splits)
  qed
qed


lemma reachable_blacklist:
  assumes "reachable reg s" "threshold_is n s"
  shows "blacklist_exact n (bs_repository s)"
  using assms
proof (induction rule: reachable.induct)
  case (start s)
  have "bs_repository s = MemBlacklist_New" using start(1) by (simp add: started_def)
  moreover have "0 < n" by (rule threshold_pos [OF start(2)])
  ultimately show ?case
    by (simp add: blacklist_exact_def blacklisted_of_def successes_of_def failures_of_def
        summary_of_def byGateway_def zero_summary_def MemBlacklist_New_def)
next
  case (step s s')
  have inv: "sys_inv s" by (rule reachable_inv [OF step(1)])
  note eff = serves_effect [OF step(2) inv]
  have thr: "threshold_is n s" using step(4) eff by (simp add: threshold_is_def env_moves_def)
  note ex = step(3) [OF thr]
  have nonneg: "0 \<le> successes_of (bs_repository s) o_id g" for o_id g
    using sys_invD(4) [OF inv] by (simp add: counters_ok_def)
  from eff consider "bs_repository s' = bs_repository s"
    | o_id g st k now res where "or_RecordOutcome MemBlacklist o_id g st
        (rc_OrderGatewayFailureThreshold (ac_Routing (WithDefaults (env_config s k)))) now
        (bs_repository s) = (Inr res, bs_repository s')"
    unfolding orders_move_def by blast
  then show ?case
  proof cases
    case 1
    with ex show ?thesis by simp
  next
    case 2
    with thr have "or_RecordOutcome MemBlacklist o_id g st n now (bs_repository s) =
        (Inr res, bs_repository s')" by (simp add: threshold_is_def)
    from blacklist_exact_step [OF ex threshold_pos [OF thr] nonneg this] show ?thesis .
  qed
qed

text \<open>The same in terms of the transactions of the order.\<close>

lemma reachable_blacklisted:
  assumes "reachable reg s" "threshold_is n s"
  shows "g \<in> blacklisted_of (bs_repository s) o_id \<longleftrightarrow>
    outcomes (ts_transactions s) o_id g TransactionStatusSuccess = {} \<and>
    n \<le> int (card (outcomes (ts_transactions s) o_id g TransactionStatusFailure))"
proof -
  note D = sys_invD [OF reachable_inv [OF assms(1)]]
  show ?thesis
    using reachable_blacklist [OF assms] D(4) outcomes_finite [OF D(2), of o_id g TransactionStatusSuccess]
    by (simp add: blacklist_exact_def counters_ok_def card_eq_0_iff)
qed

end
