(* ===== verification/ProbeSlots.thy ===== *)
theory ProbeSlots
  imports System
begin

text \<open>
  The probe slots of half-open gateways over whole requests: the live probes of a gateway stay
  within the configured number when one is acquired, and an \<open>Initiate\<close> that fails after it
  acquired a probe gives the slot back.
\<close>

section \<open>States without a probe of a transaction\<close>

definition probe_free :: "string \<Rightarrow> GatewayRuntimeState \<Rightarrow> bool" where
  "probe_free tid st \<longleftrightarrow> (\<forall>p \<in> set (rt_HalfOpenProbes st). hp_TransactionID p \<noteq> tid)"

definition all_free :: "string \<Rightarrow> (string \<rightharpoonup> GatewayRuntimeState) \<Rightarrow> bool" where
  "all_free tid m \<longleftrightarrow> (\<forall>g st. m g = Some st \<longrightarrow> probe_free tid st)"

lemma all_freeD: "all_free tid m \<Longrightarrow> m g = Some st \<Longrightarrow> probe_free tid st"
  by (simp add: all_free_def)

lemma all_free_upd: "all_free tid m \<Longrightarrow> probe_free tid st \<Longrightarrow> all_free tid (m(g \<mapsto> st))"
  by (simp add: all_free_def)

lemma probe_free_simps [simp]:
  "probe_free tid (initial_state g now)"
  "probe_free tid (with_probes ps st) \<longleftrightarrow> (\<forall>p \<in> set ps. hp_TransactionID p \<noteq> tid)"
  "probe_free tid (without_probe now tid st)"
  by (auto simp: probe_free_def without_probe_def)

lemma probe_free_live: "probe_free tid st \<Longrightarrow> p \<in> set (live_probes now st) \<Longrightarrow> hp_TransactionID p \<noteq> tid"
  by (auto simp: probe_free_def live_probes_def)

lemma probe_free_same: "same_state a b \<Longrightarrow> probe_free tid a = probe_free tid b"
  using same_stateD(4) [of a b] by (simp add: probe_free_def)

lemma probe_free_entry: "all_free tid m \<Longrightarrow> probe_free tid (entry m g now)"
  by (cases "m g") (simp_all add: all_freeD)

lemma probe_free_prepared: "probe_free tid st \<Longrightarrow> probe_free tid (prepared now st)"
  by (auto simp: prepared_def pruned_def live_probes_def) (auto simp: probe_free_def)

text \<open>Without a probe of the transaction, and with a consistent cache.\<close>

definition free_inv :: "string \<Rightarrow> (MemoryHealth, 'z) HealthService_scheme \<Rightarrow> bool" where
  "free_inv tid s \<longleftrightarrow> health_inv mh_states s \<and> all_free tid (mh_states (hs_repository s))"

lemma free_inv_upd [simp]:
  "free_inv tid (s\<lparr>env_ticks := n\<rparr>) = free_inv tid s" "free_inv tid (s\<lparr>env_reads := n\<rparr>) = free_inv tid s"
  "free_inv tid (s\<lparr>env_issued := n\<rparr>) = free_inv tid s"
  "free_inv tid (t\<lparr>rs_cache := k\<rparr>) = free_inv tid t" "free_inv tid (t\<lparr>rs_counter := c\<rparr>) = free_inv tid t"
  "free_inv tid (u\<lparr>bs_repository := b\<rparr>) = free_inv tid u"
  "free_inv tid (v\<lparr>ts_transactions := x\<rparr>) = free_inv tid v"
  by (simp_all add: free_inv_def health_inv_def)

lemma free_steps [preserve_intros]:
  "preserves (free_inv tid) Clock_Now" "preserves (free_inv tid) ConfigProvider_Current"
  "preserves (free_inv tid) (IDGenerator_NewID p)"
  by (auto simp: preserves_def Clock_Now_def ConfigProvider_Current_def IDGenerator_NewID_def)

lemma free_PrepareForRouting [preserve_intros]: "preserves (free_inv tid) (PrepareForRouting MemHealth g r)"
proof (rule preservesI)
  fix s :: "(MemoryHealth, 'z) HealthService_scheme" and q s'
  assume s: "free_inv tid s" and run: "PrepareForRouting MemHealth g r s = (q, s')"
  let ?m = "mh_states (hs_repository s)" and ?now = "env_clock s (env_ticks s)"
  from memhealth.PrepareForRouting_runs [of s g r] s run obtain st
    where st: "same_state st (prepared ?now (entry ?m g ?now))"
      "mh_states (hs_repository s') = ?m(g \<mapsto> st)" "health_inv mh_states s'"
    by (auto simp: free_inv_def)
  have "probe_free tid st"
    using s probe_free_same [OF st(1)] by (simp add: free_inv_def probe_free_prepared probe_free_entry)
  then show "free_inv tid s'" using s st by (simp add: free_inv_def all_free_upd)
qed

lemma free_snapshotLoop: "preserves (free_inv tid) (snapshotLoop MemHealth r gs snap)"
  by (induction gs arbitrary: snap) (auto intro!: preserve_intros)

lemma free_snapshot: "preserves (free_inv tid) (snapshot MemHealth)"
proof -
  have upd: "preserves (free_inv tid) (modify (\<lambda>s. s\<lparr>rs_cache := sn\<rparr>))" for sn
    by (simp add: preserves_modify)
  show ?thesis unfolding snapshot_def Let_def by (intro preserve_intros free_snapshotLoop upd)
qed

text \<open>A probe that was not acquired leaves none; one that was is the transaction's only one.\<close>

lemma free_MarkProbeSelected:
  fixes s :: "(MemoryHealth, 'z) HealthService_scheme"
  assumes s: "free_inv tid s" and run: "MarkProbeSelected MemHealth g tid s = (q, s')"
  shows "case q of Inl e \<Rightarrow> free_inv tid s'
    | Inr u \<Rightarrow> \<exists>st. mh_states (hs_repository s') g = Some st \<and> rt_State st = GatewayStateHalfOpen \<and>
        all_free tid ((mh_states (hs_repository s'))(g := None))"
proof -
  let ?m = "mh_states (hs_repository s)"
  define now where "now = env_clock s (env_ticks s)"
  define routing where "routing = ac_Routing (WithDefaults (env_config s (env_reads s)))"
  have inv': "health_inv mh_states s'"
    using memhealth.MarkProbeSelected_any [OF run] s by (simp add: free_inv_def)
  show ?thesis
  proof (cases "?m g")
    case None
    then have "q = Inl (gateway_not_found g)" "hs_repository s' = hs_repository s"
      using run by (auto simp: MarkProbeSelected_def Let_def andThen_def on_repo_def
          MemHealth_probe_None Clock_Now_def ConfigProvider_Current_def)
    with inv' s show ?thesis by (simp add: free_inv_def)
  next
    case (Some st)
    note free = all_freeD [of tid ?m g st]
    have live: "\<forall>p \<in> set (live_probes t st). hp_TransactionID p \<noteq> tid" for t
      using s Some probe_free_live free by (auto simp: free_inv_def)
    have put: "all_free tid (?m(g \<mapsto> with_probes (live_probes t st) st))" for t
      using s live by (simp add: free_inv_def all_free_upd)
    have rest: "all_free tid ((?m(g \<mapsto> x))(g := None))" for x
      using s by (simp add: free_inv_def all_free_def)
    show ?thesis
      using run Some put rest inv' s
      by (auto simp: MarkProbeSelected_def Let_def andThen_def on_repo_def Clock_Now_def
          ConfigProvider_Current_def MemHealth_TryAcquire_Some
          free_inv_def map_upd_triv split: if_splits)
  qed
qed

lemma free_ReleaseProbe:
  fixes s :: "(MemoryHealth, 'z) HealthService_scheme"
  assumes inv: "health_inv mh_states s" and g: "mh_states (hs_repository s) g \<noteq> None"
    and others: "all_free tid ((mh_states (hs_repository s))(g := None))"
    and run: "ReleaseProbe MemHealth g tid s = (q, s')"
  shows "free_inv tid s'"
proof -
  let ?m = "mh_states (hs_repository s)"
  have inv': "health_inv mh_states s'" using memhealth.ReleaseProbe_any [OF run inv] by simp
  from g obtain st where st: "?m g = Some st" by blast
  have upd: "all_free tid (?m(g \<mapsto> x))" if "probe_free tid x" for x
    using others that by (auto simp: all_free_def split: if_splits)
  have notopen: "all_free tid ?m" if "rt_State st \<noteq> GatewayStateHalfOpen"
  proof -
    have "rt_HalfOpenProbes st = []"
      using wf_statesD [OF health_invD(1) [OF inv] st] that by (simp add: wf_gateway_def)
    with upd [of st] st show ?thesis by (simp add: map_upd_triv probe_free_def)
  qed
  have open': "probe_free tid (without_probe now tid st\<lparr>rt_UpdatedAt := now'\<rparr>)" for now now'
    by (simp add: without_probe_def with_probes_def probe_free_def)
  show ?thesis
    using run st inv' notopen upd [OF open']
    by (auto simp: ReleaseProbe_def andThen_def on_repo_def Clock_Now_def MemHealth_Release_Some
        Let_def free_inv_def without_probe_def split: if_splits)
qed


section \<open>A failed initiation holds no slot\<close>

lemma free_SelectGateway:
  fixes s :: "(MemoryHealth, 'z) RoutingService_scheme"
  assumes run: "SelectGateway MemHealth request s = (q, s')" and s: "free_inv (sr_TransactionID request) s"
    and inv: "routing_inv mh_states s"
  shows "case q of Inl e \<Rightarrow> free_inv (sr_TransactionID request) s'
    | Inr sel \<Rightarrow> if sel_HalfOpenProbe sel
        then \<exists>st. mh_states (hs_repository s') (gc_Name (sel_Gateway sel)) = Some st \<and>
          all_free (sr_TransactionID request)
            ((mh_states (hs_repository s'))(gc_Name (sel_Gateway sel) := None))
        else free_inv (sr_TransactionID request) s'"
proof -
  let ?tid = "sr_TransactionID request"
  from memhealth.snapshot_runs [OF inv] obtain snap s1 where snap: "snapshot MemHealth s = (Inr snap, s1)"
    by blast
  have s1: "free_inv ?tid s1" by (rule preservesD [OF free_snapshot s snap])
  from run snap show ?thesis
  proof (cases rule: SelectGateway_cases)
    case healthy
    with s1 show ?thesis by (cases q) (auto dest!: selectHealthy_Inr selectHealthy_Inl)
  next
    case no_slot
    with s1 show ?thesis by simp
  next
    case (probe g u)
    have "free_inv ?tid (s1\<lparr>rs_counter := rs_counter s1 + 1\<rparr>)" using s1 by simp
    from free_MarkProbeSelected [OF this probe(2)] probe(3) show ?thesis by auto
  next
    case (no_probe g e s2)
    have "free_inv ?tid (s1\<lparr>rs_counter := rs_counter s1 + 1\<rparr>)" using s1 by simp
    from free_MarkProbeSelected [OF this no_probe(2)]
    have s2: "free_inv ?tid (s2\<lparr>rs_cache := empty_snapshot\<rparr>)" by simp
    with no_probe(3) show ?thesis
      by (cases q) (auto dest!: selectHealthy_Inr selectHealthy_Inl split: if_splits)
  qed
qed

lemma free_Initiate_failed:
  fixes s :: System
  assumes run: "Initiate MemHealth MemTx MemBlacklist reg input s = (Inl e, s')"
    and inv: "sys_inv s"
    and fresh: "all_free (env_ids s (env_issued s) ''txn'') (mh_states (hs_repository s))"
  shows "all_free (env_ids s (env_issued s) ''txn'') (mh_states (hs_repository s'))"
proof -
  let ?tid = "env_ids s (env_issued s) ''txn''"
  let ?s = "s\<lparr>env_issued := Suc (env_issued s)\<rparr>"
  have rinv: "routing_inv mh_states ?s" using sys_invD(1) [OF inv] by simp
  have s0: "free_inv ?tid ?s"
    using fresh routing_invD(1) [OF rinv] by (simp add: free_inv_def)
  from run have "free_inv ?tid s'"
  proof (cases rule: mem.Initiate_Inl)
    case early
    with s0 show ?thesis by simp
  next
    case select
    from free_SelectGateway [OF select] s0 rinv show ?thesis by simp
  next
    case (late sel s1 t2 n)
    let ?s2 = "s1\<lparr>ts_transactions := t2, env_ticks := n\<rparr>"
    have sg: "if sel_HalfOpenProbe sel
        then \<exists>st. mh_states (hs_repository s1) (gc_Name (sel_Gateway sel)) = Some st \<and>
          all_free ?tid ((mh_states (hs_repository s1))(gc_Name (sel_Gateway sel) := None))
        else free_inv ?tid s1"
      using free_SelectGateway [OF late(1) _ rinv] s0 by (simp split: if_splits)
    have rinv1: "routing_inv mh_states s1" using memhealth.SelectGateway_any [OF late(1) rinv] by simp
    then have rinv2: "routing_inv mh_states ?s2" by simp
    from mem.failWith_runs [OF rinv2, of sel ?tid e] late(2)
    have fw: "if sel_HalfOpenProbe sel
      then \<exists>r. ReleaseProbe MemHealth (gc_Name (sel_Gateway sel)) ?tid ?s2 = (r, s') else s' = ?s2"
      by (metis Pair_inject)
    show ?thesis
    proof (cases "sel_HalfOpenProbe sel")
      case False
      with sg fw show ?thesis by simp
    next
      case True
      with fw obtain r where rel: "ReleaseProbe MemHealth (gc_Name (sel_Gateway sel)) ?tid ?s2 = (r, s')"
        by auto
      show ?thesis
        by (rule free_ReleaseProbe [OF routing_invD(1) [OF rinv2] _ _ rel]) (use sg True in auto)
    qed
  qed
  then show ?thesis by (simp add: free_inv_def)
qed

end
