(* ===== verification/GatewayAdapters.thy ===== *)
theory GatewayAdapters
  imports Environment "HOL-Library.List_Lexorder" "HOL-Library.Char_ord"
begin

text \<open>
  The package \<open>internal/adapters/gateway\<close>: the mock clients of three payment gateways, the decoders
  of their callback payloads, and the registry that finds a client by name and tries the
  decoders in the order of the gateway names.
\<close>

text \<open>The error of \<open>encoding/json\<close>, whatever its text.\<close>

definition json_error :: go_error where
  "json_error = Errorf ''json'' []"

text \<open>
  \<open>decode\<close> on a payload: the first JSON value of the bytes, \<open>None\<close> when there is none; what follows
  the first value is not read.
\<close>

definition decode :: "'a decoder \<Rightarrow> 'a \<Rightarrow> json option \<Rightarrow> go_error + 'a" where
  "decode dec zero payload = (case payload of
     None \<Rightarrow> Inl json_error
   | Some j \<Rightarrow> (case dec j zero of None \<Rightarrow> Inl json_error | Some x \<Rightarrow> Inr x))"

definition parseGatewayStatus ::
  "string \<Rightarrow> (string \<times> TransactionStatus) list \<Rightarrow> go_error + TransactionStatus" where
  "parseGatewayStatus value statuses =
     (case map_of statuses (ToLower (TrimSpace value)) of
        None \<Rightarrow> Inl (Wrapf ErrInvalidCallback ''%w: unsupported gateway status %q'' [value])
      | Some status \<Rightarrow> Inr status)"

section \<open>Razorpay\<close>

definition RazorpayClient_Initiate :: PaymentGatewayClient where
  "RazorpayClient_Initiate transaction = Inr \<lparr>gi_ReferenceID = ''rzp_'' @ tx_ID transaction\<rparr>"

text \<open>The anonymous struct of \<open>Decode\<close>; the nested structs have one member each that is read.\<close>

record razorpay_entity =
  re_Status :: string
  re_ErrorDescription :: string
  re_Notes :: "string \<rightharpoonup> string"

record razorpay_request =
  rr_Event :: string
  rr_Entity :: razorpay_entity

definition razorpay_zero :: razorpay_request where
  "razorpay_zero = \<lparr>rr_Event = '''',
     rr_Entity = \<lparr>re_Status = '''', re_ErrorDescription = '''', re_Notes = Map.empty\<rparr>\<rparr>"

definition razorpay_entity_fields :: "(string \<times> razorpay_entity decoder) list" where
  "razorpay_entity_fields =
     [(''status'', decode_string (\<lambda>v e. e\<lparr>re_Status := v\<rparr>)),
      (''error_description'', decode_string (\<lambda>v e. e\<lparr>re_ErrorDescription := v\<rparr>)),
      (''notes'', decode_string_map re_Notes (\<lambda>v e. e\<lparr>re_Notes := v\<rparr>))]"

definition razorpay_fields :: "(string \<times> razorpay_request decoder) list" where
  "razorpay_fields =
     [(''event'', decode_string (\<lambda>v r. r\<lparr>rr_Event := v\<rparr>)),
      (''payload'', decode_struct [(''payment'', decode_struct [(''entity'',
         decode_in rr_Entity (\<lambda>e r. r\<lparr>rr_Entity := e\<rparr>) (decode_struct razorpay_entity_fields))])])]"

definition map_get :: "(string \<rightharpoonup> string) \<Rightarrow> string \<Rightarrow> string" where
  "map_get m k = (case m k of None \<Rightarrow> '''' | Some v \<Rightarrow> v)"

definition razorpay_statuses :: "(string \<times> TransactionStatus) list" where
  "razorpay_statuses = [(''captured'', TransactionStatusSuccess), (''paid'', TransactionStatusSuccess),
     (''failed'', TransactionStatusFailure)]"

definition RazorpayCallbackDecoder_Decode :: GatewayCallbackDecoder where
  "RazorpayCallbackDecoder_Decode payload =
     (case decode (decode_struct razorpay_fields) razorpay_zero payload of
        Inl err \<Rightarrow> Inl err
      | Inr request \<Rightarrow>
          (case parseGatewayStatus (re_Status (rr_Entity request)) razorpay_statuses of
             Inl err \<Rightarrow> Inl err
           | Inr status \<Rightarrow> Inr
               \<lparr>gcb_TransactionID = TrimSpace (map_get (re_Notes (rr_Entity request)) ''transaction_id''),
                gcb_OrderID = TrimSpace (map_get (re_Notes (rr_Entity request)) ''order_id''),
                gcb_Gateway = ''razorpay'', gcb_Status = status,
                gcb_Reason = TrimSpace (re_ErrorDescription (rr_Entity request))\<rparr>))"

section \<open>PayU\<close>

definition PayUClient_Initiate :: PaymentGatewayClient where
  "PayUClient_Initiate transaction = Inr \<lparr>gi_ReferenceID =
     ''payu_'' @ tx_OrderID transaction @ ''_'' @ fmt_d (tx_AttemptNo transaction)\<rparr>"

record payu_request =
  pr_TransactionID :: string
  pr_OrderID :: string
  pr_Status :: string
  pr_ErrorMessage :: string

definition payu_zero :: payu_request where
  "payu_zero = \<lparr>pr_TransactionID = '''', pr_OrderID = '''', pr_Status = '''', pr_ErrorMessage = ''''\<rparr>"

definition payu_fields :: "(string \<times> payu_request decoder) list" where
  "payu_fields =
     [(''txnid'', decode_string (\<lambda>v r. r\<lparr>pr_TransactionID := v\<rparr>)),
      (''udf1'', decode_string (\<lambda>v r. r\<lparr>pr_OrderID := v\<rparr>)),
      (''status'', decode_string (\<lambda>v r. r\<lparr>pr_Status := v\<rparr>)),
      (''error_Message'', decode_string (\<lambda>v r. r\<lparr>pr_ErrorMessage := v\<rparr>))]"

definition payu_statuses :: "(string \<times> TransactionStatus) list" where
  "payu_statuses = [(''success'', TransactionStatusSuccess), (''failed'', TransactionStatusFailure),
     (''failure'', TransactionStatusFailure)]"

definition PayUCallbackDecoder_Decode :: GatewayCallbackDecoder where
  "PayUCallbackDecoder_Decode payload =
     (case decode (decode_struct payu_fields) payu_zero payload of
        Inl err \<Rightarrow> Inl err
      | Inr request \<Rightarrow>
          (case parseGatewayStatus (pr_Status request) payu_statuses of
             Inl err \<Rightarrow> Inl err
           | Inr status \<Rightarrow> Inr
               \<lparr>gcb_TransactionID = TrimSpace (pr_TransactionID request),
                gcb_OrderID = TrimSpace (pr_OrderID request),
                gcb_Gateway = ''payu'', gcb_Status = status,
                gcb_Reason = TrimSpace (pr_ErrorMessage request)\<rparr>))"

section \<open>Cashfree\<close>

definition CashfreeClient_Initiate :: PaymentGatewayClient where
  "CashfreeClient_Initiate transaction = Inr \<lparr>gi_ReferenceID =
     ''cf_'' @ tx_OrderID transaction @ ''_'' @ tx_ID transaction\<rparr>"

record cashfree_request =
  cr_OrderID :: string
  cr_OrderTags :: "string \<rightharpoonup> string"
  cr_PaymentStatus :: string
  cr_PaymentMessage :: string

definition cashfree_zero :: cashfree_request where
  "cashfree_zero = \<lparr>cr_OrderID = '''', cr_OrderTags = Map.empty, cr_PaymentStatus = '''',
     cr_PaymentMessage = ''''\<rparr>"

definition cashfree_fields :: "(string \<times> cashfree_request decoder) list" where
  "cashfree_fields =
     [(''order'', decode_struct
        [(''order_id'', decode_string (\<lambda>v r. r\<lparr>cr_OrderID := v\<rparr>)),
         (''order_tags'', decode_string_map cr_OrderTags (\<lambda>v r. r\<lparr>cr_OrderTags := v\<rparr>))]),
      (''payment'', decode_struct
        [(''payment_status'', decode_string (\<lambda>v r. r\<lparr>cr_PaymentStatus := v\<rparr>)),
         (''payment_message'', decode_string (\<lambda>v r. r\<lparr>cr_PaymentMessage := v\<rparr>))])]"

definition cashfree_statuses :: "(string \<times> TransactionStatus) list" where
  "cashfree_statuses = [(''success'', TransactionStatusSuccess), (''paid'', TransactionStatusSuccess),
     (''failed'', TransactionStatusFailure), (''failure'', TransactionStatusFailure)]"

definition CashfreeCallbackDecoder_Decode :: GatewayCallbackDecoder where
  "CashfreeCallbackDecoder_Decode payload =
     (case decode (decode_struct cashfree_fields) cashfree_zero payload of
        Inl err \<Rightarrow> Inl err
      | Inr request \<Rightarrow>
          (case parseGatewayStatus (cr_PaymentStatus request) cashfree_statuses of
             Inl err \<Rightarrow> Inl err
           | Inr status \<Rightarrow> Inr
               \<lparr>gcb_TransactionID = TrimSpace (map_get (cr_OrderTags request) ''transaction_id''),
                gcb_OrderID = TrimSpace (cr_OrderID request),
                gcb_Gateway = ''cashfree'', gcb_Status = status,
                gcb_Reason = TrimSpace (cr_PaymentMessage request)\<rparr>))"

section \<open>The registry\<close>

text \<open>The maps of a registry as association lists; \<open>None\<close> is the nil map of a zero \<open>Registry\<close>.\<close>

record Registry =
  rg_clients :: "(string \<times> PaymentGatewayClient) list option"
  rg_decoders :: "(string \<times> GatewayCallbackDecoder) list option"

definition NewRegistry :: Registry where
  "NewRegistry = \<lparr>
     rg_clients = Some [(''razorpay'', RazorpayClient_Initiate), (''payu'', PayUClient_Initiate),
       (''cashfree'', CashfreeClient_Initiate)],
     rg_decoders = Some [(''razorpay'', RazorpayCallbackDecoder_Decode),
       (''payu'', PayUCallbackDecoder_Decode), (''cashfree'', CashfreeCallbackDecoder_Decode)]\<rparr>"

definition clientMap :: "Registry \<Rightarrow> (string \<times> PaymentGatewayClient) list" where
  "clientMap r = (case rg_clients r of None \<Rightarrow> the (rg_clients NewRegistry) | Some m \<Rightarrow> m)"

definition decoderMap :: "Registry \<Rightarrow> (string \<times> GatewayCallbackDecoder) list" where
  "decoderMap r = (case rg_decoders r of None \<Rightarrow> the (rg_decoders NewRegistry) | Some m \<Rightarrow> m)"

definition Registry_Client :: "Registry \<Rightarrow> GatewayClientRegistry" where
  "Registry_Client r gateway = map_of (clientMap r) gateway"

text \<open>The loop of \<open>Decode\<close>: the first decoder that accepts the payload.\<close>

fun decode_first :: "(string \<times> GatewayCallbackDecoder) list \<Rightarrow> string list \<Rightarrow> GatewayCallbackDecoder" where
  "decode_first decoders [] payload =
     Inl (Wrapf ErrInvalidCallback ''%w: unsupported gateway callback payload'' [])"
| "decode_first decoders (gateway # gateways) payload =
     (case the (map_of decoders gateway) payload of
        Inr callback \<Rightarrow> Inr callback
      | Inl _ \<Rightarrow> decode_first decoders gateways payload)"

definition Registry_Decode :: "Registry \<Rightarrow> GatewayCallbackDecoder" where
  "Registry_Decode r payload =
     decode_first (decoderMap r) (sort (map fst (decoderMap r))) payload"


section \<open>Which payloads the decoders accept\<close>

text \<open>An object whose first member has one of the given folded names.\<close>

fun starts_with_member :: "string list \<Rightarrow> json option \<Rightarrow> bool" where
  "starts_with_member names (Some (JObject ((k, v) # ms))) = (fold_name k \<in> set names)"
| "starts_with_member names _ = False"

lemma starts_with_member_unique:
  "starts_with_member ns p \<Longrightarrow> starts_with_member ns' p \<Longrightarrow> set ns \<inter> set ns' \<noteq> {}"
  by (induction ns p rule: starts_with_member.induct) auto

lemma decode_starts:
  assumes "decode (decode_struct fs) zero p = Inr x" "x \<noteq> zero"
  shows "starts_with_member (map (fold_name \<circ> fst) fs) p"
proof -
  from assms(1) obtain j where p: "p = Some j" and d: "decode_struct fs j zero = Some x"
    by (auto simp: decode_def split: option.splits)
  from decode_struct_object [OF d assms(2)] obtain k v ms
    where "j = JObject ((k, v) # ms)" "knows fs k" by metis
  then show ?thesis by (simp add: p knows_def image_comp)
qed

lemma parse_empty_status [simp]:
  "parseGatewayStatus '''' razorpay_statuses \<noteq> Inr st"
  "parseGatewayStatus '''' payu_statuses \<noteq> Inr st"
  "parseGatewayStatus '''' cashfree_statuses \<noteq> Inr st"
  by (auto simp: parseGatewayStatus_def razorpay_statuses_def payu_statuses_def cashfree_statuses_def)

lemma parse_final:
  assumes "parseGatewayStatus v ss = Inr st" "\<forall>s \<in> snd ` set ss. IsFinal s"
  shows "IsFinal st"
  using assms by (auto simp: parseGatewayStatus_def split: option.splits dest!: map_of_SomeD)

definition razorpay_names :: "string list" where "razorpay_names = [''EVENT'', ''PAYLOAD'']"
definition payu_names :: "string list" where
  "payu_names = [''TXNID'', ''UDF1'', ''STATUS'', ''ERROR_MESSAGE'']"
definition cashfree_names :: "string list" where "cashfree_names = [''ORDER'', ''PAYMENT'']"

lemmas names_defs = razorpay_names_def payu_names_def cashfree_names_def

lemma folded_names:
  "map (fold_name \<circ> fst) razorpay_fields = razorpay_names"
  "map (fold_name \<circ> fst) payu_fields = payu_names"
  "map (fold_name \<circ> fst) cashfree_fields = cashfree_names"
  by (simp_all add: razorpay_fields_def payu_fields_def cashfree_fields_def names_defs byte_def)

lemma razorpay_accepts:
  assumes "RazorpayCallbackDecoder_Decode p = Inr cb"
  shows "starts_with_member razorpay_names p" "gcb_Gateway cb = ''razorpay''" "IsFinal (gcb_Status cb)"
proof -
  from assms obtain x st where x: "decode (decode_struct razorpay_fields) razorpay_zero p = Inr x"
    and st: "parseGatewayStatus (re_Status (rr_Entity x)) razorpay_statuses = Inr st"
    and cb: "gcb_Gateway cb = ''razorpay''" "gcb_Status cb = st"
    by (auto simp: RazorpayCallbackDecoder_Decode_def split: sum.splits)
  have "x \<noteq> razorpay_zero"
    using st by (auto simp: razorpay_zero_def)
  from decode_starts [OF x this] show "starts_with_member razorpay_names p" by (simp add: folded_names)
  show "gcb_Gateway cb = ''razorpay''" by (rule cb)
  show "IsFinal (gcb_Status cb)"
    unfolding cb(2) by (rule parse_final [OF st]) (simp add: razorpay_statuses_def)
qed

lemma payu_accepts:
  assumes "PayUCallbackDecoder_Decode p = Inr cb"
  shows "starts_with_member payu_names p" "gcb_Gateway cb = ''payu''" "IsFinal (gcb_Status cb)"
proof -
  from assms obtain x st where x: "decode (decode_struct payu_fields) payu_zero p = Inr x"
    and st: "parseGatewayStatus (pr_Status x) payu_statuses = Inr st"
    and cb: "gcb_Gateway cb = ''payu''" "gcb_Status cb = st"
    by (auto simp: PayUCallbackDecoder_Decode_def split: sum.splits)
  have "x \<noteq> payu_zero" using st by (auto simp: payu_zero_def)
  from decode_starts [OF x this] show "starts_with_member payu_names p" by (simp add: folded_names)
  show "gcb_Gateway cb = ''payu''" by (rule cb)
  show "IsFinal (gcb_Status cb)"
    unfolding cb(2) by (rule parse_final [OF st]) (simp add: payu_statuses_def)
qed

lemma cashfree_accepts:
  assumes "CashfreeCallbackDecoder_Decode p = Inr cb"
  shows "starts_with_member cashfree_names p" "gcb_Gateway cb = ''cashfree''" "IsFinal (gcb_Status cb)"
proof -
  from assms obtain x st where x: "decode (decode_struct cashfree_fields) cashfree_zero p = Inr x"
    and st: "parseGatewayStatus (cr_PaymentStatus x) cashfree_statuses = Inr st"
    and cb: "gcb_Gateway cb = ''cashfree''" "gcb_Status cb = st"
    by (auto simp: CashfreeCallbackDecoder_Decode_def split: sum.splits)
  have "x \<noteq> cashfree_zero" using st by (auto simp: cashfree_zero_def)
  from decode_starts [OF x this] show "starts_with_member cashfree_names p" by (simp add: folded_names)
  show "gcb_Gateway cb = ''cashfree''" by (rule cb)
  show "IsFinal (gcb_Status cb)"
    unfolding cb(2) by (rule parse_final [OF st]) (simp add: cashfree_statuses_def)
qed

text \<open>The order in which the registry tries them.\<close>

lemma decoder_order: "sort (map fst (decoderMap NewRegistry)) = [''cashfree'', ''payu'', ''razorpay'']"
  by (simp add: decoderMap_def NewRegistry_def)

lemma Registry_Decode_order:
  "Registry_Decode NewRegistry p =
     (case CashfreeCallbackDecoder_Decode p of Inr cb \<Rightarrow> Inr cb | Inl _ \<Rightarrow>
      (case PayUCallbackDecoder_Decode p of Inr cb \<Rightarrow> Inr cb | Inl _ \<Rightarrow>
       (case RazorpayCallbackDecoder_Decode p of Inr cb \<Rightarrow> Inr cb | Inl _ \<Rightarrow>
        Inl (Wrapf ErrInvalidCallback ''%w: unsupported gateway callback payload'' []))))"
  unfolding Registry_Decode_def decoder_order by (simp add: decoderMap_def NewRegistry_def split: sum.split)

lemma accepts_exclusive:
  "CashfreeCallbackDecoder_Decode p = Inr c1 \<Longrightarrow> PayUCallbackDecoder_Decode p \<noteq> Inr c2"
  "CashfreeCallbackDecoder_Decode p = Inr c1 \<Longrightarrow> RazorpayCallbackDecoder_Decode p \<noteq> Inr c3"
  "PayUCallbackDecoder_Decode p = Inr c2 \<Longrightarrow> RazorpayCallbackDecoder_Decode p \<noteq> Inr c3"
  using cashfree_accepts(1) payu_accepts(1) razorpay_accepts(1)
    starts_with_member_unique [of cashfree_names p payu_names]
    starts_with_member_unique [of cashfree_names p razorpay_names]
    starts_with_member_unique [of payu_names p razorpay_names]
  by (auto simp: names_defs)


section \<open>Properties\<close>

lemma Registry_Decode_accept:
  assumes "RazorpayCallbackDecoder_Decode p = Inr cb \<or> PayUCallbackDecoder_Decode p = Inr cb \<or>
    CashfreeCallbackDecoder_Decode p = Inr cb"
  shows "Registry_Decode NewRegistry p = Inr cb"
  using assms accepts_exclusive [of p] unfolding Registry_Decode_order
  by (cases "CashfreeCallbackDecoder_Decode p"; cases "PayUCallbackDecoder_Decode p";
      cases "RazorpayCallbackDecoder_Decode p") simp_all

lemma Registry_Decode_result:
  "Registry_Decode NewRegistry p = Inr cb \<Longrightarrow> RazorpayCallbackDecoder_Decode p = Inr cb \<or>
     PayUCallbackDecoder_Decode p = Inr cb \<or> CashfreeCallbackDecoder_Decode p = Inr cb"
  "Registry_Decode NewRegistry p = Inl er \<Longrightarrow> errors_Is er ErrInvalidCallback"
  unfolding Registry_Decode_order
  by (cases "CashfreeCallbackDecoder_Decode p"; cases "PayUCallbackDecoder_Decode p";
      cases "RazorpayCallbackDecoder_Decode p"; auto)+

text \<open>
  The order in which the registry tries the decoders never matters: a payload that the decoder of
  some gateway accepts is decoded by the registry to exactly that result, which names that gateway
  and has a final status; a payload no decoder accepts is an invalid callback.
\<close>
theorem Registry_Decode_unique:
  "(Registry_Decode NewRegistry p = Inr cb \<longleftrightarrow>
     (\<exists>g dec. map_of (decoderMap NewRegistry) g = Some dec \<and> dec p = Inr cb)) \<and>
   (Registry_Decode NewRegistry p = Inr cb \<longrightarrow> IsFinal (gcb_Status cb) \<and>
      (\<exists>dec. map_of (decoderMap NewRegistry) (gcb_Gateway cb) = Some dec \<and> dec p = Inr cb)) \<and>
   (Registry_Decode NewRegistry p = Inl er \<longrightarrow> errors_Is er ErrInvalidCallback)"
proof -
  have decs: "map_of (decoderMap NewRegistry) =
      [''cashfree'' \<mapsto> CashfreeCallbackDecoder_Decode, ''payu'' \<mapsto> PayUCallbackDecoder_Decode,
       ''razorpay'' \<mapsto> RazorpayCallbackDecoder_Decode]"
    by (simp add: decoderMap_def NewRegistry_def)
  have "dec \<in> {CashfreeCallbackDecoder_Decode, PayUCallbackDecoder_Decode, RazorpayCallbackDecoder_Decode}"
    if "map_of (decoderMap NewRegistry) g = Some dec" for g dec
    using that by (auto simp: decs split: if_splits)
  then have "Registry_Decode NewRegistry p = Inr cb"
    if "map_of (decoderMap NewRegistry) g = Some dec" "dec p = Inr cb" for g dec
    using that Registry_Decode_accept [of p cb] by fastforce
  moreover have "IsFinal (gcb_Status cb) \<and>
      (\<exists>dec. map_of (decoderMap NewRegistry) (gcb_Gateway cb) = Some dec \<and> dec p = Inr cb)"
    if "Registry_Decode NewRegistry p = Inr cb"
    using Registry_Decode_result(1) [OF that] razorpay_accepts(2,3) [of p cb] payu_accepts(2,3) [of p cb]
      cashfree_accepts(2,3) [of p cb] by (auto simp: decs)
  ultimately show ?thesis using Registry_Decode_result(2) [of p er] by blast
qed

theorem Registry_Decode_unique_witness:
  "\<not> (\<exists>cb. Registry_Decode NewRegistry None = Inr cb)"
proof -
  have none: "\<not> (\<exists>g dec cb. map_of (decoderMap NewRegistry) g = Some dec \<and> dec None = Inr cb)"
    by (auto simp: decoderMap_def NewRegistry_def RazorpayCallbackDecoder_Decode_def decode_def
      PayUCallbackDecoder_Decode_def CashfreeCallbackDecoder_Decode_def split: if_splits)
  show ?thesis using Registry_Decode_unique [of None] none by blast
qed

text \<open>The payloads the gateways send for a callback, with the status word the gateway uses.\<close>

definition razorpay_payload :: "GatewayCallback \<Rightarrow> string \<Rightarrow> json" where
  "razorpay_payload cb word = JObject [(''event'', JString ''payment''),
     (''payload'', JObject [(''payment'', JObject [(''entity'', JObject
        [(''status'', JString word), (''error_description'', JString (gcb_Reason cb)),
         (''notes'', JObject [(''transaction_id'', JString (gcb_TransactionID cb)),
            (''order_id'', JString (gcb_OrderID cb))])])])])]"

definition payu_payload :: "GatewayCallback \<Rightarrow> string \<Rightarrow> json" where
  "payu_payload cb word = JObject [(''txnid'', JString (gcb_TransactionID cb)),
     (''udf1'', JString (gcb_OrderID cb)), (''status'', JString word),
     (''error_Message'', JString (gcb_Reason cb))]"

definition cashfree_payload :: "GatewayCallback \<Rightarrow> string \<Rightarrow> json" where
  "cashfree_payload cb word = JObject
     [(''order'', JObject [(''order_id'', JString (gcb_OrderID cb)),
        (''order_tags'', JObject [(''transaction_id'', JString (gcb_TransactionID cb))])]),
      (''payment'', JObject [(''payment_status'', JString word),
        (''payment_message'', JString (gcb_Reason cb))])]"

definition payload_of :: "GatewayCallback \<Rightarrow> string \<Rightarrow> json" where
  "payload_of cb word = (if gcb_Gateway cb = ''razorpay'' then razorpay_payload cb word
     else if gcb_Gateway cb = ''payu'' then payu_payload cb word else cashfree_payload cb word)"

definition status_words :: "string \<Rightarrow> (string \<times> TransactionStatus) list" where
  "status_words g = (if g = ''razorpay'' then razorpay_statuses
     else if g = ''payu'' then payu_statuses else cashfree_statuses)"

definition clean_callback :: "GatewayCallback \<Rightarrow> bool" where
  "clean_callback cb \<longleftrightarrow> no_space_ends (gcb_TransactionID cb) \<and> no_space_ends (gcb_OrderID cb) \<and>
     no_space_ends (gcb_Reason cb) \<and> gcb_Gateway cb \<in> {''razorpay'', ''payu'', ''cashfree''}"

lemma find_field:
  "field_for ((n, d) # fs) k = (if fold_name n = fold_name k then Some d else field_for fs k)"
  "field_for [] k = None"
  by (simp_all add: field_for_def)

lemma fold_names:
  "fold_name ''event'' = ''EVENT''" "fold_name ''payload'' = ''PAYLOAD''"
  "fold_name ''payment'' = ''PAYMENT''" "fold_name ''entity'' = ''ENTITY''"
  "fold_name ''status'' = ''STATUS''" "fold_name ''error_description'' = ''ERROR_DESCRIPTION''"
  "fold_name ''notes'' = ''NOTES''" "fold_name ''txnid'' = ''TXNID''" "fold_name ''udf1'' = ''UDF1''"
  "fold_name ''error_Message'' = ''ERROR_MESSAGE''" "fold_name ''order'' = ''ORDER''"
  "fold_name ''order_id'' = ''ORDER_ID''" "fold_name ''order_tags'' = ''ORDER_TAGS''"
  "fold_name ''payment_status'' = ''PAYMENT_STATUS''"
  "fold_name ''payment_message'' = ''PAYMENT_MESSAGE''"
  by code_simp+

lemmas decode_simps = decode_def decode_struct_def decode_string_def decode_string_map_def
  decode_in_def find_field fold_names

lemma decode_razorpay_payload:
  "decode (decode_struct razorpay_fields) razorpay_zero (Some (razorpay_payload cb w)) =
     Inr \<lparr>rr_Event = ''payment'', rr_Entity = \<lparr>re_Status = w, re_ErrorDescription = gcb_Reason cb,
       re_Notes = [''transaction_id'' \<mapsto> gcb_TransactionID cb, ''order_id'' \<mapsto> gcb_OrderID cb]\<rparr>\<rparr>"
  by (simp add: razorpay_fields_def razorpay_entity_fields_def razorpay_zero_def razorpay_payload_def
    decode_simps del: fold_name.simps)

lemma decode_payu_payload:
  "decode (decode_struct payu_fields) payu_zero (Some (payu_payload cb w)) =
     Inr \<lparr>pr_TransactionID = gcb_TransactionID cb, pr_OrderID = gcb_OrderID cb, pr_Status = w,
       pr_ErrorMessage = gcb_Reason cb\<rparr>"
  by (simp add: payu_fields_def payu_zero_def payu_payload_def decode_simps del: fold_name.simps)

lemma decode_cashfree_payload:
  "decode (decode_struct cashfree_fields) cashfree_zero (Some (cashfree_payload cb w)) =
     Inr \<lparr>cr_OrderID = gcb_OrderID cb, cr_OrderTags = [''transaction_id'' \<mapsto> gcb_TransactionID cb],
       cr_PaymentStatus = w, cr_PaymentMessage = gcb_Reason cb\<rparr>"
  by (simp add: cashfree_fields_def cashfree_zero_def cashfree_payload_def decode_simps del: fold_name.simps)

lemma parse_status_word:
  assumes "(w, st) \<in> set ss" "ss \<in> {razorpay_statuses, payu_statuses, cashfree_statuses}"
  shows "parseGatewayStatus w ss = Inr st"
  using assms
  by (auto simp: razorpay_statuses_def payu_statuses_def cashfree_statuses_def parseGatewayStatus_def
    TrimSpace_id no_space_ends_def ascii_space_def byte_def lower_ascii_def)

text \<open>
  C39: the payload a gateway sends for a callback decodes, through the registry, to that callback, for
  every status word in the gateway's table, if the identifiers and the reason have no white space at
  their ends (the decoders trim it) and the gateway is one of the three.
\<close>
theorem Registry_Decode_roundtrip:
  assumes "clean_callback cb" "(w, gcb_Status cb) \<in> set (status_words (gcb_Gateway cb))"
  shows "Registry_Decode NewRegistry (Some (payload_of cb w)) = Inr cb"
proof -
  have st: "parseGatewayStatus w (status_words (gcb_Gateway cb)) = Inr (gcb_Status cb)"
    using assms(2) by (rule parse_status_word) (simp add: status_words_def)
  consider "gcb_Gateway cb = ''razorpay''" | "gcb_Gateway cb = ''payu''" | "gcb_Gateway cb = ''cashfree''"
    using assms(1) by (auto simp: clean_callback_def)
  then have "RazorpayCallbackDecoder_Decode (Some (payload_of cb w)) = Inr cb \<or>
    PayUCallbackDecoder_Decode (Some (payload_of cb w)) = Inr cb \<or>
    CashfreeCallbackDecoder_Decode (Some (payload_of cb w)) = Inr cb"
    using st assms(1)
    by cases (simp_all add: payload_of_def status_words_def clean_callback_def TrimSpace_id map_get_def
      RazorpayCallbackDecoder_Decode_def PayUCallbackDecoder_Decode_def CashfreeCallbackDecoder_Decode_def
      decode_razorpay_payload decode_payu_payload decode_cashfree_payload)
  then show ?thesis by (rule Registry_Decode_accept)
qed

theorem Registry_Decode_roundtrip_witness:
  "let cb = \<lparr>gcb_TransactionID = ''txn_1'', gcb_OrderID = ''ord1'', gcb_Gateway = ''razorpay'',
      gcb_Status = TransactionStatusSuccess, gcb_Reason = ''''\<rparr> in
   Registry_Decode NewRegistry (Some (payload_of cb ''captured'')) = Inr cb"
  unfolding Let_def
  by (rule Registry_Decode_roundtrip)
    (simp_all add: clean_callback_def no_space_ends_def ascii_space_def byte_def status_words_def
      razorpay_statuses_def)

end
