(* ===== verification/HttpRouter.thy ===== *)
theory HttpRouter
  imports ProbeSlots GatewayAdapters
begin

text \<open>
  \<open>internal/adapters/http/router.go\<close>: the handlers of the four routes over the services. A handler
  yields the response it writes, as \<open>Inl\<close> when it returns early with an error response. A body
  is the first JSON value of the request (\<open>Body None\<close>: there is none), or it cannot be read.
  Response bodies are kept as the values that are encoded; the texts of errors are kept as the
  error values. The multiplexer of \<open>net/http\<close> is a parameter of the program, not modelled.
\<close>

datatype request_body = ReadFails | Body "json option"

datatype message = Text string | ErrorText go_error

datatype response_body = ErrorBody string message | HealthBody | TransactionBody Transaction
  | CallbackBody CallbackResult
  | GatewaysBody RoutingConfig "(GatewayConfig \<times> GatewayRuntimeState \<times> GatewayStats) list"

record Response =
  rp_Status :: int
  rp_Body :: response_body

definition writeJSON :: "int \<Rightarrow> response_body \<Rightarrow> Response" where
  "writeJSON status payload = \<lparr>rp_Status = status, rp_Body = payload\<rparr>"

definition writeError :: "int \<Rightarrow> string \<Rightarrow> message \<Rightarrow> Response" where
  "writeError status code msg = writeJSON status (ErrorBody code msg)"

definition writeServiceError :: "go_error \<Rightarrow> Response" where
  "writeServiceError err =
     (if errors_Is err ErrNoAvailableGateway then
        writeError 503 ''no_available_gateway'' (ErrorText err)
      else if errors_Is err ErrNotFound then writeError 404 ''not_found'' (ErrorText err)
      else if errors_Is err ErrConflict then writeError 409 ''conflict'' (ErrorText err)
      else if errors_Is err ErrGatewayMismatch then
        writeError 409 ''gateway_mismatch'' (ErrorText err)
      else if errors_Is err ErrInvalidStatus then
        writeError 400 ''invalid_status'' (ErrorText err)
      else writeError 500 ''internal_error'' (Text ''internal server error''))"

section \<open>Requests\<close>

record initiateRequest =
  iq_OrderID :: string
  iq_Amount :: f64
  iq_PaymentInstrument :: "(string \<times> any) list option"

definition initiateRequest_zero :: initiateRequest where
  "initiateRequest_zero = \<lparr>iq_OrderID = '''', iq_Amount = Fin 0, iq_PaymentInstrument = None\<rparr>"

definition initiateRequest_fields :: "(string \<times> initiateRequest decoder) list" where
  "initiateRequest_fields =
     [(''order_id'', decode_string (\<lambda>v r. r\<lparr>iq_OrderID := v\<rparr>)),
      (''amount'', decode_float (\<lambda>v r. r\<lparr>iq_Amount := v\<rparr>)),
      (''payment_instrument'', decode_any_map iq_PaymentInstrument
         (\<lambda>v r. r\<lparr>iq_PaymentInstrument := v\<rparr>))]"

record callbackRequest =
  cq_TransactionID :: string
  cq_OrderID :: string
  cq_Status :: string
  cq_Gateway :: string
  cq_Reason :: string

definition callbackRequest_zero :: callbackRequest where
  "callbackRequest_zero = \<lparr>cq_TransactionID = '''', cq_OrderID = '''', cq_Status = '''',
     cq_Gateway = '''', cq_Reason = ''''\<rparr>"

definition callbackRequest_fields :: "(string \<times> callbackRequest decoder) list" where
  "callbackRequest_fields =
     [(''transaction_id'', decode_string (\<lambda>v r. r\<lparr>cq_TransactionID := v\<rparr>)),
      (''order_id'', decode_string (\<lambda>v r. r\<lparr>cq_OrderID := v\<rparr>)),
      (''status'', decode_string (\<lambda>v r. r\<lparr>cq_Status := v\<rparr>)),
      (''gateway'', decode_string (\<lambda>v r. r\<lparr>cq_Gateway := v\<rparr>)),
      (''reason'', decode_string (\<lambda>v r. r\<lparr>cq_Reason := v\<rparr>))]"

text \<open>\<open>decodeJSON\<close>: a body that cannot be read makes the decoder fail like one that is not JSON.\<close>

definition decodeJSON :: "'a decoder \<Rightarrow> 'a \<Rightarrow> request_body \<Rightarrow> go_error + 'a" where
  "decodeJSON dec zero body = (case body of
     ReadFails \<Rightarrow> Inl json_error | Body payload \<Rightarrow> decode dec zero payload)"

definition decodeNormalizedCallback :: "json option \<Rightarrow> go_error + CallbackInput" where
  "decodeNormalizedCallback body =
     (case decode (decode_struct callbackRequest_fields) callbackRequest_zero body of
        Inl err \<Rightarrow> Inl err
      | Inr payload \<Rightarrow>
          (case ParseTransactionStatus (cq_Status payload) of
             Inl err \<Rightarrow> Inl (Sentinel ErrInvalidStatus)
           | Inr status \<Rightarrow>
               if \<not> IsFinal status then Inl (Sentinel ErrInvalidStatus)
               else Inr \<lparr>cb_TransactionID = cq_TransactionID payload, cb_OrderID = cq_OrderID payload,
                 cb_Gateway = cq_Gateway payload, cb_Status = status, cb_Reason = cq_Reason payload\<rparr>))"

text \<open>\<open>callbacks\<close> is the registry of decoders; \<open>None\<close> is nil.\<close>

definition decodeCallback :: "GatewayCallbackDecoder option \<Rightarrow> json option \<Rightarrow> go_error + CallbackInput" where
  "decodeCallback callbacks body =
     (case decodeNormalizedCallback body of
        Inr input \<Rightarrow> Inr input
      | Inl err \<Rightarrow>
          if errors_Is err ErrInvalidStatus then Inl err
          else case callbacks of
            None \<Rightarrow> Inl (Sentinel ErrInvalidCallback)
          | Some dec \<Rightarrow>
              (case dec body of
                 Inl err \<Rightarrow> Inl err
               | Inr callback \<Rightarrow> Inr \<lparr>cb_TransactionID = gcb_TransactionID callback,
                   cb_OrderID = gcb_OrderID callback, cb_Gateway = gcb_Gateway callback,
                   cb_Status = gcb_Status callback, cb_Reason = gcb_Reason callback\<rparr>))"

section \<open>Handlers\<close>

definition handleHealth :: "('s, Response, Response) proc" where
  "handleHealth = ret (writeJSON 200 HealthBody)"

fun gatewaysLoop :: "'h GatewayHealthRepository \<Rightarrow> GatewayConfig list
    \<Rightarrow> (GatewayConfig \<times> GatewayRuntimeState \<times> GatewayStats) list
    \<Rightarrow> (('h, 'z) HealthService_scheme, Response,
        (GatewayConfig \<times> GatewayRuntimeState \<times> GatewayStats) list) proc" where
  "gatewaysLoop R [] acc = ret acc"
| "gatewaysLoop R (gateway # gateways) acc =
     onError (HealthService_State R (gc_Name gateway))
       (\<lambda>err. throw (writeError 500 ''gateway_state_error'' (ErrorText err))) (\<lambda>state.
     onError (HealthService_Stats R (gc_Name gateway))
       (\<lambda>err. throw (writeError 500 ''gateway_stats_error'' (ErrorText err))) (\<lambda>stats.
     gatewaysLoop R gateways (acc @ [(gateway, state, stats)])))"

definition handleGateways ::
  "'h GatewayHealthRepository \<Rightarrow> (('h, 'z) HealthService_scheme, Response, Response) proc" where
  "handleGateways R =
     andThen ConfigProvider_Current (\<lambda>current.
     let cfg = WithDefaults current in
     andThen (gatewaysLoop R (ac_Gateways cfg) []) (\<lambda>gateways.
     ret (writeJSON 200 (GatewaysBody (ac_Routing cfg) gateways))))"

definition handleInitiate :: "'h GatewayHealthRepository \<Rightarrow> 't TransactionRepository
    \<Rightarrow> 'b OrderGatewayBlacklistRepository \<Rightarrow> GatewayClientRegistry \<Rightarrow> request_body
    \<Rightarrow> (('h, 'b, 't, 'z) TransactionService_scheme, Response, Response) proc" where
  "handleInitiate R T B registry body =
     (case decodeJSON (decode_struct initiateRequest_fields) initiateRequest_zero body of
        Inl err \<Rightarrow> throw (writeError 400 ''invalid_json'' (ErrorText err))
      | Inr payload \<Rightarrow>
         (let orderID = TrimSpace (iq_OrderID payload) in
          if orderID = '''' then
            throw (writeError 400 ''invalid_order_id'' (Text ''order_id is required''))
          else if iq_Amount payload \<le> Fin 0 then
            throw (writeError 400 ''invalid_amount'' (Text ''amount must be greater than zero''))
          else
           (let instrument = (case iq_PaymentInstrument payload of None \<Rightarrow> [] | Some m \<Rightarrow> m) in
            onError (Initiate R T B registry \<lparr>in_OrderID = orderID, in_Amount = iq_Amount payload,
                in_PaymentInstrument = Some instrument\<rparr>)
              (\<lambda>err. throw (writeServiceError err))
              (\<lambda>transaction. ret (writeJSON 201 (TransactionBody transaction))))))"

definition processCallback :: "'h GatewayHealthRepository \<Rightarrow> 't TransactionRepository
    \<Rightarrow> 'b OrderGatewayBlacklistRepository \<Rightarrow> CallbackInput
    \<Rightarrow> (('h, 'b, 't, 'z) TransactionService_scheme, Response, Response) proc" where
  "processCallback R T B input0 =
     (let input = input0\<lparr>cb_TransactionID := TrimSpace (cb_TransactionID input0),
            cb_OrderID := TrimSpace (cb_OrderID input0), cb_Gateway := TrimSpace (cb_Gateway input0),
            cb_Reason := TrimSpace (cb_Reason input0)\<rparr> in
      if cb_TransactionID input = '''' then
        throw (writeError 400 ''invalid_transaction_id'' (Text ''transaction_id is required''))
      else if cb_Gateway input = '''' then
        throw (writeError 400 ''invalid_gateway'' (Text ''gateway is required''))
      else if \<not> IsFinal (cb_Status input) then
        throw (writeError 400 ''invalid_status'' (Text ''status must be success or failure''))
      else
        onError (Callback R T B input)
          (\<lambda>err. throw (writeServiceError err))
          (\<lambda>result. ret (writeJSON 200 (CallbackBody result))))"

definition handleCallback :: "'h GatewayHealthRepository \<Rightarrow> 't TransactionRepository
    \<Rightarrow> 'b OrderGatewayBlacklistRepository \<Rightarrow> GatewayCallbackDecoder option \<Rightarrow> request_body
    \<Rightarrow> (('h, 'b, 't, 'z) TransactionService_scheme, Response, Response) proc" where
  "handleCallback R T B callbacks body = (case body of
     ReadFails \<Rightarrow> throw (writeError 400 ''invalid_callback'' (ErrorText json_error))
   | Body payload \<Rightarrow>
       (case decodeCallback callbacks payload of
          Inl err \<Rightarrow>
            if errors_Is err ErrInvalidStatus then
              throw (writeError 400 ''invalid_status'' (Text ''status must be success or failure''))
            else throw (writeError 400 ''invalid_callback'' (ErrorText err))
        | Inr input \<Rightarrow> processCallback R T B input))"

text \<open>The response that is written, early or not.\<close>

definition response_of :: "('s, Response, Response) proc \<Rightarrow> 's \<Rightarrow> Response \<times> 's" where
  "response_of h s = (case h s of (Inl r, s') \<Rightarrow> (r, s') | (Inr r, s') \<Rightarrow> (r, s'))"


section \<open>Responses to callbacks\<close>

definition cleaned :: "CallbackInput \<Rightarrow> CallbackInput" where
  "cleaned input = input\<lparr>cb_TransactionID := TrimSpace (cb_TransactionID input),
     cb_OrderID := TrimSpace (cb_OrderID input), cb_Gateway := TrimSpace (cb_Gateway input),
     cb_Reason := TrimSpace (cb_Reason input)\<rparr>"

text \<open>The status of the response, from the stored transactions alone.\<close>

definition callback_status :: "(string \<rightharpoonup> Transaction) \<Rightarrow> CallbackInput \<Rightarrow> int" where
  "callback_status m input =
     (if cb_TransactionID input = '''' \<or> cb_Gateway input = '''' \<or> \<not> IsFinal (cb_Status input) then 400
      else case m (cb_TransactionID input) of
        None \<Rightarrow> 404
      | Some x \<Rightarrow>
          if tx_Gateway x \<noteq> cb_Gateway input then 409
          else if cb_OrderID input \<noteq> '''' \<and> tx_OrderID x \<noteq> cb_OrderID input then 409
          else if IsFinal (tx_Status x) \<and> tx_Status x \<noteq> cb_Status input then 409
          else 200)"

lemma writeError_status [simp]: "rp_Status (writeError n c m) = n"
  by (simp add: writeError_def writeJSON_def)

lemma Callback_mem_errors:
  fixes s :: "('h, 'b, MemoryTransactions, 'z) TransactionService_scheme"
  defines "m \<equiv> mt_transactions (ts_transactions s)"
  shows "m (cb_TransactionID input) = None \<Longrightarrow>
      \<exists>f a s'. Callback R MemTx B input s = (Inl (Wrapf ErrNotFound f a), s')"
    and "m (cb_TransactionID input) = Some x \<Longrightarrow> tx_Gateway x \<noteq> cb_Gateway input \<Longrightarrow>
      \<exists>f a s'. Callback R MemTx B input s = (Inl (Wrapf ErrGatewayMismatch f a), s')"
    and "m (cb_TransactionID input) = Some x \<Longrightarrow> tx_Gateway x = cb_Gateway input \<Longrightarrow>
      cb_OrderID input \<noteq> '''' \<and> tx_OrderID x \<noteq> cb_OrderID input \<Longrightarrow>
      \<exists>f a s'. Callback R MemTx B input s = (Inl (Wrapf ErrConflict f a), s')"
    and "m (cb_TransactionID input) = Some x \<Longrightarrow> callback_matches input x \<Longrightarrow>
      IsFinal (cb_Status input) \<Longrightarrow> IsFinal (tx_Status x) \<and> tx_Status x \<noteq> cb_Status input \<Longrightarrow>
      \<exists>f a s'. Callback R MemTx B input s = (Inl (Wrapf ErrConflict f a), s')"
  unfolding m_def callback_matches_def
  by (auto simp: Callback_def andThen_def on_txns_def MemTx_GetByID_def MemTx_Complete_def
      Clock_Now_def)

lemma processCallback_status:
  fixes s :: System
  assumes "sys_inv s"
  shows "rp_Status (fst (response_of (processCallback MemHealth MemTx MemBlacklist input) s)) =
    callback_status (mt_transactions (ts_transactions s)) (cleaned input)"
proof -
  let ?in = "cleaned input" and ?m = "mt_transactions (ts_transactions s)"
  obtain r s' where run: "Callback MemHealth MemTx MemBlacklist ?in s = (r, s')" by fastforce
  show ?thesis
  proof (cases "cb_TransactionID ?in = '''' \<or> cb_Gateway ?in = '''' \<or> \<not> IsFinal (cb_Status ?in)")
    case True
    then show ?thesis
      by (auto simp: processCallback_def Let_def callback_status_def response_of_def cleaned_def)
  next
    case ok: False
    then have resp: "rp_Status (fst (response_of (processCallback MemHealth MemTx MemBlacklist input) s)) =
        (case r of Inl err \<Rightarrow> rp_Status (writeServiceError err) | Inr res \<Rightarrow> 200)"
      using run by (auto simp: processCallback_def Let_def response_of_def cleaned_def onError_def
          writeJSON_def split: sum.split)
    have D: "routing_inv mh_states s" "\<forall>i x. ?m i = Some x \<longrightarrow> tx_ID x = i"
      using sys_invD [OF assms] by (simp_all add: stored_ok_def)
    show ?thesis
    proof (cases "acceptable ?m ?in")
      case True
      from run D have "\<exists>res. r = Inr res"
        by (cases rule: mem.Callback_cases) (use True in auto)
      then show ?thesis
        using resp ok True
        by (auto simp: acceptable_def callback_status_def callback_matches_def split: option.splits)
    next
      case rej: False
      show ?thesis
      proof (cases "?m (cb_TransactionID ?in)")
        case None
        from Callback_mem_errors(1) [where R = MemHealth and B = MemBlacklist, OF this] run resp ok None show ?thesis
          by (auto simp: callback_status_def writeServiceError_def)
      next
        case (Some x)
        consider (gw) "tx_Gateway x \<noteq> cb_Gateway ?in"
          | (ord) "tx_Gateway x = cb_Gateway ?in" "cb_OrderID ?in \<noteq> '''' \<and> tx_OrderID x \<noteq> cb_OrderID ?in"
          | (fin) "callback_matches ?in x" "IsFinal (tx_Status x) \<and> tx_Status x \<noteq> cb_Status ?in"
          using rej ok Some by (auto simp: acceptable_def callback_matches_def)
        then show ?thesis
        proof cases
          case gw
          from Callback_mem_errors(2) [where R = MemHealth and B = MemBlacklist, OF Some gw] run resp ok Some gw show ?thesis
            by (auto simp: callback_status_def writeServiceError_def)
        next
          case ord
          from Callback_mem_errors(3) [where R = MemHealth and B = MemBlacklist, OF Some ord] run resp ok Some ord show ?thesis
            by (auto simp: callback_status_def writeServiceError_def)
        next
          case fin
          from ok have "IsFinal (cb_Status ?in)" by simp
          from Callback_mem_errors(4) [where R = MemHealth and B = MemBlacklist, OF Some fin(1) this fin(2)] run resp ok Some fin show ?thesis
            by (auto simp: callback_status_def writeServiceError_def callback_matches_def)
        qed
      qed
    qed
  qed
qed

text \<open>A response other than 200 leaves the repositories and the caches as they were.\<close>

lemma processCallback_refused:
  fixes s :: System
  assumes inv: "sys_inv s"
    and run: "response_of (processCallback MemHealth MemTx MemBlacklist input) s = (resp, s')"
    and bad: "rp_Status resp \<noteq> 200"
  shows "s' = s\<lparr>env_ticks := env_ticks s'\<rparr>"
proof -
  obtain r s1 where cb: "Callback MemHealth MemTx MemBlacklist (cleaned input) s = (r, s1)" by fastforce
  have D: "routing_inv mh_states s" "\<forall>i x. mt_transactions (ts_transactions s) i = Some x \<longrightarrow> tx_ID x = i"
    using sys_invD [OF inv] by (simp_all add: stored_ok_def)
  show ?thesis
  proof (cases "s' = s")
    case True
    then show ?thesis by simp
  next
    case False
    with run cb bad have r: "isl r" "s1 = s'"
      by (auto simp: processCallback_def Let_def response_of_def onError_def cleaned_def writeJSON_def
          split: if_splits sum.splits)
    from cb D show ?thesis by (cases rule: mem.Callback_cases) (use r in auto)
  qed
qed

section \<open>Requests to initiate\<close>

lemma handleInitiate_created:
  fixes s :: System
  assumes inv: "sys_inv s"
    and run: "response_of (handleInitiate MemHealth MemTx MemBlacklist reg body) s = (resp, s')"
    and ok: "rp_Status resp = 201"
  shows "\<exists>x. rp_Body resp = TransactionBody x \<and> tx_Status x = TransactionStatusPending \<and>
    tx_OrderID x \<noteq> '''' \<and> \<not> tx_Amount x \<le> Fin 0 \<and> mt_transactions (ts_transactions s) (tx_ID x) = None \<and>
    mt_transactions (ts_transactions s') = (mt_transactions (ts_transactions s))(tx_ID x \<mapsto> x)"
proof -
  have svc: "rp_Status (writeServiceError e) \<noteq> 201" for e by (simp add: writeServiceError_def)
  from run ok obtain input x where init: "Initiate MemHealth MemTx MemBlacklist reg input s = (Inr x, s')"
    and body: "rp_Body resp = TransactionBody x"
    and input: "in_OrderID input \<noteq> ''''" "\<not> in_Amount input \<le> Fin 0"
    by (auto simp: handleInitiate_def Let_def response_of_def onError_def writeJSON_def svc
        split: sum.splits if_splits prod.splits)
  note init_ok = mem.Initiate_ok [OF init sys_invD(1) [OF inv]]
  from init_ok(1) obtain ref now where x: "x = initiated input (env_ids s (env_issued s) ''txn'')
      (MemTx_attempts (ts_transactions s) (in_OrderID input) + 1) (tx_Gateway x) ref now" by blast
  then have "tx_ID x = env_ids s (env_issued s) ''txn''" "tx_Status x = TransactionStatusPending"
    "tx_OrderID x = in_OrderID input" "tx_Amount x = in_Amount input"
    by (metis initiated_def Transaction.select_convs)+
  with init_ok(5,6) body input show ?thesis by auto
qed

lemma handleInitiate_bad_request:
  assumes "response_of (handleInitiate R T B reg body) s = (resp, s')"
    and "case decodeJSON (decode_struct initiateRequest_fields) initiateRequest_zero body of
      Inl e \<Rightarrow> True | Inr q \<Rightarrow> TrimSpace (iq_OrderID q) = '''' \<or> iq_Amount q \<le> Fin 0"
  shows "rp_Status resp = 400 \<and> s' = s"
  using assms by (auto simp: handleInitiate_def Let_def response_of_def split: sum.splits if_splits)

lemma handleInitiate_refused:
  fixes s :: System
  assumes inv: "sys_inv s"
    and run: "response_of (handleInitiate MemHealth MemTx MemBlacklist reg body) s = (resp, s')"
    and bad: "rp_Status resp \<noteq> 201"
  shows "mt_transactions (ts_transactions s') = mt_transactions (ts_transactions s)"
    "bs_repository s' = bs_repository s"
proof -
  from run bad have "s' = s \<or> (\<exists>input e. Initiate MemHealth MemTx MemBlacklist reg input s = (Inl e, s'))"
    by (auto simp: handleInitiate_def Let_def response_of_def onError_def writeJSON_def
        split: sum.splits if_splits prod.splits)
  then show "mt_transactions (ts_transactions s') = mt_transactions (ts_transactions s)"
    "bs_repository s' = bs_repository s"
    using mem.Initiate_failed(2,4) [OF _ sys_invD(1) [OF inv]] by blast+
qed

section \<open>The view of the gateways\<close>

lemma gatewaysLoop_runs:
  fixes s :: "(MemoryHealth, 'z) HealthService_scheme"
  assumes "health_inv mh_states s"
  shows "\<exists>rows s'. gatewaysLoop MemHealth gs acc s = (Inr (acc @ rows), s') \<and>
    map fst rows = gs \<and> health_inv mh_states s' \<and>
    (\<forall>(g, st, stats) \<in> set rows. rt_Gateway st = gc_Name g \<and> gs_Gateway stats = gc_Name g \<and>
       wf_gateway (gc_Name g) st)"
  using assms
proof (induction gs arbitrary: acc s)
  case (Cons g gs)
  from memhealth.State_runs [OF Cons.prems, of "gc_Name g"] obtain st s1 where
    st: "HealthService_State MemHealth (gc_Name g) s = (Inr st, s1)" and inv1: "health_inv mh_states s1"
    and m1: "mh_states (hs_repository s1) (gc_Name g) = Some st" by auto
  from memhealth.Stats_runs [OF inv1, of "gc_Name g"] obtain stats s2 where
    stats: "HealthService_Stats MemHealth (gc_Name g) s1 = (Inr stats, s2)"
    and inv2: "health_inv mh_states s2" and name: "gs_Gateway stats = gc_Name g" by blast
  from Cons.IH [OF inv2, of "acc @ [(g, st, stats)]"] obtain rows s' where
    rest: "gatewaysLoop MemHealth gs (acc @ [(g, st, stats)]) s2 = (Inr ((acc @ [(g, st, stats)]) @ rows), s')"
      "map fst rows = gs" "health_inv mh_states s'"
      "\<forall>(g, st, stats) \<in> set rows. rt_Gateway st = gc_Name g \<and> gs_Gateway stats = gc_Name g \<and>
         wf_gateway (gc_Name g) st" by blast
  have wf: "wf_gateway (gc_Name g) st" using wf_statesD [OF health_invD(1) [OF inv1] m1] .
  show ?case
    using st stats rest wf wf_gateway_Gateway [OF wf] name
    by (intro exI [of _ "(g, st, stats) # rows"] exI [of _ s']) (auto simp: onError_run)
qed simp


section \<open>Properties\<close>

text \<open>
  C34: the status of the response to a callback is determined by the body and the stored transactions
  alone: 400 for a body that cannot be read or decoded or that lacks a transaction, a gateway or a
  final status, 404 for an unknown transaction, 409 for another gateway, another order or another
  outcome, and 200 otherwise, never 500; on every response but 200 nothing is stored.
\<close>
theorem handleCallback_response:
  assumes "reachable reg s"
    and "response_of (handleCallback MemHealth MemTx MemBlacklist decs body) s = (resp, s')"
  shows "rp_Status resp = (case body of ReadFails \<Rightarrow> 400
      | Body p \<Rightarrow> (case decodeCallback decs p of Inl _ \<Rightarrow> 400
          | Inr input \<Rightarrow> callback_status (mt_transactions (ts_transactions s)) (cleaned input))) \<and>
    (rp_Status resp \<noteq> 200 \<longrightarrow> s' = s\<lparr>env_ticks := env_ticks s'\<rparr>)"
proof -
  note inv = reachable_inv [OF assms(1)]
  have "s' = s \<and> rp_Status resp = 400" if "body = ReadFails \<or> (\<exists>p er. body = Body p \<and> decodeCallback decs p = Inl er)"
    using assms(2) that by (auto simp: handleCallback_def response_of_def split: if_splits)
  moreover have "rp_Status resp = callback_status (mt_transactions (ts_transactions s)) (cleaned input) \<and>
      (rp_Status resp \<noteq> 200 \<longrightarrow> s' = s\<lparr>env_ticks := env_ticks s'\<rparr>)"
    if "body = Body p" "decodeCallback decs p = Inr input" for p input
  proof -
    have "response_of (processCallback MemHealth MemTx MemBlacklist input) s = (resp, s')"
      using assms(2) that by (simp add: handleCallback_def response_of_def)
    with processCallback_status [OF inv, of input] processCallback_refused [OF inv this] show ?thesis
      by simp
  qed
  ultimately show ?thesis by (cases body) (auto split: sum.splits)
qed

text \<open>
  C35: a request to initiate is answered with 201 only when it stored exactly one new pending
  transaction, the one in the response, for a non-empty order and an amount that is not zero or
  less; every other response leaves the transactions and the records of the orders as they were.
\<close>
theorem handleInitiate_response:
  assumes "reachable reg s"
    and "response_of (handleInitiate MemHealth MemTx MemBlacklist reg' body) s = (resp, s')"
  shows "if rp_Status resp = 201
    then \<exists>x. rp_Body resp = TransactionBody x \<and> tx_Status x = TransactionStatusPending \<and>
      tx_OrderID x \<noteq> '''' \<and> \<not> tx_Amount x \<le> Fin 0 \<and>
      mt_transactions (ts_transactions s) (tx_ID x) = None \<and>
      mt_transactions (ts_transactions s') = (mt_transactions (ts_transactions s))(tx_ID x \<mapsto> x)
    else mt_transactions (ts_transactions s') = mt_transactions (ts_transactions s) \<and>
      bs_repository s' = bs_repository s"
  using handleInitiate_created [OF reachable_inv [OF assms(1)] assms(2)]
    handleInitiate_refused [OF reachable_inv [OF assms(1)] assms(2)] by simp

text \<open>
  The view of the gateways is always answered with 200: one row for each configured gateway, in
  the order of the configuration, with a well-formed runtime state and statistics of that gateway.
\<close>
theorem handleGateways_response:
  assumes "reachable reg s"
  shows "\<exists>rows s'. response_of (handleGateways MemHealth) s =
      (\<lparr>rp_Status = 200, rp_Body = GatewaysBody (ac_Routing (WithDefaults (env_config s (env_reads s)))) rows\<rparr>, s') \<and>
    map fst rows = ac_Gateways (env_config s (env_reads s)) \<and>
    (\<forall>(g, st, stats) \<in> set rows. rt_Gateway st = gc_Name g \<and> gs_Gateway stats = gc_Name g \<and>
       rt_HalfOpenInFlight st = int (length (rt_HalfOpenProbes st)))"
proof -
  have "health_inv mh_states (s\<lparr>env_reads := Suc (env_reads s)\<rparr>)"
    using routing_invD(1) [OF sys_invD(1) [OF reachable_inv [OF assms]]] by simp
  from gatewaysLoop_runs [OF this, of "ac_Gateways (WithDefaults (env_config s (env_reads s)))" "[]"]
  obtain rows s' where rows: "gatewaysLoop MemHealth (ac_Gateways (WithDefaults (env_config s (env_reads s)))) []
      (s\<lparr>env_reads := Suc (env_reads s)\<rparr>) = (Inr rows, s')"
    "map fst rows = ac_Gateways (env_config s (env_reads s))"
    "\<forall>(g, st, stats) \<in> set rows. rt_Gateway st = gc_Name g \<and> gs_Gateway stats = gc_Name g \<and>
       wf_gateway (gc_Name g) st" by auto
  then have "response_of (handleGateways MemHealth) s = (\<lparr>rp_Status = 200, rp_Body = GatewaysBody
      (ac_Routing (WithDefaults (env_config s (env_reads s)))) rows\<rparr>, s')"
    by (simp add: handleGateways_def response_of_def writeJSON_def andThen_run)
  with rows(2,3) show ?thesis by (fastforce simp: wf_gateway_def)
qed

end
