(* ===== verification/Scenarios.thy ===== *)
theory Scenarios
  imports HttpRouter
begin

text \<open>
  Concrete configurations and states: the configuration of \<open>configs/gateways.yaml\<close>, a clock that
  advances one second per reading, numbered identifiers, and the program as it starts.
\<close>

definition yaml_config :: AppConfig where
  "yaml_config = \<lparr>
     ac_Routing = \<lparr>rc_HealthWindowSeconds = 900, rc_UnhealthyCooldownSeconds = 1800,
       rc_MinCallbackCount = 10, rc_SuccessRateThreshold = round_f64 (90 / 100),
       rc_HalfOpenProbeCount = 1, rc_HalfOpenProbeTimeoutSeconds = 60,
       rc_OrderGatewayFailureThreshold = 2\<rparr>,
     ac_Gateways = [\<lparr>gc_Name = ''razorpay'', gc_Enabled = True, gc_Weight = 50\<rparr>,
       \<lparr>gc_Name = ''payu'', gc_Enabled = True, gc_Weight = 30\<rparr>,
       \<lparr>gc_Name = ''cashfree'', gc_Enabled = True, gc_Weight = 20\<rparr>]\<rparr>"

text \<open>The program at its start, with a configuration that does not change.\<close>

definition fresh_system :: "AppConfig \<Rightarrow> System" where
  "fresh_system cfg = \<lparr>env_clock = (\<lambda>k. (1700000000 + int k) * 10 ^ 9), env_ticks = 0,
     env_config = (\<lambda>_. cfg), env_reads = 0, env_ids = (\<lambda>k p. p @ ''_'' @ dec_nat k), env_issued = 0,
     hs_repository = MemHealth_New, hs_cacheTTL = 500 * Millisecond, hs_stateCache = Map.empty,
     rs_counter = 0, rs_cacheTTL = 100 * Millisecond, rs_cache = empty_snapshot,
     bs_repository = MemBlacklist_New, ts_transactions = MemTx_New, ts_hasOrderGateways = True\<rparr>"

definition yaml_system :: System where
  "yaml_system = fresh_system yaml_config"

definition mem_Initiate :: "InitiateTransactionInput \<Rightarrow> (System, go_error, Transaction) proc" where
  "mem_Initiate = Initiate MemHealth MemTx MemBlacklist (Registry_Client NewRegistry)"

definition mem_Callback :: "CallbackInput \<Rightarrow> (System, go_error, CallbackResult) proc" where
  "mem_Callback = Callback MemHealth MemTx MemBlacklist"

definition order1 :: InitiateTransactionInput where
  "order1 = \<lparr>in_OrderID = ''ord1'', in_Amount = Fin 10, in_PaymentInstrument = Some []\<rparr>"

text \<open>A callback for a transaction of that order.\<close>

definition outcome_of :: "string \<Rightarrow> string \<Rightarrow> TransactionStatus \<Rightarrow> CallbackInput" where
  "outcome_of tid g st = \<lparr>cb_TransactionID = tid, cb_OrderID = ''ord1'', cb_Gateway = g,
     cb_Status = st, cb_Reason = ''''\<rparr>"

section \<open>Evaluation\<close>

text \<open>
  The simplifier evaluates a run of the services when it does not look into what is still to be
  done: the congruence rules below keep it to the step that is next.
\<close>

named_theorems run_simps "definitions to evaluate a run of the services"

lemma andThen_step: "s = t \<Longrightarrow> andThen m f s = andThen m f t" by simp
lemma onError_step: "s = t \<Longrightarrow> onError m h f s = onError m h f t" by simp

lemmas run_congs = andThen_step onError_step let_weak_cong

lemma dec_nat_small [run_simps]: "n < 10 \<Longrightarrow> dec_nat n = [hex_digit n]"
  by (simp add: dec_nat.simps)

lemmas service_run_simps [run_simps] = cache_put_def Initiate_def Callback_def failWith_def
  releaseProbe_def blacklistedGateways_def on_orders_def on_repo_def on_txns_def
  OrderGatewayBlacklistService_BlacklistedGateways_def OrderGatewayBlacklistService_RecordOutcome_def
  SelectGateway_def snapshot_def selectHealthy_def selectWeighted_def filterExcluded_def
  invalidateCache_def PrepareForRouting_def cachedState_def MarkProbeSelected_def ReleaseProbe_def
  HealthService_RecordOutcome_def switchOutcome_def saveOutcome_def HealthService_State_def
  HealthService_Stats_def markUnhealthy_def markHealthy_def markHalfOpen_def
  andThen_def onError_def IDGenerator_NewID_def Clock_Now_def ConfigProvider_Current_def

lemmas repository_run_simps [run_simps] = MemHealth_store_defs MemHealth_probe_defs
  pruneExpiredHalfOpenProbes_def MemTx_defs MemTx_attempts_def MemBlacklist_BlacklistedGateways_def
  MemBlacklist_RecordOutcome_def summary_of_def zero_summary_def byGateway_def
  Registry_Client_def clientMap_def NewRegistry_def RazorpayClient_Initiate_def
  PayUClient_Initiate_def CashfreeClient_Initiate_def

lemmas value_run_simps [run_simps] = Let_def time_defs IsZero_def zero_time_def Millisecond_def
  Minute_def Second_def Duration_def neg_dur_def windowStart_def retention_of_def UnixMilli_def
  wrap64_def hex_digit_def fmt_d_def

lemma yaml_defaults [simp]: "WithDefaults yaml_config = yaml_config"
  by (rule WithDefaults_id) (simp_all add: yaml_config_def default_threshold)

lemma yaml_gateways [simp]: "ac_Gateways yaml_config = [
    \<lparr>gc_Name = ''razorpay'', gc_Enabled = True, gc_Weight = 50\<rparr>,
    \<lparr>gc_Name = ''payu'', gc_Enabled = True, gc_Weight = 30\<rparr>,
    \<lparr>gc_Name = ''cashfree'', gc_Enabled = True, gc_Weight = 20\<rparr>]"
  by (simp add: yaml_config_def)

lemma yaml_routing [simp]:
  "rc_HealthWindowSeconds (ac_Routing yaml_config) = 900"
  "rc_UnhealthyCooldownSeconds (ac_Routing yaml_config) = 1800"
  "rc_MinCallbackCount (ac_Routing yaml_config) = 10"
  "rc_SuccessRateThreshold (ac_Routing yaml_config) = Fin (8106479329266893 / 9007199254740992)"
  "rc_HalfOpenProbeCount (ac_Routing yaml_config) = 1"
  "rc_HalfOpenProbeTimeoutSeconds (ac_Routing yaml_config) = 60"
  "rc_OrderGatewayFailureThreshold (ac_Routing yaml_config) = 2"
  by (simp_all add: yaml_config_def default_threshold)

text \<open>
  A configuration with one gateway, one callback to judge it by and a cooldown of one second, so
  that a few requests lead through the whole health machine.
\<close>

definition solo_config :: AppConfig where
  "solo_config = \<lparr>
     ac_Routing = \<lparr>rc_HealthWindowSeconds = 900, rc_UnhealthyCooldownSeconds = 1,
       rc_MinCallbackCount = 1, rc_SuccessRateThreshold = Fin (1 / 2), rc_HalfOpenProbeCount = 1,
       rc_HalfOpenProbeTimeoutSeconds = 60, rc_OrderGatewayFailureThreshold = 2\<rparr>,
     ac_Gateways = [\<lparr>gc_Name = ''payu'', gc_Enabled = True, gc_Weight = 1\<rparr>]\<rparr>"

lemma solo_defaults [simp]: "WithDefaults solo_config = solo_config"
  by (rule WithDefaults_id) (simp_all add: solo_config_def)

lemma solo_config_simps [simp]:
  "ac_Gateways solo_config = [\<lparr>gc_Name = ''payu'', gc_Enabled = True, gc_Weight = 1\<rparr>]"
  "rc_HealthWindowSeconds (ac_Routing solo_config) = 900"
  "rc_UnhealthyCooldownSeconds (ac_Routing solo_config) = 1"
  "rc_MinCallbackCount (ac_Routing solo_config) = 1"
  "rc_SuccessRateThreshold (ac_Routing solo_config) = Fin (1 / 2)"
  "rc_HalfOpenProbeCount (ac_Routing solo_config) = 1"
  "rc_HalfOpenProbeTimeoutSeconds (ac_Routing solo_config) = 60"
  "rc_OrderGatewayFailureThreshold (ac_Routing solo_config) = 2"
  by (simp_all add: solo_config_def)

text \<open>The rates of the first outcomes.\<close>

lemma first_rates [run_simps]:
  "stats_of_counts g (0, 1) = \<lparr>gs_Gateway = g, gs_Successes = 0, gs_Failures = 1, gs_Total = 1,
     gs_SuccessRate = Fin 0\<rparr>"
  "stats_of_counts g (1, 0) = \<lparr>gs_Gateway = g, gs_Successes = 1, gs_Failures = 0, gs_Total = 1,
     gs_SuccessRate = Fin 1\<rparr>"
  "stats_of_counts g (0, 0) = \<lparr>gs_Gateway = g, gs_Successes = 0, gs_Failures = 0, gs_Total = 0,
     gs_SuccessRate = Fin 0\<rparr>"
proof -
  have r: "round_f64 0 = Fin 0" "round_f64 1 = Fin 1"
    using rnd_of_int [of 0] rnd_of_int [of 1] round_f64_Fin [of 0] round_f64_Fin [of 1] by simp_all
  show "stats_of_counts g (0, 1) = \<lparr>gs_Gateway = g, gs_Successes = 0, gs_Failures = 1, gs_Total = 1,
     gs_SuccessRate = Fin 0\<rparr>"
    "stats_of_counts g (1, 0) = \<lparr>gs_Gateway = g, gs_Successes = 1, gs_Failures = 0, gs_Total = 1,
     gs_SuccessRate = Fin 1\<rparr>"
    "stats_of_counts g (0, 0) = \<lparr>gs_Gateway = g, gs_Successes = 0, gs_Failures = 0, gs_Total = 0,
     gs_SuccessRate = Fin 0\<rparr>"
    by (simp_all add: stats_of_counts_def f64_of_int_def r)
qed

lemmas start_run_simps [run_simps] = yaml_system_def fresh_system_def MemHealth_New_def
  empty_snapshot_def MemBlacklist_New_def MemTx_New_def order1_def outcome_of_def
  mem_Initiate_def mem_Callback_def

lemma yaml_started: "started yaml_system"
  by (simp add: started_def yaml_system_def fresh_system_def)

lemma yaml_clock: "clock_mono yaml_system"
  by (simp add: clock_mono_def yaml_system_def fresh_system_def)


section \<open>A run through the health machine\<close>

text \<open>
  One gateway, a threshold of one failure: a transaction fails and trips the gateway, the next one
  is the probe of the half-open gateway, and its success makes the gateway healthy again.
\<close>

definition solo0 :: System where "solo0 = fresh_system solo_config"
definition solo1 :: System where "solo1 = snd (mem_Initiate order1 solo0)"
definition solo2 :: System where
  "solo2 = snd (mem_Callback (outcome_of ''txn_0'' ''payu'' TransactionStatusFailure) solo1)"
definition solo3 :: System where "solo3 = snd (mem_Initiate order1 solo2)"
definition solo4 :: System where
  "solo4 = snd (mem_Callback (outcome_of ''txn_1'' ''payu'' TransactionStatusSuccess) solo3)"

lemmas solo_defs = solo0_def solo1_def solo2_def solo3_def solo4_def

definition txn0 :: Transaction where
  "txn0 = initiated order1 ''txn_0'' 1 ''payu'' ''payu_ord1_1'' (1700000002 * 10 ^ 9)"

definition txn1 :: Transaction where
  "txn1 = initiated order1 ''txn_1'' 2 ''payu'' ''payu_ord1_2'' (1700000009 * 10 ^ 9)"

lemma txn_simps [simp]:
  "tx_ID txn0 = ''txn_0''" "tx_ID txn1 = ''txn_1''" "tx_AttemptNo txn0 = 1" "tx_AttemptNo txn1 = 2"
  "tx_Gateway txn0 = ''payu''" "tx_Gateway txn1 = ''payu''" "tx_OrderID txn0 = ''ord1''"
  "tx_OrderID txn1 = ''ord1''" "tx_Status txn0 = TransactionStatusPending"
  "tx_Status txn1 = TransactionStatusPending" "in_OrderID order1 = ''ord1''"
  by (simp_all add: txn0_def txn1_def initiated_def order1_def)

lemmas solo_txns [run_simps] = txn0_def txn1_def initiated_def completed_at_def

lemma solo_initiate:
  "mem_Initiate order1 solo0 = (Inr txn0, solo1)"
  "mem_Initiate order1 solo2 = (Inr txn1, solo3)"
  by (simp_all add: prod_eq_iff solo1_def [symmetric] solo3_def [symmetric])
     (simp_all add: solo_defs run_simps cong: run_congs)

lemma solo_callback:
  "mem_Callback (outcome_of ''txn_0'' ''payu'' TransactionStatusFailure) solo1 =
     (Inr \<lparr>cr_Transaction = completed_at (1700000003 * 10 ^ 9) TransactionStatusFailure '''' txn0,
        cr_GatewayState = \<lparr>rt_Gateway = ''payu'', rt_State = GatewayStateUnhealthy,
          rt_UnhealthyUntil = 1700000005 * 10 ^ 9, rt_HalfOpenInFlight = 0, rt_HalfOpenProbes = [],
          rt_UpdatedAt = 1700000004 * 10 ^ 9\<rparr>,
        cr_GatewayStats = stats_of_counts ''payu'' (0, 1), cr_Idempotent = False\<rparr>, solo2)"
  by (simp add: prod_eq_iff solo2_def [symmetric])
     (simp add: solo_defs run_simps cong: run_congs)

lemma solo_transactions:
  "mt_transactions (ts_transactions solo0) = Map.empty"
  "mt_transactions (ts_transactions solo1) = [''txn_0'' \<mapsto> txn0]"
  "mt_transactions (ts_transactions solo2) =
     [''txn_0'' \<mapsto> completed_at (1700000003 * 10 ^ 9) TransactionStatusFailure '''' txn0]"
  "mt_transactions (ts_transactions solo3) =
     [''txn_0'' \<mapsto> completed_at (1700000003 * 10 ^ 9) TransactionStatusFailure '''' txn0,
      ''txn_1'' \<mapsto> txn1]"
  by (simp_all add: solo_defs run_simps cong: run_congs)

lemma solo_health:
  "mh_states (hs_repository solo0) = Map.empty"
  "mh_states (hs_repository solo1) = [''payu'' \<mapsto> initial_state ''payu'' (1700000001 * 10 ^ 9)]"
  "mh_states (hs_repository solo2) = [''payu'' \<mapsto> \<lparr>rt_Gateway = ''payu'',
     rt_State = GatewayStateUnhealthy, rt_UnhealthyUntil = 1700000005 * 10 ^ 9,
     rt_HalfOpenInFlight = 0, rt_HalfOpenProbes = [], rt_UpdatedAt = 1700000004 * 10 ^ 9\<rparr>]"
  "mh_states (hs_repository solo3) = [''payu'' \<mapsto> \<lparr>rt_Gateway = ''payu'',
     rt_State = GatewayStateHalfOpen, rt_UnhealthyUntil = 1700000005 * 10 ^ 9,
     rt_HalfOpenInFlight = 1, rt_HalfOpenProbes =
       [\<lparr>hp_TransactionID = ''txn_1'', hp_ExpiresAtUnixMilli = 1700000068000\<rparr>],
     rt_UpdatedAt = 1700000008 * 10 ^ 9\<rparr>]"
  by (simp_all add: solo_defs run_simps initial_state_def cong: run_congs)

lemma solo_reachable:
  "started solo0" "reachable (Registry_Client NewRegistry) solo0"
  "reachable (Registry_Client NewRegistry) solo1" "reachable (Registry_Client NewRegistry) solo2"
  "reachable (Registry_Client NewRegistry) solo3"
proof -
  have serves: "serves (Registry_Client NewRegistry) solo0 solo1"
    "serves (Registry_Client NewRegistry) solo1 solo2" "serves (Registry_Client NewRegistry) solo2 solo3"
    using solo_initiate solo_callback unfolding mem_Initiate_def mem_Callback_def
    by (blast intro: serves.intros)+
  show s: "started solo0" by (simp add: started_def solo0_def fresh_system_def)
  show r: "reachable (Registry_Client NewRegistry) solo0" by (rule reachable.start [OF s])
  show r1: "reachable (Registry_Client NewRegistry) solo1" by (rule reachable.step [OF r serves(1)])
  show r2: "reachable (Registry_Client NewRegistry) solo2" by (rule reachable.step [OF r1 serves(2)])
  show "reachable (Registry_Client NewRegistry) solo3" by (rule reachable.step [OF r2 serves(3)])
qed

lemma solo_env:
  "env_clock solo0 = (\<lambda>k. (1700000000 + int k) * 10 ^ 9)" "env_clock solo1 = env_clock solo0"
  "env_clock solo2 = env_clock solo0" "env_clock solo3 = env_clock solo0"
  "env_config solo0 = (\<lambda>_. solo_config)" "env_config solo1 = env_config solo0"
  "env_config solo2 = env_config solo0" "env_config solo3 = env_config solo0"
  "env_ticks solo0 = 0" "env_ticks solo1 = 3" "env_ticks solo2 = 6" "env_ticks solo3 = 10"
  "env_ids solo0 = (\<lambda>k p. p @ ''_'' @ dec_nat k)" "env_ids solo1 = env_ids solo0"
  "env_ids solo2 = env_ids solo0" "env_issued solo0 = 0" "env_issued solo2 = 1" "env_ids solo2 (env_issued solo2) ''txn'' = ''txn_1''"
  by (simp_all add: solo_defs run_simps cong: run_congs)

lemma solo_mono: "clock_mono solo0" "clock_mono solo1" "clock_mono solo2" "clock_mono solo3"
  by (simp_all add: clock_mono_def solo_env)

lemma solo_threshold: "threshold_is 2 solo0" "threshold_is 2 solo1" "threshold_is 2 solo2"
  "threshold_is 2 solo3"
  by (simp_all add: threshold_is_def solo_env)

lemmas solo_inv = solo_reachable(2-5) [THEN reachable_inv]


text \<open>The same with a cooldown of a minute, which is not over when the next request comes.\<close>

definition slow_config :: AppConfig where
  "slow_config = solo_config\<lparr>ac_Routing := (ac_Routing solo_config)
     \<lparr>rc_UnhealthyCooldownSeconds := 60\<rparr>\<rparr>"

lemma slow_config_simps [simp]:
  "WithDefaults slow_config = slow_config" "ac_Gateways slow_config = ac_Gateways solo_config"
  "ac_Routing slow_config = (ac_Routing solo_config)\<lparr>rc_UnhealthyCooldownSeconds := 60\<rparr>"
  unfolding slow_config_def by (rule WithDefaults_id, simp_all)

definition slow0 :: System where "slow0 = fresh_system slow_config"
definition slow1 :: System where "slow1 = snd (mem_Initiate order1 slow0)"
definition slow2 :: System where
  "slow2 = snd (mem_Callback (outcome_of ''txn_0'' ''payu'' TransactionStatusFailure) slow1)"
definition slow3 :: System where "slow3 = snd (HealthService_State MemHealth ''payu'' slow2)"

text \<open>The probe's transaction cannot be handed to the gateway: its client is not registered.\<close>

definition no_clients :: GatewayClientRegistry where "no_clients = (\<lambda>_. None)"

definition solo_refused :: "go_error \<times> System" where
  "solo_refused = (case Initiate MemHealth MemTx MemBlacklist no_clients order1 solo2 of
     (Inl er, s) \<Rightarrow> (er, s) | (Inr _, s) \<Rightarrow> (Sentinel ErrConflict, s))"

lemma solo_refused_run:
  "Initiate MemHealth MemTx MemBlacklist no_clients order1 solo2 =
     (Inl (Errorf ''gateway client %q is not registered'' [''payu'']), snd solo_refused)"
  by (simp add: prod_eq_iff solo_refused_def split: prod.split sum.split)
     (simp add: no_clients_def solo_defs run_simps cong: run_congs)

lemma solo2_id: "env_ids solo2 (env_issued solo2) ''txn'' = ''txn_1''"
  by (simp add: solo_defs run_simps cong: run_congs)

lemma solo2_free: "all_free ''txn_1'' (mh_states (hs_repository solo2))"
  by (simp add: all_free_def probe_free_def solo_health)

lemmas slow_defs = slow0_def slow1_def slow2_def slow3_def

lemma slow_reachable:
  "reachable (Registry_Client NewRegistry) slow2" "serves (Registry_Client NewRegistry) slow2 slow3"
proof -
  have "serves (Registry_Client NewRegistry) slow0 slow1" "serves (Registry_Client NewRegistry) slow1 slow2"
    and "serves (Registry_Client NewRegistry) slow2 slow3"
    unfolding slow1_def slow2_def slow3_def mem_Initiate_def mem_Callback_def
    by (rule serves.intros, rule prod.collapse [symmetric])+
  moreover have "started slow0" by (simp add: started_def slow0_def fresh_system_def)
  ultimately show "reachable (Registry_Client NewRegistry) slow2"
    "serves (Registry_Client NewRegistry) slow2 slow3" by (blast intro: reachable.intros)+
qed

lemma slow_facts:
  "clock_mono slow2" "env_clock slow2 (env_ticks slow3) = 1700000007 * 10 ^ 9"
  "mh_states (hs_repository slow2) = [''payu'' \<mapsto> \<lparr>rt_Gateway = ''payu'',
     rt_State = GatewayStateUnhealthy, rt_UnhealthyUntil = 1700000064 * 10 ^ 9,
     rt_HalfOpenInFlight = 0, rt_HalfOpenProbes = [], rt_UpdatedAt = 1700000004 * 10 ^ 9\<rparr>]"
  by (simp_all add: clock_mono_def slow_defs run_simps cong: run_congs)


text \<open>The selection of the half-open gateway as a probe.\<close>

definition solo_probe :: System where
  "solo_probe = snd (SelectGateway MemHealth \<lparr>sr_TransactionID = ''txn_9'', sr_OrderID = ''ord1'',
     sr_ExcludedGateways = {}\<rparr> solo2)"

lemma solo_probe_run:
  "SelectGateway MemHealth \<lparr>sr_TransactionID = ''txn_9'', sr_OrderID = ''ord1'',
     sr_ExcludedGateways = {}\<rparr> solo2 =
   (Inr \<lparr>sel_Gateway = \<lparr>gc_Name = ''payu'', gc_Enabled = True, gc_Weight = 1\<rparr>,
      sel_HalfOpenProbe = True\<rparr>, solo_probe)"
  by (simp add: prod_eq_iff solo_probe_def) (simp add: solo_defs run_simps cong: run_congs)

text \<open>The body of a callback in the service's own format.\<close>

definition failure_body :: request_body where
  "failure_body = Body (Some (JObject [(''transaction_id'', JString ''txn_0''),
     (''status'', JString ''failure''), (''gateway'', JString ''payu'')]))"

end
