(* ===== verification/Requests.thy ===== *)
theory Requests
  imports ProbeSlots
begin

text \<open>
  What a callback and an initiation do to each part of the state, over the memory repositories:
  the helper lemmas of the properties that span the services.
\<close>

section \<open>The health methods leave the rest alone\<close>

lemma health_frame_rest:
  fixes s s' :: System
  assumes "health_frame s s'"
  shows "ts_transactions s' = ts_transactions s" "bs_repository s' = bs_repository s"
    "ts_hasOrderGateways s' = ts_hasOrderGateways s" "rs_cache s' = rs_cache s"
    "rs_counter s' = rs_counter s"
  using health_frame_route [OF assms] route_frame_txn [OF health_frame_route(1) [OF assms]] by simp_all

lemma State_rest:
  fixes s :: System
  assumes run: "HealthService_State MemHealth g s = (Inr st, s')" and inv: "health_inv mh_states s"
  shows "health_frame s s'" "health_inv mh_states s'" "env_reads s' = env_reads s"
    "mh_events (hs_repository s') = mh_events (hs_repository s)"
    "mh_states (hs_repository s') = (mh_states (hs_repository s))(g \<mapsto> st)"
    "same_state st (pruned (env_clock s (env_ticks s))
       (entry (mh_states (hs_repository s)) g (env_clock s (env_ticks s))))"
proof -
  from memhealth.State_runs [OF inv, of g] run
  show "health_frame s s'" "health_inv mh_states s'" "env_reads s' = env_reads s"
    "mh_states (hs_repository s') = (mh_states (hs_repository s))(g \<mapsto> st)"
    "same_state st (pruned (env_clock s (env_ticks s))
       (entry (mh_states (hs_repository s)) g (env_clock s (env_ticks s))))" by auto
  have "preserves (events_are (mh_events (hs_repository s))) (HealthService_State MemHealth g)"
    by (rule events_methods)
  from preservesD [OF this _ run] show "mh_events (hs_repository s') = mh_events (hs_repository s)"
    by (simp add: events_are_def)
qed

lemma Stats_rest:
  fixes s :: System
  assumes run: "HealthService_Stats MemHealth g s = (Inr stats, s')" and inv: "health_inv mh_states s"
  shows "health_frame s s'" "mh_events (hs_repository s') = mh_events (hs_repository s)"
    "mh_states (hs_repository s') = mh_states (hs_repository s)"
proof -
  from memhealth.Stats_runs [OF inv, of g] run
  show "health_frame s s'" "mh_states (hs_repository s') = mh_states (hs_repository s)" by auto
  have "preserves (events_are (mh_events (hs_repository s))) (HealthService_Stats MemHealth g)"
    by (rule events_methods)
  from preservesD [OF this _ run] show "mh_events (hs_repository s') = mh_events (hs_repository s)"
    by (simp add: events_are_def)
qed

section \<open>Callbacks\<close>

lemma sys_keys: "sys_inv s \<Longrightarrow> \<forall>i x. mt_transactions (ts_transactions s) i = Some x \<longrightarrow> tx_ID x = i"
  by (drule sys_invD(2)) (simp add: stored_ok_def)

text \<open>What a callback that is answered as a repetition leaves as it was.\<close>

lemma repeated_rest:
  fixes s :: System
  assumes st: "HealthService_State MemHealth g (s\<lparr>env_ticks := n\<rparr>) = (Inr st, s1)"
    and stats: "HealthService_Stats MemHealth g s1 = (Inr stats, s')" and inv: "health_inv mh_states s"
  shows "ts_transactions s' = ts_transactions s" "bs_repository s' = bs_repository s"
    "mh_events (hs_repository s') = mh_events (hs_repository s)"
    "mh_states (hs_repository s') = (mh_states (hs_repository s))(g \<mapsto> st)"
proof -
  have inv0: "health_inv mh_states (s\<lparr>env_ticks := n\<rparr>)" using inv by simp
  note a = State_rest [OF st inv0]
  note b = Stats_rest [OF stats a(2)]
  show "ts_transactions s' = ts_transactions s" "bs_repository s' = bs_repository s"
    "mh_events (hs_repository s') = mh_events (hs_repository s)"
    "mh_states (hs_repository s') = (mh_states (hs_repository s))(g \<mapsto> st)"
    using a(4,5) b(2,3) health_frame_rest(1,2) [OF a(1)] health_frame_rest(1,2) [OF b(1)] by simp_all
qed

lemma Callback_Inl:
  fixes s :: System
  assumes run: "Callback MemHealth MemTx MemBlacklist input s = (Inl er, s')" and inv: "sys_inv s"
  shows "s' = s\<lparr>env_ticks := env_ticks s'\<rparr>"
    "\<not> acceptable (mt_transactions (ts_transactions s)) input"
proof -
  from run sys_invD(1) [OF inv] sys_keys [OF inv]
  have "s' = s\<lparr>env_ticks := env_ticks s'\<rparr> \<and> \<not> acceptable (mt_transactions (ts_transactions s)) input"
    by (cases rule: mem.Callback_cases) auto
  then show "s' = s\<lparr>env_ticks := env_ticks s'\<rparr>"
    "\<not> acceptable (mt_transactions (ts_transactions s)) input" by auto
qed

lemma Callback_Inr:
  fixes s :: System
  assumes run: "Callback MemHealth MemTx MemBlacklist input s = (Inr res, s')" and inv: "sys_inv s"
  obtains x where "mt_transactions (ts_transactions s) (cb_TransactionID input) = Some x"
    "callback_matches input x" "IsFinal (cb_Status input)"
    "cr_Idempotent res = IsFinal (tx_Status x)" "IsFinal (tx_Status x) \<Longrightarrow> tx_Status x = cb_Status input"
    "cr_Transaction res = (if IsFinal (tx_Status x) then x else
       completed_at (env_clock s (env_ticks s)) (cb_Status input) (cb_Reason input) x)"
    "mt_transactions (ts_transactions s') =
       (mt_transactions (ts_transactions s))(cb_TransactionID input \<mapsto> cr_Transaction res)"
    "IsFinal (tx_Status x) \<Longrightarrow> ts_transactions s' = ts_transactions s \<and> bs_repository s' = bs_repository s \<and>
       mh_events (hs_repository s') = mh_events (hs_repository s)"
    "\<not> IsFinal (tx_Status x) \<Longrightarrow> \<exists>keep now. mh_events (hs_repository s') =
       filter keep (mh_events (hs_repository s)) @ [\<lparr>ge_Gateway = tx_Gateway x,
         ge_TransactionID = cb_TransactionID input, ge_Status = cb_Status input, ge_CreatedAt = now\<rparr>]"
    "\<not> IsFinal (tx_Status x) \<Longrightarrow> MemTx_attempts (ts_transactions s') = MemTx_attempts (ts_transactions s)"
    "\<not> IsFinal (tx_Status x) \<Longrightarrow> mh_states (hs_repository s') =
       (mh_states (hs_repository s))(tx_Gateway x \<mapsto> cr_GatewayState res)"
    "\<not> IsFinal (tx_Status x) \<Longrightarrow> same_state (cr_GatewayState res)
       (next_state (ac_Routing (WithDefaults (env_config s (env_reads s))))
          (env_clock s (Suc (env_ticks s))) (cb_TransactionID input) (cb_Status input)
          (cr_GatewayStats res)
          (entry (mh_states (hs_repository s)) (tx_Gateway x) (env_clock s (Suc (env_ticks s)))))"
proof -
  note D = sys_invD [OF inv]
  from run D(1) sys_keys [OF inv] show ?thesis
  proof (cases rule: mem.Callback_cases)
    case (repeated x st stats s1)
    note rest = repeated_rest [OF repeated(5,6) routing_invD(1) [OF D(1)]]
    show ?thesis by (rule that [of x]) (use repeated rest in \<open>auto simp: fun_upd_idem\<close>)
  next
    case (completed x y st stats t1 s2)
    let ?s1 = "s\<lparr>env_ticks := Suc (env_ticks s), ts_transactions := t1\<rparr>"
    have "routing_inv mh_states ?s1" using D(1) by simp
    then have "health_inv mh_states ?s1" by (rule routing_invD)
    from memhealth.RecordOutcome_runs [OF this, of "tx_Gateway x" "cb_TransactionID input"
        "cb_Status input"] completed(8)
    have frame: "health_frame ?s1 s2"
      and moved: "mh_states (hs_repository s2) = (mh_states (hs_repository s))(tx_Gateway x \<mapsto> st)"
        "same_state st (next_state (ac_Routing (WithDefaults (env_config s (env_reads s))))
          (env_clock s (Suc (env_ticks s))) (cb_TransactionID input) (cb_Status input) stats
          (entry (mh_states (hs_repository s)) (tx_Gateway x) (env_clock s (Suc (env_ticks s)))))"
      by auto
    note fr = health_frame_rest [OF frame]
    from completed(9) D(6)
    have "OrderGatewayBlacklistService_RecordOutcome MemBlacklist y s2 = (Inr (), s')" by simp
    then have same: "ts_transactions s' = ts_transactions s2" "hs_repository s' = hs_repository s2"
      by (auto elim: memblacklist.Service_RecordOutcome_ok)
    from events_RecordOutcome [OF completed(8,4)] obtain keep now where
      "mh_events (hs_repository s2) = filter keep (mh_events (hs_repository s)) @
        [\<lparr>ge_Gateway = tx_Gateway x, ge_TransactionID = cb_TransactionID input,
          ge_Status = cb_Status input, ge_CreatedAt = now\<rparr>]" by auto
    with same completed fr moved show ?thesis by (intro that [of x]) auto
  qed auto
qed


section \<open>Initiations\<close>

lemma initiated_fields:
  assumes "x = initiated input tid n g ref now"
  shows "tx_ID x = tid" "tx_OrderID x = in_OrderID input" "tx_AttemptNo x = n"
    "tx_Amount x = in_Amount input" "tx_PaymentInstrument x = in_PaymentInstrument input"
    "tx_Status x = TransactionStatusPending" "tx_CompletedAt x = None" "tx_FailureReason x = ''''"
  by (simp_all add: assms initiated_def)


text \<open>The transaction an accepted callback answers with is the stored one, with the callback's outcome.\<close>

lemma Callback_stored:
  fixes s :: System
  assumes run: "Callback MemHealth MemTx MemBlacklist input s = (Inr res, s')" and inv: "sys_inv s"
  shows "mt_transactions (ts_transactions s') (cb_TransactionID input) = Some (cr_Transaction res)"
    "tx_Status (cr_Transaction res) = cb_Status input" "callback_matches input (cr_Transaction res)"
    "IsFinal (cb_Status input)"
proof -
  have "mt_transactions (ts_transactions s') (cb_TransactionID input) = Some (cr_Transaction res) \<and>
    tx_Status (cr_Transaction res) = cb_Status input \<and> callback_matches input (cr_Transaction res) \<and>
    IsFinal (cb_Status input)"
    using run inv by (cases rule: Callback_Inr) (auto simp: callback_matches_def)
  then show "mt_transactions (ts_transactions s') (cb_TransactionID input) = Some (cr_Transaction res)"
    "tx_Status (cr_Transaction res) = cb_Status input" "callback_matches input (cr_Transaction res)"
    "IsFinal (cb_Status input)" by auto
qed

end
