(* ===== verification/HttpServer.thy ===== *)
theory HttpServer
  imports Scenarios Requests
begin

text \<open>
  The routes of \<open>internal/adapters/http/router.go\<close>: which handler \<open>http.ServeMux\<close> runs for a request,
  and what any request at all may do to the program.
\<close>

section \<open>The multiplexer\<close>

datatype handler = HandleHealth | HandleGateways | HandleInitiate | HandleCallback

text \<open>
  \<open>hq_Path\<close> has the segments of the path, unescaped; \<open>None\<close> is a path that \<open>ServeMux\<close> redirects to its
  clean form.
\<close>

record Request =
  hq_Method :: string
  hq_Path :: "string list option"
  hq_Body :: request_body

datatype answer = Handled Response | Redirected | MethodNotAllowed "string list" | NotFound

definition routes :: "(string \<times> string list \<times> handler) list" where
  "routes =
     [(''GET'', [''health''], HandleHealth),
      (''GET'', [''gateways''], HandleGateways),
      (''POST'', [''transactions'', ''initiate''], HandleInitiate),
      (''POST'', [''transactions'', ''callback''], HandleCallback)]"

text \<open>A pattern for \<open>GET\<close> matches \<open>HEAD\<close> as well.\<close>

definition methods_of :: "string \<Rightarrow> string list" where
  "methods_of pattern_method = (if pattern_method = ''GET'' then [''GET'', ''HEAD''] else [pattern_method])"

definition match_route :: "string \<Rightarrow> string list \<Rightarrow> handler option" where
  "match_route meth path = map_option (\<lambda>(_, _, h). h)
     (find (\<lambda>(m, p, _). meth \<in> set (methods_of m) \<and> path = p) routes)"

definition allowed_methods :: "string list \<Rightarrow> string list" where
  "allowed_methods path = concat (map (\<lambda>(m, p, _). if path = p then methods_of m else []) routes)"

definition run_handler :: "'h GatewayHealthRepository \<Rightarrow> 't TransactionRepository
    \<Rightarrow> 'b OrderGatewayBlacklistRepository \<Rightarrow> GatewayClientRegistry \<Rightarrow> GatewayCallbackDecoder option
    \<Rightarrow> handler \<Rightarrow> request_body
    \<Rightarrow> ('h, 'b, 't, 'z) TransactionService_scheme \<Rightarrow> Response \<times> ('h, 'b, 't, 'z) TransactionService_scheme" where
  "run_handler R T B registry callbacks h body = (case h of
     HandleHealth \<Rightarrow> response_of handleHealth
   | HandleGateways \<Rightarrow> response_of (handleGateways R)
   | HandleInitiate \<Rightarrow> response_of (handleInitiate R T B registry body)
   | HandleCallback \<Rightarrow> response_of (handleCallback R T B callbacks body))"

definition Router_ServeHTTP :: "'h GatewayHealthRepository \<Rightarrow> 't TransactionRepository
    \<Rightarrow> 'b OrderGatewayBlacklistRepository \<Rightarrow> GatewayClientRegistry \<Rightarrow> GatewayCallbackDecoder option
    \<Rightarrow> Request \<Rightarrow> ('h, 'b, 't, 'z) TransactionService_scheme
    \<Rightarrow> answer \<times> ('h, 'b, 't, 'z) TransactionService_scheme" where
  "Router_ServeHTTP R T B registry callbacks req s =
     (case hq_Path req of
        None \<Rightarrow> (Redirected, s)
      | Some path \<Rightarrow>
          (case match_route (hq_Method req) path of
             Some h \<Rightarrow>
               (case run_handler R T B registry callbacks h (hq_Body req) s of
                  (resp, s') \<Rightarrow> (Handled resp, s'))
           | None \<Rightarrow>
               (if allowed_methods path \<noteq> [] then (MethodNotAllowed (allowed_methods path), s)
                else (NotFound, s))))"

lemma match_route_cases:
  assumes "match_route meth path = Some h"
  shows "h = HandleHealth \<and> path = [''health''] \<and> meth \<in> {''GET'', ''HEAD''} \<or>
    h = HandleGateways \<and> path = [''gateways''] \<and> meth \<in> {''GET'', ''HEAD''} \<or>
    h = HandleInitiate \<and> path = [''transactions'', ''initiate''] \<and> meth = ''POST'' \<or>
    h = HandleCallback \<and> path = [''transactions'', ''callback''] \<and> meth = ''POST''"
  using assms by (auto simp: match_route_def routes_def methods_of_def split: if_splits)

section \<open>Handlers are steps of the services\<close>

definition untouched :: "System \<Rightarrow> System \<Rightarrow> bool" where
  "untouched s s' \<longleftrightarrow> ts_transactions s' = ts_transactions s \<and> bs_repository s' = bs_repository s \<and>
     mh_events (hs_repository s') = mh_events (hs_repository s)"

lemma untouched_trans: "untouched s t \<Longrightarrow> untouched t u \<Longrightarrow> untouched s u"
  by (simp add: untouched_def)

lemma gatewaysLoop_steps:
  assumes "reachable reg s" "gatewaysLoop MemHealth gs acc s = (r, s')"
  shows "reachable reg s' \<and> untouched s s'"
  using assms
proof (induction gs arbitrary: acc s)
  case (Cons g gs)
  have inv: "health_inv mh_states s" if "reachable reg s" for s
    using routing_invD(1) [OF sys_invD(1) [OF reachable_inv [OF that]]] .
  from memhealth.State_runs [OF inv [OF Cons.prems(1)], of "gc_Name g"] obtain st s1 where
    st: "HealthService_State MemHealth (gc_Name g) s = (Inr st, s1)" by auto
  have r1: "reachable reg s1" by (rule reachable.step [OF Cons.prems(1) serves.state [OF st]])
  from memhealth.Stats_runs [OF inv [OF r1], of "gc_Name g"] obtain stats s2 where
    stats: "HealthService_Stats MemHealth (gc_Name g) s1 = (Inr stats, s2)" by blast
  have r2: "reachable reg s2" by (rule reachable.step [OF r1 serves.stats [OF stats]])
  note a = State_rest [OF st inv [OF Cons.prems(1)]]
  note b = Stats_rest [OF stats inv [OF r1]]
  have "untouched s s1" using a(4) health_frame_rest [OF a(1)] by (simp add: untouched_def)
  moreover have "untouched s1 s2" using b(2) health_frame_rest [OF b(1)] by (simp add: untouched_def)
  moreover have "gatewaysLoop MemHealth gs (acc @ [(g, st, stats)]) s2 = (r, s')"
    using Cons.prems(2) st stats by (simp add: onError_run)
  then have "reachable reg s' \<and> untouched s2 s'" by (rule Cons.IH [OF r2])
  ultimately show ?case using untouched_trans by blast
qed (simp add: untouched_def ret_def)

lemma handleGateways_steps:
  assumes "reachable reg s" "response_of (handleGateways MemHealth) s = (resp, s')"
  shows "reachable reg s' \<and> untouched s s'"
proof -
  let ?s = "s\<lparr>env_reads := Suc (env_reads s)\<rparr>"
  have r: "reachable reg ?s"
    by (rule reachable.step [OF assms(1) serves.config]) (simp add: ConfigProvider_Current_def)
  obtain q t where loop: "gatewaysLoop MemHealth (ac_Gateways (WithDefaults (env_config s (env_reads s)))) [] ?s = (q, t)"
    by fastforce
  have "t = s'" using assms(2) loop
    by (cases q) (auto simp: handleGateways_def response_of_def andThen_def ConfigProvider_Current_def Let_def ret_def)
  with gatewaysLoop_steps [OF r loop] show ?thesis by (simp add: untouched_def)
qed

lemma handleInitiate_steps:
  assumes "reachable reg s" "response_of (handleInitiate MemHealth MemTx MemBlacklist reg body) s = (resp, s')"
  shows "reachable reg s' \<and> (rp_Status resp \<noteq> 201 \<longrightarrow>
    mt_transactions (ts_transactions s') = mt_transactions (ts_transactions s) \<and>
    bs_repository s' = bs_repository s \<and> mh_events (hs_repository s') = mh_events (hs_repository s))"
proof -
  have step: "s' = s \<or> (\<exists>input r. Initiate MemHealth MemTx MemBlacklist reg input s = (r, s'))"
    using assms(2) by (auto simp: handleInitiate_def Let_def response_of_def onError_def writeJSON_def
        split: sum.splits if_splits prod.splits)
  then have "reachable reg s'" using assms(1) by (auto intro: reachable.step serves.initiate)
  moreover have "mh_events (hs_repository s') = mh_events (hs_repository s)"
    using step preservesD [OF events_Initiate, of "mh_events (hs_repository s)" s] by (auto simp: events_are_def)
  ultimately show ?thesis
    using handleInitiate_refused [OF reachable_inv [OF assms(1)] assms(2)] by blast
qed

lemma handleCallback_steps:
  assumes "reachable reg s" "response_of (handleCallback MemHealth MemTx MemBlacklist decs body) s = (resp, s')"
  shows "reachable reg s' \<and> (rp_Status resp \<noteq> 200 \<longrightarrow> untouched s s')"
proof (cases "\<exists>input. response_of (processCallback MemHealth MemTx MemBlacklist input) s = (resp, s')")
  case True
  then obtain input where run: "response_of (processCallback MemHealth MemTx MemBlacklist input) s = (resp, s')"
    by blast
  have "s' = s \<or> (\<exists>r. Callback MemHealth MemTx MemBlacklist (cleaned input) s = (r, s'))"
    using run by (auto simp: processCallback_def Let_def response_of_def onError_def cleaned_def writeJSON_def
        split: sum.splits if_splits prod.splits)
  then have "reachable reg s'" using assms(1) by (auto intro: reachable.step serves.callback)
  moreover have "untouched s s'" if bad: "rp_Status resp \<noteq> 200"
  proof -
    obtain n where "s' = s\<lparr>env_ticks := n\<rparr>"
      using processCallback_refused [OF reachable_inv [OF assms(1)] run bad] by blast
    then show ?thesis by (simp add: untouched_def)
  qed
  ultimately show ?thesis by blast
next
  case False
  then have "s' = s" using assms(2)
    by (auto simp: handleCallback_def response_of_def split: request_body.splits sum.splits if_splits)
  with assms(1) show ?thesis by (simp add: untouched_def)
qed

section \<open>Properties\<close>

text \<open>
  C28: whatever request reaches the server, by whatever method, path and body, it leads from a reachable
  state to a reachable state, so that what holds of all reachable states holds over HTTP. A request that
  no route matches does nothing. Stored transactions, the records of the orders and the gateway
  events change only by a POST to the path to initiate that is answered with 201, or by one to the
  callback path that is answered with 200.
\<close>
theorem http_request_served:
  assumes "reachable reg s" "Router_ServeHTTP MemHealth MemTx MemBlacklist reg decs req s = (ans, s')"
  shows "reachable reg s' \<and>
    ((\<forall>resp. ans \<noteq> Handled resp) \<longrightarrow> s' = s) \<and>
    (mt_transactions (ts_transactions s') = mt_transactions (ts_transactions s) \<and>
       bs_repository s' = bs_repository s \<and> mh_events (hs_repository s') = mh_events (hs_repository s) \<or>
     hq_Method req = ''POST'' \<and> (\<exists>resp. ans = Handled resp \<and>
       (hq_Path req = Some [''transactions'', ''initiate''] \<and> rp_Status resp = 201 \<or>
        hq_Path req = Some [''transactions'', ''callback''] \<and> rp_Status resp = 200)))"
proof (cases "\<exists>path h. hq_Path req = Some path \<and> match_route (hq_Method req) path = Some h")
  case False
  then have "s' = s \<and> (\<forall>resp. ans \<noteq> Handled resp)"
    using assms(2) by (auto simp: Router_ServeHTTP_def split: option.splits if_splits)
  with assms(1) show ?thesis by simp
next
  case True
  then obtain path h where route: "hq_Path req = Some path" "match_route (hq_Method req) path = Some h" by blast
  obtain resp where ans: "ans = Handled resp"
    and run: "run_handler MemHealth MemTx MemBlacklist reg decs h (hq_Body req) s = (resp, s')"
    using assms(2) route by (auto simp: Router_ServeHTTP_def split: prod.splits)
  show ?thesis
  proof (cases h)
    case HandleHealth
    then have "s' = s" using run by (simp add: run_handler_def handleHealth_def response_of_def ret_def)
    with assms(1) show ?thesis by simp
  next
    case HandleGateways
    then have "response_of (handleGateways MemHealth) s = (resp, s')" using run by (simp add: run_handler_def)
    from handleGateways_steps [OF assms(1) this] show ?thesis by (simp add: untouched_def ans)
  next
    case HandleInitiate
    then have "response_of (handleInitiate MemHealth MemTx MemBlacklist reg (hq_Body req)) s = (resp, s')"
      using run by (simp add: run_handler_def)
    from handleInitiate_steps [OF assms(1) this] match_route_cases [OF route(2)] HandleInitiate
    show ?thesis by (auto simp: ans route(1))
  next
    case HandleCallback
    then have "response_of (handleCallback MemHealth MemTx MemBlacklist decs (hq_Body req)) s = (resp, s')"
      using run by (simp add: run_handler_def)
    from handleCallback_steps [OF assms(1) this] match_route_cases [OF route(2)] HandleCallback
    show ?thesis by (auto simp: ans route(1) untouched_def)
  qed
qed

text \<open>A health check with a wrong method, on a state after a request.\<close>

theorem http_request_served_witness:
  "reachable (Registry_Client NewRegistry) (snd (Router_ServeHTTP MemHealth MemTx MemBlacklist
     (Registry_Client NewRegistry) None
     \<lparr>hq_Method = ''GET'', hq_Path = Some [''gateways''], hq_Body = Body None\<rparr> solo1)) \<and>
   snd (Router_ServeHTTP MemHealth MemTx MemBlacklist (Registry_Client NewRegistry) None
     \<lparr>hq_Method = ''POST'', hq_Path = Some [''health''], hq_Body = Body None\<rparr> solo1) = solo1"
proof -
  let ?serve = "\<lambda>m p. Router_ServeHTTP MemHealth MemTx MemBlacklist (Registry_Client NewRegistry) None
     \<lparr>hq_Method = m, hq_Path = Some [p], hq_Body = Body None\<rparr> solo1"
  note served = http_request_served [OF solo_reachable(3) prod.collapse [symmetric]]
  have "fst (?serve ''POST'' ''health'') = MethodNotAllowed [''GET'', ''HEAD'']"
    by (simp add: Router_ServeHTTP_def match_route_def allowed_methods_def routes_def methods_of_def)
  then have "snd (?serve ''POST'' ''health'') = solo1"
    using served [where req = "\<lparr>hq_Method = ''POST'', hq_Path = Some [''health''], hq_Body = Body None\<rparr>"
        and decs = None] by simp
  then show ?thesis
    using served [where req = "\<lparr>hq_Method = ''GET'', hq_Path = Some [''gateways''], hq_Body = Body None\<rparr>"
        and decs = None] by blast
qed

end
