(* ===== verification/ConcurrentServices.thy ===== *)
theory ConcurrentServices
  imports Interleaving HttpServer
begin

text \<open>
  The handlers and the services once more, as programs in atomic steps, since \<open>net/http\<close> runs every request in
  its own goroutine. An atomic step is one call of a repository, one access to a cache under its
  mutex, one \<open>atomic.AddUint64\<close>, one reading of the clock, of the configuration or of a new identifier; each
  definition follows its sequential counterpart statement by statement. \<open>snapshot\<close> holds the lock of
  the routing cache while it builds a new snapshot. Here other threads may get in between, so the model has
  the schedules of the code and more.
\<close>

section \<open>The health service\<close>

definition cachedState_prog :: "'h GatewayHealthRepository \<Rightarrow> string \<Rightarrow> time
    \<Rightarrow> (('h, 'z) HealthService_scheme, go_error, GatewayRuntimeState) prog" where
  "cachedState_prog R gateway now =
     p_andThen (atom (gets (\<lambda>s. hs_stateCache s gateway))) (\<lambda>cached.
     if (case cached of None \<Rightarrow> False | Some c \<Rightarrow> Before now (cg_expiresAt c))
     then p_ret (cg_state (the cached))
     else
       p_andThen (atom (on_repo (hr_Ensure R gateway now))) (\<lambda>_.
       p_andThen (atom (on_repo (hr_Get R gateway))) (\<lambda>state.
       p_andThen (atom (setCachedState state now)) (\<lambda>_.
       p_ret state))))"

definition PrepareForRouting_prog :: "'h GatewayHealthRepository \<Rightarrow> string \<Rightarrow> RoutingConfig
    \<Rightarrow> (('h, 'z) HealthService_scheme, go_error, GatewayRuntimeState) prog" where
  "PrepareForRouting_prog R gateway routing =
     p_andThen (atom Clock_Now) (\<lambda>now.
     p_andThen (cachedState_prog R gateway now) (\<lambda>state.
     p_andThen
       (if rt_State state = GatewayStateUnhealthy \<and> \<not> IsZero (rt_UnhealthyUntil state) \<and>
           \<not> Before now (rt_UnhealthyUntil state)
        then
          (let state1 = state\<lparr>rt_State := GatewayStateHalfOpen, rt_HalfOpenInFlight := 0,
                 rt_UpdatedAt := now\<rparr> in
           p_andThen (atom (on_repo (hr_Save R state1))) (\<lambda>_.
           p_andThen (atom (setCachedState state1 now)) (\<lambda>_.
           p_ret state1)))
        else p_ret state) (\<lambda>state.
     if rt_State state = GatewayStateHalfOpen then
       p_andThen (atom (on_repo (hr_PruneExpiredHalfOpenProbes R gateway now))) (\<lambda>state.
       p_andThen (atom (setCachedState state now)) (\<lambda>_.
       p_ret state))
     else p_ret state)))"

definition MarkProbeSelected_prog :: "'h GatewayHealthRepository \<Rightarrow> string \<Rightarrow> string
    \<Rightarrow> (('h, 'z) HealthService_scheme, go_error, unit) prog" where
  "MarkProbeSelected_prog R gateway transactionID =
     p_andThen (atom ConfigProvider_Current) (\<lambda>current.
     let cfg = WithDefaults current in
     p_andThen (atom Clock_Now) (\<lambda>now.
     let expiresAt = Add now (Duration (rc_HalfOpenProbeTimeoutSeconds (ac_Routing cfg)) Second) in
     p_andThen (atom (on_repo (hr_TryAcquireHalfOpenProbe R gateway transactionID
         (rc_HalfOpenProbeCount (ac_Routing cfg)) expiresAt now))) (\<lambda>(state, acquired).
     p_andThen (atom (setCachedState state now)) (\<lambda>_.
     if \<not> acquired then p_throw (Sentinel ErrNoAvailableGateway) else p_ret ()))))"

definition ReleaseProbe_prog :: "'h GatewayHealthRepository \<Rightarrow> string \<Rightarrow> string
    \<Rightarrow> (('h, 'z) HealthService_scheme, go_error, unit) prog" where
  "ReleaseProbe_prog R gateway transactionID =
     p_andThen (atom Clock_Now) (\<lambda>now.
     p_andThen (atom (on_repo (hr_ReleaseHalfOpenProbe R gateway transactionID now))) (\<lambda>(state, released).
     atom (setCachedState state now)))"

definition saveOutcome_prog :: "'h GatewayHealthRepository \<Rightarrow> time \<Rightarrow> GatewayStats \<Rightarrow> GatewayRuntimeState
    \<Rightarrow> (('h, 'z) HealthService_scheme, go_error, GatewayRuntimeState \<times> GatewayStats) prog" where
  "saveOutcome_prog R now stats state =
     p_andThen (atom (on_repo (hr_Save R state))) (\<lambda>_.
     p_andThen (atom (setCachedState state now)) (\<lambda>_.
     p_ret (state, stats)))"

definition switchOutcome_prog :: "'h GatewayHealthRepository \<Rightarrow> RoutingConfig \<Rightarrow> time \<Rightarrow> string \<Rightarrow> string
    \<Rightarrow> TransactionStatus \<Rightarrow> GatewayStats \<Rightarrow> GatewayRuntimeState
    \<Rightarrow> (('h, 'z) HealthService_scheme, go_error, GatewayRuntimeState \<times> GatewayStats) prog" where
  "switchOutcome_prog R routing now gateway transactionID status stats state =
     (case rt_State state of
        GatewayStateHalfOpen \<Rightarrow>
          p_andThen (atom (on_repo (hr_ReleaseHalfOpenProbe R gateway transactionID now)))
            (\<lambda>(state, released).
          if \<not> released then
            p_andThen (atom (setCachedState state now)) (\<lambda>_. p_ret (state, stats))
          else if status = TransactionStatusSuccess then
            saveOutcome_prog R now stats (markHealthy state now)
          else if status = TransactionStatusFailure then
            saveOutcome_prog R now stats (markUnhealthy state routing now)
          else saveOutcome_prog R now stats state)
      | GatewayStateUnhealthy \<Rightarrow>
          (if IsZero (rt_UnhealthyUntil state) \<or> \<not> Before now (rt_UnhealthyUntil state)
           then saveOutcome_prog R now stats (markHalfOpen state now)
           else saveOutcome_prog R now stats state)
      | _ \<Rightarrow>
          (if gs_Total stats \<ge> rc_MinCallbackCount routing \<and>
              gs_SuccessRate stats < rc_SuccessRateThreshold routing
           then saveOutcome_prog R now stats (markUnhealthy state routing now)
           else saveOutcome_prog R now stats (markHealthy state now)))"

definition HealthService_RecordOutcome_prog :: "'h GatewayHealthRepository \<Rightarrow> string \<Rightarrow> string
    \<Rightarrow> TransactionStatus
    \<Rightarrow> (('h, 'z) HealthService_scheme, go_error, GatewayRuntimeState \<times> GatewayStats) prog" where
  "HealthService_RecordOutcome_prog R gateway transactionID status =
     p_andThen (atom Clock_Now) (\<lambda>now.
     p_andThen (atom ConfigProvider_Current) (\<lambda>current.
     let routing = ac_Routing (WithDefaults current) in
     p_andThen (atom (on_repo (hr_Ensure R gateway now))) (\<lambda>_.
     p_andThen
       (if IsFinal status
        then atom (on_repo (hr_RecordEvent R \<lparr>ge_Gateway = gateway, ge_TransactionID = transactionID,
               ge_Status = status, ge_CreatedAt = now\<rparr> (retention_of routing)))
        else p_ret ()) (\<lambda>_.
     p_andThen (atom (on_repo (hr_Get R gateway))) (\<lambda>state.
     p_andThen (atom (on_repo (hr_StatsSince R gateway (windowStart routing now) now Minute))) (\<lambda>stats.
     switchOutcome_prog R routing now gateway transactionID status stats state))))))"

definition HealthService_State_prog :: "'h GatewayHealthRepository \<Rightarrow> string
    \<Rightarrow> (('h, 'z) HealthService_scheme, go_error, GatewayRuntimeState) prog" where
  "HealthService_State_prog R gateway =
     p_andThen (atom Clock_Now) (\<lambda>now.
     p_andThen (atom (on_repo (hr_Ensure R gateway now))) (\<lambda>_.
     p_andThen (atom (on_repo (hr_Get R gateway))) (\<lambda>state.
     p_andThen
       (if rt_State state = GatewayStateHalfOpen
        then atom (on_repo (hr_PruneExpiredHalfOpenProbes R gateway now)) else p_ret state) (\<lambda>state.
     p_andThen (atom (setCachedState state now)) (\<lambda>_.
     p_ret state)))))"

definition HealthService_Stats_prog :: "'h GatewayHealthRepository \<Rightarrow> string
    \<Rightarrow> (('h, 'z) HealthService_scheme, go_error, GatewayStats) prog" where
  "HealthService_Stats_prog R gateway =
     p_andThen (atom ConfigProvider_Current) (\<lambda>current.
     let routing = ac_Routing (WithDefaults current) in
     p_andThen (atom Clock_Now) (\<lambda>now.
     atom (on_repo (hr_StatsSince R gateway (windowStart routing now) now Minute))))"

section \<open>The routing service\<close>

fun snapshotLoop_prog :: "'h GatewayHealthRepository \<Rightarrow> RoutingConfig \<Rightarrow> GatewayConfig list
    \<Rightarrow> routingSnapshot \<Rightarrow> (('h, 'z) RoutingService_scheme, go_error, routingSnapshot) prog" where
  "snapshotLoop_prog R routing [] snap = p_ret snap"
| "snapshotLoop_prog R routing (gateway # gateways) snap =
     (if \<not> gc_Enabled gateway \<or> gc_Weight gateway \<le> 0
      then snapshotLoop_prog R routing gateways snap
      else
        p_andThen (PrepareForRouting_prog R (gc_Name gateway) routing) (\<lambda>state.
        snapshotLoop_prog R routing gateways
          (case rt_State state of
             GatewayStateHealthy \<Rightarrow> snap\<lparr>sn_healthy := sn_healthy snap @ [gateway]\<rparr>
           | GatewayStateHalfOpen \<Rightarrow>
               if rt_HalfOpenInFlight state < rc_HalfOpenProbeCount routing
               then snap\<lparr>sn_probes := sn_probes snap @ [gateway]\<rparr> else snap
           | _ \<Rightarrow> snap)))"

definition snapshot_prog ::
  "'h GatewayHealthRepository \<Rightarrow> (('h, 'z) RoutingService_scheme, go_error, routingSnapshot) prog" where
  "snapshot_prog R =
     p_andThen (atom Clock_Now) (\<lambda>now.
     p_andThen (atom (gets rs_cache)) (\<lambda>cached.
     if Before now (sn_expiresAt cached) then p_ret cached
     else
       p_andThen (atom (gets rs_cache)) (\<lambda>cache.
       if Before now (sn_expiresAt cache) then p_ret cache
       else
         p_andThen (atom ConfigProvider_Current) (\<lambda>current.
         let cfg = WithDefaults current in
         p_andThen (atom (gets rs_cacheTTL)) (\<lambda>ttl.
         p_andThen (snapshotLoop_prog R (ac_Routing cfg) (ac_Gateways cfg)
             \<lparr>sn_healthy = [], sn_probes = [], sn_expiresAt = Add now ttl\<rparr>) (\<lambda>snap.
         p_andThen (atom (modify (\<lambda>s. s\<lparr>rs_cache := snap\<rparr>))) (\<lambda>_.
         p_ret snap)))))))"

definition selectHealthy_prog :: "GatewayConfig list
    \<Rightarrow> (('h, 'z) RoutingService_scheme, go_error, GatewaySelection) prog" where
  "selectHealthy_prog healthy =
     p_andThen (atom (selectWeighted healthy)) (\<lambda>selected.
     case selected of
       None \<Rightarrow> p_throw (Sentinel ErrNoAvailableGateway)
     | Some gateway \<Rightarrow> p_ret \<lparr>sel_Gateway = gateway, sel_HalfOpenProbe = False\<rparr>)"

definition SelectGateway_prog :: "'h GatewayHealthRepository \<Rightarrow> GatewaySelectionRequest
    \<Rightarrow> (('h, 'z) RoutingService_scheme, go_error, GatewaySelection) prog" where
  "SelectGateway_prog R request =
     p_andThen (snapshot_prog R) (\<lambda>snap.
     let probes = filterExcluded (sn_probes snap) (sr_ExcludedGateways request);
         healthy = filterExcluded (sn_healthy snap) (sr_ExcludedGateways request) in
     if probes \<noteq> [] then
       p_andThen (atom (selectWeighted probes)) (\<lambda>selected.
       case selected of
         None \<Rightarrow> p_throw (Sentinel ErrNoAvailableGateway)
       | Some gateway \<Rightarrow>
           p_onError (MarkProbeSelected_prog R (gc_Name gateway) (sr_TransactionID request))
             (\<lambda>err. p_andThen (atom invalidateCache) (\<lambda>_.
                if healthy = [] then p_throw err else selectHealthy_prog healthy))
             (\<lambda>_. p_ret \<lparr>sel_Gateway = gateway, sel_HalfOpenProbe = True\<rparr>))
     else selectHealthy_prog healthy)"

section \<open>The order blacklist and the transaction service\<close>

definition OrderGatewayBlacklistService_BlacklistedGateways_prog ::
  "'b OrderGatewayBlacklistRepository \<Rightarrow> string
    \<Rightarrow> (('h, 'b, 'z) OrderGatewayBlacklistService_scheme, go_error, string set) prog" where
  "OrderGatewayBlacklistService_BlacklistedGateways_prog B orderID =
     (if orderID = '''' then p_ret {} else atom (on_orders (or_BlacklistedGateways B orderID)))"

definition OrderGatewayBlacklistService_RecordOutcome_prog ::
  "'b OrderGatewayBlacklistRepository \<Rightarrow> Transaction
    \<Rightarrow> (('h, 'b, 'z) OrderGatewayBlacklistService_scheme, go_error, unit) prog" where
  "OrderGatewayBlacklistService_RecordOutcome_prog B transaction =
     p_andThen (atom ConfigProvider_Current) (\<lambda>current.
     let cfg = WithDefaults current in
     p_andThen (atom Clock_Now) (\<lambda>now.
     p_andThen (atom (on_orders (or_RecordOutcome B (tx_OrderID transaction) (tx_Gateway transaction)
       (tx_Status transaction) (rc_OrderGatewayFailureThreshold (ac_Routing cfg)) now))) (\<lambda>_.
     p_ret ())))"

definition blacklistedGateways_prog :: "'b OrderGatewayBlacklistRepository \<Rightarrow> string
    \<Rightarrow> (('h, 'b, 't, 'z) TransactionService_scheme, go_error, string set) prog" where
  "blacklistedGateways_prog B orderID =
     p_andThen (atom (gets ts_hasOrderGateways)) (\<lambda>hasOrderGateways.
     if \<not> hasOrderGateways then p_ret {}
     else OrderGatewayBlacklistService_BlacklistedGateways_prog B orderID)"

definition releaseProbe_prog :: "'h GatewayHealthRepository \<Rightarrow> GatewaySelection \<Rightarrow> string
    \<Rightarrow> (('h, 'b, 't, 'z) TransactionService_scheme, go_error, unit) prog" where
  "releaseProbe_prog R selection transactionID =
     (if \<not> sel_HalfOpenProbe selection then p_ret ()
      else p_onError (ReleaseProbe_prog R (gc_Name (sel_Gateway selection)) transactionID)
             (\<lambda>_. p_ret ()) (\<lambda>_. p_ret ()))"

definition failWith_prog :: "'h GatewayHealthRepository \<Rightarrow> GatewaySelection \<Rightarrow> string \<Rightarrow> go_error
    \<Rightarrow> (('h, 'b, 't, 'z) TransactionService_scheme, go_error, 'a) prog" where
  "failWith_prog R selection transactionID err =
     p_andThen (releaseProbe_prog R selection transactionID) (\<lambda>_. p_throw err)"

definition Initiate_prog :: "'h GatewayHealthRepository \<Rightarrow> 't TransactionRepository
    \<Rightarrow> 'b OrderGatewayBlacklistRepository \<Rightarrow> GatewayClientRegistry \<Rightarrow> InitiateTransactionInput
    \<Rightarrow> (('h, 'b, 't, 'z) TransactionService_scheme, go_error, Transaction) prog" where
  "Initiate_prog R T B registry input =
     p_andThen (atom (IDGenerator_NewID ''txn'')) (\<lambda>transactionID.
     p_andThen (blacklistedGateways_prog B (in_OrderID input)) (\<lambda>excludedGateways.
     p_andThen (SelectGateway_prog R \<lparr>sr_TransactionID = transactionID, sr_OrderID = in_OrderID input,
         sr_ExcludedGateways = excludedGateways\<rparr>) (\<lambda>selection.
     let gateway = sel_Gateway selection in
     case registry (gc_Name gateway) of
       None \<Rightarrow> failWith_prog R selection transactionID
         (Errorf ''gateway client %q is not registered'' [gc_Name gateway])
     | Some client \<Rightarrow>
         p_onError (atom (on_txns (tr_NextAttempt T (in_OrderID input))))
           (failWith_prog R selection transactionID) (\<lambda>attemptNo.
         p_andThen (atom Clock_Now) (\<lambda>now.
         let transaction = \<lparr>tx_ID = transactionID, tx_OrderID = in_OrderID input,
               tx_AttemptNo = attemptNo, tx_Amount = in_Amount input,
               tx_PaymentInstrument = in_PaymentInstrument input, tx_Gateway = gc_Name gateway,
               tx_GatewayReferenceID = '''', tx_Status = TransactionStatusPending,
               tx_FailureReason = '''', tx_CreatedAt = now, tx_UpdatedAt = now,
               tx_CompletedAt = None\<rparr> in
         case client transaction of
           Inl err \<Rightarrow> failWith_prog R selection transactionID err
         | Inr initiation \<Rightarrow>
             let transaction = transaction\<lparr>tx_GatewayReferenceID := gi_ReferenceID initiation\<rparr> in
             p_onError (atom (on_txns (tr_Save T transaction)))
               (failWith_prog R selection transactionID) (\<lambda>_. p_ret transaction))))))"

definition Callback_prog :: "'h GatewayHealthRepository \<Rightarrow> 't TransactionRepository
    \<Rightarrow> 'b OrderGatewayBlacklistRepository \<Rightarrow> CallbackInput
    \<Rightarrow> (('h, 'b, 't, 'z) TransactionService_scheme, go_error, CallbackResult) prog" where
  "Callback_prog R T B input =
     p_andThen (atom (on_txns (tr_GetByID T (cb_TransactionID input)))) (\<lambda>transaction.
     if tx_Gateway transaction \<noteq> cb_Gateway input then
       p_throw (Wrapf ErrGatewayMismatch ''%w: transaction gateway %q callback gateway %q''
         [tx_Gateway transaction, cb_Gateway input])
     else if cb_OrderID input \<noteq> '''' \<and> tx_OrderID transaction \<noteq> cb_OrderID input then
       p_throw (Wrapf ErrConflict ''%w: transaction order %q callback order %q''
         [tx_OrderID transaction, cb_OrderID input])
     else
       p_andThen (atom Clock_Now) (\<lambda>now.
       p_andThen (atom (on_txns (tr_Complete T (cb_TransactionID input) (cb_Status input)
         (cb_Reason input) now))) (\<lambda>(completed, changed).
       if \<not> changed then
         p_andThen (HealthService_State_prog R (tx_Gateway completed)) (\<lambda>state.
         p_andThen (HealthService_Stats_prog R (tx_Gateway completed)) (\<lambda>stats.
         p_ret \<lparr>cr_Transaction = completed, cr_GatewayState = state, cr_GatewayStats = stats,
              cr_Idempotent = True\<rparr>))
       else
         p_andThen (HealthService_RecordOutcome_prog R (tx_Gateway completed) (tx_ID completed)
           (tx_Status completed)) (\<lambda>(state, stats).
         p_andThen (atom (gets ts_hasOrderGateways)) (\<lambda>hasOrderGateways.
         p_andThen (if hasOrderGateways then OrderGatewayBlacklistService_RecordOutcome_prog B completed
                    else p_ret ()) (\<lambda>_.
         p_ret \<lparr>cr_Transaction = completed, cr_GatewayState = state, cr_GatewayStats = stats,
              cr_Idempotent = False\<rparr>))))))"

section \<open>The handlers\<close>

fun gatewaysLoop_prog :: "'h GatewayHealthRepository \<Rightarrow> GatewayConfig list
    \<Rightarrow> (GatewayConfig \<times> GatewayRuntimeState \<times> GatewayStats) list
    \<Rightarrow> (('h, 'z) HealthService_scheme, Response,
        (GatewayConfig \<times> GatewayRuntimeState \<times> GatewayStats) list) prog" where
  "gatewaysLoop_prog R [] acc = p_ret acc"
| "gatewaysLoop_prog R (gateway # gateways) acc =
     p_onError (HealthService_State_prog R (gc_Name gateway))
       (\<lambda>err. p_throw (writeError 500 ''gateway_state_error'' (ErrorText err))) (\<lambda>state.
     p_onError (HealthService_Stats_prog R (gc_Name gateway))
       (\<lambda>err. p_throw (writeError 500 ''gateway_stats_error'' (ErrorText err))) (\<lambda>stats.
     gatewaysLoop_prog R gateways (acc @ [(gateway, state, stats)])))"

definition handleGateways_prog ::
  "'h GatewayHealthRepository \<Rightarrow> (('h, 'z) HealthService_scheme, Response, Response) prog" where
  "handleGateways_prog R =
     p_andThen (atom ConfigProvider_Current) (\<lambda>current.
     let cfg = WithDefaults current in
     p_andThen (gatewaysLoop_prog R (ac_Gateways cfg) []) (\<lambda>gateways.
     p_ret (writeJSON 200 (GatewaysBody (ac_Routing cfg) gateways))))"

definition handleInitiate_prog :: "'h GatewayHealthRepository \<Rightarrow> 't TransactionRepository
    \<Rightarrow> 'b OrderGatewayBlacklistRepository \<Rightarrow> GatewayClientRegistry \<Rightarrow> request_body
    \<Rightarrow> (('h, 'b, 't, 'z) TransactionService_scheme, Response, Response) prog" where
  "handleInitiate_prog R T B registry body =
     (case decodeJSON (decode_struct initiateRequest_fields) initiateRequest_zero body of
        Inl err \<Rightarrow> p_throw (writeError 400 ''invalid_json'' (ErrorText err))
      | Inr payload \<Rightarrow>
         (let orderID = TrimSpace (iq_OrderID payload) in
          if orderID = '''' then
            p_throw (writeError 400 ''invalid_order_id'' (Text ''order_id is required''))
          else if iq_Amount payload \<le> Fin 0 then
            p_throw (writeError 400 ''invalid_amount'' (Text ''amount must be greater than zero''))
          else
           (let instrument = (case iq_PaymentInstrument payload of None \<Rightarrow> [] | Some m \<Rightarrow> m) in
            p_onError (Initiate_prog R T B registry \<lparr>in_OrderID = orderID, in_Amount = iq_Amount payload,
                in_PaymentInstrument = Some instrument\<rparr>)
              (\<lambda>err. p_throw (writeServiceError err))
              (\<lambda>transaction. p_ret (writeJSON 201 (TransactionBody transaction))))))"

definition processCallback_prog :: "'h GatewayHealthRepository \<Rightarrow> 't TransactionRepository
    \<Rightarrow> 'b OrderGatewayBlacklistRepository \<Rightarrow> CallbackInput
    \<Rightarrow> (('h, 'b, 't, 'z) TransactionService_scheme, Response, Response) prog" where
  "processCallback_prog R T B input0 =
     (let input = input0\<lparr>cb_TransactionID := TrimSpace (cb_TransactionID input0),
            cb_OrderID := TrimSpace (cb_OrderID input0), cb_Gateway := TrimSpace (cb_Gateway input0),
            cb_Reason := TrimSpace (cb_Reason input0)\<rparr> in
      if cb_TransactionID input = '''' then
        p_throw (writeError 400 ''invalid_transaction_id'' (Text ''transaction_id is required''))
      else if cb_Gateway input = '''' then
        p_throw (writeError 400 ''invalid_gateway'' (Text ''gateway is required''))
      else if \<not> IsFinal (cb_Status input) then
        p_throw (writeError 400 ''invalid_status'' (Text ''status must be success or failure''))
      else
        p_onError (Callback_prog R T B input)
          (\<lambda>err. p_throw (writeServiceError err))
          (\<lambda>result. p_ret (writeJSON 200 (CallbackBody result))))"

definition handleCallback_prog :: "'h GatewayHealthRepository \<Rightarrow> 't TransactionRepository
    \<Rightarrow> 'b OrderGatewayBlacklistRepository \<Rightarrow> GatewayCallbackDecoder option \<Rightarrow> request_body
    \<Rightarrow> (('h, 'b, 't, 'z) TransactionService_scheme, Response, Response) prog" where
  "handleCallback_prog R T B callbacks body = (case body of
     ReadFails \<Rightarrow> p_throw (writeError 400 ''invalid_callback'' (ErrorText json_error))
   | Body payload \<Rightarrow>
       (case decodeCallback callbacks payload of
          Inl err \<Rightarrow>
            if errors_Is err ErrInvalidStatus then
              p_throw (writeError 400 ''invalid_status'' (Text ''status must be success or failure''))
            else p_throw (writeError 400 ''invalid_callback'' (ErrorText err))
        | Inr input \<Rightarrow> processCallback_prog R T B input))"

text \<open>A request ends with what the server answers: the response written, early or not.\<close>

type_synonym ('h, 'b, 't, 'z) thread = "(('h, 'b, 't, 'z) TransactionService_scheme, unit, answer) prog"

definition answered :: "(('h, 'b, 't, 'z) TransactionService_scheme, Response, Response) prog
    \<Rightarrow> ('h, 'b, 't, 'z) thread" where
  "answered p = p_onError p (\<lambda>resp. p_ret (Handled resp)) (\<lambda>resp. p_ret (Handled resp))"

definition run_handler_prog :: "'h GatewayHealthRepository \<Rightarrow> 't TransactionRepository
    \<Rightarrow> 'b OrderGatewayBlacklistRepository \<Rightarrow> GatewayClientRegistry \<Rightarrow> GatewayCallbackDecoder option
    \<Rightarrow> handler \<Rightarrow> request_body \<Rightarrow> ('h, 'b, 't, 'z) thread" where
  "run_handler_prog R T B registry callbacks h body = (case h of
     HandleHealth \<Rightarrow> p_ret (Handled (writeJSON 200 HealthBody))
   | HandleGateways \<Rightarrow> answered (handleGateways_prog R)
   | HandleInitiate \<Rightarrow> answered (handleInitiate_prog R T B registry body)
   | HandleCallback \<Rightarrow> answered (handleCallback_prog R T B callbacks body))"

definition Router_ServeHTTP_prog :: "'h GatewayHealthRepository \<Rightarrow> 't TransactionRepository
    \<Rightarrow> 'b OrderGatewayBlacklistRepository \<Rightarrow> GatewayClientRegistry \<Rightarrow> GatewayCallbackDecoder option
    \<Rightarrow> Request \<Rightarrow> ('h, 'b, 't, 'z) thread" where
  "Router_ServeHTTP_prog R T B registry callbacks req =
     (case hq_Path req of
        None \<Rightarrow> p_ret Redirected
      | Some path \<Rightarrow>
          (case match_route (hq_Method req) path of
             Some h \<Rightarrow> run_handler_prog R T B registry callbacks h (hq_Body req)
           | None \<Rightarrow>
               (if allowed_methods path \<noteq> [] then p_ret (MethodNotAllowed (allowed_methods path))
                else p_ret NotFound)))"

section \<open>Alone, a program is the sequential method\<close>

lemma alone_state [alone_simps]:
  "alone (case st of GatewayStateHealthy \<Rightarrow> p | GatewayStateUnhealthy \<Rightarrow> q | GatewayStateHalfOpen \<Rightarrow> r
     | GatewayStateOther x \<Rightarrow> f x) =
   (case st of GatewayStateHealthy \<Rightarrow> alone p | GatewayStateUnhealthy \<Rightarrow> alone q
     | GatewayStateHalfOpen \<Rightarrow> alone r | GatewayStateOther x \<Rightarrow> alone (f x))"
  by (simp split: GatewayState.split)

lemmas branch_congs = if_cong option.case_cong sum.case_cong prod.case_cong GatewayState.case_cong
  request_body.case_cong handler.case_cong

lemma alone_body [alone_simps]:
  "alone (case body of ReadFails \<Rightarrow> p | Body payload \<Rightarrow> f payload) =
   (case body of ReadFails \<Rightarrow> alone p | Body payload \<Rightarrow> alone (f payload))"
  by (simp split: request_body.split)

lemma alone_health [alone_simps]:
  "alone (cachedState_prog R g now) = cachedState R g now"
  "alone (MarkProbeSelected_prog R g tid) = MarkProbeSelected R g tid"
  "alone (ReleaseProbe_prog R g tid) = ReleaseProbe R g tid"
  "alone (saveOutcome_prog R now stats st) = saveOutcome R now stats st"
  "alone (HealthService_State_prog R g) = HealthService_State R g"
  "alone (HealthService_Stats_prog R g) = HealthService_Stats R g"
  by (simp_all add: alone_simps Let_def cachedState_prog_def cachedState_def MarkProbeSelected_prog_def
      MarkProbeSelected_def ReleaseProbe_prog_def ReleaseProbe_def saveOutcome_prog_def saveOutcome_def
      HealthService_State_prog_def HealthService_State_def HealthService_Stats_prog_def
      HealthService_Stats_def cong: branch_congs)

lemma alone_PrepareForRouting [alone_simps]:
  "alone (PrepareForRouting_prog R g routing) = PrepareForRouting R g routing"
  by (simp add: alone_simps Let_def PrepareForRouting_prog_def PrepareForRouting_def
      cong: branch_congs)

lemma alone_RecordOutcome [alone_simps]:
  "alone (switchOutcome_prog R routing now g tid status stats st) =
     switchOutcome R routing now g tid status stats st"
  "alone (HealthService_RecordOutcome_prog R g tid status) = HealthService_RecordOutcome R g tid status"
  by (simp_all add: alone_simps Let_def switchOutcome_prog_def switchOutcome_def
      HealthService_RecordOutcome_prog_def HealthService_RecordOutcome_def cong: branch_congs)

lemma alone_snapshotLoop [alone_simps]:
  "alone (snapshotLoop_prog R routing gs snap) = snapshotLoop R routing gs snap"
  by (induction gs arbitrary: snap) (simp_all add: alone_simps cong: branch_congs)

lemma alone_routing [alone_simps]:
  "alone (snapshot_prog R) = snapshot R"
  "alone (selectHealthy_prog cs) = selectHealthy cs"
  "alone (SelectGateway_prog R req) = SelectGateway R req"
  by (simp_all add: alone_simps Let_def snapshot_prog_def snapshot_def selectHealthy_prog_def
      selectHealthy_def SelectGateway_prog_def SelectGateway_def cong: branch_congs)

lemma alone_orders [alone_simps]:
  "alone (OrderGatewayBlacklistService_BlacklistedGateways_prog B o_id) =
     OrderGatewayBlacklistService_BlacklistedGateways B o_id"
  "alone (OrderGatewayBlacklistService_RecordOutcome_prog B x) = OrderGatewayBlacklistService_RecordOutcome B x"
  "alone (blacklistedGateways_prog B o_id) = blacklistedGateways B o_id"
  by (simp_all add: alone_simps Let_def OrderGatewayBlacklistService_BlacklistedGateways_prog_def
      OrderGatewayBlacklistService_BlacklistedGateways_def OrderGatewayBlacklistService_RecordOutcome_prog_def
      OrderGatewayBlacklistService_RecordOutcome_def blacklistedGateways_prog_def blacklistedGateways_def
      cong: branch_congs)

lemma alone_failWith [alone_simps]:
  "alone (releaseProbe_prog R sel tid) = releaseProbe R sel tid"
  "alone (failWith_prog R sel tid err) = failWith R sel tid err"
  by (simp_all add: alone_simps releaseProbe_prog_def releaseProbe_def failWith_prog_def failWith_def
      cong: branch_congs)

lemma alone_transactions [alone_simps]:
  "alone (Initiate_prog R T B reg input) = Initiate R T B reg input"
  "alone (Callback_prog R T B callback) = Callback R T B callback"
  by (simp_all add: alone_simps Let_def Initiate_prog_def Initiate_def Callback_prog_def Callback_def
      cong: branch_congs)

lemma alone_gatewaysLoop [alone_simps]: "alone (gatewaysLoop_prog R gs acc) = gatewaysLoop R gs acc"
  by (induction gs arbitrary: acc) (simp_all add: alone_simps cong: branch_congs)

lemma alone_handlers [alone_simps]:
  "alone (handleGateways_prog R) = handleGateways R"
  "alone (handleInitiate_prog R T B reg body) = handleInitiate R T B reg body"
  "alone (processCallback_prog R T B callback) = processCallback R T B callback"
  "alone (handleCallback_prog R T B decs body) = handleCallback R T B decs body"
  by (simp_all add: alone_simps Let_def handleGateways_prog_def handleGateways_def handleInitiate_prog_def
      handleInitiate_def processCallback_prog_def processCallback_def handleCallback_prog_def
      handleCallback_def cong: branch_congs)

lemma alone_answered [alone_simps]:
  "alone (answered p) = (\<lambda>s. case response_of (alone p) s of (resp, s') \<Rightarrow> (Inr (Handled resp), s'))"
  by (rule ext) (simp add: answered_def alone_simps response_of_def onError_def split: prod.split sum.split)

text \<open>
  A request whose steps nothing interrupts gets the answer and leaves the state of the sequential
  handlers: with every repository, registry and decoder, the program of atomic steps of
  a request, run alone, is the server's function of the sequential model.
\<close>
lemma alone_is_sequential:
  "alone (Router_ServeHTTP_prog R T B registry callbacks req) s =
    (case Router_ServeHTTP R T B registry callbacks req s of (ans, s') \<Rightarrow> (Inr ans, s'))"
  by (simp add: Router_ServeHTTP_prog_def Router_ServeHTTP_def run_handler_prog_def run_handler_def
      alone_simps handleHealth_def response_of_def split: option.split handler.split prod.split sum.split
      cong: if_cong)

end
