(* ===== verification/ConcurrentQuiet.thy ===== *)
theory ConcurrentQuiet
  imports ConcurrentServices
begin

text \<open>
  The steps of the requests, over the memory repositories, that touch neither the transactions nor the counters of the
  orders nor the events of the gateways: all but \<open>NextAttempt\<close>, \<open>Save\<close> and \<open>Complete\<close> of the
  transactions, \<open>RecordEvent\<close> and \<open>RecordOutcome\<close>. The locale has the programs made of such steps
  for every invariant that does not look at anything else.
\<close>

section \<open>Silent steps\<close>

definition same_accounts :: "System \<Rightarrow> System \<Rightarrow> bool" where
  "same_accounts s s' \<longleftrightarrow> env_config s' = env_config s \<and> ts_transactions s' = ts_transactions s \<and>
     bs_repository s' = bs_repository s \<and> mh_events (hs_repository s') = mh_events (hs_repository s) \<and>
     ts_hasOrderGateways s' = ts_hasOrderGateways s \<and>
     dom (mh_states (hs_repository s)) \<subseteq> dom (mh_states (hs_repository s'))"

definition silent :: "(System, 'e, 'a) proc \<Rightarrow> bool" where
  "silent m \<longleftrightarrow> (\<forall>s r s'. m s = (r, s') \<longrightarrow> same_accounts s s')"

named_theorems silent_steps "steps that leave the accounts alone"

lemma silentD: "silent m \<Longrightarrow> m s = (r, s') \<Longrightarrow> same_accounts s s'"
  by (simp add: silent_def)

lemma silent_env [silent_steps]:
  "silent Clock_Now" "silent ConfigProvider_Current" "silent (IDGenerator_NewID p)" "silent (gets f)"
  "silent (setCachedState st now)" "silent (modify (\<lambda>s. s\<lparr>rs_cache := sn\<rparr>))" "silent invalidateCache"
  "silent (selectWeighted cs)"
  by (auto simp: silent_def same_accounts_def Clock_Now_def ConfigProvider_Current_def IDGenerator_NewID_def gets_def
      setCachedState_def modify_def invalidateCache_def selectWeighted_def Let_def)

lemma silent_on_repo:
  assumes "\<And>h. mh_events (snd (m h)) = mh_events h" "\<And>h. dom (mh_states h) \<subseteq> dom (mh_states (snd (m h)))"
  shows "silent (on_repo m)"
  unfolding silent_def
proof (intro allI impI)
  fix s s' :: System and r assume run: "on_repo m s = (r, s')"
  obtain r' h where h: "m (hs_repository s) = (r', h)" by fastforce
  with run have "s' = s\<lparr>hs_repository := h\<rparr>" by (simp add: on_repo_def)
  with assms [of "hs_repository s"] h show "same_accounts s s'" by (simp add: same_accounts_def)
qed

lemma silent_repo [silent_steps]:
  "silent (on_repo (MemHealth_Ensure g now))" "silent (on_repo (MemHealth_Get g))"
  "silent (on_repo (MemHealth_Save st))" "silent (on_repo (MemHealth_PruneExpiredHalfOpenProbes g now))"
  "silent (on_repo (MemHealth_TryAcquireHalfOpenProbe g tid n e now))"
  "silent (on_repo (MemHealth_ReleaseHalfOpenProbe g tid now))"
  "silent (on_repo (MemHealth_StatsSince g a b d))"
  by (rule silent_on_repo; auto simp: events_MemHealth MemHealth_store_defs MemHealth_probe_defs Let_def
      split: option.splits if_splits)+

lemma silent_repositories [silent_steps]:
  "silent (on_orders (MemBlacklist_BlacklistedGateways o_id))" "silent (on_txns (MemTx_GetByID i))"
  by (auto simp: silent_def same_accounts_def on_orders_def on_txns_def MemBlacklist_BlacklistedGateways_def MemTx_GetByID_def
      split: option.splits)

section \<open>Programs of silent steps\<close>

locale silent_frame =
  fixes I :: "'k multiset \<Rightarrow> System \<Rightarrow> bool" and mv :: "System \<Rightarrow> System \<Rightarrow> bool"
  assumes frame: "same_accounts s s' \<Longrightarrow> (I M s \<longrightarrow> I M s') \<and> mv s s'"
begin

lemma silent_quiet [quiet_intros]: "silent m \<Longrightarrow> quiet I mv (atom m)"
  by (rule quiet_atom) (metis silentD frame)

lemma abides_total:
  assumes "silent m" "\<And>s. K s \<Longrightarrow> \<exists>x s'. m s = (Inr x, s')" "\<And>x. abides I mv R (f x) M K"
  shows "abides I mv R (p_andThen (atom m) f) M K"
proof (rule abides_atom_andThen)
  fix s F r s' assume K: "stable mv K" "K s" and m: "m s = (r, s')"
  note sil = frame [OF silentD [OF assms(1) m]]
  from assms(2) [OF K(2)] m obtain x where "r = Inr x" by auto
  moreover have "K s'" using K sil by (auto simp: stable_def)
  ultimately show "\<exists>M' K'. (\<forall>F. I (M + F) s \<longrightarrow> I (M' + F) s') \<and> mv s s' \<and> stable mv K' \<and>
      K' s' \<and> (case r of Inl e \<Rightarrow> R (Inl e) M' K' | Inr x \<Rightarrow> abides I mv R (f x) M' K')"
    using K(1) sil assms(3) by (intro exI [of _ M] exI [of _ K]) simp
qed

lemma quiet_health [quiet_intros]:
  "quiet I mv (cachedState_prog MemHealth g now)"
  "quiet I mv (MarkProbeSelected_prog MemHealth g tid)"
  "quiet I mv (ReleaseProbe_prog MemHealth g tid)"
  "quiet I mv (HealthService_State_prog MemHealth g)"
  "quiet I mv (HealthService_Stats_prog MemHealth g)"
  unfolding cachedState_prog_def MarkProbeSelected_prog_def ReleaseProbe_prog_def
    HealthService_State_prog_def HealthService_Stats_prog_def Let_def MemHealth_simps
  by (intro quiet_intros silent_steps)+

lemma quiet_PrepareForRouting [quiet_intros]: "quiet I mv (PrepareForRouting_prog MemHealth g routing)"
  unfolding PrepareForRouting_prog_def Let_def MemHealth_simps by (intro quiet_intros silent_steps)

lemma quiet_snapshotLoop [quiet_intros]: "quiet I mv (snapshotLoop_prog MemHealth routing gs sn)"
  by (induction gs arbitrary: sn) (auto intro!: quiet_intros)

lemma quiet_selectHealthy [quiet_intros]: "quiet I mv (selectHealthy_prog cs)"
  unfolding selectHealthy_prog_def by (intro quiet_intros silent_steps)

lemma quiet_SelectGateway [quiet_intros]: "quiet I mv (SelectGateway_prog MemHealth req)"
  unfolding SelectGateway_prog_def snapshot_prog_def Let_def by (intro quiet_intros silent_steps)

lemma quiet_blacklistedGateways [quiet_intros]: "quiet I mv (blacklistedGateways_prog MemBlacklist o_id)"
  unfolding blacklistedGateways_prog_def OrderGatewayBlacklistService_BlacklistedGateways_prog_def
    MemBlacklist_simps by (intro quiet_intros silent_steps)

lemma quiet_failWith [quiet_intros]: "quiet I mv (failWith_prog MemHealth sel tid err)"
  unfolding failWith_prog_def releaseProbe_prog_def by (intro quiet_intros)

lemma quiet_gatewaysLoop [quiet_intros]: "quiet I mv (gatewaysLoop_prog MemHealth gs acc)"
  by (induction gs arbitrary: acc) (auto intro!: quiet_intros)

lemma quiet_handleGateways [quiet_intros]: "quiet I mv (handleGateways_prog MemHealth)"
  unfolding handleGateways_prog_def Let_def by (intro quiet_intros silent_steps)

lemma quiet_switchOutcome [quiet_intros]:
  "quiet I mv (switchOutcome_prog MemHealth routing now g tid status stats st)"
  by (cases "rt_State st"; simp only: switchOutcome_prog_def saveOutcome_prog_def GatewayState.case MemHealth_simps;
      intro quiet_intros silent_steps)

lemma quiet_HealthService_RecordOutcome:
  assumes "\<And>ev keep. quiet I mv (atom (on_repo (MemHealth_RecordEvent ev keep)))"
  shows "quiet I mv (HealthService_RecordOutcome_prog MemHealth g tid status)"
  unfolding HealthService_RecordOutcome_prog_def Let_def MemHealth_simps
  by (intro assms quiet_intros silent_steps)

lemma quiet_releaseProbe [quiet_intros]: "quiet I mv (releaseProbe_prog MemHealth sel tid)"
  unfolding releaseProbe_prog_def by (intro quiet_intros)

end

end
