(* ===== verification/ConcurrentAccounts.thy ===== *)
theory ConcurrentAccounts
  imports ConcurrentQuiet
begin

text \<open>
  The accounts of the program while requests interleave, over the memory repositories. A request owns a permit for
  what it has begun and not yet finished: a callback that completed a transaction owes the event
  and the order's counter, an initiation holds its attempt number until it saves. With the permits
  the accounts balance after every step of every request.
\<close>

section \<open>What steps do to the transactions\<close>

text \<open>What may become of a stored transaction.\<close>

definition later :: "Transaction \<Rightarrow> Transaction \<Rightarrow> bool" where
  "later x y \<longleftrightarrow> y = x \<or> \<not> IsFinal (tx_Status x) \<and>
     (\<exists>now st reason. IsFinal st \<and> y = completed_at now st reason x)"

definition moves :: "System \<Rightarrow> System \<Rightarrow> bool" where
  "moves s s' \<longleftrightarrow> env_config s' = env_config s \<and> dom (mh_states (hs_repository s)) \<subseteq> dom (mh_states (hs_repository s')) \<and>
     (\<forall>i x. mt_transactions (ts_transactions s) i = Some x \<longrightarrow>
       (\<exists>y. mt_transactions (ts_transactions s') i = Some y \<and> later x y))"

lemma later_refl [simp]: "later x x"
  by (simp add: later_def)

lemma later_final: "later x y \<Longrightarrow> IsFinal (tx_Status x) \<Longrightarrow> y = x"
  by (simp add: later_def)

lemma later_trans: "later x y \<Longrightarrow> later y z \<Longrightarrow> later x z"
  by (auto simp: later_def)

lemma later_fields: "later x y \<Longrightarrow> tx_ID y = tx_ID x \<and> tx_OrderID y = tx_OrderID x \<and>
    tx_AttemptNo y = tx_AttemptNo x \<and> tx_Gateway y = tx_Gateway x"
  by (auto simp: later_def)

text \<open>What a request may remember of the state.\<close>

definition known :: "Transaction \<Rightarrow> System \<Rightarrow> bool" where
  "known x s \<longleftrightarrow> (\<exists>y. mt_transactions (ts_transactions s) (tx_ID x) = Some y \<and> later x y)"

definition config_known :: "AppConfig \<Rightarrow> System \<Rightarrow> bool" where
  "config_known cfg s \<longleftrightarrow> (\<exists>k. env_config s k = cfg)"

definition gateway_known :: "string \<Rightarrow> System \<Rightarrow> bool" where
  "gateway_known g s \<longleftrightarrow> g \<in> dom (mh_states (hs_repository s))"

lemma stable_known: "stable moves (known x)"
  unfolding stable_def moves_def known_def using later_trans by meson

lemma stable_config_known: "stable moves (config_known cfg)"
  by (auto simp: stable_def moves_def config_known_def)

lemma stable_gateway_known: "stable moves (gateway_known g)"
  by (auto simp: stable_def moves_def gateway_known_def)

lemma known_final:
  "known x s \<Longrightarrow> IsFinal (tx_Status x) \<Longrightarrow> mt_transactions (ts_transactions s) (tx_ID x) = Some x"
  by (auto simp: known_def dest: later_final)

section \<open>Accounts with permits\<close>

datatype permit = HealthDue string | OrderDue string | Winner string | Creator string
  | AttemptHeld string int

text \<open>The outcomes that the counters of the orders have, or should have, counted.\<close>

definition counted :: "permit multiset \<Rightarrow> MemoryTransactions \<Rightarrow> string \<Rightarrow> string \<Rightarrow> TransactionStatus
    \<Rightarrow> string set" where
  "counted M t o_id g st = {i \<in> outcomes t o_id g st. OrderDue i \<notin># M}"

fun permit_ok :: "System \<Rightarrow> permit \<Rightarrow> bool" where
  "permit_ok s (HealthDue i) \<longleftrightarrow> final_at i (ts_transactions s) \<and>
     i \<notin> ge_TransactionID ` set (mh_events (hs_repository s))"
| "permit_ok s (OrderDue i) \<longleftrightarrow> final_at i (ts_transactions s)"
| "permit_ok s (Winner i) \<longleftrightarrow> final_at i (ts_transactions s)"
| "permit_ok s (Creator i) \<longleftrightarrow> i \<in> dom (mt_transactions (ts_transactions s))"
| "permit_ok s (AttemptHeld o_id n) \<longleftrightarrow> 1 \<le> n \<and> n \<le> MemTx_attempts (ts_transactions s) o_id \<and>
     (\<forall>i x. mt_transactions (ts_transactions s) i = Some x \<longrightarrow> tx_OrderID x = o_id \<longrightarrow> tx_AttemptNo x \<noteq> n)"

text \<open>Under a constant threshold the blacklist says what the counters say.\<close>

definition blacklist_ok :: "System \<Rightarrow> bool" where
  "blacklist_ok s \<longleftrightarrow> (\<forall>n. threshold_is n s \<longrightarrow> blacklist_exact n (bs_repository s))"

definition accounts :: "permit multiset \<Rightarrow> System \<Rightarrow> bool" where
  "accounts M s \<longleftrightarrow> stored_ok (ts_transactions s) \<and> attempts_ok (ts_transactions s) \<and>
     events_ok (ts_transactions s) (mh_events (hs_repository s)) \<and> ts_hasOrderGateways s \<and>
     blacklist_ok s \<and> (\<forall>p. count M p \<le> 1) \<and> (\<forall>p \<in># M. permit_ok s p) \<and>
     (\<forall>o_id g.
       failures_of (bs_repository s) o_id g =
         int (card (counted M (ts_transactions s) o_id g TransactionStatusFailure)) \<and>
       successes_of (bs_repository s) o_id g =
         int (card (counted M (ts_transactions s) o_id g TransactionStatusSuccess)))"

lemma accountsD:
  assumes "accounts M s"
  shows "stored_ok (ts_transactions s)" "attempts_ok (ts_transactions s)"
    "events_ok (ts_transactions s) (mh_events (hs_repository s))" "ts_hasOrderGateways s"
    "count M p \<le> 1" "p \<in># M \<Longrightarrow> permit_ok s p"
    "failures_of (bs_repository s) o_id g = int (card (counted M (ts_transactions s) o_id g TransactionStatusFailure))"
    "successes_of (bs_repository s) o_id g = int (card (counted M (ts_transactions s) o_id g TransactionStatusSuccess))"
    "blacklist_ok s"
  using assms by (auto simp: accounts_def)

lemma counted_finite: "stored_ok t \<Longrightarrow> finite (counted M t o_id g st)"
  unfolding counted_def using outcomes_finite by simp

text \<open>Without permits, these are the accounts of the sequential program.\<close>

definition balanced :: "System \<Rightarrow> bool" where
  "balanced s \<longleftrightarrow> accounts_ok s \<and> blacklist_ok s"

lemma reachable_balanced: "reachable reg s \<Longrightarrow> balanced s"
  using reachable_inv reachable_blacklist by (auto simp: balanced_def sys_inv_def blacklist_ok_def)

lemma accounts_none: "accounts {#} s \<longleftrightarrow> balanced s"
  unfolding balanced_def by (auto simp: accounts_def accounts_ok_def counters_ok_def counted_def)

lemma accounts_done:
  assumes "accounts M s" "\<forall>p \<in># M. \<forall>i. p \<noteq> OrderDue i"
  shows "balanced s"
proof -
  have "counted M t o_id g st = outcomes t o_id g st" for t o_id g st
    using assms(2) by (auto simp: counted_def)
  then show ?thesis using accountsD [OF assms(1)] by (simp add: balanced_def accounts_ok_def counters_ok_def)
qed

lemma accounts_bounds:
  assumes "accounts M s"
  shows "failures_of (bs_repository s) o_id g \<le>
      int (card (outcomes (ts_transactions s) o_id g TransactionStatusFailure))"
    "successes_of (bs_repository s) o_id g \<le>
      int (card (outcomes (ts_transactions s) o_id g TransactionStatusSuccess))"
  using accountsD(7,8) [OF assms, of o_id g]
    outcomes_finite [OF accountsD(1) [OF assms], of o_id g]
  by (auto simp: counted_def intro!: card_mono)

text \<open>A permit belongs to one owner.\<close>

lemma permit_unique:
  assumes "accounts (A + B) s" "p \<in># A"
  shows "p \<notin># B"
proof
  assume "p \<in># B"
  with assms(2) have "1 \<le> count A p" "1 \<le> count B p" by (simp_all add: Suc_le_eq)
  with accountsD(5) [OF assms(1), of p] show False by simp
qed

lemma accounts_cong:
  assumes "same_accounts s s'"
  shows "accounts M s' = accounts M s"
proof -
  have "permit_ok s' p = permit_ok s p" for p using assms by (cases p) (simp_all add: same_accounts_def)
  then show ?thesis using assms by (simp add: accounts_def blacklist_ok_def threshold_is_def same_accounts_def)
qed

lemma same_accounts_moves: "same_accounts s s' \<Longrightarrow> moves s s'"
  by (simp add: same_accounts_def moves_def)

interpretation acc: silent_frame accounts moves
  by unfold_locales (simp add: accounts_cong same_accounts_moves)

section \<open>Steps that earn and spend permits\<close>

lemma counted_add [simp]:
  "counted (add_mset (OrderDue i) M) t o_id g st = counted M t o_id g st - {i}"
  "counted (add_mset (HealthDue i) M) t o_id g st = counted M t o_id g st"
  "counted (add_mset (Winner i) M) t o_id g st = counted M t o_id g st"
  "counted (add_mset (Creator i) M) t o_id g st = counted M t o_id g st"
  "counted (add_mset (AttemptHeld o2 n) M) t o_id g st = counted M t o_id g st"
  by (auto simp: counted_def)

lemma count_le1_add: "q \<notin># M \<Longrightarrow> \<forall>p. count M p \<le> 1 \<Longrightarrow> \<forall>p. count (add_mset q M) p \<le> 1"
  by (simp add: not_in_iff)

lemma count_le1_drop:
  assumes "\<forall>p. count (add_mset q M) p \<le> 1"
  shows "(\<forall>p. count M p \<le> 1) \<and> q \<notin># M"
proof (intro conjI allI)
  show "count M p \<le> 1" for p using assms [rule_format, of p] by (simp split: if_splits)
  show "q \<notin># M" using assms [rule_format, of q] by (simp add: not_in_iff)
qed

lemma spend:
  assumes "accounts (add_mset q M) s"
  shows "\<forall>p. count M p \<le> 1" "q \<notin># M" "\<forall>p \<in># M. permit_ok s p" "permit_ok s q"
  using count_le1_drop [of q M] assms by (auto simp: accounts_def)

lemma earn_attempt:
  assumes acc: "accounts M s" and run: "MemTx_NextAttempt o_id (ts_transactions s) = (Inr n, t')"
  shows "accounts (add_mset (AttemptHeld o_id n) M) (s\<lparr>ts_transactions := t'\<rparr>)"
    "moves s (s\<lparr>ts_transactions := t'\<rparr>)"
proof -
  let ?t = "ts_transactions s" and ?s = "s\<lparr>ts_transactions := t'\<rparr>"
  have "tr_NextAttempt MemTx o_id ?t = (Inr n, t')" using run by simp
  from memtx.NextAttempt_ok [OF this] have t': "n = MemTx_attempts ?t o_id + 1"
    "MemTx_attempts t' = (MemTx_attempts ?t)(o_id := n)" "mt_transactions t' = mt_transactions ?t" by auto
  note D = accountsD [OF acc]
  have new: "AttemptHeld o_id n \<notin># M" using D(6) [of "AttemptHeld o_id n"] t'(1) by auto
  have "permit_ok ?s p" if "p \<in># M" for p
    using D(6) [OF that] by (cases p) (auto simp: final_at_def t')
  moreover have "permit_ok ?s (AttemptHeld o_id n)"
    using D(2) by (auto simp: t' attempts_ok_def) fastforce
  moreover have "attempts_ok t'" using D(2) by (fastforce simp: attempts_ok_def t')
  moreover have "counted M t' o2 g st = counted M ?t o2 g st" for o2 g st
    by (simp add: counted_def outcomes_cong [OF t'(3)])
  ultimately show "accounts (add_mset (AttemptHeld o_id n) M) ?s"
    using acc count_le1_add [OF new] unfolding accounts_def
    by (simp add: stored_ok_def events_ok_def event_ok_def blacklist_ok_def threshold_is_def t'(3))
  show "moves s ?s" by (simp add: moves_def t')
qed

lemma spend_attempt:
  assumes acc: "accounts (add_mset (AttemptHeld (tx_OrderID x) (tx_AttemptNo x)) M) s"
    and run: "MemTx_Save x (ts_transactions s) = (Inr u, t')" and x: "tx_Status x = TransactionStatusPending"
  shows "accounts (add_mset (Creator (tx_ID x)) M) (s\<lparr>ts_transactions := t'\<rparr>)"
    "moves s (s\<lparr>ts_transactions := t'\<rparr>)" "known x (s\<lparr>ts_transactions := t'\<rparr>)"
proof -
  let ?t = "ts_transactions s" and ?s = "s\<lparr>ts_transactions := t'\<rparr>"
  have "tr_Save MemTx x ?t = (Inr u, t')" using run by simp
  from memtx.Save_ok [OF this] have t': "mt_transactions ?t (tx_ID x) = None"
    "mt_transactions t' = (mt_transactions ?t)(tx_ID x \<mapsto> x)" "MemTx_attempts t' = MemTx_attempts ?t" by auto
  note D = accountsD [OF acc] and sp = spend [OF acc]
  have new: "Creator (tx_ID x) \<notin># M" using D(6) [of "Creator (tx_ID x)"] t'(1) by auto
  have "permit_ok ?s p" if "p \<in># M" for p
    using sp(2) bspec [OF sp(3) that] that t' by (cases p) (auto simp: final_at_def)
  moreover have "permit_ok ?s (Creator (tx_ID x))" by (simp add: t')
  moreover have "attempts_ok t'" using D(2) sp(4) unfolding attempts_ok_def t' by auto metis
  moreover have "stored_ok t'" using D(1) by (simp add: stored_ok_def t')
  moreover have "events_ok t' (mh_events (hs_repository s))"
    using D(3) t'(1) by (fastforce simp: events_ok_def event_ok_def t'(2))
  moreover have "counted M t' o_id g st = counted M ?t o_id g st" if "IsFinal st" for o_id g st
    using outcomes_upd(1) [OF t'(2) _ that, of o_id g] x t'(1) that by (auto simp: counted_def)
  ultimately show "accounts (add_mset (Creator (tx_ID x)) M) ?s"
    using acc count_le1_add [OF new sp(1)] sp(3) unfolding accounts_def
    by (simp add: blacklist_ok_def threshold_is_def)
  show "moves s ?s" using t' by (auto simp: moves_def)
  show "known x ?s" by (simp add: known_def t')
qed

lemma earn_outcome:
  assumes acc: "accounts M s" and run: "MemTx_Complete i st reason now (ts_transactions s) = (Inr (y, True), t')"
  shows "accounts (add_mset (HealthDue i) (add_mset (OrderDue i) (add_mset (Winner i) M)))
      (s\<lparr>ts_transactions := t'\<rparr>)"
    "moves s (s\<lparr>ts_transactions := t'\<rparr>)" "known y (s\<lparr>ts_transactions := t'\<rparr>)" "IsFinal (tx_Status y)" "tx_ID y = i"
proof -
  let ?t = "ts_transactions s" and ?s = "s\<lparr>ts_transactions := t'\<rparr>"
  have "tr_Complete MemTx i st reason now ?t = (Inr (y, True), t')" using run by simp
  from memtx.Complete_changed [OF this] obtain x where t': "IsFinal st" "MemTx_attempts t' = MemTx_attempts ?t"
    "mt_transactions ?t i = Some x" "\<not> IsFinal (tx_Status x)" "y = completed_at now st reason x"
    "mt_transactions t' = (mt_transactions ?t)(i \<mapsto> y)" by (auto simp: completed_at_def)
  note D = accountsD [OF acc]
  have notfin: "\<not> final_at i ?t" using t' by (simp add: final_at_def)
  have id: "tx_ID x = i" using D(1) t'(3) by (simp add: stored_ok_def)
  have noev: "i \<notin> ge_TransactionID ` set (mh_events (hs_repository s))"
    using D(3) t'(3,4) by (auto simp: events_ok_def event_ok_def)
  have new: "HealthDue i \<notin># M" "OrderDue i \<notin># M" "Winner i \<notin># M"
    using D(6) [of "HealthDue i"] D(6) [of "OrderDue i"] D(6) [of "Winner i"] notfin by auto
  have "permit_ok ?s p" if "p \<in># M" for p
    using D(6) [OF that] t' notfin by (cases p) (auto simp: final_at_def)
  moreover have "permit_ok ?s (HealthDue i)" "permit_ok ?s (OrderDue i)" "permit_ok ?s (Winner i)"
    using noev t' by (simp_all add: final_at_def)
  moreover have "attempts_ok t'" by (rule attempts_ok_completed [OF D(2) t'(3,6,2)]) (simp_all add: t'(5))
  moreover have "stored_ok t'" using D(1) id t' by (simp add: stored_ok_def)
  moreover have "events_ok t' (mh_events (hs_repository s))"
    using D(3) noev by (auto simp: events_ok_def event_ok_def t'(6))
  moreover have "counted M t' o_id g st' - {i} = counted M ?t o_id g st'" if "IsFinal st'" for o_id g st'
    using outcomes_upd [OF t'(6) _ that, of o_id g] t'(3,4) by (auto simp: counted_def)
  moreover have "\<forall>p. count (add_mset (HealthDue i) (add_mset (OrderDue i) (add_mset (Winner i) M))) p \<le> 1"
    using acc new by (intro count_le1_add) (simp_all add: accounts_def)
  ultimately show "accounts (add_mset (HealthDue i) (add_mset (OrderDue i) (add_mset (Winner i) M))) ?s"
    using acc unfolding accounts_def by (simp add: blacklist_ok_def threshold_is_def)
  show "moves s ?s" using t' by (auto simp: moves_def later_def)
  show "known y ?s" using id t'(5,6) by (simp add: known_def)
  show "IsFinal (tx_Status y)" "tx_ID y = i" using t'(1,5) id by simp_all
qed

lemma spend_health:
  assumes acc: "accounts (add_mset (HealthDue i) M) s"
    and y: "mt_transactions (ts_transactions s) i = Some y" "IsFinal (tx_Status y)"
    and run: "MemHealth_RecordEvent \<lparr>ge_Gateway = tx_Gateway y, ge_TransactionID = i,
        ge_Status = tx_Status y, ge_CreatedAt = now\<rparr> keep (hs_repository s) = (r, h')"
  shows "accounts M (s\<lparr>hs_repository := h'\<rparr>)" "moves s (s\<lparr>hs_repository := h'\<rparr>)" "r = Inr ()"
proof -
  let ?es = "mh_events (hs_repository s)" and ?s = "s\<lparr>hs_repository := h'\<rparr>"
  let ?e = "\<lparr>ge_Gateway = tx_Gateway y, ge_TransactionID = i, ge_Status = tx_Status y, ge_CreatedAt = now\<rparr>"
  from run obtain kept where h': "mh_events h' = filter kept ?es @ [?e]" "mh_states h' = mh_states (hs_repository s)"
    and r: "r = Inr ()" by (auto simp: MemHealth_RecordEvent_def Let_def)
  note D = accountsD [OF acc] and sp = spend [OF acc]
  have noev: "i \<notin> ge_TransactionID ` set ?es" using sp(4) by simp
  have "distinct (map ge_TransactionID (filter kept ?es))"
    using D(3) by (simp add: events_ok_def distinct_map_filter)
  then have "events_ok (ts_transactions s) (mh_events h')"
    using D(3) noev y by (auto simp: events_ok_def event_ok_def h')
  moreover have "permit_ok ?s p" if "p \<in># M" for p
    using bspec [OF sp(3) that] sp(2) that by (cases p) (auto simp: h')
  ultimately show "accounts M ?s" using acc sp(1) unfolding accounts_def
    by (simp add: blacklist_ok_def threshold_is_def)
  show "moves s ?s" by (simp add: moves_def h')
  show "r = Inr ()" by (rule r)
qed

lemma spend_order:
  assumes acc: "accounts (add_mset (OrderDue i) M) s"
    and y: "mt_transactions (ts_transactions s) i = Some y" "IsFinal (tx_Status y)"
    and cfg: "config_known cfg s"
    and run: "MemBlacklist_RecordOutcome (tx_OrderID y) (tx_Gateway y) (tx_Status y)
        (rc_OrderGatewayFailureThreshold (ac_Routing (WithDefaults cfg))) now (bs_repository s) = (r, b')"
  shows "accounts M (s\<lparr>bs_repository := b'\<rparr>)" "moves s (s\<lparr>bs_repository := b'\<rparr>)" "\<exists>x. r = Inr x"
proof -
  let ?b = "bs_repository s" and ?t = "ts_transactions s" and ?s = "s\<lparr>bs_repository := b'\<rparr>"
  from run y(2) obtain summary newly where r: "r = Inr (summary, newly)"
    by (auto simp: MemBlacklist_RecordOutcome_def Let_def)
  with run have rec_run: "or_RecordOutcome MemBlacklist (tx_OrderID y) (tx_Gateway y) (tx_Status y)
      (rc_OrderGatewayFailureThreshold (ac_Routing (WithDefaults cfg))) now ?b = (Inr (summary, newly), b')" by simp
  note rec = memblacklist.RecordOutcome_ok [OF rec_run]
  note D = accountsD [OF acc] and sp = spend [OF acc]
  have "blacklist_exact n b'" if n: "threshold_is n s" for n
  proof (rule blacklist_exact_step)
    show "blacklist_exact n ?b" using D(9) n by (simp add: blacklist_ok_def)
    show "or_RecordOutcome MemBlacklist (tx_OrderID y) (tx_Gateway y) (tx_Status y) n now ?b = (Inr (summary, newly), b')"
      using rec_run cfg n by (auto simp: config_known_def threshold_is_def)
  qed (use threshold_pos [OF n] D(8) in simp_all)
  then have bl: "blacklist_ok ?s" by (simp add: blacklist_ok_def threshold_is_def)
  have card: "int (card (counted M ?t o_id g st)) = int (card (counted (add_mset (OrderDue i) M) ?t o_id g st)) +
      (if o_id = tx_OrderID y \<and> g = tx_Gateway y \<and> st = tx_Status y then 1 else 0)" for o_id g st
  proof -
    have "i \<in> outcomes ?t o_id g st \<longleftrightarrow> o_id = tx_OrderID y \<and> g = tx_Gateway y \<and> st = tx_Status y"
      using y(1) by (auto simp: outcomes_def)
    then have i: "i \<in> counted M ?t o_id g st \<longleftrightarrow> o_id = tx_OrderID y \<and> g = tx_Gateway y \<and> st = tx_Status y"
      using sp(2) by (simp add: counted_def)
    show ?thesis using i counted_finite [OF D(1), of M o_id g st]
      by (simp add: card_Diff_singleton_if) (metis Suc_pred card_gt_0_iff empty_iff of_nat_Suc add.commute)
  qed
  have "permit_ok ?s p" if "p \<in># M" for p using bspec [OF sp(3) that] by (cases p) simp_all
  moreover have "failures_of b' o_id g = int (card (counted M ?t o_id g TransactionStatusFailure)) \<and>
      successes_of b' o_id g = int (card (counted M ?t o_id g TransactionStatusSuccess))" for o_id g
    using D(7,8) [of o_id g] rec by (auto simp: card)
  ultimately show "accounts M ?s" using acc sp(1) bl unfolding accounts_def by simp
  show "moves s ?s" by (simp add: moves_def)
  show "\<exists>x. r = Inr x" by (simp add: r)
qed

end
