(* ===== verification/ConcurrentRequests.thy ===== *)
theory ConcurrentRequests
  imports ConcurrentAccounts
begin

text \<open>
  Any number of requests at once: which permits a request owns when it is answered, and what follows for
  every schedule of the server's goroutines.
\<close>

section \<open>Steps that return a value\<close>

lemma runs_total:
  "\<exists>x s'. Clock_Now s = (Inr x, s')" "\<exists>x s'. ConfigProvider_Current s = (Inr x, s')"
  "\<exists>x s'. setCachedState st now s = (Inr x, s')" "\<exists>x s'. gets f s = (Inr x, s')"
  "\<exists>x s'. on_repo (MemHealth_Save st) s = (Inr x, s')"
  "\<exists>x s'. on_repo (MemHealth_StatsSince g a b d) s = (Inr x, s')"
  by (simp_all add: Clock_Now_def ConfigProvider_Current_def setCachedState_def on_repo_def MemHealth_Save_def
      MemHealth_StatsSince_def)

lemma runs_known:
  assumes "gateway_known g s"
  shows "\<exists>x s'. on_repo (MemHealth_Get g) s = (Inr x, s')"
    "\<exists>x s'. on_repo (MemHealth_ReleaseHalfOpenProbe g tid now) s = (Inr x, s')"
  using assms by (auto simp: gateway_known_def on_repo_def MemHealth_Get_def MemHealth_ReleaseHalfOpenProbe_def
      Let_def)

section \<open>Callbacks\<close>

text \<open>A part that returns a value and leaves the permits as they were.\<close>

definition finishes :: "permit multiset \<Rightarrow> (System \<Rightarrow> bool) \<Rightarrow> 'e + 'a \<Rightarrow> permit multiset \<Rightarrow> (System \<Rightarrow> bool) \<Rightarrow> bool" where
  "finishes M K r M' K' \<longleftrightarrow> M' = M \<and> (\<forall>s. K' s \<longrightarrow> K s) \<and> (\<exists>x. r = Inr x)"

lemma finishes_simps [simp]:
  "finishes M K (Inr x) M' K' \<longleftrightarrow> M' = M \<and> (\<forall>s. K' s \<longrightarrow> K s)" "\<not> finishes M K (Inl e) M' K'"
  by (auto simp: finishes_def)

lemma abides_saveOutcome: "abides accounts moves (finishes M K) (saveOutcome_prog MemHealth now stats st) M K"
  unfolding saveOutcome_prog_def MemHealth_simps
  by (intro acc.abides_total silent_steps runs_total) simp

lemma abides_switchOutcome:
  assumes "\<And>s. K s \<Longrightarrow> gateway_known g s"
  shows "abides accounts moves (finishes M K) (switchOutcome_prog MemHealth routing now g tid status stats st) M K"
proof (cases "rt_State st")
  case GatewayStateHalfOpen
  have "abides accounts moves (finishes M K) (p_andThen (atom (setCachedState st' now)) (\<lambda>_. p_ret (st', stats))) M K" for st'
    by (intro acc.abides_total silent_steps runs_total) simp
  moreover have "\<exists>x s'. on_repo (MemHealth_ReleaseHalfOpenProbe g tid now) s = (Inr x, s')" if "K s" for s
    using runs_known(2) assms that by blast
  ultimately show ?thesis unfolding switchOutcome_prog_def GatewayStateHalfOpen GatewayState.case MemHealth_simps
    by (intro acc.abides_total silent_steps) (auto simp: abides_saveOutcome split: prod.split)
qed (simp_all add: switchOutcome_prog_def abides_saveOutcome)

lemma abides_Ensure:
  assumes "\<And>x. abides accounts moves R (f x) M (\<lambda>s. K s \<and> gateway_known g s)"
  shows "abides accounts moves R (p_andThen (atom (on_repo (MemHealth_Ensure g now))) f) M K"
proof (rule abides_atom_andThen)
  fix s F r s' assume K: "stable moves K" "K s" and m: "on_repo (MemHealth_Ensure g now) s = (r, s')"
  note sil = acc.frame [OF silentD [OF silent_repo(1) m]]
  have r: "r = Inr ()" "gateway_known g s'"
    using m by (auto simp: on_repo_def MemHealth_Ensure_def gateway_known_def split: option.splits)
  have "K s'" using K sil by (auto simp: stable_def)
  then show "\<exists>M' K'. (\<forall>F. accounts (M + F) s \<longrightarrow> accounts (M' + F) s') \<and> moves s s' \<and> stable moves K' \<and>
      K' s' \<and> (case r of Inl e \<Rightarrow> R (Inl e) M' K' | Inr x \<Rightarrow> abides accounts moves R (f x) M' K')"
    using K(1) sil r assms stable_conj [OF K(1) stable_gateway_known]
    by (intro exI [of _ M] exI [of _ "\<lambda>s. K s \<and> gateway_known g s"]) simp
qed

lemma abides_RecordEvent:
  assumes "\<And>s. K s \<Longrightarrow> known y s" "IsFinal (tx_Status y)" "abides accounts moves R (f ()) M K"
  shows "abides accounts moves R (p_andThen (atom (on_repo (MemHealth_RecordEvent \<lparr>ge_Gateway = tx_Gateway y,
      ge_TransactionID = tx_ID y, ge_Status = tx_Status y, ge_CreatedAt = now\<rparr> keep))) f) (add_mset (HealthDue (tx_ID y)) M) K"
proof (rule abides_atom_andThen)
  let ?m = "MemHealth_RecordEvent \<lparr>ge_Gateway = tx_Gateway y, ge_TransactionID = tx_ID y,
     ge_Status = tx_Status y, ge_CreatedAt = now\<rparr> keep"
  fix s F r s' assume K: "stable moves K" "K s" and acc: "accounts (add_mset (HealthDue (tx_ID y)) M + F) s"
    and m: "on_repo ?m s = (r, s')"
  have y: "mt_transactions (ts_transactions s) (tx_ID y) = Some y"
    using known_final assms(1) [OF K(2)] assms(2) by blast
  obtain h' where h': "?m (hs_repository s) = (r, h')" "s' = s\<lparr>hs_repository := h'\<rparr>"
    using m by (auto simp: on_repo_def split: prod.splits)
  have step: "accounts (M + G) s' \<and> moves s s' \<and> r = Inr ()"
    if "accounts (add_mset (HealthDue (tx_ID y)) M + G) s" for G
    using spend_health [OF _ y assms(2) h'(1), of "M + G"] that h'(2) by simp
  have "K s'" using K step [OF acc] by (auto simp: stable_def)
  then show "\<exists>M' K'. (\<forall>F. accounts (add_mset (HealthDue (tx_ID y)) M + F) s \<longrightarrow> accounts (M' + F) s') \<and>
      moves s s' \<and> stable moves K' \<and> K' s' \<and>
      (case r of Inl e \<Rightarrow> R (Inl e) M' K' | Inr x \<Rightarrow> abides accounts moves R (f x) M' K')"
    using K(1) step step [OF acc] assms(3) by (intro exI [of _ M] exI [of _ K]) simp
qed

lemma abides_HealthService_RecordOutcome:
  assumes "IsFinal (tx_Status y)"
  shows "abides accounts moves (finishes M (\<lambda>s. known y s \<and> gateway_known (tx_Gateway y) s))
    (HealthService_RecordOutcome_prog MemHealth (tx_Gateway y) (tx_ID y) (tx_Status y))
    (add_mset (HealthDue (tx_ID y)) M) (known y)"
proof -
  let ?K = "\<lambda>s. known y s \<and> gateway_known (tx_Gateway y) s"
  have tail: "abides accounts moves (finishes M ?K)
      (p_andThen (atom (on_repo (MemHealth_Get (tx_Gateway y)))) (\<lambda>state.
       p_andThen (atom (on_repo (MemHealth_StatsSince (tx_Gateway y) a b d))) (\<lambda>stats.
       switchOutcome_prog MemHealth routing now (tx_Gateway y) (tx_ID y) (tx_Status y) stats state))) M ?K"
    for routing now a b d
    by (intro acc.abides_total silent_steps runs_total abides_switchOutcome) (use runs_known(1) in blast)+
  show ?thesis
    unfolding HealthService_RecordOutcome_prog_def Let_def MemHealth_simps if_P [OF assms]
    by (intro tail abides_Ensure abides_RecordEvent assms acc.abides_total silent_steps runs_total) simp
qed

lemma abides_Current:
  fixes f :: "AppConfig \<Rightarrow> (System, 'e, 'a) prog"
  assumes "\<And>cfg. abides accounts moves R (f cfg) M (\<lambda>s. K s \<and> config_known cfg s)"
  shows "abides accounts moves R (p_andThen (atom ConfigProvider_Current) f) M K"
proof (rule abides_atom_andThen)
  fix s F s' and r :: "'e + AppConfig"
  assume K: "stable moves K" "K s" and m: "ConfigProvider_Current s = (r, s')"
  note sil = acc.frame [OF silentD [OF silent_env(2) m]]
  let ?cfg = "env_config s (env_reads s)"
  have r: "r = Inr ?cfg" "config_known ?cfg s'" using m by (auto simp: ConfigProvider_Current_def config_known_def)
  have "K s'" using K sil by (auto simp: stable_def)
  then show "\<exists>M' K'. (\<forall>F. accounts (M + F) s \<longrightarrow> accounts (M' + F) s') \<and> moves s s' \<and> stable moves K' \<and>
      K' s' \<and> (case r of Inl e \<Rightarrow> R (Inl e) M' K' | Inr x \<Rightarrow> abides accounts moves R (f x) M' K')"
    using K(1) sil r assms stable_conj [OF K(1) stable_config_known]
    by (intro exI [of _ M] exI [of _ "\<lambda>s. K s \<and> config_known ?cfg s"]) simp
qed

lemma abides_order_outcome:
  assumes "\<And>s. K s \<Longrightarrow> known y s \<and> config_known cfg s" "IsFinal (tx_Status y)"
    "\<And>x. abides accounts moves R (f x) M K"
  shows "abides accounts moves R (p_andThen (atom (on_orders (MemBlacklist_RecordOutcome (tx_OrderID y)
      (tx_Gateway y) (tx_Status y) (rc_OrderGatewayFailureThreshold (ac_Routing (WithDefaults cfg))) now))) f)
    (add_mset (OrderDue (tx_ID y)) M) K"
proof (rule abides_atom_andThen)
  let ?m = "MemBlacklist_RecordOutcome (tx_OrderID y) (tx_Gateway y) (tx_Status y)
    (rc_OrderGatewayFailureThreshold (ac_Routing (WithDefaults cfg))) now"
  fix s F r s'
  assume K: "stable moves K" "K s" and acc: "accounts (add_mset (OrderDue (tx_ID y)) M + F) s"
    and m: "on_orders ?m s = (r, s')"
  have y: "mt_transactions (ts_transactions s) (tx_ID y) = Some y"
    using known_final assms(1) [OF K(2)] assms(2) by blast
  obtain b' where b': "?m (bs_repository s) = (r, b')" "s' = s\<lparr>bs_repository := b'\<rparr>"
    using m by (auto simp: on_orders_def split: prod.splits)
  have step: "accounts (M + G) s' \<and> moves s s' \<and> (\<exists>x. r = Inr x)"
    if "accounts (add_mset (OrderDue (tx_ID y)) M + G) s" for G
    using spend_order [OF _ y assms(2) _ b'(1), of "M + G"] assms(1) [OF K(2)] that b'(2) by simp
  have "K s'" using K step [OF acc] by (auto simp: stable_def)
  then show "\<exists>M' K'. (\<forall>F. accounts (add_mset (OrderDue (tx_ID y)) M + F) s \<longrightarrow> accounts (M' + F) s') \<and>
      moves s s' \<and> stable moves K' \<and> K' s' \<and> (case r of Inl e \<Rightarrow> R (Inl e) M' K'
        | Inr x \<Rightarrow> abides accounts moves R (f x) M' K')"
    using K(1) step step [OF acc] assms(3) by (intro exI [of _ M] exI [of _ K]) auto
qed

lemma abides_Service_RecordOutcome:
  assumes "\<And>s. K s \<Longrightarrow> known y s" "IsFinal (tx_Status y)"
  shows "abides accounts moves (finishes M K) (OrderGatewayBlacklistService_RecordOutcome_prog MemBlacklist y)
    (add_mset (OrderDue (tx_ID y)) M) K"
  unfolding OrderGatewayBlacklistService_RecordOutcome_prog_def Let_def MemBlacklist_simps
proof (rule abides_Current, rule acc.abides_total [OF silent_env(1) runs_total(1)], rule abides_order_outcome)
  fix current s assume "K s \<and> config_known current s"
  with assms(1) show "known y s \<and> config_known current s" by blast
qed (use assms(2) in simp_all)

text \<open>What a request owns when it has returned: no outcome is left unrecorded.\<close>

definition settled :: "permit multiset \<Rightarrow> bool" where
  "settled M \<longleftrightarrow> (\<forall>p \<in># M. \<forall>i. p \<noteq> HealthDue i \<and> p \<noteq> OrderDue i)"

definition called :: "permit multiset \<Rightarrow> (System \<Rightarrow> bool) \<Rightarrow> CallbackResult \<Rightarrow> bool" where
  "called M K res \<longleftrightarrow> IsFinal (tx_Status (cr_Transaction res)) \<and> (\<forall>s. K s \<longrightarrow> known (cr_Transaction res) s) \<and>
     (\<not> cr_Idempotent res \<longrightarrow> Winner (tx_ID (cr_Transaction res)) \<in># M)"

lemma abides_Callback:
  "abides accounts moves (\<lambda>r M K. settled M \<and> (\<forall>res. r = Inr res \<longrightarrow> called M K res))
    (Callback_prog MemHealth MemTx MemBlacklist input) {#} (\<lambda>_. True)"
proof -
  let ?Q = "\<lambda>r M K. settled M \<and> (\<forall>res. r = Inr res \<longrightarrow> called M K res)"
  have repeated: "abides accounts moves ?Q
      (p_andThen (HealthService_State_prog MemHealth (tx_Gateway y)) (\<lambda>state.
       p_andThen (HealthService_Stats_prog MemHealth (tx_Gateway y)) (\<lambda>stats.
       p_ret \<lparr>cr_Transaction = y, cr_GatewayState = state, cr_GatewayStats = stats, cr_Idempotent = True\<rparr>)))
      {#} (known y)" if "IsFinal (tx_Status y)" for y
    by (intro abides_quiet acc.quiet_health) (simp_all add: settled_def called_def that)
  have first: "abides accounts moves ?Q
      (p_andThen (HealthService_RecordOutcome_prog MemHealth (tx_Gateway y) (tx_ID y) (tx_Status y)) (\<lambda>(state, stats).
       p_andThen (atom (gets ts_hasOrderGateways)) (\<lambda>hasOrderGateways.
       p_andThen (if hasOrderGateways then OrderGatewayBlacklistService_RecordOutcome_prog MemBlacklist y
                  else p_ret ()) (\<lambda>_.
       p_ret \<lparr>cr_Transaction = y, cr_GatewayState = state, cr_GatewayStats = stats, cr_Idempotent = False\<rparr>))))
      {#HealthDue (tx_ID y), OrderDue (tx_ID y), Winner (tx_ID y)#} (known y)"
    if y: "IsFinal (tx_Status y)" for y
  proof (rule abides_andThen [OF abides_HealthService_RecordOutcome [OF y]])
    fix x :: "GatewayRuntimeState \<times> GatewayStats" and M K assume "finishes {#OrderDue (tx_ID y), Winner (tx_ID y)#}
      (\<lambda>s. known y s \<and> gateway_known (tx_Gateway y) s) (Inr x) M K"
    then have MK: "M = {#OrderDue (tx_ID y), Winner (tx_ID y)#}" "\<And>s. K s \<Longrightarrow> known y s" by simp_all
    obtain state stats where x: "x = (state, stats)" by fastforce
    show "abides accounts moves ?Q (case x of (state, stats) \<Rightarrow>
       p_andThen (atom (gets ts_hasOrderGateways)) (\<lambda>hasOrderGateways.
       p_andThen (if hasOrderGateways then OrderGatewayBlacklistService_RecordOutcome_prog MemBlacklist y
                  else p_ret ()) (\<lambda>_.
       p_ret \<lparr>cr_Transaction = y, cr_GatewayState = state, cr_GatewayStats = stats, cr_Idempotent = False\<rparr>))) M K"
      unfolding x prod.case
    proof (rule abides_atom_andThen)
      fix s F r s' assume K: "stable moves K" "K s" "accounts (M + F) s" "gets ts_hasOrderGateways s = (r, s')"
      then have r: "r = Inr True" "s' = s" using accountsD(4) [OF K(3)] by auto
      have "abides accounts moves ?Q
          (p_andThen (OrderGatewayBlacklistService_RecordOutcome_prog MemBlacklist y) (\<lambda>_.
           p_ret \<lparr>cr_Transaction = y, cr_GatewayState = state, cr_GatewayStats = stats, cr_Idempotent = False\<rparr>)) M K"
        unfolding MK(1)
        by (rule abides_andThen [OF abides_Service_RecordOutcome [OF _ y]]) (auto simp: settled_def called_def y MK(2))
      then show "\<exists>M' K'. (\<forall>F. accounts (M + F) s \<longrightarrow> accounts (M' + F) s') \<and> moves s s' \<and> stable moves K' \<and> K' s' \<and>
        (case r of Inl e \<Rightarrow> ?Q (Inl e) M' K' | Inr hasOrderGateways \<Rightarrow> abides accounts moves ?Q
          (p_andThen (if hasOrderGateways then OrderGatewayBlacklistService_RecordOutcome_prog MemBlacklist y
                  else p_ret ()) (\<lambda>_.
           p_ret \<lparr>cr_Transaction = y, cr_GatewayState = state, cr_GatewayStats = stats, cr_Idempotent = False\<rparr>)) M' K')"
        using K(1,2) r by (intro exI [of _ M] exI [of _ K]) (simp add: moves_def)
    qed
  qed simp
  let ?rest = "\<lambda>(completed, changed).
       if \<not> changed then
         p_andThen (HealthService_State_prog MemHealth (tx_Gateway completed)) (\<lambda>state.
         p_andThen (HealthService_Stats_prog MemHealth (tx_Gateway completed)) (\<lambda>stats.
         p_ret \<lparr>cr_Transaction = completed, cr_GatewayState = state, cr_GatewayStats = stats,
              cr_Idempotent = True\<rparr>))
       else
         p_andThen (HealthService_RecordOutcome_prog MemHealth (tx_Gateway completed) (tx_ID completed)
           (tx_Status completed)) (\<lambda>(state, stats).
         p_andThen (atom (gets ts_hasOrderGateways)) (\<lambda>hasOrderGateways.
         p_andThen (if hasOrderGateways then OrderGatewayBlacklistService_RecordOutcome_prog MemBlacklist completed
                    else p_ret ()) (\<lambda>_.
         p_ret \<lparr>cr_Transaction = completed, cr_GatewayState = state, cr_GatewayStats = stats,
              cr_Idempotent = False\<rparr>)))"
  have complete: "abides accounts moves ?Q
      (p_andThen (atom (on_txns (MemTx_Complete i st reason now))) ?rest) {#} (\<lambda>_. True)" for i st reason now
  proof (rule abides_atom_andThen)
    fix s F r s' assume acc: "accounts ({#} + F) s" and m: "on_txns (MemTx_Complete i st reason now) s = (r, s')"
    obtain t' where t': "MemTx_Complete i st reason now (ts_transactions s) = (r, t')" "s' = s\<lparr>ts_transactions := t'\<rparr>"
      using m by (auto simp: on_txns_def split: prod.splits)
    then have law: "tr_Complete MemTx i st reason now (ts_transactions s) = (r, t')" by simp
    let ?goal = "\<lambda>M' K'. (\<forall>F. accounts ({#} + F) s \<longrightarrow> accounts (M' + F) s') \<and> moves s s' \<and> stable moves K' \<and> K' s' \<and>
        (case r of Inl e \<Rightarrow> ?Q (Inl e) M' K' | Inr x \<Rightarrow> abides accounts moves ?Q (?rest x) M' K')"
    consider e where "r = Inl e" | y where "r = Inr (y, False)" | y where "r = Inr (y, True)"
      by (metis (full_types) old.sum.exhaust surj_pair)
    then show "\<exists>M' K'. ?goal M' K'"
    proof cases
      case (1 e)
      with memtx.error_unchanged(4) law have "s' = s" using t'(2) by simp
      with 1 have "?goal {#} (\<lambda>_. True)" by (simp add: settled_def moves_def)
      then show ?thesis by blast
    next
      case (2 y)
      with memtx.Complete_unchanged law have y: "IsFinal st" "mt_transactions (ts_transactions s) i = Some y"
        "tx_Status y = st" "s' = s" using t'(2) by auto
      have "tx_ID y = i" using accountsD(1) [OF acc] y(2) by (simp add: stored_ok_def)
      with y have "known y s" by (simp add: known_def)
      with 2 y repeated [of y] have "?goal {#} (known y)" by (simp add: stable_known moves_def)
      then show ?thesis by blast
    next
      case (3 y)
      note run = t'(1) [unfolded 3]
      note earned = earn_outcome [OF _ run]
      have y: "IsFinal (tx_Status y)" "tx_ID y = i" "known y s'" "moves s s'"
        using earned(2-5) [OF acc] t'(2) by simp_all
      have "accounts ({#HealthDue i, OrderDue i, Winner i#} + G) s'" if "accounts ({#} + G) s" for G
        using earned(1) [of G] that t'(2) by simp
      with 3 y first [of y] have "?goal {#HealthDue i, OrderDue i, Winner i#} (known y)" by (simp add: stable_known)
      then show ?thesis by blast
    qed
  qed
  show ?thesis
    unfolding Callback_prog_def MemTx_simps
    by (intro complete abides_if abides_quiet quiet_intros silent_steps) (simp_all add: settled_def)
qed

section \<open>Initiations\<close>

definition created :: "permit multiset \<Rightarrow> (System \<Rightarrow> bool) \<Rightarrow> Transaction \<Rightarrow> bool" where
  "created M K x \<longleftrightarrow> Creator (tx_ID x) \<in># M \<and> (\<forall>s. K s \<longrightarrow> known x s)"

lemma abides_failWith:
  assumes "\<And>e. R (Inl e) M K"
  shows "abides accounts moves R (failWith_prog MemHealth sel tid err) M K"
proof -
  have "quiet accounts moves (releaseProbe_prog MemHealth sel tid)"
    unfolding releaseProbe_prog_def by (intro quiet_intros)
  then show ?thesis unfolding failWith_prog_def by (rule abides_quiet) (simp_all add: assms)
qed

lemma abides_NextAttempt:
  assumes "\<And>n. abides accounts moves R (f n) {#AttemptHeld o_id n#} (\<lambda>_. True)"
  shows "abides accounts moves R (p_onError (atom (on_txns (MemTx_NextAttempt o_id))) h f) {#} (\<lambda>_. True)"
proof (rule abides_atom_onError)
  fix s F r s' assume acc: "accounts ({#} + F) s" and m: "on_txns (MemTx_NextAttempt o_id) s = (r, s')"
  obtain n t' where n: "MemTx_NextAttempt o_id (ts_transactions s) = (Inr n, t')"
    by (simp add: MemTx_NextAttempt_def Let_def)
  with m have r: "r = Inr n" "s' = s\<lparr>ts_transactions := t'\<rparr>" by (simp_all add: on_txns_def)
  have "accounts ({#AttemptHeld o_id n#} + G) s'" if "accounts ({#} + G) s" for G
    using earn_attempt(1) [of G s, OF _ n] that r(2) by simp
  moreover have "moves s s'" using earn_attempt(2) [OF acc n] r(2) by simp
  ultimately show "\<exists>M' K'. (\<forall>F. accounts ({#} + F) s \<longrightarrow> accounts (M' + F) s') \<and> moves s s' \<and> stable moves K' \<and>
      K' s' \<and> abides accounts moves R (case r of Inl e \<Rightarrow> h e | Inr x \<Rightarrow> f x) M' K'"
    using assms r(1) by (intro exI [of _ "{#AttemptHeld o_id n#}"] exI [of _ "\<lambda>_. True"]) simp
qed

lemma abides_Save:
  assumes "tx_Status x = TransactionStatusPending" "abides accounts moves R (f ()) {#Creator (tx_ID x)#} (known x)"
    and "\<And>e. abides accounts moves R (h e) {#AttemptHeld (tx_OrderID x) (tx_AttemptNo x)#} (\<lambda>_. True)"
  shows "abides accounts moves R (p_onError (atom (on_txns (MemTx_Save x))) h f)
    {#AttemptHeld (tx_OrderID x) (tx_AttemptNo x)#} (\<lambda>_. True)"
proof (rule abides_atom_onError)
  let ?M = "{#AttemptHeld (tx_OrderID x) (tx_AttemptNo x)#}"
  fix s F r s' assume acc: "accounts (?M + F) s" and m: "on_txns (MemTx_Save x) s = (r, s')"
  obtain t' where t': "MemTx_Save x (ts_transactions s) = (r, t')" "s' = s\<lparr>ts_transactions := t'\<rparr>"
    using m by (auto simp: on_txns_def split: prod.splits)
  let ?goal = "\<lambda>M' K'. (\<forall>F. accounts (?M + F) s \<longrightarrow> accounts (M' + F) s') \<and> moves s s' \<and> stable moves K' \<and>
      K' s' \<and> abides accounts moves R (case r of Inl e \<Rightarrow> h e | Inr x \<Rightarrow> f x) M' K'"
  show "\<exists>M' K'. ?goal M' K'"
  proof (cases r)
    case (Inl e)
    with t' have "s' = s" by (auto simp: MemTx_Save_def split: option.splits)
    with Inl have "?goal ?M (\<lambda>_. True)" using assms(3) by (simp add: moves_def)
    then show ?thesis by blast
  next
    case (Inr u)
    note run = t'(1) [unfolded Inr]
    have "accounts ({#Creator (tx_ID x)#} + G) s'" if "accounts (?M + G) s" for G
      using spend_attempt(1) [OF _ run assms(1), of G] that t'(2) by simp
    moreover have "moves s s'" "known x s'"
      using spend_attempt(2,3) [OF _ run assms(1), of F] acc t'(2) by simp_all
    ultimately have "?goal {#Creator (tx_ID x)#} (known x)" using Inr assms(2) by (simp add: stable_known)
    then show ?thesis by blast
  qed
qed

lemma abides_Initiate:
  "abides accounts moves (\<lambda>r M K. settled M \<and> (\<forall>x. r = Inr x \<longrightarrow> created M K x))
    (Initiate_prog MemHealth MemTx MemBlacklist reg input) {#} (\<lambda>_. True)"
proof -
  let ?Q = "\<lambda>r M K. settled M \<and> (\<forall>x. r = Inr x \<longrightarrow> created M K x)"
  have fw: "abides accounts moves ?Q (failWith_prog MemHealth sel tid err) M K" if "settled M" for sel tid err M K
    by (rule abides_failWith) (simp add: that)
  have save: "abides accounts moves ?Q (p_onError (atom (on_txns (MemTx_Save x))) (failWith_prog MemHealth sel tid)
      (\<lambda>_. p_ret x)) {#AttemptHeld o_id n#} (\<lambda>_. True)"
    if x: "tx_OrderID x = o_id" "tx_AttemptNo x = n" "tx_Status x = TransactionStatusPending" for x sel tid o_id n
    using abides_Save [of x ?Q "\<lambda>_. p_ret x" "failWith_prog MemHealth sel tid"] x fw
    by (simp add: settled_def created_def)
  have rest: "abides accounts moves ?Q
      (p_onError (atom (on_txns (MemTx_NextAttempt (in_OrderID input)))) (failWith_prog MemHealth sel tid) (\<lambda>attemptNo.
       p_andThen (atom Clock_Now) (\<lambda>now.
       case client (f attemptNo now) of
         Inl err \<Rightarrow> failWith_prog MemHealth sel tid err
       | Inr initiation \<Rightarrow> p_onError (atom (on_txns (MemTx_Save (f' attemptNo now initiation))))
           (failWith_prog MemHealth sel tid) (\<lambda>_. p_ret (f' attemptNo now initiation))))) {#} (\<lambda>_. True)"
    if "\<And>n now ini. tx_OrderID (f' n now ini) = in_OrderID input \<and> tx_AttemptNo (f' n now ini) = n \<and>
      tx_Status (f' n now ini) = TransactionStatusPending" for sel tid client f f'
  proof (rule abides_NextAttempt, rule acc.abides_total [OF silent_env(1)])
    fix n and now :: time
    have "settled {#AttemptHeld (in_OrderID input) n#}" by (simp add: settled_def)
    then show "abides accounts moves ?Q (case client (f n now) of Inl err \<Rightarrow> failWith_prog MemHealth sel tid err
       | Inr initiation \<Rightarrow> p_onError (atom (on_txns (MemTx_Save (f' n now initiation))))
           (failWith_prog MemHealth sel tid) (\<lambda>_. p_ret (f' n now initiation))) {#AttemptHeld (in_OrderID input) n#} (\<lambda>_. True)"
      using save that fw by (simp split: sum.split)
  qed (rule runs_total)
  have settled: "settled {#}" by (simp add: settled_def)
  show ?thesis
    unfolding Initiate_prog_def MemTx_simps Let_def
    by (intro abides_quiet quiet_intros silent_steps)
      (auto simp: settled split: option.split intro!: fw rest)
qed

section \<open>Answers\<close>

fun answer_ok :: "permit multiset \<Rightarrow> (System \<Rightarrow> bool) \<Rightarrow> response_body \<Rightarrow> bool" where
  "answer_ok M K (CallbackBody res) \<longleftrightarrow> called M K res"
| "answer_ok M K (TransactionBody x) \<longleftrightarrow> created M K x"
| "answer_ok M K _ \<longleftrightarrow> True"

fun responds :: "Response + Response \<Rightarrow> permit multiset \<Rightarrow> (System \<Rightarrow> bool) \<Rightarrow> bool" where
  "responds (Inl resp) M K \<longleftrightarrow> settled M \<and> answer_ok M K (rp_Body resp)"
| "responds (Inr resp) M K \<longleftrightarrow> settled M \<and> answer_ok M K (rp_Body resp)"

definition settles :: "unit + answer \<Rightarrow> permit multiset \<Rightarrow> (System \<Rightarrow> bool) \<Rightarrow> bool" where
  "settles r M K \<longleftrightarrow> settled M \<and> (\<exists>ans. r = Inr ans) \<and> (\<forall>resp. r = Inr (Handled resp) \<longrightarrow> answer_ok M K (rp_Body resp))"

lemma answer_ok_errors [simp]:
  "answer_ok M K (rp_Body (writeError n c msg))" "answer_ok M K (rp_Body (writeServiceError err))"
  by (simp_all add: writeServiceError_def writeError_def writeJSON_def)

lemma settled_none [simp]: "settled {#}"
  by (simp add: settled_def)

lemma abides_handleInitiate:
  "abides accounts moves responds (handleInitiate_prog MemHealth MemTx MemBlacklist reg body) {#} (\<lambda>_. True)"
  unfolding handleInitiate_prog_def Let_def
  by (auto split: sum.split intro!: abides_onError [OF abides_Initiate] simp: writeJSON_def)

lemma abides_handleCallback:
  "abides accounts moves responds (handleCallback_prog MemHealth MemTx MemBlacklist decs body) {#} (\<lambda>_. True)"
  unfolding handleCallback_prog_def processCallback_prog_def Let_def
  by (auto split: sum.split request_body.split intro!: abides_onError [OF abides_Callback] simp: writeJSON_def)

lemma abides_gatewaysLoop:
  "abides accounts moves (\<lambda>r M' K'. M' = M \<and> (\<forall>resp. r = Inl resp \<longrightarrow> answer_ok M' K' (rp_Body resp)))
    (gatewaysLoop_prog MemHealth gs acc) M K"
  by (induction gs arbitrary: acc) (auto intro!: abides_quiet_onError acc.quiet_health)

lemma abides_handleGateways: "abides accounts moves responds (handleGateways_prog MemHealth) {#} (\<lambda>_. True)"
  unfolding handleGateways_prog_def Let_def
  by (rule acc.abides_total [OF silent_env(2) runs_total(2)], rule abides_andThen [OF abides_gatewaysLoop])
    (auto simp: writeJSON_def)

lemma abides_answered:
  "abides accounts moves responds p {#} (\<lambda>_. True) \<Longrightarrow> abides accounts moves settles (answered p) {#} (\<lambda>_. True)"
  unfolding answered_def by (erule abides_onError) (simp_all add: settles_def)

lemma abides_request:
  "abides accounts moves settles (Router_ServeHTTP_prog MemHealth MemTx MemBlacklist reg decs req) {#} (\<lambda>_. True)"
  unfolding Router_ServeHTTP_prog_def run_handler_prog_def
  by (auto simp: settles_def writeJSON_def split: option.split handler.split
      intro!: abides_answered abides_handleGateways abides_handleInitiate abides_handleCallback)

section \<open>Schedules\<close>

text \<open>The goroutines of some requests, over the memory repositories. A request that has not arrived yet
  is one that has had no turn.\<close>

definition goroutines :: "GatewayClientRegistry \<Rightarrow> GatewayCallbackDecoder option \<Rightarrow> Request list
    \<Rightarrow> (System, unit, answer) prog list" where
  "goroutines reg decs reqs = map (Router_ServeHTTP_prog MemHealth MemTx MemBlacklist reg decs) reqs"

lemma goroutines_own:
  assumes "balanced s" "sched_steps (goroutines reg decs reqs, s) (ps, s')"
  obtains Ms Ks where "owns accounts moves settles ps Ms Ks s'"
proof -
  let ?n = "length reqs"
  have "sum_list (replicate n {#}) = ({#} :: permit multiset)" for n by (induction n) simp_all
  then have "owns accounts moves settles (goroutines reg decs reqs) (replicate ?n {#}) (replicate ?n (\<lambda>_. True)) s"
    using assms(1) by (simp add: owns_def goroutines_def accounts_none abides_request)
  from owns_steps [OF assms(2) this] that show ?thesis by blast
qed

lemma sum_list_member: "p \<in># sum_list Ms \<longleftrightarrow> (\<exists>M \<in> set Ms. p \<in># M)"
  by (induction Ms) auto

lemma owns_done:
  assumes own: "owns accounts moves settles ps Ms Ks s" and k: "k < length ps" "ps ! k = Done r"
  shows "settles r (Ms ! k) (Ks ! k)" "(Ks ! k) s" "p \<in># Ms ! k \<Longrightarrow> permit_ok s p"
    "j < length ps \<Longrightarrow> j \<noteq> k \<Longrightarrow> p \<in># Ms ! k \<Longrightarrow> p \<notin># Ms ! j"
proof -
  from own have len: "length Ms = length ps" and acc: "accounts (sum_list Ms) s" by (simp_all add: owns_def)
  show "settles r (Ms ! k) (Ks ! k)" "(Ks ! k) s" using own k by (auto simp: owns_def)
  have kl: "k < length Ms" using k len by simp
  from sum_list_nth_frame [OF kl] obtain F where F: "sum_list Ms = Ms ! k + F" by metis
  show "p \<in># Ms ! k \<Longrightarrow> permit_ok s p" using accountsD(6) [OF acc] F by simp
  assume j: "j < length ps" "j \<noteq> k" and p: "p \<in># Ms ! k"
  have "sum_list (Ms[k := {#}]) = F" using sum_list_nth_frame [OF kl] F by (metis add_cancel_left_left add_left_cancel)
  moreover have "Ms ! j \<in> set (Ms[k := {#}])" using j len by (metis length_list_update nth_list_update_neq nth_mem)
  ultimately have "Ms ! j \<subseteq># F" by (metis sum_list_update mset_subset_eq_add_left sum_list_map_remove1 map_ident)
  with permit_unique [OF acc [unfolded F] p] show "p \<notin># Ms ! j" by (meson mset_subset_eqD)
qed

text \<open>
  C2: whatever requests arrive at the server and however their goroutines interleave, step by step, no account is
  lost: transactions and attempt numbers stay consistent, every health event belongs to a final
  transaction with that outcome and no transaction has two, and the counters of the orders never
  count an outcome twice. When all requests are answered, every outcome has been counted.
\<close>
theorem concurrent_accounts:
  assumes "balanced s" "sched_steps (goroutines reg decs reqs, s) (ps, s')"
  shows "stored_ok (ts_transactions s') \<and> attempts_ok (ts_transactions s') \<and>
    events_ok (ts_transactions s') (mh_events (hs_repository s')) \<and>
    (\<forall>o_id g.
      failures_of (bs_repository s') o_id g \<le>
        int (card (outcomes (ts_transactions s') o_id g TransactionStatusFailure)) \<and>
      successes_of (bs_repository s') o_id g \<le>
        int (card (outcomes (ts_transactions s') o_id g TransactionStatusSuccess))) \<and>
    ((\<forall>p \<in> set ps. \<exists>r. p = Done r) \<longrightarrow> balanced s')"
proof -
  from goroutines_own [OF assms] obtain Ms Ks where own: "owns accounts moves settles ps Ms Ks s'" .
  then have acc: "accounts (sum_list Ms) s'" and len: "length Ms = length ps" by (simp_all add: owns_def)
  have "balanced s'" if finished: "\<forall>p \<in> set ps. \<exists>r. p = Done r"
  proof -
    have "settled M" if "M \<in> set Ms" for M
    proof -
      from that obtain k where k: "k < length ps" "Ms ! k = M" using len by (auto simp: in_set_conv_nth)
      with finished obtain r where "ps ! k = Done r" using nth_mem by blast
      from owns_done(1) [OF own k(1) this] k(2) show ?thesis by (simp add: settles_def)
    qed
    then have "\<forall>p \<in># sum_list Ms. \<forall>i. p \<noteq> OrderDue i" by (auto simp: settled_def sum_list_member)
    from accounts_done [OF acc this] show ?thesis .
  qed
  then show ?thesis using accountsD(1-3) [OF acc] accounts_bounds [OF acc] by blast
qed

text \<open>
  C3: among the requests that interleave, every callback answered with 200 reports the transaction as it is
  stored in the end, with a final status, and of all the callbacks of one transaction at most one is
  answered as the one that completed it; the others are answered as repetitions.
\<close>
theorem concurrent_callback_first:
  assumes "balanced s" "sched_steps (goroutines reg decs reqs, s) (ps, s')"
    and "i < length ps" "ps ! i = Done (Inr (Handled resp))" "rp_Body resp = CallbackBody res"
  shows "IsFinal (tx_Status (cr_Transaction res)) \<and>
    mt_transactions (ts_transactions s') (tx_ID (cr_Transaction res)) = Some (cr_Transaction res) \<and>
    (\<forall>j resp' res'. j < length ps \<longrightarrow> j \<noteq> i \<longrightarrow> ps ! j = Done (Inr (Handled resp')) \<longrightarrow>
      rp_Body resp' = CallbackBody res' \<longrightarrow>
      tx_ID (cr_Transaction res') = tx_ID (cr_Transaction res) \<longrightarrow> cr_Idempotent res \<or> cr_Idempotent res')"
proof -
  from goroutines_own [OF assms(1,2)] obtain Ms Ks where own: "owns accounts moves settles ps Ms Ks s'" .
  have call: "called (Ms ! k) (Ks ! k) rs \<and> (Ks ! k) s'"
    if "k < length ps" "ps ! k = Done (Inr (Handled rp))" "rp_Body rp = CallbackBody rs" for k rp rs
    using owns_done(1,2) [OF own that(1,2)] that(3) by (auto simp: settles_def)
  note mine = call [OF assms(3-5)]
  have "cr_Idempotent res \<or> cr_Idempotent res'"
    if "j < length ps" "j \<noteq> i" "ps ! j = Done (Inr (Handled resp'))" "rp_Body resp' = CallbackBody res'"
      "tx_ID (cr_Transaction res') = tx_ID (cr_Transaction res)" for j resp' res'
    using mine call [OF that(1,3,4)] owns_done(4) [OF own assms(3,4) that(1,2)] that(5) by (auto simp: called_def)
  with mine known_final show ?thesis by (fastforce simp: called_def)
qed

text \<open>
  C6: among the requests that interleave, the initiations answered with 201 have different transaction
  identifiers, and those of one order different attempt numbers; each of the transactions is
  stored, as it was answered or completed since.
\<close>
theorem concurrent_attempts:
  assumes "balanced s" "sched_steps (goroutines reg decs reqs, s) (ps, s')"
    and "i < length ps" "ps ! i = Done (Inr (Handled resp))" "rp_Body resp = TransactionBody x"
  shows "(\<exists>y. mt_transactions (ts_transactions s') (tx_ID x) = Some y \<and> later x y) \<and>
    (\<forall>j resp' x'. j < length ps \<longrightarrow> j \<noteq> i \<longrightarrow> ps ! j = Done (Inr (Handled resp')) \<longrightarrow>
      rp_Body resp' = TransactionBody x' \<longrightarrow> tx_ID x' \<noteq> tx_ID x \<and>
      (tx_OrderID x' = tx_OrderID x \<longrightarrow> tx_AttemptNo x' \<noteq> tx_AttemptNo x))"
proof -
  from goroutines_own [OF assms(1,2)] obtain Ms Ks where own: "owns accounts moves settles ps Ms Ks s'" .
  then have acc: "accounts (sum_list Ms) s'" by (simp add: owns_def)
  have made: "Creator (tx_ID z) \<in># Ms ! k \<and> known z s'"
    if "k < length ps" "ps ! k = Done (Inr (Handled rp))" "rp_Body rp = TransactionBody z" for k rp z
    using owns_done(1,2) [OF own that(1,2)] that(3) by (auto simp: settles_def created_def)
  note mine = made [OF assms(3-5)]
  then obtain y where y: "mt_transactions (ts_transactions s') (tx_ID x) = Some y" "later x y" by (auto simp: known_def)
  have "tx_ID x' \<noteq> tx_ID x \<and> (tx_OrderID x' = tx_OrderID x \<longrightarrow> tx_AttemptNo x' \<noteq> tx_AttemptNo x)"
    if j: "j < length ps" "j \<noteq> i" "ps ! j = Done (Inr (Handled resp'))" "rp_Body resp' = TransactionBody x'" for j resp' x'
  proof -
    note other = made [OF j(1,3,4)]
    then obtain y' where y': "mt_transactions (ts_transactions s') (tx_ID x') = Some y'" "later x' y'"
      by (auto simp: known_def)
    have id: "tx_ID x' \<noteq> tx_ID x" using mine other owns_done(4) [OF own assms(3,4) j(1,2)] by fastforce
    from accountsD(2) [OF acc] y(1) y'(1) id
    have "tx_OrderID y' = tx_OrderID y \<Longrightarrow> tx_AttemptNo y' \<noteq> tx_AttemptNo y" unfolding attempts_ok_def by metis
    with id later_fields [OF y(2)] later_fields [OF y'(2)] show ?thesis by simp
  qed
  with y show ?thesis by blast
qed

end
