(* ===== verification/ConcurrentBlacklist.thy ===== *)
theory ConcurrentBlacklist
  imports ConcurrentRequests
begin

text \<open>
  The gateways that an order no longer uses, while requests interleave: an initiation reads the blacklist long before
  it stores its transaction, and callbacks come in between.
\<close>

section \<open>The invariant\<close>

text \<open>A gateway is blacklisted for an order and no transaction of the order is pending there.\<close>

definition avoided :: "string \<Rightarrow> string \<Rightarrow> System \<Rightarrow> bool" where
  "avoided o_id g s \<longleftrightarrow> ts_hasOrderGateways s \<and> g \<in> blacklisted_of (bs_repository s) o_id \<and>
     (\<forall>i x. mt_transactions (ts_transactions s) i = Some x \<longrightarrow> tx_OrderID x = o_id \<longrightarrow> tx_Gateway x = g \<longrightarrow>
       IsFinal (tx_Status x))"

abbreviation avoiding :: "string \<Rightarrow> string \<Rightarrow> unit multiset \<Rightarrow> System \<Rightarrow> bool" where
  "avoiding o_id g \<equiv> \<lambda>_. avoided o_id g"

abbreviation any_move :: "System \<Rightarrow> System \<Rightarrow> bool" where
  "any_move \<equiv> \<lambda>_ _. True"

interpretation avo: silent_frame "avoiding o_id g" any_move for o_id g
  by unfold_locales (simp add: avoided_def same_accounts_def)

text \<open>A transaction of another order or at another gateway.\<close>

definition elsewhere :: "string \<Rightarrow> string \<Rightarrow> Transaction \<Rightarrow> bool" where
  "elsewhere o_id g x \<longleftrightarrow> \<not> (tx_OrderID x = o_id \<and> tx_Gateway x = g)"

lemma quiet_RecordEvent: "quiet (avoiding o_id g) any_move (atom (on_repo (MemHealth_RecordEvent ev keep)))"
  by (rule quiet_atom) (auto simp: on_repo_def MemHealth_RecordEvent_def Let_def avoided_def)

lemma quiet_NextAttempt: "quiet (avoiding o_id g) any_move (atom (on_txns (MemTx_NextAttempt o2)))"
  by (rule quiet_atom) (auto simp: on_txns_def MemTx_NextAttempt_def Let_def avoided_def)

lemma quiet_Save:
  "elsewhere o_id g x \<Longrightarrow> quiet (avoiding o_id g) any_move (atom (on_txns (MemTx_Save x)))"
  by (rule quiet_atom) (auto simp: on_txns_def MemTx_Save_def avoided_def elsewhere_def split: option.splits if_splits)

lemma quiet_order_outcome:
  assumes "elsewhere o_id g y"
  shows "quiet (avoiding o_id g) any_move (atom (on_orders (MemBlacklist_RecordOutcome (tx_OrderID y)
    (tx_Gateway y) st threshold now)))"
proof (rule quiet_atom)
  fix M :: "unit multiset" and s r s'
  assume av: "avoided o_id g s"
    and run: "on_orders (MemBlacklist_RecordOutcome (tx_OrderID y) (tx_Gateway y) st threshold now) s = (r, s')"
  obtain b' where b': "or_RecordOutcome MemBlacklist (tx_OrderID y) (tx_Gateway y) st threshold now (bs_repository s) = (r, b')"
    "s' = s\<lparr>bs_repository := b'\<rparr>" using run by (auto simp: on_orders_def split: prod.splits)
  have "g \<in> blacklisted_of b' o_id"
  proof (cases r)
    case (Inl e)
    with b'(1) memblacklist.error_unchanged(2) av show ?thesis by (fastforce simp: avoided_def)
  next
    case (Inr res)
    with b'(1) have "or_RecordOutcome MemBlacklist (tx_OrderID y) (tx_Gateway y) st threshold now (bs_repository s) =
        (Inr (fst res, snd res), b')" by simp
    from memblacklist.RecordOutcome_ok [OF this] av assms show ?thesis
      by (auto simp: avoided_def elsewhere_def)
  qed
  with av b'(2) show "avoided o_id g s' \<and> True" by (simp add: avoided_def)
qed

section \<open>Initiations\<close>

lemma yields_selectHealthy:
  "yields (\<lambda>r. \<forall>sel. r = Inr sel \<longrightarrow> sel_Gateway sel \<in> set cs) (selectHealthy_prog cs)"
  unfolding selectHealthy_prog_def
proof (rule yields_andThen)
  show "yields (\<lambda>r. \<forall>c. r = Inr (Some c) \<longrightarrow> c \<in> set cs) (atom (selectWeighted cs))"
    by (rule yields_atom) (metis prod.collapse selectWeighted_Some)
qed (auto intro!: yields_intros)

lemma yields_SelectGateway:
  "yields (\<lambda>r. \<forall>sel. r = Inr sel \<longrightarrow> gc_Name (sel_Gateway sel) \<notin> sr_ExcludedGateways req)
    (SelectGateway_prog MemHealth req)"
proof -
  let ?P = "\<lambda>r. \<forall>sel. r = Inr sel \<longrightarrow> gc_Name (sel_Gateway sel) \<notin> sr_ExcludedGateways req"
  have not_excluded: "gc_Name c \<notin> sr_ExcludedGateways req" if "c \<in> set (filterExcluded cs (sr_ExcludedGateways req))" for c cs
    using that by (auto simp: filterExcluded_def split: if_splits)
  have healthy: "yields ?P (selectHealthy_prog (filterExcluded cs (sr_ExcludedGateways req)))" for cs
    by (rule yields_mono [OF yields_selectHealthy]) (auto dest: not_excluded)
  have weighted: "yields (\<lambda>r. \<forall>c. r = Inr (Some c) \<longrightarrow> gc_Name c \<notin> sr_ExcludedGateways req)
      (atom (selectWeighted (filterExcluded cs (sr_ExcludedGateways req))))" for cs
    by (rule yields_atom) (metis prod.collapse selectWeighted_Some not_excluded)
  show ?thesis
    unfolding SelectGateway_prog_def Let_def
    by (intro healthy yields_andThen [OF weighted] yields_intros) (auto intro!: healthy yields_intros)
qed

lemma abides_blacklistedGateways:
  assumes "o_id \<noteq> ''''"
  shows "abides (avoiding o_id g) any_move (\<lambda>r M' K'. M' = M \<and> K' = K \<and> (\<forall>gs. r = Inr gs \<longrightarrow> g \<in> gs))
    (blacklistedGateways_prog MemBlacklist o_id) M K"
proof -
  let ?Q = "\<lambda>r M' K'. M' = M \<and> K' = K \<and> (\<forall>gs. r = Inr gs \<longrightarrow> g \<in> gs)"
  have read: "abides (avoiding o_id g) any_move ?Q (atom (on_orders (MemBlacklist_BlacklistedGateways o_id))) M K"
    unfolding atom_def abides_Step
    by (auto simp: on_orders_def BlacklistedGateways_eq avoided_def stable_def)
  show ?thesis
    unfolding blacklistedGateways_prog_def OrderGatewayBlacklistService_BlacklistedGateways_prog_def
      MemBlacklist_simps if_not_P [OF assms]
  proof (rule abides_atom_andThen)
    fix s F r s' assume K: "stable any_move K" "K s" and av: "avoided o_id g s" and m: "gets ts_hasOrderGateways s = (r, s')"
    then have "r = Inr True" "s' = s" by (simp_all add: avoided_def)
    with K av read show "\<exists>M' K'. (\<forall>F :: unit multiset. avoided o_id g s \<longrightarrow> avoided o_id g s') \<and> True \<and> stable any_move K' \<and> K' s' \<and>
        (case r of Inl e \<Rightarrow> ?Q (Inl e) M' K' | Inr hasOrderGateways \<Rightarrow> abides (avoiding o_id g) any_move ?Q
          (if \<not> hasOrderGateways then p_ret {} else atom (on_orders (MemBlacklist_BlacklistedGateways o_id))) M' K')"
      by (intro exI [of _ M] exI [of _ K]) simp
  qed
qed

text \<open>After the selection of a gateway, only the transaction that is saved matters.\<close>

lemma abides_Initiate_avoiding:
  assumes "o_id \<noteq> ''''"
  shows "abides (avoiding o_id g) any_move (\<lambda>r M K. \<forall>x. r = Inr x \<longrightarrow> elsewhere o_id g x)
    (Initiate_prog MemHealth MemTx MemBlacklist reg input) M K"
proof -
  let ?P = "\<lambda>r. \<forall>x. r = Inr x \<longrightarrow> elsewhere o_id g x"
  have fw: "yields ?P (failWith_prog MemHealth sel tid err)" for sel tid err
    unfolding failWith_prog_def by (rule yields_andThen [OF yields_any]) (simp_all add: p_throw_def)
  have tail: "abides (avoiding o_id g) any_move (\<lambda>r M K. ?P r)
      (case reg (gc_Name gateway) of
         None \<Rightarrow> failWith_prog MemHealth sel tid er
       | Some client \<Rightarrow>
           p_onError (atom (on_txns (MemTx_NextAttempt (in_OrderID input)))) (failWith_prog MemHealth sel tid) (\<lambda>attemptNo.
           p_andThen (atom Clock_Now) (\<lambda>now.
           case client (f attemptNo now) of
             Inl err \<Rightarrow> failWith_prog MemHealth sel tid err
           | Inr initiation \<Rightarrow> p_onError (atom (on_txns (MemTx_Save (f' attemptNo now initiation))))
               (failWith_prog MemHealth sel tid) (\<lambda>_. p_ret (f' attemptNo now initiation))))) M K"
      (is "abides _ _ _ ?p _ _")
    if new: "\<And>n now ini. elsewhere o_id g (f' n now ini)" for f f' gateway sel tid er M K
  proof (rule abides_quiet_yields)
    show "quiet (avoiding o_id g) any_move ?p"
      by (intro quiet_intros silent_steps avo.silent_quiet avo.quiet_failWith quiet_NextAttempt quiet_Save new)
    show "yields ?P ?p"
      by (intro yields_case_option yields_case_sum yields_onError [OF yields_any] yields_andThen [OF yields_any] fw)
        (simp_all add: p_ret_def new)
  qed
  have excluded: "abides (avoiding o_id g) any_move
      (\<lambda>r M' K'. M' = M \<and> K' = K \<and> (in_OrderID input = o_id \<longrightarrow> (\<forall>gs. r = Inr gs \<longrightarrow> g \<in> gs)))
      (blacklistedGateways_prog MemBlacklist (in_OrderID input)) M K" for M K
  proof (cases "in_OrderID input = o_id")
    case True
    with abides_blacklistedGateways [OF assms] show ?thesis by simp
  next
    case False
    then show ?thesis by (intro abides_quiet_yields [OF avo.quiet_blacklistedGateways yields_any]) simp
  qed
  have route: "abides (avoiding o_id g) any_move (\<lambda>r M K. ?P r)
      (p_andThen (blacklistedGateways_prog MemBlacklist (in_OrderID input)) (\<lambda>excludedGateways.
       p_andThen (SelectGateway_prog MemHealth \<lparr>sr_TransactionID = tid, sr_OrderID = in_OrderID input,
         sr_ExcludedGateways = excludedGateways\<rparr>) rest)) M K"
    if rest: "\<And>sel M K. in_OrderID input = o_id \<longrightarrow> gc_Name (sel_Gateway sel) \<noteq> g \<Longrightarrow>
        abides (avoiding o_id g) any_move (\<lambda>r M K. ?P r) (rest sel) M K" for rest tid M K
  proof (rule abides_andThen [OF excluded], goal_cases)
    case (2 gs M K)
    then have gs: "in_OrderID input = o_id \<longrightarrow> g \<in> gs" by simp
    show ?case
      by (rule abides_andThen [OF quiet_yields [OF avo.quiet_SelectGateway yields_SelectGateway]])
        (use gs in \<open>auto intro!: rest\<close>)
  qed simp
  show ?thesis
    unfolding Initiate_prog_def MemTx_simps Let_def
    by (rule abides_quiet [OF avo.silent_quiet [OF silent_env(3)]], simp, rule route, rule tail)
      (auto simp: elsewhere_def)
qed

section \<open>Callbacks\<close>

lemma avoided_completed:
  assumes av: "avoided o_id g s" and run: "MemTx_Complete i st reason now (ts_transactions s) = (r, t')"
  shows "avoided o_id g (s\<lparr>ts_transactions := t'\<rparr>)" "r = Inr (y, True) \<Longrightarrow> elsewhere o_id g y"
  using assms
  by (auto simp: MemTx_Complete_def Let_def avoided_def elsewhere_def split: if_splits option.splits)

lemma abides_Callback_avoiding:
  "abides (avoiding o_id g) any_move (\<lambda>_ _ _. True) (Callback_prog MemHealth MemTx MemBlacklist input) {#} (\<lambda>_. True)"
proof -
  have order: "quiet (avoiding o_id g) any_move (OrderGatewayBlacklistService_RecordOutcome_prog MemBlacklist y)"
    if "elsewhere o_id g y" for y
    unfolding OrderGatewayBlacklistService_RecordOutcome_prog_def Let_def MemBlacklist_simps
    by (intro quiet_intros silent_steps avo.silent_quiet quiet_order_outcome that)
  let ?rest = "\<lambda>(completed, changed).
       if \<not> changed then
         p_andThen (HealthService_State_prog MemHealth (tx_Gateway completed)) (\<lambda>state.
         p_andThen (HealthService_Stats_prog MemHealth (tx_Gateway completed)) (\<lambda>stats.
         p_ret \<lparr>cr_Transaction = completed, cr_GatewayState = state, cr_GatewayStats = stats,
              cr_Idempotent = True\<rparr>))
       else
         p_andThen (HealthService_RecordOutcome_prog MemHealth (tx_Gateway completed) (tx_ID completed)
           (tx_Status completed)) (\<lambda>(state, stats).
         p_andThen (atom (gets ts_hasOrderGateways)) (\<lambda>hasOrderGateways.
         p_andThen (if hasOrderGateways then OrderGatewayBlacklistService_RecordOutcome_prog MemBlacklist completed
                    else p_ret ()) (\<lambda>_.
         p_ret \<lparr>cr_Transaction = completed, cr_GatewayState = state, cr_GatewayStats = stats,
              cr_Idempotent = False\<rparr>)))"
  have rest: "quiet (avoiding o_id g) any_move (?rest (y, changed))" if "changed \<Longrightarrow> elsewhere o_id g y" for y changed
    unfolding prod.case
    by (intro quiet_if quiet_andThen quiet_case_prod quiet_ret avo.quiet_health avo.silent_quiet silent_env order
        avo.quiet_HealthService_RecordOutcome quiet_RecordEvent that) simp_all
  have complete: "abides (avoiding o_id g) any_move (\<lambda>_ _ _. True)
      (p_andThen (atom (on_txns (MemTx_Complete i st reason now))) ?rest) {#} (\<lambda>_. True)" for i st reason now
  proof (rule abides_atom_andThen)
    fix s F r s' assume av: "avoided o_id g s" and m: "on_txns (MemTx_Complete i st reason now) s = (r, s')"
    obtain t' where t': "MemTx_Complete i st reason now (ts_transactions s) = (r, t')" "s' = s\<lparr>ts_transactions := t'\<rparr>"
      using m by (auto simp: on_txns_def split: prod.splits)
    note fin = avoided_completed [OF av t'(1)]
    have "abides (avoiding o_id g) any_move (\<lambda>_ _ _. True) (?rest x) {#} (\<lambda>_. True)" if r: "r = Inr x" for x
    proof -
      obtain y changed where x: "x = (y, changed)" by fastforce
      have y: "elsewhere o_id g y" if changed using fin(2) r x that by simp
      show ?thesis unfolding x by (rule quiet_abides, rule rest, erule y, rule TrueI)
    qed
    then show "\<exists>M' K'. (\<forall>F :: unit multiset. avoided o_id g s \<longrightarrow> avoided o_id g s') \<and> True \<and> stable any_move K' \<and> K' s' \<and>
        (case r of Inl e \<Rightarrow> True | Inr x \<Rightarrow> abides (avoiding o_id g) any_move (\<lambda>_ _ _. True) (?rest x) M' K')"
      using fin(1) t'(2) by (intro exI [of _ "{#}"] exI [of _ "\<lambda>_. True"]) (simp split: sum.split)
  qed
  show ?thesis
    unfolding Callback_prog_def MemTx_simps
    by (intro complete abides_if abides_quiet quiet_intros avo.silent_quiet silent_steps) simp_all
qed

section \<open>Requests\<close>

definition places :: "string \<Rightarrow> string \<Rightarrow> response_body \<Rightarrow> bool" where
  "places o_id g body \<longleftrightarrow> (\<exists>x. body = TransactionBody x \<and> \<not> elsewhere o_id g x)"

fun no_place :: "string \<Rightarrow> string \<Rightarrow> Response + Response \<Rightarrow> bool" where
  "no_place o_id g (Inl resp) \<longleftrightarrow> \<not> places o_id g (rp_Body resp)"
| "no_place o_id g (Inr resp) \<longleftrightarrow> \<not> places o_id g (rp_Body resp)"

lemma places_simps [simp]:
  "\<not> places o_id g (rp_Body (writeError n c msg))" "\<not> places o_id g (rp_Body (writeServiceError err))"
  "\<not> places o_id g (rp_Body (writeJSON n (CallbackBody res)))" "\<not> places o_id g (rp_Body (writeJSON n (GatewaysBody r rows)))"
  "\<not> places o_id g (rp_Body (writeJSON n HealthBody))"
  "places o_id g (rp_Body (writeJSON n (TransactionBody x))) \<longleftrightarrow> \<not> elsewhere o_id g x"
  by (simp_all add: places_def writeServiceError_def writeError_def writeJSON_def)

lemma abides_handlers_avoiding:
  assumes "o_id \<noteq> ''''"
  shows "abides (avoiding o_id g) any_move (\<lambda>r M K. no_place o_id g r)
      (handleInitiate_prog MemHealth MemTx MemBlacklist reg body) {#} (\<lambda>_. True)"
    "abides (avoiding o_id g) any_move (\<lambda>r M K. no_place o_id g r)
      (handleCallback_prog MemHealth MemTx MemBlacklist decs body) {#} (\<lambda>_. True)"
proof -
  show "abides (avoiding o_id g) any_move (\<lambda>r M K. no_place o_id g r)
      (handleInitiate_prog MemHealth MemTx MemBlacklist reg body) {#} (\<lambda>_. True)"
    unfolding handleInitiate_prog_def Let_def
    by (auto split: sum.split intro!: abides_onError [OF abides_Initiate_avoiding [OF assms]])
  show "abides (avoiding o_id g) any_move (\<lambda>r M K. no_place o_id g r)
      (handleCallback_prog MemHealth MemTx MemBlacklist decs body) {#} (\<lambda>_. True)"
    unfolding handleCallback_prog_def processCallback_prog_def Let_def
    by (auto split: sum.split request_body.split intro!: abides_onError [OF abides_Callback_avoiding])
qed

lemma abides_handleGateways_avoiding:
  "abides (avoiding o_id g) any_move (\<lambda>r M K. no_place o_id g r) (handleGateways_prog MemHealth) {#} (\<lambda>_. True)"
proof (rule abides_quiet_yields [OF avo.quiet_handleGateways])
  have loop: "yields (\<lambda>r. \<forall>resp. r = Inl resp \<longrightarrow> \<not> places o_id g (rp_Body resp)) (gatewaysLoop_prog MemHealth gs acc)" for gs acc
    by (induction gs arbitrary: acc) (auto intro!: yields_intros)
  show "yields (no_place o_id g) (handleGateways_prog MemHealth)"
    unfolding handleGateways_prog_def Let_def
  proof (rule yields_andThen)
    show "yields (\<lambda>r. \<exists>cfg. r = Inr cfg) (atom ConfigProvider_Current)"
      by (rule yields_atom) (simp add: ConfigProvider_Current_def)
    show "yields (no_place o_id g) (p_andThen (gatewaysLoop_prog MemHealth (ac_Gateways (WithDefaults cfg)) [])
        (\<lambda>gateways. p_ret (writeJSON 200 (GatewaysBody (ac_Routing (WithDefaults cfg)) gateways))))" for cfg
      by (rule yields_andThen [OF loop]) (auto intro!: yields_intros)
  qed simp
qed simp

lemma abides_request_avoiding:
  assumes "o_id \<noteq> ''''"
  shows "abides (avoiding o_id g) any_move (\<lambda>r M K. \<forall>resp. r = Inr (Handled resp) \<longrightarrow> \<not> places o_id g (rp_Body resp))
    (Router_ServeHTTP_prog MemHealth MemTx MemBlacklist reg decs req) {#} (\<lambda>_. True)"
proof -
  have answered: "abides (avoiding o_id g) any_move
      (\<lambda>r M K. \<forall>resp. r = Inr (Handled resp) \<longrightarrow> \<not> places o_id g (rp_Body resp)) (answered p) {#} (\<lambda>_. True)"
    if "abides (avoiding o_id g) any_move (\<lambda>r M K. no_place o_id g r) p {#} (\<lambda>_. True)" for p
    unfolding answered_def by (rule abides_onError [OF that]) simp_all
  show ?thesis
    unfolding Router_ServeHTTP_prog_def run_handler_prog_def
    by (auto split: option.split handler.split intro!: answered abides_handleGateways_avoiding
        abides_handlers_avoiding assms)
qed

text \<open>
  C5: a gateway at which an order has failed as often as the configured number, with no success and nothing
  pending, gets no further transaction of that order, however the requests interleave: whatever
  requests follow, step by step in any order, none that is answered with 201 has placed a
  transaction of the order there.
\<close>
theorem concurrent_failed_gateway_avoided:
  assumes "reachable reg s" "threshold_is n s" "o_id \<noteq> ''''"
    and failed: "outcomes (ts_transactions s) o_id g TransactionStatusSuccess = {}"
      "n \<le> int (card (outcomes (ts_transactions s) o_id g TransactionStatusFailure))"
      "\<forall>i x. mt_transactions (ts_transactions s) i = Some x \<longrightarrow> tx_OrderID x = o_id \<longrightarrow> tx_Gateway x = g \<longrightarrow>
        IsFinal (tx_Status x)"
    and run: "sched_steps (goroutines reg' decs reqs, s) (ps, s')"
    and answer: "k < length ps" "ps ! k = Done (Inr (Handled resp))" "rp_Body resp = TransactionBody x"
      "tx_OrderID x = o_id"
  shows "tx_Gateway x \<noteq> g"
proof -
  let ?n = "length reqs" and ?Q = "\<lambda>r M K. \<forall>resp. r = Inr (Handled resp) \<longrightarrow> \<not> places o_id g (rp_Body resp)"
  have "avoided o_id g s"
    using reachable_blacklisted [OF assms(1,2), of g o_id] failed sys_invD(6) [OF reachable_inv [OF assms(1)]]
    by (simp add: avoided_def)
  then have "owns (avoiding o_id g) any_move ?Q (goroutines reg' decs reqs) (replicate ?n {#}) (replicate ?n (\<lambda>_. True)) s"
    using abides_request_avoiding [OF assms(3)] by (simp add: owns_def goroutines_def)
  from owns_steps [OF run this] obtain Ms Ks where "owns (avoiding o_id g) any_move ?Q ps Ms Ks s'" by blast
  with answer(1,2) have "\<not> places o_id g (rp_Body resp)" by (auto simp: owns_def)
  with answer(3,4) show ?thesis by (simp add: places_def elsewhere_def)
qed

end
