(* ===== verification/ConcurrentScenarios.thy ===== *)
theory ConcurrentScenarios
  imports ConcurrentBlacklist
begin

text \<open>
  Concrete schedules: two callbacks of one gateway whose steps interleave, two deliveries of one callback, two
  initiations of one order. They witness the properties of interleaved requests and show what
  interleaving costs the health machine.
\<close>

section \<open>Evaluation\<close>

lemma p_andThen_step: "p = q \<Longrightarrow> p_andThen p f = p_andThen q f" by simp
lemma p_onError_step: "p = q \<Longrightarrow> p_onError p h f = p_onError q h f" by simp

declare turns.simps(2) [simp del]

lemmas turns_congs = p_andThen_step p_onError_step run_congs

lemmas prog_run_simps = Callback_prog_def HealthService_RecordOutcome_prog_def switchOutcome_prog_def
  interrupted_def turns_simps turns_onError turns_andThen alone_simps run_simps

lemma second_rate:
  "stats_of_counts g (1, 1) = \<lparr>gs_Gateway = g, gs_Successes = 1, gs_Failures = 1, gs_Total = 2,
     gs_SuccessRate = Fin (1 / 2)\<rparr>"
proof -
  have "rnd (1 / 2) = 1 / 2" by code_simp
  then have "round_f64 (1 / 2) = Fin (1 / 2)" using round_f64_Fin [of "1 / 2"] by simp
  moreover have "f64_of_int 1 = Fin 1" "f64_of_int 2 = Fin 2"
    using rnd_of_int [of 1] rnd_of_int [of 2] round_f64_Fin [of 1] round_f64_Fin [of 2] by (simp_all add: f64_of_int_def)
  ultimately show ?thesis by (simp add: stats_of_counts_def)
qed

section \<open>Two callbacks of one gateway\<close>

text \<open>One gateway with a threshold of three quarters and a cooldown of a minute, and two pending transactions.\<close>

definition race_config :: AppConfig where
  "race_config = slow_config\<lparr>ac_Routing := (ac_Routing slow_config)\<lparr>rc_SuccessRateThreshold := Fin (3 / 4)\<rparr>\<rparr>"

lemma race_config_simps [simp]:
  "WithDefaults race_config = race_config" "ac_Gateways race_config = ac_Gateways solo_config"
  "ac_Routing race_config = (ac_Routing slow_config)\<lparr>rc_SuccessRateThreshold := Fin (3 / 4)\<rparr>"
  unfolding race_config_def by (rule WithDefaults_id, simp_all)

definition race0 :: System where "race0 = fresh_system race_config"
definition race1 :: System where "race1 = snd (mem_Initiate order1 race0)"
definition race2 :: System where "race2 = snd (mem_Initiate order1 race1)"

lemmas race_defs = race0_def race1_def race2_def

lemma race_reachable: "reachable (Registry_Client NewRegistry) race2"
proof -
  have "started race0" by (simp add: started_def race0_def fresh_system_def)
  moreover have "serves (Registry_Client NewRegistry) race0 race1" "serves (Registry_Client NewRegistry) race1 race2"
    unfolding race1_def race2_def mem_Initiate_def by (rule serves.initiate, rule prod.collapse [symmetric])+
  ultimately show ?thesis by (blast intro: reachable.intros)
qed

text \<open>A callback as a program, and the schedule: nine steps of the first lead up to the save of the state.\<close>

definition outcome_prog :: "string \<Rightarrow> TransactionStatus \<Rightarrow> (System, go_error, CallbackResult) prog" where
  "outcome_prog tid st = Callback_prog MemHealth MemTx MemBlacklist (outcome_of tid ''payu'' st)"

definition race :: "(go_error + CallbackResult) \<times> (go_error + CallbackResult) \<times> System" where
  "race = interrupted 9 (outcome_prog ''txn_0'' TransactionStatusSuccess)
     (outcome_prog ''txn_1'' TransactionStatusFailure) race2"

text \<open>The state at the start of the schedule.\<close>

lemma race2_eq: "race2 = (fresh_system race_config)\<lparr>env_ticks := 6, env_reads := 2, env_issued := 2,
    hs_repository := \<lparr>mh_states = [''payu'' \<mapsto> initial_state ''payu'' (1700000001 * 10 ^ 9)], mh_events = []\<rparr>,
    hs_stateCache := [''payu'' \<mapsto> \<lparr>cg_state = initial_state ''payu'' (1700000001 * 10 ^ 9),
      cg_expiresAt = 17000000045 * 10 ^ 8\<rparr>],
    rs_counter := 2, rs_cache := \<lparr>sn_healthy = ac_Gateways solo_config, sn_probes = [],
      sn_expiresAt = 17000000031 * 10 ^ 8\<rparr>,
    ts_transactions := \<lparr>mt_transactions =
       [''txn_0'' \<mapsto> initiated order1 ''txn_0'' 1 ''payu'' ''payu_ord1_1'' (1700000002 * 10 ^ 9),
        ''txn_1'' \<mapsto> initiated order1 ''txn_1'' 2 ''payu'' ''payu_ord1_2'' (1700000005 * 10 ^ 9)],
       mt_attempts = [''ord1'' \<mapsto> 2]\<rparr>\<rparr>"
  by (simp add: race_defs run_simps initial_state_def cong: run_congs)

lemmas race_simps = race_def outcome_prog_def race2_eq initial_state_def prog_run_simps second_rate

lemma race_runs:
  "\<exists>first second s'. race = (Inr first, Inr second, s') \<and>
     cr_GatewayState second = \<lparr>rt_Gateway = ''payu'', rt_State = GatewayStateUnhealthy,
       rt_UnhealthyUntil = 1700000069 * 10 ^ 9, rt_HalfOpenInFlight = 0, rt_HalfOpenProbes = [],
       rt_UpdatedAt = 1700000009 * 10 ^ 9\<rparr> \<and>
     gs_Total (cr_GatewayStats second) = 2 \<and> gs_SuccessRate (cr_GatewayStats second) = Fin (1 / 2) \<and>
     mh_states (hs_repository s') = [''payu'' \<mapsto> \<lparr>rt_Gateway = ''payu'',
       rt_State = GatewayStateHealthy, rt_UnhealthyUntil = zero_time, rt_HalfOpenInFlight = 0,
       rt_HalfOpenProbes = [], rt_UpdatedAt = 1700000007 * 10 ^ 9\<rparr>] \<and>
     env_clock s' (env_ticks s') = 1700000012 * 10 ^ 9"
  by (simp add: race_simps cong: turns_congs)

text \<open>
  Interleaved callbacks can take a gateway out of its cooldown early. From a reachable
  state, the callback of a success reads the state of the gateway and is interrupted by the callback of
  a failure, which marks the gateway unhealthy and answers so; the first callback then saves the
  healthy state it had computed before. At the end the gateway is healthy, although the cooldown
  lasts and the success rate is below the threshold.
\<close>
lemma interleaved_callbacks_end_cooldown:
  "\<exists>reg s first second s' st.
    reachable reg s \<and>
    sched_steps ([Callback_prog MemHealth MemTx MemBlacklist (outcome_of ''txn_0'' ''payu'' TransactionStatusSuccess),
        Callback_prog MemHealth MemTx MemBlacklist (outcome_of ''txn_1'' ''payu'' TransactionStatusFailure)], s)
      ([Done (Inr first), Done (Inr second)], s') \<and>
    rt_State (cr_GatewayState second) = GatewayStateUnhealthy \<and>
    gs_Total (cr_GatewayStats second) \<ge> rc_MinCallbackCount (ac_Routing race_config) \<and>
    gs_SuccessRate (cr_GatewayStats second) < rc_SuccessRateThreshold (ac_Routing race_config) \<and>
    Before (env_clock s' (env_ticks s')) (rt_UnhealthyUntil (cr_GatewayState second)) \<and>
    mh_states (hs_repository s') ''payu'' = Some st \<and> rt_State st = GatewayStateHealthy \<and>
    (\<forall>k. env_config s k = race_config)"
proof -
  obtain first second s' where run: "race = (Inr first, Inr second, s')"
    "cr_GatewayState second = \<lparr>rt_Gateway = ''payu'', rt_State = GatewayStateUnhealthy,
       rt_UnhealthyUntil = 1700000069 * 10 ^ 9, rt_HalfOpenInFlight = 0, rt_HalfOpenProbes = [],
       rt_UpdatedAt = 1700000009 * 10 ^ 9\<rparr>"
    "gs_Total (cr_GatewayStats second) = 2" "gs_SuccessRate (cr_GatewayStats second) = Fin (1 / 2)"
    "mh_states (hs_repository s') = [''payu'' \<mapsto> \<lparr>rt_Gateway = ''payu'',
       rt_State = GatewayStateHealthy, rt_UnhealthyUntil = zero_time, rt_HalfOpenInFlight = 0,
       rt_HalfOpenProbes = [], rt_UpdatedAt = 1700000007 * 10 ^ 9\<rparr>]"
    "env_clock s' (env_ticks s') = 1700000012 * 10 ^ 9"
    using race_runs by blast
  have cfg: "env_config race2 k = race_config" for k by (simp add: race2_eq fresh_system_def)
  from interrupted_steps [OF run(1) [unfolded race_def]] show ?thesis
    using race_reachable run(2-6) cfg
    by (intro exI [of _ "Registry_Client NewRegistry"] exI [of _ race2] exI [of _ first] exI [of _ second]
        exI [of _ s']) (simp add: outcome_prog_def Before_def)
qed

section \<open>Two deliveries of one callback\<close>

text \<open>The first delivery has completed the transaction when the second one comes.\<close>

definition callback_request :: Request where
  "callback_request = \<lparr>hq_Method = ''POST'', hq_Path = Some [''transactions'', ''callback''], hq_Body = failure_body\<rparr>"

definition delivery :: "(System, unit, answer) prog" where
  "delivery = Router_ServeHTTP_prog MemHealth MemTx MemBlacklist (Registry_Client NewRegistry) None callback_request"

definition deliveries :: "(unit + answer) \<times> (unit + answer) \<times> System" where
  "deliveries = interrupted 4 delivery delivery solo1"

lemma delivery_eq: "delivery = answered (p_onError (Callback_prog MemHealth MemTx MemBlacklist
    \<lparr>cb_TransactionID = ''txn_0'', cb_OrderID = '''', cb_Gateway = ''payu'',
     cb_Status = TransactionStatusFailure, cb_Reason = ''''\<rparr>)
  (\<lambda>err. p_throw (writeServiceError err)) (\<lambda>result. p_ret (writeJSON 200 (CallbackBody result))))"
proof -
  have dec: "decodeCallback None (Some (JObject [(''transaction_id'', JString ''txn_0''),
     (''status'', JString ''failure''), (''gateway'', JString ''payu'')])) =
     Inr \<lparr>cb_TransactionID = ''txn_0'', cb_OrderID = '''', cb_Gateway = ''payu'',
       cb_Status = TransactionStatusFailure, cb_Reason = ''''\<rparr>" by code_simp
  have trim: "TrimSpace ''txn_0'' = ''txn_0''" "TrimSpace ''payu'' = ''payu''" "TrimSpace '''' = ''''" by code_simp+
  have route: "match_route ''POST'' [''transactions'', ''callback''] = Some HandleCallback" by code_simp
  show ?thesis
    by (simp add: delivery_def callback_request_def Router_ServeHTTP_prog_def route run_handler_prog_def
        handleCallback_prog_def failure_body_def dec processCallback_prog_def trim)
qed

lemma deliveries_run:
  "\<exists>first second s'. deliveries = (Inr (Handled (writeJSON 200 (CallbackBody first))),
       Inr (Handled (writeJSON 200 (CallbackBody second))), s') \<and>
     tx_ID (cr_Transaction first) = ''txn_0'' \<and> tx_ID (cr_Transaction second) = ''txn_0'' \<and> \<not> cr_Idempotent first"
  by (simp add: deliveries_def delivery_eq answered_def solo_defs prog_run_simps writeJSON_def
     cong: turns_congs)

section \<open>Two initiations of one order\<close>

text \<open>The first initiation has its attempt number when the second one comes.\<close>

definition initiate_request :: Request where
  "initiate_request = \<lparr>hq_Method = ''POST'', hq_Path = Some [''transactions'', ''initiate''],
     hq_Body = Body (Some (JObject [(''order_id'', JString ''ord1''), (''amount'', JInt 10)]))\<rparr>"

definition initiation :: "(System, unit, answer) prog" where
  "initiation = Router_ServeHTTP_prog MemHealth MemTx MemBlacklist (Registry_Client NewRegistry) None initiate_request"

definition initiations :: "(unit + answer) \<times> (unit + answer) \<times> System" where
  "initiations = interrupted 17 initiation initiation solo0"

lemma initiation_eq: "initiation = answered (p_onError (Initiate_prog MemHealth MemTx MemBlacklist
    (Registry_Client NewRegistry) order1)
  (\<lambda>err. p_throw (writeServiceError err)) (\<lambda>transaction. p_ret (writeJSON 201 (TransactionBody transaction))))"
proof -
  have dec: "decodeJSON (decode_struct initiateRequest_fields) initiateRequest_zero
     (Body (Some (JObject [(''order_id'', JString ''ord1''), (''amount'', JInt 10)]))) =
     Inr \<lparr>iq_OrderID = ''ord1'', iq_Amount = Fin 10, iq_PaymentInstrument = None\<rparr>" proof -
    have ten: "json_float 10 = Some (Fin 10)"
      using rnd_of_int [of 10] round_f64_Fin [of 10] by (simp add: json_float_def)
    have names: "fold_name ''order_id'' = ''ORDER_ID''" "fold_name ''amount'' = ''AMOUNT''" by code_simp+
    show ?thesis
      by (simp add: decodeJSON_def decode_def decode_struct_def initiateRequest_fields_def initiateRequest_zero_def
          field_for_def decode_string_def decode_float_def ten names)
  qed
  have trim: "TrimSpace ''ord1'' = ''ord1''" by code_simp
  have route: "match_route ''POST'' [''transactions'', ''initiate''] = Some HandleInitiate" by code_simp
  show ?thesis
    by (simp add: initiation_def initiate_request_def Router_ServeHTTP_prog_def route run_handler_prog_def
        handleInitiate_prog_def dec trim order1_def)
qed

lemmas initiate_run_simps = answered_def writeJSON_def prog_run_simps Initiate_prog_def blacklistedGateways_prog_def
  OrderGatewayBlacklistService_BlacklistedGateways_prog_def SelectGateway_prog_def snapshot_prog_def
  PrepareForRouting_prog_def cachedState_prog_def selectHealthy_prog_def

lemma initiations_run:
  "\<exists>first second s'. initiations = (Inr (Handled (writeJSON 201 (TransactionBody first))),
       Inr (Handled (writeJSON 201 (TransactionBody second))), s') \<and>
     tx_OrderID first = ''ord1'' \<and> tx_OrderID second = ''ord1''"
  by (simp add: initiations_def initiation_eq solo0_def initiate_run_simps cong: turns_congs)

section \<open>Witnesses\<close>

lemma solo_balanced: "balanced solo0" "balanced solo1"
  using solo_reachable(2,3) reachable_balanced by blast+

lemma delivery_threads: "goroutines (Registry_Client NewRegistry) None [callback_request, callback_request] = [delivery, delivery]"
  by (simp add: goroutines_def delivery_def)

lemma initiation_threads: "goroutines (Registry_Client NewRegistry) None [initiate_request, initiate_request] = [initiation, initiation]"
  by (simp add: goroutines_def initiation_def)

theorem concurrent_accounts_witness: "balanced (snd (snd deliveries))"
proof -
  have "sched_steps ([delivery, delivery], solo1) ([Done (fst deliveries), Done (fst (snd deliveries))], snd (snd deliveries))"
    by (rule interrupted_steps [of 4]) (simp add: deliveries_def)
  from concurrent_accounts [OF solo_balanced(2) this [folded delivery_threads]] show ?thesis by simp
qed

theorem concurrent_callback_first_witness:
  "\<exists>first second. fst deliveries = Inr (Handled (writeJSON 200 (CallbackBody first))) \<and>
     fst (snd deliveries) = Inr (Handled (writeJSON 200 (CallbackBody second))) \<and>
     \<not> cr_Idempotent first \<and> cr_Idempotent second \<and>
     mt_transactions (ts_transactions (snd (snd deliveries))) ''txn_0'' = Some (cr_Transaction first)"
proof -
  obtain first second where run: "fst deliveries = Inr (Handled (writeJSON 200 (CallbackBody first)))"
    "fst (snd deliveries) = Inr (Handled (writeJSON 200 (CallbackBody second)))"
    "tx_ID (cr_Transaction first) = ''txn_0''" "tx_ID (cr_Transaction second) = ''txn_0''" "\<not> cr_Idempotent first"
    using deliveries_run by (metis fst_conv snd_conv)
  have "sched_steps ([delivery, delivery], solo1) ([Done (fst deliveries), Done (fst (snd deliveries))], snd (snd deliveries))"
    by (rule interrupted_steps [of 4]) (simp add: deliveries_def)
  note first = concurrent_callback_first [OF solo_balanced(2) this [folded delivery_threads], of 0
      "writeJSON 200 (CallbackBody first)" first]
  have "cr_Idempotent second" using first run by (auto simp: writeJSON_def dest: spec [where x = "Suc 0"])
  with first run show ?thesis by (auto simp: writeJSON_def)
qed

theorem concurrent_attempts_witness:
  "\<exists>first second. fst initiations = Inr (Handled (writeJSON 201 (TransactionBody first))) \<and>
     fst (snd initiations) = Inr (Handled (writeJSON 201 (TransactionBody second))) \<and>
     tx_ID second \<noteq> tx_ID first \<and> tx_AttemptNo second \<noteq> tx_AttemptNo first"
proof -
  obtain first second where run: "fst initiations = Inr (Handled (writeJSON 201 (TransactionBody first)))"
    "fst (snd initiations) = Inr (Handled (writeJSON 201 (TransactionBody second)))"
    "tx_OrderID first = ''ord1''" "tx_OrderID second = ''ord1''"
    using initiations_run by (metis fst_conv snd_conv)
  have "sched_steps ([initiation, initiation], solo0)
      ([Done (fst initiations), Done (fst (snd initiations))], snd (snd initiations))"
    by (rule interrupted_steps [of 17]) (simp add: initiations_def)
  note first = concurrent_attempts [OF solo_balanced(1) this [folded initiation_threads], of 0
      "writeJSON 201 (TransactionBody first)" first]
  have "tx_ID second \<noteq> tx_ID first \<and> tx_AttemptNo second \<noteq> tx_AttemptNo first"
    using first run by (auto simp: writeJSON_def dest: spec [where x = "Suc 0"])
  with run show ?thesis by blast
qed

section \<open>Two initiations of an order with a failed gateway\<close>

text \<open>Two gateways, of which an order no longer uses one after a single failure.\<close>

definition strict_config :: AppConfig where
  "strict_config = \<lparr>
     ac_Routing = (ac_Routing solo_config)\<lparr>rc_MinCallbackCount := 10, rc_OrderGatewayFailureThreshold := 1\<rparr>,
     ac_Gateways = [\<lparr>gc_Name = ''payu'', gc_Enabled = True, gc_Weight = 1\<rparr>,
       \<lparr>gc_Name = ''cashfree'', gc_Enabled = True, gc_Weight = 1\<rparr>]\<rparr>"

lemma strict_config_simps [simp]:
  "WithDefaults strict_config = strict_config"
  "ac_Routing strict_config = (ac_Routing solo_config)\<lparr>rc_MinCallbackCount := 10, rc_OrderGatewayFailureThreshold := 1\<rparr>"
  "ac_Gateways strict_config = [\<lparr>gc_Name = ''payu'', gc_Enabled = True, gc_Weight = 1\<rparr>,
     \<lparr>gc_Name = ''cashfree'', gc_Enabled = True, gc_Weight = 1\<rparr>]"
  unfolding strict_config_def by (rule WithDefaults_id, simp_all)

definition strict0 :: System where "strict0 = fresh_system strict_config"
definition strict1 :: System where "strict1 = snd (mem_Initiate order1 strict0)"
definition strict2 :: System where
  "strict2 = snd (mem_Callback (outcome_of ''txn_0'' ''cashfree'' TransactionStatusFailure) strict1)"

lemmas strict_defs = strict0_def strict1_def strict2_def

lemma strict_reachable: "reachable (Registry_Client NewRegistry) strict2"
proof -
  have "started strict0" by (simp add: started_def strict0_def fresh_system_def)
  moreover have "serves (Registry_Client NewRegistry) strict0 strict1" "serves (Registry_Client NewRegistry) strict1 strict2"
    unfolding strict1_def strict2_def mem_Initiate_def mem_Callback_def
    by (rule serves.initiate serves.callback, rule prod.collapse [symmetric])+
  ultimately show ?thesis by (blast intro: reachable.intros)
qed

definition strict_txn :: Transaction where
  "strict_txn = completed_at (1700000004 * 10 ^ 9) TransactionStatusFailure ''''
     (initiated order1 ''txn_0'' 1 ''cashfree'' ''cf_ord1_txn_0'' (1700000003 * 10 ^ 9))"

lemma strict_facts:
  "mt_transactions (ts_transactions strict2) = [''txn_0'' \<mapsto> strict_txn]" "threshold_is 1 strict2"
  by (simp_all add: threshold_is_def strict_txn_def strict_defs run_simps cong: run_congs)

lemma strict_txn_simps [simp]:
  "tx_OrderID strict_txn = ''ord1''" "tx_Gateway strict_txn = ''cashfree''" "tx_Status strict_txn = TransactionStatusFailure"
  by (simp_all add: strict_txn_def initiated_def order1_def)

definition retries :: "(unit + answer) \<times> (unit + answer) \<times> System" where
  "retries = interrupted 15 initiation initiation strict2"

lemma retries_run:
  "\<exists>second. fst (snd retries) = Inr (Handled (writeJSON 201 (TransactionBody second))) \<and> tx_OrderID second = ''ord1''"
  by (simp add: retries_def initiation_eq strict_defs initiate_run_simps cong: turns_congs)

text \<open>The initiation that came in between the steps of the other one is placed at the other gateway.\<close>

theorem concurrent_failed_gateway_avoided_witness:
  "\<exists>second. fst (snd retries) = Inr (Handled (writeJSON 201 (TransactionBody second))) \<and>
     tx_Gateway second \<noteq> ''cashfree''"
proof -
  obtain second where run: "fst (snd retries) = Inr (Handled (writeJSON 201 (TransactionBody second)))"
    "tx_OrderID second = ''ord1''"
    using retries_run by blast
  have out: "outcomes (ts_transactions strict2) ''ord1'' ''cashfree'' TransactionStatusFailure = {''txn_0''}"
    "outcomes (ts_transactions strict2) ''ord1'' ''cashfree'' TransactionStatusSuccess = {}"
    by (auto simp: outcomes_def strict_facts)
  have "sched_steps ([initiation, initiation], strict2) ([Done (fst retries), Done (fst (snd retries))], snd (snd retries))"
    by (rule interrupted_steps [of 15]) (simp add: retries_def)
  note avoided = concurrent_failed_gateway_avoided [OF strict_reachable strict_facts(2) _ out(2) _ _
      this [folded initiation_threads]]
  have "tx_Gateway second \<noteq> ''cashfree''"
    by (rule avoided [of "Suc 0" "writeJSON 201 (TransactionBody second)"])
      (use run out(1) in \<open>auto simp: writeJSON_def strict_facts\<close>)
  with run show ?thesis by blast
qed

text \<open>Both deliveries of the callback are answered.\<close>

end
