(* ===== verification/ConfigProvider.thy ===== *)
theory ConfigProvider
  imports Environment
begin

text \<open>
  The package \<open>internal/adapters/config\<close>: the routing configuration read from a file that may change
  while the program runs (\<open>file_provider.go\<close>), and the runtime configuration read from the
  environment (\<open>runtime_config.go\<close>). The file system, \<open>yaml.Unmarshal\<close> and \<open>viper\<close> are parameters.
\<close>

section \<open>The file\<close>

text \<open>
  What \<open>os.ReadFile\<close> and \<open>os.Stat\<close> would answer for a path at one moment. The file system gives the
  answers in the order of the calls: between two calls the file may have been changed.
\<close>

record OsFile =
  of_Data :: "go_error + string"
  of_ModTime :: "go_error + time"

record FileProvider =
  fp_files :: "nat \<Rightarrow> string \<Rightarrow> OsFile"
  fp_calls :: nat
  fp_path :: string
  fp_current :: AppConfig
  fp_modTime :: time

definition os_ReadFile :: "string \<Rightarrow> (FileProvider, go_error, string) proc" where
  "os_ReadFile path p = (of_Data (fp_files p (fp_calls p) path), p\<lparr>fp_calls := Suc (fp_calls p)\<rparr>)"

definition os_Stat :: "string \<Rightarrow> (FileProvider, go_error, time) proc" where
  "os_Stat path p = (of_ModTime (fp_files p (fp_calls p) path), p\<lparr>fp_calls := Suc (fp_calls p)\<rparr>)"

text \<open>\<open>filepath.Ext\<close>: the suffix from the last dot of the last element of the path.\<close>

fun ext_rev :: "string \<Rightarrow> string \<Rightarrow> string" where
  "ext_rev [] acc = ''''"
| "ext_rev (c # cs) acc =
     (if c = CHR ''/'' then '''' else if c = CHR ''.'' then c # acc else ext_rev cs (c # acc))"

definition filepath_Ext :: "string \<Rightarrow> string" where
  "filepath_Ext path = ext_rev (rev path) ''''"

section \<open>Parsing\<close>

definition zero_RoutingConfig :: RoutingConfig where
  "zero_RoutingConfig = \<lparr>rc_HealthWindowSeconds = 0, rc_UnhealthyCooldownSeconds = 0,
     rc_MinCallbackCount = 0, rc_SuccessRateThreshold = Fin 0, rc_HalfOpenProbeCount = 0,
     rc_HalfOpenProbeTimeoutSeconds = 0, rc_OrderGatewayFailureThreshold = 0\<rparr>"

definition zero_GatewayConfig :: GatewayConfig where
  "zero_GatewayConfig = \<lparr>gc_Name = '''', gc_Enabled = False, gc_Weight = 0\<rparr>"

definition zero_AppConfig :: AppConfig where
  "zero_AppConfig = \<lparr>ac_Routing = zero_RoutingConfig, ac_Gateways = []\<rparr>"

text \<open>The fields with the names of their \<open>json\<close> tags.\<close>

definition RoutingConfig_fields :: "(string \<times> RoutingConfig decoder) list" where
  "RoutingConfig_fields =
     [(''health_window_seconds'', decode_int (\<lambda>n. rc_HealthWindowSeconds_update (\<lambda>_. n))),
      (''unhealthy_cooldown_seconds'', decode_int (\<lambda>n. rc_UnhealthyCooldownSeconds_update (\<lambda>_. n))),
      (''min_callback_count'', decode_int (\<lambda>n. rc_MinCallbackCount_update (\<lambda>_. n))),
      (''success_rate_threshold'', decode_float (\<lambda>f. rc_SuccessRateThreshold_update (\<lambda>_. f))),
      (''half_open_probe_count'', decode_int (\<lambda>n. rc_HalfOpenProbeCount_update (\<lambda>_. n))),
      (''half_open_probe_timeout_seconds'',
         decode_int (\<lambda>n. rc_HalfOpenProbeTimeoutSeconds_update (\<lambda>_. n))),
      (''order_gateway_failure_threshold'',
         decode_int (\<lambda>n. rc_OrderGatewayFailureThreshold_update (\<lambda>_. n)))]"

definition GatewayConfig_fields :: "(string \<times> GatewayConfig decoder) list" where
  "GatewayConfig_fields =
     [(''name'', decode_string (\<lambda>s. gc_Name_update (\<lambda>_. s))),
      (''enabled'', decode_bool (\<lambda>b. gc_Enabled_update (\<lambda>_. b))),
      (''weight'', decode_int (\<lambda>n. gc_Weight_update (\<lambda>_. n)))]"

definition AppConfig_fields :: "(string \<times> AppConfig decoder) list" where
  "AppConfig_fields =
     [(''routing'', decode_in ac_Routing (\<lambda>r. ac_Routing_update (\<lambda>_. r))
         (unmarshal_struct RoutingConfig_fields)),
      (''gateways'', unmarshal_slice ac_Gateways (\<lambda>gs. ac_Gateways_update (\<lambda>_. gs))
         zero_GatewayConfig (unmarshal_struct GatewayConfig_fields))]"

text \<open>
  The parsers of a text: \<open>tokens\<close> gives the JSON document a text is, if it is one, and \<open>yaml\<close> is
  \<open>yaml.Unmarshal\<close> into the zero configuration. The message of a JSON error is not modelled.
\<close>

record Unmarshal =
  um_tokens :: "string \<Rightarrow> json option"
  um_yaml :: "string \<Rightarrow> go_error + AppConfig"

definition json_Unmarshal_AppConfig :: "Unmarshal \<Rightarrow> string \<Rightarrow> go_error + AppConfig" where
  "json_Unmarshal_AppConfig u text =
     (case um_tokens u text of
        None \<Rightarrow> Inl (Errorf ''json'' [])
      | Some doc \<Rightarrow>
          (case unmarshal_struct AppConfig_fields doc zero_AppConfig of
             None \<Rightarrow> Inl (Errorf ''json'' [])
           | Some cfg \<Rightarrow> Inr cfg))"

definition Parse :: "Unmarshal \<Rightarrow> string \<Rightarrow> string \<Rightarrow> go_error + AppConfig" where
  "Parse u text extension =
     (if ToLower extension = ''.json'' then json_Unmarshal_AppConfig u text else um_yaml u text)"

section \<open>The provider\<close>

definition lift_result :: "'e + 'a \<Rightarrow> ('s, 'e, 'a) proc" where
  "lift_result r s = (r, s)"

definition lift_err :: "'e option \<Rightarrow> ('s, 'e, unit) proc" where
  "lift_err e s = (case e of None \<Rightarrow> (Inr (), s) | Some er \<Rightarrow> (Inl er, s))"

definition reload :: "Unmarshal \<Rightarrow> (FileProvider, go_error, unit) proc" where
  "reload u p =
     andThen (os_ReadFile (fp_path p)) (\<lambda>data.
     andThen (lift_result (Parse u data (filepath_Ext (fp_path p)))) (\<lambda>cfg0.
     let cfg = WithDefaults cfg0 in
     andThen (lift_err (Validate cfg)) (\<lambda>_.
     andThen (os_Stat (fp_path p)) (\<lambda>modTime.
     modify (\<lambda>p. p\<lparr>fp_current := cfg, fp_modTime := modTime\<rparr>))))) p"

definition reloadIfChanged :: "Unmarshal \<Rightarrow> (FileProvider, go_error, unit) proc" where
  "reloadIfChanged u p =
     andThen (os_Stat (fp_path p)) (\<lambda>modTime.
     andThen (gets (\<lambda>p. modTime = fp_modTime p)) (\<lambda>unchanged.
     if unchanged then ret () else reload u)) p"

definition NewFileProvider ::
  "Unmarshal \<Rightarrow> (nat \<Rightarrow> string \<Rightarrow> OsFile) \<Rightarrow> string \<Rightarrow> go_error + FileProvider" where
  "NewFileProvider u files path =
     (let provider = \<lparr>fp_files = files, fp_calls = 0, fp_path = path, fp_current = zero_AppConfig,
          fp_modTime = zero_time\<rparr> in
      case reload u provider of
        (Inl err, _) \<Rightarrow> Inl err
      | (Inr _, provider') \<Rightarrow> Inr provider')"

definition FileProvider_Current :: "(FileProvider, 'e, AppConfig) proc" where
  "FileProvider_Current = gets fp_current"

text \<open>
  \<open>Watch\<close>, over the number of ticks received before the context is done: each tick polls the file,
  an error is logged and the last valid configuration kept.
\<close>

fun Watch :: "Unmarshal \<Rightarrow> nat \<Rightarrow> FileProvider \<Rightarrow> FileProvider" where
  "Watch u 0 p = p"
| "Watch u (Suc ticks) p = Watch u ticks (snd (reloadIfChanged u p))"

section \<open>The runtime configuration\<close>

record RedisConfig =
  rd_Addr :: string
  rd_Password :: string
  rd_DB :: int
  rd_KeyPrefix :: string
  rd_PoolSize :: int

record RuntimeConfig =
  ru_Addr :: string
  ru_ConfigPath :: string
  ru_ConfigReloadIntervalSeconds :: int
  ru_StateBackend :: string
  ru_GatewayStateCacheTTLMilliseconds :: int
  ru_RoutingCacheTTLMilliseconds :: int
  ru_Redis :: RedisConfig

text \<open>The keys and defaults given to viper by \<open>SetDefault\<close>.\<close>

datatype setting = StringSetting string | IntSetting int

definition runtime_defaults :: "(string \<times> setting) list" where
  "runtime_defaults =
     [(''addr'', StringSetting '':8080''),
      (''config_path'', StringSetting ''./configs/gateways.yaml''),
      (''config_reload_interval_seconds'', IntSetting 2),
      (''state_backend'', StringSetting ''memory''),
      (''gateway_state_cache_ttl_ms'', IntSetting 500),
      (''routing_cache_ttl_ms'', IntSetting 100),
      (''redis.addr'', StringSetting ''localhost:6379''),
      (''redis.password'', StringSetting ''''),
      (''redis.db'', IntSetting 0),
      (''redis.key_prefix'', StringSetting ''pgr''),
      (''redis.pool_size'', IntSetting 128)]"

definition RuntimeConfig_Validate :: "RuntimeConfig \<Rightarrow> go_error option" where
  "RuntimeConfig_Validate c =
     (if ru_Addr c = '''' then Some (Errorf ''addr is required'' [])
      else if ru_ConfigPath c = '''' then Some (Errorf ''config_path is required'' [])
      else if ru_ConfigReloadIntervalSeconds c \<le> 0
        then Some (Errorf ''config_reload_interval_seconds must be positive'' [])
      else if ru_StateBackend c \<noteq> ''memory'' \<and> ru_StateBackend c \<noteq> ''redis''
        then Some (Errorf ''state_backend must be memory or redis'' [])
      else if ru_GatewayStateCacheTTLMilliseconds c \<le> 0
        then Some (Errorf ''gateway_state_cache_ttl_ms must be positive'' [])
      else if ru_RoutingCacheTTLMilliseconds c \<le> 0
        then Some (Errorf ''routing_cache_ttl_ms must be positive'' [])
      else if rd_DB (ru_Redis c) < 0 then Some (Errorf ''redis_db must be zero or positive'' [])
      else if rd_PoolSize (ru_Redis c) \<le> 0
        then Some (Errorf ''redis_pool_size must be positive'' [])
      else None)"

text \<open>
  \<open>viper\<close> is the parameter: a new instance with these defaults that reads the process environment,
  unmarshalled into a \<open>RuntimeConfig\<close>.
\<close>

definition LoadRuntimeConfig ::
  "((string \<times> setting) list \<Rightarrow> go_error + RuntimeConfig) \<Rightarrow> go_error + RuntimeConfig" where
  "LoadRuntimeConfig viper =
     (case viper runtime_defaults of
        Inl err \<Rightarrow> Inl (case err of
            Wrapf s f args \<Rightarrow> Wrapf s (''load runtime config: '' @ f) args
          | Sentinel s \<Rightarrow> Wrapf s ''load runtime config: %w'' []
          | Errorf f args \<Rightarrow> Errorf (''load runtime config: '' @ f) args)
      | Inr cfg0 \<Rightarrow>
          (let cfg = cfg0\<lparr>ru_StateBackend := ToLower (TrimSpace (ru_StateBackend cfg0))\<rparr> in
           case RuntimeConfig_Validate cfg of
             Some err \<Rightarrow> Inl err
           | None \<Rightarrow> Inr cfg))"

definition ConfigReloadInterval :: "RuntimeConfig \<Rightarrow> duration" where
  "ConfigReloadInterval c = Duration (ru_ConfigReloadIntervalSeconds c) Second"

definition GatewayStateCacheTTL :: "RuntimeConfig \<Rightarrow> duration" where
  "GatewayStateCacheTTL c = Duration (ru_GatewayStateCacheTTLMilliseconds c) Millisecond"

definition RoutingCacheTTL :: "RuntimeConfig \<Rightarrow> duration" where
  "RoutingCacheTTL c = Duration (ru_RoutingCacheTTLMilliseconds c) Millisecond"

section \<open>Runs of the provider\<close>

lemma andThen_os [simp]:
  "andThen (os_ReadFile path) f p =
     (case of_Data (fp_files p (fp_calls p) path) of
        Inl e \<Rightarrow> (Inl e, p\<lparr>fp_calls := Suc (fp_calls p)\<rparr>)
      | Inr text \<Rightarrow> f text (p\<lparr>fp_calls := Suc (fp_calls p)\<rparr>))"
  "andThen (os_Stat path) f' p =
     (case of_ModTime (fp_files p (fp_calls p) path) of
        Inl e \<Rightarrow> (Inl e, p\<lparr>fp_calls := Suc (fp_calls p)\<rparr>)
      | Inr m \<Rightarrow> f' m (p\<lparr>fp_calls := Suc (fp_calls p)\<rparr>))"
  by (simp_all add: andThen_def os_ReadFile_def os_Stat_def split: sum.split)

lemma andThen_lift [simp]:
  "andThen (lift_result (Inl e)) f s = (Inl e, s)" "andThen (lift_result (Inr x)) f s = f x s"
  "andThen (lift_err None) g s = g () s" "andThen (lift_err (Some e)) g s = (Inl e, s)"
  by (simp_all add: andThen_def lift_result_def lift_err_def)

text \<open>
  What the provider takes from a file: the content, parsed, completed and accepted.
\<close>

definition accepts :: "Unmarshal \<Rightarrow> string \<Rightarrow> string \<Rightarrow> AppConfig \<Rightarrow> bool" where
  "accepts u path text cfg \<longleftrightarrow> (\<exists>c. Parse u text (filepath_Ext path) = Inr c \<and>
     cfg = WithDefaults c \<and> Validate cfg = None)"

text \<open>
  The outcomes of \<open>reload\<close>: the file was read at call \<open>n\<close> and looked at again at call \<open>n + 1\<close>.
\<close>

lemma reload_cases:
  obtains (ok) content cfg m where "of_Data (fp_files p (fp_calls p) (fp_path p)) = Inr content"
      "accepts u (fp_path p) content cfg" "of_ModTime (fp_files p (Suc (fp_calls p)) (fp_path p)) = Inr m"
      "reload u p = (Inr (), p\<lparr>fp_calls := Suc (Suc (fp_calls p)), fp_current := cfg, fp_modTime := m\<rparr>)"
  | (failed) e n where "reload u p = (Inl e, p\<lparr>fp_calls := n\<rparr>)" "fp_calls p < n"
      "n \<le> fp_calls p + 2"
      "\<not> (\<exists>content cfg m. of_Data (fp_files p (fp_calls p) (fp_path p)) = Inr content \<and>
        accepts u (fp_path p) content cfg \<and> of_ModTime (fp_files p (Suc (fp_calls p)) (fp_path p)) = Inr m)"
proof (cases "of_Data (fp_files p (fp_calls p) (fp_path p))")
  case (Inl e)
  then show thesis by (intro failed [of e "Suc (fp_calls p)"]) (simp_all add: reload_def Let_def)
next
  case content: (Inr content)
  show thesis
  proof (cases "Parse u content (filepath_Ext (fp_path p))")
    case (Inl e)
    with content show thesis
      by (intro failed [of e "Suc (fp_calls p)"]) (simp_all add: reload_def accepts_def Let_def)
  next
    case c: (Inr c)
    show thesis
    proof (cases "Validate (WithDefaults c)")
      case (Some e)
      with content c show thesis
        by (intro failed [of e "Suc (fp_calls p)"]) (simp_all add: reload_def accepts_def Let_def)
    next
      case None
      show thesis
      proof (cases "of_ModTime (fp_files p (Suc (fp_calls p)) (fp_path p))")
        case (Inl e)
        with content c None show thesis
          by (intro failed [of e "fp_calls p + 2"]) (simp_all add: reload_def Let_def)
      next
        case (Inr m)
        with content c None show thesis
          by (intro ok [of content "WithDefaults c" m]) (simp_all add: reload_def accepts_def Let_def)
      qed
    qed
  qed
qed

lemma reload_frame:
  "fp_files (snd (reload u p)) = fp_files p" "fp_path (snd (reload u p)) = fp_path p"
  by (cases rule: reload_cases [of p u]; simp)+

lemma reloadIfChanged_cases:
  obtains (error) e n where "reloadIfChanged u p = (Inl e, p\<lparr>fp_calls := n\<rparr>)" "fp_calls p < n"
      "n \<le> fp_calls p + 3"
  | (unchanged) "of_ModTime (fp_files p (fp_calls p) (fp_path p)) = Inr (fp_modTime p)"
      "reloadIfChanged u p = (Inr (), p\<lparr>fp_calls := Suc (fp_calls p)\<rparr>)"
  | (reloaded) content cfg m where
      "of_ModTime (fp_files p (fp_calls p) (fp_path p)) \<noteq> Inr (fp_modTime p)"
      "of_Data (fp_files p (Suc (fp_calls p)) (fp_path p)) = Inr content"
      "accepts u (fp_path p) content cfg"
      "of_ModTime (fp_files p (fp_calls p + 2) (fp_path p)) = Inr m"
      "reloadIfChanged u p =
         (Inr (), p\<lparr>fp_calls := fp_calls p + 3, fp_current := cfg, fp_modTime := m\<rparr>)"
proof (cases "of_ModTime (fp_files p (fp_calls p) (fp_path p))")
  case (Inl e)
  then show thesis by (intro error [of e "Suc (fp_calls p)"]) (simp_all add: reloadIfChanged_def)
next
  case (Inr m0)
  show thesis
  proof (cases "m0 = fp_modTime p")
    case True
    with Inr show thesis by (intro unchanged) (simp_all add: reloadIfChanged_def)
  next
    case False
    let ?q = "p\<lparr>fp_calls := Suc (fp_calls p)\<rparr>"
    from Inr False have run: "reloadIfChanged u p = reload u ?q"
      by (simp add: reloadIfChanged_def)
    show thesis
    proof (cases rule: reload_cases [of ?q u])
      case (ok content cfg m)
      with Inr False run show thesis by (intro reloaded [of content cfg m]) simp_all
    next
      case (failed e n)
      with run show thesis by (intro error [of e n]) simp_all
    qed
  qed
qed

lemma reloadIfChanged_frame [simp]:
  "fp_files (snd (reloadIfChanged u p)) = fp_files p"
  "fp_path (snd (reloadIfChanged u p)) = fp_path p"
  "fp_calls p \<le> fp_calls (snd (reloadIfChanged u p))"
  by (cases rule: reloadIfChanged_cases [of u p]; simp)+

lemma Watch_frame [simp]:
  "fp_files (Watch u n p) = fp_files p" "fp_path (Watch u n p) = fp_path p"
  by (induction u n p rule: Watch.induct) simp_all

text \<open>Polling an unchanged file does nothing.\<close>

lemma Watch_unchanged:
  assumes "\<And>k. fp_calls p \<le> k \<Longrightarrow> of_ModTime (fp_files p k (fp_path p)) = Inr (fp_modTime p)"
  shows "fp_current (Watch u n p) = fp_current p \<and> fp_modTime (Watch u n p) = fp_modTime p"
  using assms
proof (induction u n p rule: Watch.induct)
  case (2 u n p)
  have "reloadIfChanged u p = (Inr (), p\<lparr>fp_calls := Suc (fp_calls p)\<rparr>)"
    using "2.prems" [of "fp_calls p"] by (simp add: reloadIfChanged_def)
  with "2.IH" "2.prems" show ?case by simp
qed simp

text \<open>The configuration in use was read from the file and accepted.\<close>

lemma watched_config:
  assumes "NewFileProvider u files path = Inr p"
  shows "\<exists>k content. k < fp_calls (Watch u n p) \<and> of_Data (files k path) = Inr content \<and>
    accepts u path content (fp_current (Watch u n p))"
proof -
  define good where "good (q :: FileProvider) \<longleftrightarrow> fp_files q = files \<and> fp_path q = path \<and>
    (\<exists>k content. k < fp_calls q \<and> of_Data (files k path) = Inr content \<and>
      accepts u path content (fp_current q))" for q
  define new where "new = \<lparr>fp_files = files, fp_calls = 0, fp_path = path, fp_current = zero_AppConfig,
    fp_modTime = zero_time\<rparr>"
  from assms have "fst (reload u new) = Inr () \<and> p = snd (reload u new)"
    by (simp add: NewFileProvider_def new_def [symmetric] split: prod.splits sum.splits)
  then have "good p"
  proof (cases rule: reload_cases [of new u])
    case (ok content cfg m)
    then show ?thesis using \<open>fst (reload u new) = Inr () \<and> p = snd (reload u new)\<close>
      by (auto simp: good_def new_def)
  qed simp
  have step: "good (snd (reloadIfChanged u q))" if "good q" for q
  proof (cases rule: reloadIfChanged_cases [of u q])
    case (error e n)
    with that show ?thesis by (auto simp: good_def) (meson less_trans)
  next
    case unchanged
    with that show ?thesis by (auto simp: good_def) (meson less_SucI)
  next
    case (reloaded content cfg m)
    with that show ?thesis by (auto simp: good_def intro!: exI [of _ "Suc (fp_calls q)"])
  qed
  have "good (Watch u n q)" if "good q" for q
    using that step by (induction u n q rule: Watch.induct) simp_all
  from this [OF \<open>good p\<close>] show ?thesis by (auto simp: good_def)
qed

section \<open>Properties\<close>

text \<open>
  C25: whatever happens to the file after the program has started, the configuration in use is always
  the completed and accepted form of some content the file had when it was read; a poll that fails,
  because the file cannot be read or looked at or is not valid, keeps it.
\<close>
theorem current_config_accepted:
  assumes "NewFileProvider u files path = Inr p"
  shows "(\<exists>k content. k < fp_calls (Watch u n p) \<and> of_Data (files k path) = Inr content \<and>
      accepts u path content (fp_current (Watch u n p))) \<and>
    (fst (reloadIfChanged u (Watch u n p)) = Inr () \<or>
     fp_current (Watch u (Suc n) p) = fp_current (Watch u n p))"
proof -
  have "Watch u (Suc n) p = snd (reloadIfChanged u (Watch u n p))"
    by (induction u n p rule: Watch.induct) simp_all
  moreover have "fst (reloadIfChanged u q) = Inr () \<or>
      fp_current (snd (reloadIfChanged u q)) = fp_current q" for q
    by (cases rule: reloadIfChanged_cases [of u q]) simp_all
  ultimately show ?thesis using watched_config [OF assms] by auto
qed

text \<open>
  C26: once the file stays with an acceptable content and a modification time other than the recorded
  one, the next poll puts that content in force, and no later poll changes it.
\<close>
theorem watch_follows_file:
  assumes stays: "\<And>k. fp_calls p \<le> k \<Longrightarrow>
      fp_files p k (fp_path p) = \<lparr>of_Data = Inr content, of_ModTime = Inr m\<rparr>"
    and "m \<noteq> fp_modTime p" "accepts u (fp_path p) content cfg"
  shows "fp_current (Watch u (Suc n) p) = cfg"
proof -
  from assms(3) obtain c where c: "Parse u content (filepath_Ext (fp_path p)) = Inr c"
    "Validate (WithDefaults c) = None" "cfg = WithDefaults c"
    by (auto simp: accepts_def)
  define q where "q = snd (reloadIfChanged u p)"
  have "q = p\<lparr>fp_calls := fp_calls p + 3, fp_current := cfg, fp_modTime := m\<rparr>"
    using stays [of "fp_calls p"] stays [of "fp_calls p + 1"] stays [of "fp_calls p + 2"] assms(2) c
    by (simp add: q_def reloadIfChanged_def reload_def Let_def numeral_3_eq_3)
  with Watch_unchanged [of q u n] stays show ?thesis by (simp add: q_def [symmetric])
qed

text \<open>
  A change of the file between the moment a reload reads it and the moment the same reload looks
  at its modification time is lost: however long the file then stays as it is, and however often it
  is polled, the configuration read before the change remains in force.
\<close>
theorem change_during_reload_lost:
  assumes "reload u p = (Inr (), p')"
    and "of_Data (fp_files p (fp_calls p) (fp_path p)) = Inr before" "accepts u (fp_path p) before cfg"
    and changed: "\<And>k. fp_calls p < k \<Longrightarrow>
      fp_files p k (fp_path p) = \<lparr>of_Data = Inr after, of_ModTime = Inr m\<rparr>"
  shows "fp_current (Watch u n p') = cfg"
proof -
  from assms(3) obtain c where c: "Parse u before (filepath_Ext (fp_path p)) = Inr c"
    "Validate (WithDefaults c) = None" "cfg = WithDefaults c"
    by (auto simp: accepts_def)
  have "p' = p\<lparr>fp_calls := fp_calls p + 2, fp_current := cfg, fp_modTime := m\<rparr>"
    using assms(1,2) changed [of "fp_calls p + 1"] c by (auto simp: reload_def Let_def)
  with Watch_unchanged [of p' u n] changed show ?thesis by simp
qed

text \<open>
  C40: a runtime configuration that is loaded names one of the two backends and has positive settings;
  the interval of the file watcher is positive, as its ticker requires, exactly for up to 9223372036
  seconds: above that the product with the second overflows (stated up to twice that bound), although
  the configuration is accepted.
\<close>
theorem runtime_config_accepted:
  assumes "LoadRuntimeConfig viper = Inr c" "ru_ConfigReloadIntervalSeconds c \<le> 18446744073"
  shows "ru_StateBackend c \<in> {''memory'', ''redis''} \<and> ru_Addr c \<noteq> '''' \<and> ru_ConfigPath c \<noteq> '''' \<and>
    0 < ru_GatewayStateCacheTTLMilliseconds c \<and> 0 < ru_RoutingCacheTTLMilliseconds c \<and>
    0 \<le> rd_DB (ru_Redis c) \<and> 0 < rd_PoolSize (ru_Redis c) \<and>
    0 < ru_ConfigReloadIntervalSeconds c \<and>
    (0 < ConfigReloadInterval c) = (ru_ConfigReloadIntervalSeconds c \<le> 9223372036)"
proof -
  have valid: "RuntimeConfig_Validate c = None"
    using assms(1) by (auto simp: LoadRuntimeConfig_def Let_def split: sum.splits option.splits)
  define n where "n = ru_ConfigReloadIntervalSeconds c"
  have n: "0 < n" "n \<le> 18446744073"
    using valid assms(2) by (auto simp: RuntimeConfig_Validate_def n_def split: if_splits)
  have "\<not> 0 < Duration n Second" if "9223372036 < n"
  proof -
    have "(n * 10 ^ 9 + 2 ^ 63) mod 2 ^ 64 = ((n * 10 ^ 9 + 2 ^ 63 - 2 ^ 64) + 2 ^ 64) mod 2 ^ 64"
      by (simp add: add.commute)
    also have "\<dots> = (n * 10 ^ 9 + 2 ^ 63 - 2 ^ 64) mod 2 ^ 64" by (rule mod_add_self2)
    also have "\<dots> = n * 10 ^ 9 + 2 ^ 63 - 2 ^ 64" using that n by (intro mod_pos_pos_trivial) simp_all
    finally have "(n * 10 ^ 9 + 2 ^ 63) mod 2 ^ 64 = n * 10 ^ 9 + 2 ^ 63 - 2 ^ 64" .
    with that n show ?thesis by (simp add: Duration_def Second_def wrap64_def)
  qed
  moreover have "0 < Duration n Second" if "n \<le> 9223372036"
    using Duration_Second_small [OF n(1) that] by simp
  ultimately have "(0 < ConfigReloadInterval c) = (n \<le> 9223372036)"
    unfolding ConfigReloadInterval_def n_def [symmetric] by (metis not_le)
  with valid show ?thesis
    by (auto simp: RuntimeConfig_Validate_def n_def split: if_splits)
qed

section \<open>A file that changes\<close>

text \<open>
  A JSON file with two versions, one gateway and two. \<open>changes_at n\<close> is the file system in which
  the calls before call \<open>n\<close> see the first version and the others the second.
\<close>

definition one_gateway :: json where
  "one_gateway = JObject [(''gateways'', JArray [JObject [(''name'', JString ''payu''),
     (''enabled'', JBool True), (''weight'', JInt 30)]])]"

definition two_gateways :: json where
  "two_gateways = JObject [(''gateways'', JArray
     [JObject [(''name'', JString ''payu''), (''enabled'', JBool True), (''weight'', JInt 30)],
      JObject [(''name'', JString ''cashfree''), (''enabled'', JBool False), (''weight'', JInt 0)]]),
     (''comment'', JString ''ignored'')]"

definition file_parsers :: Unmarshal where
  "file_parsers = \<lparr>um_tokens = (\<lambda>s. if s = ''one'' then Some one_gateway
     else if s = ''two'' then Some two_gateways else None), um_yaml = (\<lambda>_. Inl (Errorf ''yaml'' []))\<rparr>"

definition changes_at :: "nat \<Rightarrow> nat \<Rightarrow> string \<Rightarrow> OsFile" where
  "changes_at n k path = (if k < n then \<lparr>of_Data = Inr ''one'', of_ModTime = Inr 1\<rparr>
     else \<lparr>of_Data = Inr ''two'', of_ModTime = Inr 2\<rparr>)"

definition payu_30 :: GatewayConfig where
  "payu_30 = \<lparr>gc_Name = ''payu'', gc_Enabled = True, gc_Weight = 30\<rparr>"

definition gateways_config :: "GatewayConfig list \<Rightarrow> AppConfig" where
  "gateways_config gs = \<lparr>ac_Routing = zero_RoutingConfig, ac_Gateways = gs\<rparr>"

lemma parse_versions:
  "Parse file_parsers ''one'' ''.json'' = Inr (gateways_config [payu_30])"
  "Parse file_parsers ''two'' ''.json'' = Inr (gateways_config
     [payu_30, \<lparr>gc_Name = ''cashfree'', gc_Enabled = False, gc_Weight = 0\<rparr>])"
  by code_simp+

lemma accepts_versions:
  "accepts file_parsers ''gateways.json'' ''one'' (WithDefaults (gateways_config [payu_30]))"
  "accepts file_parsers ''gateways.json'' ''two'' (WithDefaults (gateways_config
     [payu_30, \<lparr>gc_Name = ''cashfree'', gc_Enabled = False, gc_Weight = 0\<rparr>]))"
proof -
  have ext: "filepath_Ext ''gateways.json'' = ''.json''" by code_simp
  have "Validate (WithDefaults (gateways_config gs)) = None" if "valid_gateways gs" for gs
    using that default_threshold
    by (simp add: Validate_None WithDefaults_pos)
      (simp add: WithDefaults_def Let_def gateways_config_def zero_RoutingConfig_def
        threshold_WithDefaults_def DefaultRoutingConfig_def)
  then show "accepts file_parsers ''gateways.json'' ''one'' (WithDefaults (gateways_config [payu_30]))"
    "accepts file_parsers ''gateways.json'' ''two'' (WithDefaults (gateways_config
     [payu_30, \<lparr>gc_Name = ''cashfree'', gc_Enabled = False, gc_Weight = 0\<rparr>]))"
    by (auto simp: accepts_def ext parse_versions valid_gateways_def payu_30_def)
qed

definition loaded_once :: "nat \<Rightarrow> FileProvider" where
  "loaded_once n = \<lparr>fp_files = changes_at n, fp_calls = 2, fp_path = ''gateways.json'',
     fp_current = WithDefaults (gateways_config [payu_30]), fp_modTime = (if n = 1 then 2 else 1)\<rparr>"

definition not_loaded :: "nat \<Rightarrow> FileProvider" where
  "not_loaded n = \<lparr>fp_files = changes_at n, fp_calls = 0, fp_path = ''gateways.json'',
     fp_current = zero_AppConfig, fp_modTime = zero_time\<rparr>"

lemma first_load:
  assumes "n = 1 \<or> n = 2"
  shows "reload file_parsers (not_loaded n) = (Inr (), loaded_once n)"
  using assms accepts_versions(1)
  by (auto simp: reload_def not_loaded_def loaded_once_def changes_at_def accepts_def parse_versions
      Let_def)

theorem current_config_accepted_witness:
  "NewFileProvider file_parsers (changes_at 2) ''gateways.json'' = Inr (loaded_once 2) \<and>
   (\<exists>k content. k < fp_calls (Watch file_parsers 7 (loaded_once 2)) \<and>
      of_Data (changes_at 2 k ''gateways.json'') = Inr content \<and>
      accepts file_parsers ''gateways.json'' content (fp_current (Watch file_parsers 7 (loaded_once 2))))"
proof -
  have new: "NewFileProvider file_parsers (changes_at 2) ''gateways.json'' = Inr (loaded_once 2)"
    using first_load [of 2] by (simp add: NewFileProvider_def not_loaded_def)
  with current_config_accepted [OF new, of 7] show ?thesis by blast
qed

theorem watch_follows_file_witness:
  "fp_current (loaded_once 2) = WithDefaults (gateways_config [payu_30]) \<and>
   fp_current (Watch file_parsers (Suc 4) (loaded_once 2)) = WithDefaults (gateways_config
     [payu_30, \<lparr>gc_Name = ''cashfree'', gc_Enabled = False, gc_Weight = 0\<rparr>])"
  using watch_follows_file [of "loaded_once 2" "''two''" 2 file_parsers _ 4] accepts_versions(2)
  by (simp add: loaded_once_def changes_at_def)

theorem change_during_reload_lost_witness:
  "fp_current (Watch file_parsers 1000000 (loaded_once 1)) = WithDefaults (gateways_config [payu_30])"
  using change_during_reload_lost [OF first_load [of 1], of "''one''" _ "''two''" 2 1000000]
    accepts_versions(1)
  by (simp add: not_loaded_def changes_at_def)

text \<open>The runtime configuration of the defaults, with an interval that is too large.\<close>

definition runtime_example :: "int \<Rightarrow> RuntimeConfig" where
  "runtime_example seconds = \<lparr>ru_Addr = '':8080'', ru_ConfigPath = ''./configs/gateways.yaml'',
     ru_ConfigReloadIntervalSeconds = seconds, ru_StateBackend = ''memory'',
     ru_GatewayStateCacheTTLMilliseconds = 500, ru_RoutingCacheTTLMilliseconds = 100,
     ru_Redis = \<lparr>rd_Addr = ''localhost:6379'', rd_Password = '''', rd_DB = 0, rd_KeyPrefix = ''pgr'',
       rd_PoolSize = 128\<rparr>\<rparr>"

definition viper_example :: "int \<Rightarrow> (string \<times> setting) list \<Rightarrow> go_error + RuntimeConfig" where
  "viper_example seconds settings = Inr ((runtime_example seconds)\<lparr>ru_StateBackend := '' Memory''\<rparr>)"

theorem runtime_config_accepted_witness:
  "LoadRuntimeConfig (viper_example 9223372037) = Inr (runtime_example 9223372037) \<and>
   \<not> 0 < ConfigReloadInterval (runtime_example 9223372037)"
proof -
  have load: "LoadRuntimeConfig (viper_example 9223372037) = Inr (runtime_example 9223372037)"
    by code_simp
  with runtime_config_accepted [OF load] show ?thesis by (simp add: runtime_example_def)
qed

end
