(* ===== verification/GoTimeFormat.thy ===== *)
theory GoTimeFormat
  imports Environment
begin

text \<open>
  Decimal numbers and instants as text: \<open>strconv.FormatInt\<close> and \<open>strconv.Atoi\<close>, and
  \<open>time.Time.Format\<close> and \<open>time.Parse\<close> with the layout \<open>time.RFC3339Nano\<close>, for UTC. Dates follow the
  Gregorian calendar, extended to all years as Go does. What \<open>time.Parse\<close> tolerates beyond RFC 3339
  (a one-digit hour, a comma before the fraction) is not accepted here; the program parses only what
  it has formatted.
\<close>

section \<open>Decimal numbers\<close>

definition dec_value :: "string \<Rightarrow> nat" where
  "dec_value s = foldl (\<lambda>n c. 10 * n + digit_value c) 0 s"

definition is_digit :: "char \<Rightarrow> bool" where
  "is_digit c \<longleftrightarrow> c \<in> set ''0123456789''"

text \<open>\<open>strconv.Atoi\<close>: an optional sign and at least one digit; \<open>None\<close> for a syntax or range error.\<close>

definition digits_value :: "string \<Rightarrow> int option" where
  "digits_value s = (if s \<noteq> '''' \<and> list_all is_digit s then Some (int (dec_value s)) else None)"

definition Atoi :: "string \<Rightarrow> int option" where
  "Atoi s = (case
     (case s of [] \<Rightarrow> None
      | c # cs \<Rightarrow> if c = CHR ''-'' then map_option uminus (digits_value cs)
          else if c = CHR ''+'' then digits_value cs else digits_value s) of
     None \<Rightarrow> None | Some n \<Rightarrow> if in64 n then Some n else None)"

lemma hex_digit_is_digit: "d < 10 \<Longrightarrow> is_digit (hex_digit d)"
  by (auto simp: is_digit_def hex_digit_def less_Suc_eq numeral_eq_Suc)

lemma dec_nat_digits: "list_all is_digit (dec_nat n) \<and> dec_nat n \<noteq> []"
proof (induction n rule: dec_nat.induct)
  case (1 n)
  then show ?case
    using hex_digit_is_digit [of n] hex_digit_is_digit [of "n mod 10"] by (simp add: dec_nat.simps [of n])
qed

lemma dec_nat_value [simp]: "dec_value (dec_nat n) = n"
proof (induction n rule: dec_nat.induct)
  case (1 n)
  then show ?case by (simp add: dec_nat.simps [of n] dec_value_def)
qed

lemma is_digit_sign: "is_digit c \<Longrightarrow> c \<noteq> CHR ''-'' \<and> c \<noteq> CHR ''+'' \<and> c \<noteq> CHR '':''"
  by (auto simp: is_digit_def)

lemma Atoi_fmt_d [simp]: "in64 n \<Longrightarrow> Atoi (fmt_d n) = Some n"
proof -
  assume range: "in64 n"
  have val: "digits_value (dec_nat m) = Some (int m)" for m
    using dec_nat_digits by (simp add: digits_value_def)
  obtain c cs where cs: "dec_nat (nat n) = c # cs" using dec_nat_digits [of "nat n"] by (cases "dec_nat (nat n)") auto
  then have "is_digit c" using dec_nat_digits [of "nat n"] by simp
  then have c: "c \<noteq> CHR ''-''" "c \<noteq> CHR ''+''" using is_digit_sign by blast+
  show ?thesis
  proof (cases "n < 0")
    case True
    with range val [of "nat (- n)"] show ?thesis by (simp add: Atoi_def fmt_d_def)
  next
    case False
    with range cs c val [of "nat n"] show ?thesis by (simp add: Atoi_def fmt_d_def)
  qed
qed

lemma fmt_d_inj: "fmt_d a = fmt_d b \<Longrightarrow> a = b"
proof -
  assume eq: "fmt_d a = fmt_d b"
  have inj: "dec_nat m = dec_nat n \<Longrightarrow> m = n" for m n using dec_nat_value by metis
  have sign: "dec_nat m \<noteq> CHR ''-'' # s" for m s using dec_nat_digits [of m] is_digit_sign by force
  from eq show ?thesis
    by (cases "a < 0"; cases "b < 0") (auto simp: fmt_d_def sign sign [symmetric] dest: inj)
qed

section \<open>The calendar\<close>

definition leap :: "int \<Rightarrow> bool" where
  "leap y \<longleftrightarrow> y mod 4 = 0 \<and> (y mod 100 \<noteq> 0 \<or> y mod 400 = 0)"

definition month_lengths :: "int \<Rightarrow> int list" where
  "month_lengths y = [31, if leap y then 29 else 28, 31, 30, 31, 30, 31, 31, 30, 31, 30, 31]"

text \<open>Days from January 1 of year 1 to January 1 of year \<open>y\<close>.\<close>

definition days_before_year :: "int \<Rightarrow> int" where
  "days_before_year y = (let p = y - 1 in 365 * p + p div 4 - p div 100 + p div 400)"

text \<open>The year and the day in the year of a day, by cycles of 400, 100, 4 and 1 years.\<close>

definition year_and_day :: "int \<Rightarrow> int \<times> int" where
  "year_and_day n =
     (let n400 = n div 146097; d = n mod 146097;
          n100 = min 3 (d div 36524); d = d - 36524 * n100;
          n4 = d div 1461; d = d mod 1461;
          n1 = min 3 (d div 365); d = d - 365 * n1 in
      (400 * n400 + 100 * n100 + 4 * n4 + n1 + 1, d))"

fun month_and_day :: "int list \<Rightarrow> int \<Rightarrow> nat \<times> int" where
  "month_and_day [] d = (0, d)"
| "month_and_day (l # ls) d =
     (if d < l then (0, d) else let (m, r) = month_and_day ls (d - l) in (Suc m, r))"

lemma year_and_day_sum:
  assumes "year_and_day n = (y, d)"
  shows "days_before_year y + d = n" "0 \<le> d" "d < (if leap y then 366 else 365)"
proof -
  define n400 where "n400 = n div 146097"
  define d1 where "d1 = n mod 146097"
  define n100 where "n100 = min 3 (d1 div 36524)"
  define d2 where "d2 = d1 - 36524 * n100"
  define n4 where "n4 = d2 div 1461"
  define d3 where "d3 = d2 mod 1461"
  define n1 where "n1 = min 3 (d3 div 365)"
  have y: "y = 400 * n400 + 100 * n100 + 4 * n4 + n1 + 1" and d: "d = d3 - 365 * n1"
    using assms by (simp_all add: year_and_day_def Let_def n400_def d1_def n100_def d2_def n4_def d3_def
        n1_def)
  have n: "n = 146097 * n400 + d1" and d1: "0 \<le> d1" "d1 < 146097"
    by (simp_all add: n400_def d1_def)
  have n100: "0 \<le> n100" "n100 \<le> 3" using d1 by (simp_all add: n100_def)
  have d2: "0 \<le> d2" "d2 \<le> 36524" "n100 < 3 \<Longrightarrow> d2 < 36524"
    using d1 by (auto simp: d2_def n100_def min_def split: if_splits)
  have d2': "d2 = 1461 * n4 + d3" and d3: "0 \<le> d3" "d3 < 1461"
    by (simp_all add: n4_def d3_def)
  have n4: "0 \<le> n4" "n4 \<le> 24" "n4 = 24 \<Longrightarrow> n100 < 3 \<Longrightarrow> d3 < 1460"
  proof -
    show "0 \<le> n4" using d2 by (simp add: n4_def)
    show "n4 \<le> 24" using d2 d2' d3 by linarith
    show "d3 < 1460" if "n4 = 24" "n100 < 3" using d2 d2' that by linarith
  qed
  have n1: "0 \<le> n1" "n1 \<le> 3" using d3 by (simp_all add: n1_def)
  have dd: "0 \<le> d" "d \<le> 365" "n1 < 3 \<Longrightarrow> d < 365"
    using d3 d by (auto simp: n1_def min_def split: if_splits)
  have p: "(y - 1) div 4 = 100 * n400 + 25 * n100 + n4" "(y - 1) div 100 = 4 * n400 + n100"
    "(y - 1) div 400 = n400"
    using n100 n4 n1 y by linarith+
  show "days_before_year y + d = n"
  proof -
    have "d1 = 36524 * n100 + 1461 * n4 + 365 * n1 + d" using d d2' d2_def by linarith
    then show ?thesis
      unfolding days_before_year_def Let_def p unfolding n y by (simp add: algebra_simps)
  qed
  show "0 \<le> d" by (rule dd)
  have "d < 365" if "\<not> leap y"
  proof (cases "n1 = 3")
    case True
    then have y4: "y = 4 * (100 * n400 + 25 * n100 + n4 + 1)" using y by simp
    then have "y mod 4 = 0" by simp
    with that have y100: "y mod 100 = 0" and y400: "y mod 400 \<noteq> 0" by (auto simp: leap_def)
    have "y = 4 * (n4 + 1) + 100 * (4 * n400 + n100)" using y4 by simp
    then have "(4 * (n4 + 1)) mod 100 = 0" using y100 by (metis mod_mult_self2)
    then have n4': "n4 = 24" using n4 by presburger
    have "n100 \<noteq> 3"
    proof
      assume "n100 = 3"
      then have "y = 400 * (n400 + 1)" using y4 n4' by simp
      with y400 show False by simp
    qed
    with n100 have "n100 < 3" by simp
    with n4 n4' True d show ?thesis by simp
  qed (use dd n1 in auto)
  with dd show "d < (if leap y then 366 else 365)" by auto
qed

lemma month_and_day_sum:
  assumes "month_and_day ls d = (m, r)" "0 \<le> d" "d < sum_list ls"
  shows "m < length ls \<and> 0 \<le> r \<and> r < ls ! m \<and> sum_list (take m ls) + r = d"
  using assms
proof (induction ls d arbitrary: m r rule: month_and_day.induct)
  case (2 l ls d)
  then show ?case by (cases "d < l") (auto split: prod.splits)
qed simp

lemma sum_month_lengths: "sum_list (month_lengths y) = (if leap y then 366 else 365)"
  by (simp add: month_lengths_def)

section \<open>RFC 3339\<close>

definition pad2 :: "int \<Rightarrow> string" where
  "pad2 n = [hex_digit (nat (n div 10)), hex_digit (nat (n mod 10))]"

definition pad4 :: "int \<Rightarrow> string" where
  "pad4 n = pad2 (n div 100) @ pad2 (n mod 100)"

text \<open>The year with at least four digits and its sign.\<close>

definition format_year :: "int \<Rightarrow> string" where
  "format_year y = (if 0 \<le> y \<and> y < 10000 then pad4 y
     else let s = dec_nat (nat \<bar>y\<bar>) in (if y < 0 then ''-'' else '''') @ replicate (4 - length s) (CHR ''0'') @ s)"

definition pad9 :: "int \<Rightarrow> string" where
  "pad9 n = pad4 (n div 100000) @ pad4 (n div 10 mod 10000) @ [hex_digit (nat (n mod 10))]"

text \<open>The fraction of a second without trailing zeros, nothing if it is zero.\<close>

definition format_fraction :: "int \<Rightarrow> string" where
  "format_fraction n = (if n = 0 then ''''
     else CHR ''.'' # rev (dropWhile (\<lambda>c. c = CHR ''0'') (rev (pad9 n))))"

definition day_nanos :: int where
  "day_nanos = 86400 * 10 ^ 9"

text \<open>The days from January 1 of year 1 to the epoch.\<close>

definition epoch_days :: int where
  "epoch_days = 719162"

definition Format_RFC3339Nano :: "time \<Rightarrow> string" where
  "Format_RFC3339Nano t =
     (let day = t div day_nanos + epoch_days; nanos = t mod day_nanos;
          (y, d) = year_and_day day; (m, r) = month_and_day (month_lengths y) d;
          secs = nanos div 10 ^ 9 in
      format_year y @ ''-'' @ pad2 (int m + 1) @ ''-'' @ pad2 (r + 1) @ ''T'' @
      pad2 (secs div 3600) @ '':'' @ pad2 (secs div 60 mod 60) @ '':'' @ pad2 (secs mod 60) @
      format_fraction (nanos mod 10 ^ 9) @ ''Z'')"

definition year_of :: "time \<Rightarrow> int" where
  "year_of t = fst (year_and_day (t div day_nanos + epoch_days))"

text \<open>Parsing: a fixed number of digits in front, one expected character.\<close>

definition take_digits :: "nat \<Rightarrow> string \<Rightarrow> (int \<times> string) option" where
  "take_digits n s = (if n \<le> length s \<and> list_all is_digit (take n s)
     then Some (int (dec_value (take n s)), drop n s) else None)"

definition take_char :: "char \<Rightarrow> string \<Rightarrow> string option" where
  "take_char c s = (case s of [] \<Rightarrow> None | d # ds \<Rightarrow> if d = c then Some ds else None)"

text \<open>The digits after the point; more than nine are cut off.\<close>

definition take_fraction :: "string \<Rightarrow> (int \<times> string) option" where
  "take_fraction s = (case s of
     [] \<Rightarrow> Some (0, s)
   | c # cs \<Rightarrow>
       if c \<noteq> CHR ''.'' then Some (0, s)
       else (let ds = takeWhile is_digit cs in
         if ds = '''' then None
         else Some (int (dec_value (take 9 (ds @ replicate 9 (CHR ''0'')))), drop (length ds) cs)))"

text \<open>The zone: \<open>Z\<close> or a signed offset in hours and minutes, in seconds.\<close>

definition take_zone :: "string \<Rightarrow> int option" where
  "take_zone s =
     (if s = ''Z'' then Some 0
      else case s of
        [] \<Rightarrow> None
      | sign # s1 \<Rightarrow>
         if sign \<noteq> CHR ''+'' \<and> sign \<noteq> CHR ''-'' then None
         else Option.bind (take_digits 2 s1) (\<lambda>(hh, s2).
           Option.bind (take_char (CHR '':'') s2) (\<lambda>s3.
           Option.bind (take_digits 2 s3) (\<lambda>(mm, s4).
           if s4 = '''' \<and> hh \<le> 24 \<and> mm < 60
           then Some ((if sign = CHR ''-'' then - 1 else 1) * (hh * 3600 + mm * 60)) else None))))"

definition Parse_RFC3339Nano :: "string \<Rightarrow> time option" where
  "Parse_RFC3339Nano s0 =
     Option.bind (take_digits 4 s0) (\<lambda>(y, s1). Option.bind (take_char (CHR ''-'') s1) (\<lambda>s2.
     Option.bind (take_digits 2 s2) (\<lambda>(m, s3). Option.bind (take_char (CHR ''-'') s3) (\<lambda>s4.
     Option.bind (take_digits 2 s4) (\<lambda>(d, s5). Option.bind (take_char (CHR ''T'') s5) (\<lambda>s6.
     Option.bind (take_digits 2 s6) (\<lambda>(hh, s7). Option.bind (take_char (CHR '':'') s7) (\<lambda>s8.
     Option.bind (take_digits 2 s8) (\<lambda>(mm, s9). Option.bind (take_char (CHR '':'') s9) (\<lambda>s10.
     Option.bind (take_digits 2 s10) (\<lambda>(ss, s11). Option.bind (take_fraction s11) (\<lambda>(ns, s12).
     Option.bind (take_zone s12) (\<lambda>zone.
     if 1 \<le> m \<and> m \<le> 12 \<and> 1 \<le> d \<and> d \<le> month_lengths y ! nat (m - 1) \<and>
        hh < 24 \<and> mm < 60 \<and> ss < 60
     then Some ((days_before_year y + sum_list (take (nat (m - 1)) (month_lengths y)) + (d - 1)
            - epoch_days) * day_nanos + (hh * 3600 + mm * 60 + ss - zone) * 10 ^ 9 + ns)
     else None)))))))))))))"

section \<open>Parsing inverts formatting\<close>

text \<open>\<open>digits k s n\<close>: the string \<open>s\<close> is the number \<open>n\<close> written with \<open>k\<close> digits.\<close>

definition digits :: "nat \<Rightarrow> string \<Rightarrow> int \<Rightarrow> bool" where
  "digits k s n \<longleftrightarrow> length s = k \<and> list_all is_digit s \<and> int (dec_value s) = n"

lemma dec_value_append: "dec_value (s @ t) = dec_value s * 10 ^ length t + dec_value t"
proof -
  have *: "foldl (\<lambda>n c. 10 * n + digit_value c) k t =
      k * 10 ^ length t + foldl (\<lambda>n c. 10 * n + digit_value c) 0 t" for k
  proof (induction t rule: rev_induct)
    case (snoc c t)
    have "foldl (\<lambda>n c. 10 * n + digit_value c) k (t @ [c]) =
        10 * foldl (\<lambda>n c. 10 * n + digit_value c) k t + digit_value c" by simp
    also have "\<dots> = 10 * (k * 10 ^ length t) + foldl (\<lambda>n c. 10 * n + digit_value c) 0 (t @ [c])"
      unfolding snoc by simp
    finally show ?case by simp
  qed simp
  show ?thesis unfolding dec_value_def foldl_append by (rule *)
qed

lemma digits_append:
  "digits k s a \<Longrightarrow> digits l t b \<Longrightarrow> n = a * 10 ^ l + b \<Longrightarrow> digits (k + l) (s @ t) n"
  unfolding digits_def dec_value_append by (elim conjE, intro conjI) simp_all

lemma digits_1: "0 \<le> n \<Longrightarrow> n < 10 \<Longrightarrow> digits 1 [hex_digit (nat n)] n"
  using hex_digit_is_digit [of "nat n"] by (simp add: digits_def dec_value_def)

lemma digits_pad2: "0 \<le> n \<Longrightarrow> n < 100 \<Longrightarrow> digits 2 (pad2 n) n"
proof -
  assume "0 \<le> n" "n < 100"
  then have "0 \<le> n div 10" "n div 10 < 10" by simp_all
  from digits_append [OF digits_1 [OF this] digits_1 [of "n mod 10"], of n]
  show ?thesis by (simp add: pad2_def numeral_2_eq_2)
qed

lemma digits_pad4: "0 \<le> n \<Longrightarrow> n < 10000 \<Longrightarrow> digits 4 (pad4 n) n"
proof -
  assume "0 \<le> n" "n < 10000"
  then have "0 \<le> n div 100" "n div 100 < 100" by simp_all
  from digits_append [OF digits_pad2 [OF this] digits_pad2 [of "n mod 100"], of n]
  show ?thesis by (simp add: pad4_def)
qed

lemma digits_pad9:
  assumes "0 \<le> n" "n < 10 ^ 9"
  shows "digits 9 (pad9 n) n"
proof -
  have hi: "0 \<le> n div 100000" "n div 100000 < 10000" using assms by simp_all
  have lo: "digits 5 (pad4 (n div 10 mod 10000) @ [hex_digit (nat (n mod 10))]) (n mod 100000)"
    using digits_append [OF digits_pad4 [of "n div 10 mod 10000"] digits_1 [of "n mod 10"],
        of "n mod 100000"]
    by (simp add: zmod_zmult2_eq [of 10000 n 10, simplified] mult.commute)
  show ?thesis
    using digits_append [OF digits_pad4 [OF hi] lo, of n] by (simp add: pad9_def)
qed

lemma take_digits_digits: "digits k s n \<Longrightarrow> take_digits k (s @ t) = Some (n, t)"
  by (auto simp: digits_def take_digits_def)

lemma take_char_hd [simp]: "take_char c (c # s) = Some s"
  by (simp add: take_char_def)

text \<open>Trailing zeros of a fraction make no difference.\<close>

lemma fraction_padded:
  assumes "length s \<le> 9"
  shows "take 9 (rev (dropWhile (\<lambda>c. c = CHR ''0'') (rev s)) @ replicate 9 (CHR ''0'')) =
    s @ replicate (9 - length s) (CHR ''0'')"
proof -
  define z where "z = takeWhile (\<lambda>c. c = CHR ''0'') (rev s)"
  define r where "r = rev (dropWhile (\<lambda>c. c = CHR ''0'') (rev s))"
  have "rev s = z @ rev r" by (simp add: z_def r_def)
  then have s: "s = r @ rev z" by (metis rev_append rev_rev_ident)
  have z: "z = replicate (length z) (CHR ''0'')"
    unfolding z_def by (rule replicate_eqI [symmetric, THEN sym]) (auto dest: set_takeWhileD)
  then have "rev z = replicate (length z) (CHR ''0'')" by (metis rev_replicate)
  then have "s @ replicate (9 - length s) (CHR ''0'') = r @ replicate (length z + (9 - length s)) (CHR ''0'')"
    using s by (simp add: replicate_add)
  also have "length z + (9 - length s) = 9 - length r"
  proof -
    have "length s = length r + length z" using s by simp
    with assms show ?thesis by arith
  qed
  finally have "s @ replicate (9 - length s) (CHR ''0'') = r @ replicate (9 - length r) (CHR ''0'')" .
  moreover have "length r \<le> 9" using s assms by simp
  then have "take 9 (r @ replicate 9 (CHR ''0'')) = r @ replicate (9 - length r) (CHR ''0'')"
    by (simp add: min_def)
  ultimately show ?thesis by (simp only: r_def)
qed

lemma take_fraction_format:
  assumes "0 \<le> n" "n < 10 ^ 9"
  shows "take_fraction (format_fraction n @ CHR ''Z'' # s) = Some (n, CHR ''Z'' # s)"
proof (cases "n = 0")
  case False
  note d = digits_pad9 [OF assms]
  define r where "r = rev (dropWhile (\<lambda>c. c = CHR ''0'') (rev (pad9 n)))"
  have nz: "r \<noteq> ''''"
  proof
    assume "r = ''''"
    then have "\<forall>c \<in> set (pad9 n). c = CHR ''0''" by (simp add: r_def)
    then have "pad9 n = replicate 9 (CHR ''0'')"
      using d by (metis digits_def replicate_length_same)
    moreover have "dec_value (replicate 9 (CHR ''0'')) = 0" by code_simp
    ultimately show False using d False by (simp add: digits_def)
  qed
  have digs: "\<forall>c \<in> set r. is_digit c"
    using d by (auto simp: r_def digits_def list_all_iff dest: set_dropWhileD)
  have "\<not> is_digit (CHR ''Z'')" by (simp add: is_digit_def)
  then have "takeWhile is_digit (r @ CHR ''Z'' # s) = r"
    using digs by (simp add: takeWhile_append2)
  moreover have "take 9 (r @ replicate 9 (CHR ''0'')) = pad9 n"
    using fraction_padded [of "pad9 n"] d by (simp add: r_def digits_def)
  ultimately show ?thesis
    using False nz d by (simp add: take_fraction_def format_fraction_def r_def [symmetric] digits_def)
qed (simp add: take_fraction_def format_fraction_def)

lemma month_length_small: "m < length (month_lengths y) \<Longrightarrow> month_lengths y ! m \<le> 31"
  by (auto simp: month_lengths_def less_Suc_eq numeral_eq_Suc)

lemma parse_parts:
  assumes "0 \<le> y" "y < 10000" "m < 12" "0 \<le> r" "r < month_lengths y ! m"
    and "0 \<le> hh" "hh < 24" "0 \<le> mm" "mm < 60" "0 \<le> ss" "ss < 60" "0 \<le> ns" "ns < 10 ^ 9"
  shows "Parse_RFC3339Nano (pad4 y @ CHR ''-'' # pad2 (int m + 1) @ CHR ''-'' # pad2 (r + 1) @
      CHR ''T'' # pad2 hh @ CHR '':'' # pad2 mm @ CHR '':'' # pad2 ss @ format_fraction ns @ ''Z'') =
    Some ((days_before_year y + sum_list (take m (month_lengths y)) + r - epoch_days) * day_nanos +
      (hh * 3600 + mm * 60 + ss) * 10 ^ 9 + ns)"
proof -
  have r31: "r < 31" using assms(3,5) month_length_small [of m y] by (simp add: month_lengths_def)
  have dates: "take_digits 4 (pad4 y @ t) = Some (y, t)"
    "take_digits 2 (pad2 (int m + 1) @ t) = Some (int m + 1, t)"
    "take_digits 2 (pad2 (r + 1) @ t) = Some (r + 1, t)" for t
    using assms r31 by (intro take_digits_digits digits_pad4 digits_pad2; simp)+
  have times: "take_digits 2 (pad2 hh @ t) = Some (hh, t)" "take_digits 2 (pad2 mm @ t) = Some (mm, t)"
    "take_digits 2 (pad2 ss @ t) = Some (ss, t)" for t
    using assms by (intro take_digits_digits digits_pad2; simp)+
  have zone: "take_zone ''Z'' = Some 0" by (simp add: take_zone_def)
  have bounds: "1 \<le> int m + 1 \<and> int m + 1 \<le> 12 \<and> 1 \<le> r + 1 \<and>
      r + 1 \<le> month_lengths y ! nat (int m + 1 - 1) \<and> hh < 24 \<and> mm < 60 \<and> ss < 60"
    using assms by simp
  show ?thesis
    unfolding Parse_RFC3339Nano_def dates times take_char_hd Option.bind.bind_lunit prod.case
      take_fraction_format [OF assms(12,13)] zone if_P [OF bounds]
    by (simp add: algebra_simps)
qed

text \<open>
  An instant of the years 0 to 9999 written in RFC 3339 with nanoseconds is read back exactly.
\<close>
theorem Parse_Format_RFC3339Nano:
  assumes "0 \<le> year_of t" "year_of t \<le> 9999"
  shows "Parse_RFC3339Nano (Format_RFC3339Nano t) = Some t"
proof -
  define day where "day = t div day_nanos + epoch_days"
  define nanos where "nanos = t mod day_nanos"
  obtain y d where yd: "year_and_day day = (y, d)" by (cases "year_and_day day")
  obtain m r where mr: "month_and_day (month_lengths y) d = (m, r)"
    by (cases "month_and_day (month_lengths y) d")
  note Y = year_and_day_sum [OF yd]
  have M: "m < 12 \<and> 0 \<le> r \<and> r < month_lengths y ! m \<and> sum_list (take m (month_lengths y)) + r = d"
    using month_and_day_sum [OF mr] Y by (simp add: sum_month_lengths) (simp add: month_lengths_def)
  have y: "0 \<le> y" "y < 10000" using assms yd by (simp_all add: year_of_def day_def)
  define secs where "secs = nanos div 10 ^ 9"
  have nanos: "0 \<le> nanos" "nanos < day_nanos" by (simp_all add: nanos_def day_nanos_def)
  have secs: "0 \<le> secs" "secs < 86400" using nanos by (simp_all add: secs_def day_nanos_def)
  have hms: "0 \<le> secs div 3600" "secs div 3600 < 24" "0 \<le> secs div 60 mod 60"
    "secs div 60 mod 60 < 60" "0 \<le> secs mod 60" "secs mod 60 < 60" using secs by simp_all
  have written: "Format_RFC3339Nano t = pad4 y @ CHR ''-'' # pad2 (int m + 1) @ CHR ''-'' # pad2 (r + 1) @
      CHR ''T'' # pad2 (secs div 3600) @ CHR '':'' # pad2 (secs div 60 mod 60) @ CHR '':'' #
      pad2 (secs mod 60) @ format_fraction (nanos mod 10 ^ 9) @ [CHR ''Z'']"
    using yd mr y unfolding secs_def
    by (simp add: Format_RFC3339Nano_def Let_def day_def [symmetric] nanos_def [symmetric]
        format_year_def)
  have "Parse_RFC3339Nano (Format_RFC3339Nano t) =
    Some ((days_before_year y + sum_list (take m (month_lengths y)) + r - epoch_days) * day_nanos +
      (secs div 3600 * 3600 + secs div 60 mod 60 * 60 + secs mod 60) * 10 ^ 9 + nanos mod 10 ^ 9)"
    unfolding written using M y hms by (intro parse_parts) simp_all
  also have "days_before_year y + sum_list (take m (month_lengths y)) + r - epoch_days = t div day_nanos"
    using M Y(1) by (simp add: day_def)
  also have "secs div 3600 * 3600 + secs div 60 mod 60 * 60 + secs mod 60 = secs"
  proof -
    have "secs div 3600 = secs div 60 div 60" by (simp add: zdiv_zmult2_eq [symmetric])
    then show ?thesis
      using div_mult_mod_eq [of "secs div 60" 60] div_mult_mod_eq [of secs 60] by linarith
  qed
  also have "t div day_nanos * day_nanos + secs * 10 ^ 9 + nanos mod 10 ^ 9 = t"
    by (simp add: secs_def nanos_def)
  finally show ?thesis .
qed


theorem Parse_Format_RFC3339Nano_witness:
  "Format_RFC3339Nano 1709210096120000000 = ''2024-02-29T12:34:56.12Z'' \<and>
   Parse_RFC3339Nano (Format_RFC3339Nano 1709210096120000000) = Some 1709210096120000000"
proof -
  have "0 \<le> year_of 1709210096120000000" "year_of 1709210096120000000 \<le> 9999" by code_simp+
  from Parse_Format_RFC3339Nano [OF this]
  have "Parse_RFC3339Nano (Format_RFC3339Nano 1709210096120000000) = Some 1709210096120000000" .
  moreover have "Format_RFC3339Nano 1709210096120000000 = ''2024-02-29T12:34:56.12Z''" by code_simp
  ultimately show ?thesis by simp
qed

text \<open>The instants from the epoch to the end of year 9999, and the zero time.\<close>

lemma year_of_range:
  assumes "0 \<le> t" "t < 253402300800 * 10 ^ 9"
  shows "0 \<le> year_of t \<and> year_of t \<le> 9999"
proof -
  define n where "n = t div day_nanos + epoch_days"
  have n: "719162 \<le> n" "n < 3652059"
    using assms by (auto simp: n_def day_nanos_def epoch_days_def)
  obtain y d where yd: "year_and_day n = (y, d)" by (cases "year_and_day n")
  note Y = year_and_day_sum [OF yd]
  define p where "p = y - 1"
  have sum: "365 * p + p div 4 - p div 100 + p div 400 + d = n" and d: "0 \<le> d" "d \<le> 365"
    using Y by (auto simp: days_before_year_def Let_def p_def split: if_splits)
  have "0 \<le> p" "p < 9999" using sum d n by linarith+
  then show ?thesis using yd by (simp add: year_of_def n_def [symmetric] p_def)
qed

lemma year_of_zero: "year_of zero_time = 1"
  by code_simp

end
