(* ===== verification/RedisClient.thy ===== *)
theory RedisClient
  imports GoTimeFormat "HOL-Library.Multiset"
begin

text \<open>
  \<open>internal/adapters/repository/redis/client.go\<close> and what the Redis repositories rely on. The client
  (\<open>go-redis\<close>) and the server are parameters: a record of the commands the repositories send, each a
  procedure on the state behind the connection. \<open>redis_server\<close> states the documented effect of the
  commands on the key space. A stored JSON text is kept as the document it denotes.
\<close>

section \<open>Values, commands and scripts\<close>

datatype redis_value = RDoc json | RInt int | RHash "string \<rightharpoonup> string" | RSet "string set"

text \<open>An element of the array a script returns.\<close>

datatype reply = ReplyText string | ReplyDoc json | ReplyInt int

text \<open>The commands the repositories put into pipelines; the result of \<open>HGETALL\<close> is a hash.\<close>

datatype pipe_command = HIncrBy string string int | Expire string duration | HGetAll string

text \<open>
  The commands of the client. \<open>Get\<close> gives \<open>None\<close> for the error \<open>goredis.Nil\<close>. A script is a
  procedure over the commands its \<open>redis.call\<close> issues; \<open>Run\<close> sends it.
\<close>

record 'r Redis =
  rd_Get :: "string \<Rightarrow> ('r, go_error, json option) proc"
  rd_Set :: "string \<Rightarrow> json \<Rightarrow> ('r, go_error, unit) proc"
  rd_SetNX :: "string \<Rightarrow> json \<Rightarrow> ('r, go_error, bool) proc"
  rd_Incr :: "string \<Rightarrow> ('r, go_error, int) proc"
  rd_SMembers :: "string \<Rightarrow> ('r, go_error, string list) proc"
  rd_HGet :: "string \<Rightarrow> string \<Rightarrow> ('r, go_error, string option) proc"
  rd_HSet :: "string \<Rightarrow> (string \<times> string) list \<Rightarrow> ('r, go_error, unit) proc"
  rd_SIsMember :: "string \<Rightarrow> string \<Rightarrow> ('r, go_error, bool) proc"
  rd_SAdd :: "string \<Rightarrow> string \<Rightarrow> ('r, go_error, unit) proc"
  rd_SRem :: "string \<Rightarrow> string \<Rightarrow> ('r, go_error, unit) proc"
  rd_Exec :: "pipe_command list \<Rightarrow> ('r, go_error, (go_error + (string \<rightharpoonup> string)) list) proc"
  rd_Run :: "('r, go_error, reply list) proc \<Rightarrow> ('r, go_error, reply list) proc"

section \<open>The store\<close>

record Options =
  op_Addr :: string
  op_Password :: string
  op_DB :: int
  op_KeyPrefix :: string
  op_PoolSize :: int

text \<open>The options given to \<open>goredis.NewClient\<close>.\<close>

record ClientOptions =
  co_Addr :: string
  co_Password :: string
  co_DB :: int
  co_PoolSize :: int
  co_DialTimeout :: duration
  co_ReadTimeout :: duration
  co_WriteTimeout :: duration

record 'r Store =
  st_client :: "'r Redis"
  st_keyPrefix :: string

definition strings_Trim :: "string \<Rightarrow> char \<Rightarrow> string" where
  "strings_Trim s c = rev (dropWhile (\<lambda>d. d = c) (rev (dropWhile (\<lambda>d. d = c) s)))"

fun strings_Join :: "string list \<Rightarrow> string \<Rightarrow> string" where
  "strings_Join [] sep = ''''"
| "strings_Join [s] sep = s"
| "strings_Join (s # t # ss) sep = s @ sep @ strings_Join (t # ss) sep"

definition NewStore :: "(ClientOptions \<Rightarrow> 'r Redis) \<Rightarrow> Options \<Rightarrow> 'r Store" where
  "NewStore NewClient options0 =
     (let options1 = (if op_Addr options0 = '''' then options0\<lparr>op_Addr := ''localhost:6379''\<rparr>
            else options0);
          options2 = (if op_KeyPrefix options1 = '''' then options1\<lparr>op_KeyPrefix := ''pgr''\<rparr>
            else options1);
          options = (if op_PoolSize options2 \<le> 0 then options2\<lparr>op_PoolSize := 128\<rparr> else options2);
          client = NewClient \<lparr>co_Addr = op_Addr options, co_Password = op_Password options,
            co_DB = op_DB options, co_PoolSize = op_PoolSize options,
            co_DialTimeout = 2 * Second, co_ReadTimeout = 2 * Second, co_WriteTimeout = 2 * Second\<rparr> in
      \<lparr>st_client = client, st_keyPrefix = strings_Trim (op_KeyPrefix options) (CHR '':'')\<rparr>)"

definition Key :: "'r Store \<Rightarrow> string list \<Rightarrow> string" where
  "Key s parts =
     (let clean = (if st_keyPrefix s \<noteq> '''' then [st_keyPrefix s] else []) @
        filter (\<lambda>part. part \<noteq> '''') (map (\<lambda>part. strings_Trim part (CHR '':'')) parts) in
      strings_Join clean '':'')"

section \<open>Keys of plain names\<close>

text \<open>A name without colon that is not empty: what gateways and transactions are called.\<close>

definition plain_name :: "string \<Rightarrow> bool" where
  "plain_name s \<longleftrightarrow> s \<noteq> '''' \<and> CHR '':'' \<notin> set s"

lemma Trim_plain:
  assumes "c \<notin> set s"
  shows "strings_Trim s c = s"
proof -
  have *: "dropWhile (\<lambda>d. d = c) t = t" if "c \<notin> set t" for t
    using that by (cases t) auto
  show ?thesis using * [of s] * [of "rev s"] assms by (simp add: strings_Trim_def)
qed

lemma Join_Cons: "ss \<noteq> [] \<Longrightarrow> strings_Join (s # ss) sep = s @ sep @ strings_Join ss sep"
  by (cases ss) simp_all

lemma Join_head:
  assumes "plain_name s" "plain_name t" "strings_Join (s # ss) '':'' = strings_Join (t # ts) '':''"
  shows "s = t \<and> strings_Join ss '':'' = strings_Join ts '':'' \<and> (ss = [] \<longleftrightarrow> ts = [])"
proof -
  have colon: "CHR '':'' \<notin> set s" "CHR '':'' \<notin> set t" using assms by (simp_all add: plain_name_def)
  then have "s \<noteq> t @ CHR '':'' # u" "t \<noteq> s @ CHR '':'' # u" for u by auto
  with colon assms(3) show ?thesis
    by (cases "ss = []"; cases "ts = []") (auto simp: Join_Cons dest: split_at_char)
qed

lemma Join_inj:
  assumes "\<forall>s \<in> set ss. plain_name s" "\<forall>s \<in> set ts. plain_name s"
    "strings_Join ss '':'' = strings_Join ts '':''"
  shows "ss = ts"
  using assms
proof (induction ss arbitrary: ts)
  case Nil
  have "strings_Join (t # ts') '':'' \<noteq> ''''" if "plain_name t" for t ts'
    using that by (cases ts') (simp_all add: plain_name_def)
  with Nil show ?case by (metis list.exhaust list.set_intros(1) strings_Join.simps(1))
next
  case (Cons s ss)
  have "plain_name s" using Cons.prems by simp
  then have "strings_Join (s # ss) '':'' \<noteq> ''''" by (cases ss) (simp_all add: plain_name_def)
  then have "ts \<noteq> []" using Cons.prems(3) by (metis strings_Join.simps(1))
  then obtain t ts' where ts: "ts = t # ts'" by (cases ts) auto
  have "plain_name t" using Cons.prems(2) ts by simp
  from Join_head [OF \<open>plain_name s\<close> this Cons.prems(3) [unfolded ts]]
  have "s = t" and eq: "strings_Join ss '':'' = strings_Join ts' '':''" by simp_all
  have "ss = ts'" by (rule Cons.IH [OF _ _ eq]) (use Cons.prems(1,2) ts in simp_all)
  with \<open>s = t\<close> ts show ?case by simp
qed

lemma Key_plain:
  assumes "\<forall>p \<in> set parts. plain_name p"
  shows "Key s parts =
    strings_Join ((if st_keyPrefix s \<noteq> '''' then [st_keyPrefix s] else []) @ parts) '':''"
proof -
  have "map (\<lambda>part. strings_Trim part (CHR '':'')) parts = parts"
    using assms by (intro map_idI Trim_plain) (simp add: plain_name_def)
  moreover have "filter (\<lambda>part. part \<noteq> '''') parts = parts"
    using assms by (simp add: filter_id_conv plain_name_def)
  ultimately show ?thesis by (simp add: Key_def)
qed

lemma Key_inj:
  assumes "\<forall>p \<in> set parts. plain_name p" "\<forall>p \<in> set parts'. plain_name p" "parts \<noteq> []" "parts' \<noteq> []"
  shows "Key s parts = Key s parts' \<longleftrightarrow> parts = parts'"
  using Join_inj [OF assms(1,2)] assms by (auto simp: Key_plain Join_Cons)

section \<open>What the server promises\<close>

text \<open>
  \<open>gives db s m x t\<close>: in every state whose key space is \<open>s\<close> the procedure \<open>m\<close> gives the result \<open>x\<close>
  and leaves the key space \<open>t\<close>.
\<close>

type_synonym keyspace = "string \<rightharpoonup> redis_value"

definition gives :: "('r \<Rightarrow> keyspace) \<Rightarrow> keyspace \<Rightarrow> ('r, go_error, 'a) proc \<Rightarrow> go_error + 'a \<Rightarrow> keyspace \<Rightarrow> bool" where
  "gives db s m x t \<longleftrightarrow> (\<forall>r. db r = s \<longrightarrow> (\<exists>r'. m r = (x, r') \<and> db r' = t))"

lemma gives_ret: "gives db s (ret x) (Inr x) s"
  by (simp add: gives_def)

lemma gives_throw: "gives db s (throw e) (Inl e) s"
  by (simp add: gives_def)

lemma gives_andThen:
  "gives db s m (Inr x) t \<Longrightarrow> gives db t (f x) y u \<Longrightarrow> gives db s (andThen m f) y u"
  by (fastforce simp: gives_def andThen_def)

lemma gives_andThen_ret: "gives db s m (Inr x) t \<Longrightarrow> gives db s (andThen m (\<lambda>y. ret (f y))) (Inr (f x)) t"
  by (rule gives_andThen [OF _ gives_ret])

lemma gives_andThen_error: "gives db s m (Inl e) t \<Longrightarrow> gives db s (andThen m f) (Inl e) t"
  by (fastforce simp: gives_def andThen_def)

lemma gives_run: "gives db s m x t \<Longrightarrow> db r = s \<Longrightarrow> \<exists>r'. m r = (x, r') \<and> db r' = t"
  by (simp add: gives_def)

text \<open>The fields of a hash, none for a key that does not exist.\<close>

definition hash_at :: "keyspace \<Rightarrow> string \<Rightarrow> string \<rightharpoonup> string" where
  "hash_at s k = (case s k of Some (RHash h) \<Rightarrow> h | _ \<Rightarrow> Map.empty)"

definition set_at :: "keyspace \<Rightarrow> string \<Rightarrow> string set" where
  "set_at s k = (case s k of Some (RSet S) \<Rightarrow> S | _ \<Rightarrow> {})"

definition is_hash :: "keyspace \<Rightarrow> string \<Rightarrow> bool" where
  "is_hash s k \<longleftrightarrow> s k = None \<or> (\<exists>h. s k = Some (RHash h))"

definition is_set :: "keyspace \<Rightarrow> string \<Rightarrow> bool" where
  "is_set s k \<longleftrightarrow> s k = None \<or> (\<exists>S. s k = Some (RSet S) \<and> finite S)"

text \<open>A set without members does not exist.\<close>

definition set_value :: "string set \<Rightarrow> redis_value option" where
  "set_value S = (if S = {} then None else Some (RSet S))"

text \<open>The number in a field of a hash, 0 when it is absent.\<close>

definition hash_number :: "(string \<rightharpoonup> string) \<Rightarrow> string \<Rightarrow> int option" where
  "hash_number h f = (case h f of None \<Rightarrow> Some 0 | Some s \<Rightarrow> Atoi s)"

text \<open>
  The documented effects, for keys that hold a value of the right type. \<open>EXPIRE\<close> with a positive time to
  live leaves the value, and no key reaches the end of its time while the commands in question run; with
  any other one it deletes the key. (The client rounds a positive duration below a second up to one.) A
  script runs as one command.
\<close>

definition redis_server :: "'r Redis \<Rightarrow> ('r \<Rightarrow> keyspace) \<Rightarrow> bool" where
  "redis_server C db \<longleftrightarrow>
    (\<forall>s k. s k = None \<longrightarrow> gives db s (rd_Get C k) (Inr None) s) \<and>
    (\<forall>s k j. s k = Some (RDoc j) \<longrightarrow> gives db s (rd_Get C k) (Inr (Some j)) s) \<and>
    (\<forall>s k j. gives db s (rd_Set C k j) (Inr ()) (s(k \<mapsto> RDoc j))) \<and>
    (\<forall>s k j. s k = None \<longrightarrow> gives db s (rd_SetNX C k j) (Inr True) (s(k \<mapsto> RDoc j))) \<and>
    (\<forall>s k j. s k \<noteq> None \<longrightarrow> gives db s (rd_SetNX C k j) (Inr False) s) \<and>
    (\<forall>s k. s k = None \<longrightarrow> gives db s (rd_Incr C k) (Inr 1) (s(k \<mapsto> RInt 1))) \<and>
    (\<forall>s k n. s k = Some (RInt n) \<longrightarrow> in64 (n + 1) \<longrightarrow>
       gives db s (rd_Incr C k) (Inr (n + 1)) (s(k \<mapsto> RInt (n + 1)))) \<and>
    (\<forall>s k. is_set s k \<longrightarrow> (\<exists>xs. set xs = set_at s k \<and> gives db s (rd_SMembers C k) (Inr xs) s)) \<and>
    (\<forall>s k x. is_set s k \<longrightarrow> gives db s (rd_SIsMember C k x) (Inr (x \<in> set_at s k)) s) \<and>
    (\<forall>s k x. is_set s k \<longrightarrow>
       gives db s (rd_SAdd C k x) (Inr ()) (s(k \<mapsto> RSet (insert x (set_at s k))))) \<and>
    (\<forall>s k x. is_set s k \<longrightarrow>
       gives db s (rd_SRem C k x) (Inr ()) (s(k := set_value (set_at s k - {x})))) \<and>
    (\<forall>s k f. is_hash s k \<longrightarrow> gives db s (rd_HGet C k f) (Inr (hash_at s k f)) s) \<and>
    (\<forall>s k fs. is_hash s k \<longrightarrow> fs \<noteq> [] \<longrightarrow>
       gives db s (rd_HSet C k fs) (Inr ()) (s(k \<mapsto> RHash (hash_at s k ++ map_of (rev fs))))) \<and>
    (\<forall>s k f n m ttl. is_hash s k \<longrightarrow> hash_number (hash_at s k) f = Some m \<longrightarrow> in64 (m + n) \<longrightarrow>
       (\<exists>rs. gives db s (rd_Exec C [HIncrBy k f n, Expire k ttl]) (Inr rs)
         (if 0 < ttl then s(k \<mapsto> RHash ((hash_at s k)(f \<mapsto> fmt_d (m + n)))) else s(k := None)))) \<and>
    (\<forall>s ks. (\<forall>k \<in> set ks. is_hash s k) \<longrightarrow>
       gives db s (rd_Exec C (map HGetAll ks)) (Inr (map (\<lambda>k. Inr (hash_at s k)) ks)) s) \<and>
    (\<forall>s m x t. gives db s m x t \<longrightarrow> gives db s (rd_Run C m) x t)"

lemma server_strings:
  assumes "redis_server C db"
  shows "s k = None \<Longrightarrow> gives db s (rd_Get C k) (Inr None) s"
    and "s k = Some (RDoc j) \<Longrightarrow> gives db s (rd_Get C k) (Inr (Some j)) s"
    and "gives db s (rd_Set C k j) (Inr ()) (s(k \<mapsto> RDoc j))"
    and "s k = None \<Longrightarrow> gives db s (rd_SetNX C k j) (Inr True) (s(k \<mapsto> RDoc j))"
    and "s k \<noteq> None \<Longrightarrow> gives db s (rd_SetNX C k j) (Inr False) s"
    and "s k = None \<Longrightarrow> gives db s (rd_Incr C k) (Inr 1) (s(k \<mapsto> RInt 1))"
    and "s k = Some (RInt n) \<Longrightarrow> in64 (n + 1) \<Longrightarrow>
      gives db s (rd_Incr C k) (Inr (n + 1)) (s(k \<mapsto> RInt (n + 1)))"
    and "gives db s m x t \<Longrightarrow> gives db s (rd_Run C m) x t"
  using assms unfolding redis_server_def by auto

lemma server_sets:
  assumes "redis_server C db" "is_set s k"
  shows "\<exists>xs. set xs = set_at s k \<and> gives db s (rd_SMembers C k) (Inr xs) s"
    and "gives db s (rd_SIsMember C k x) (Inr (x \<in> set_at s k)) s"
    and "gives db s (rd_SAdd C k x) (Inr ()) (s(k \<mapsto> RSet (insert x (set_at s k))))"
    and "gives db s (rd_SRem C k x) (Inr ()) (s(k := set_value (set_at s k - {x})))"
  using assms unfolding redis_server_def by auto

lemma server_hashes:
  assumes "redis_server C db"
  shows "is_hash s k \<Longrightarrow> gives db s (rd_HGet C k f) (Inr (hash_at s k f)) s"
    and "is_hash s k \<Longrightarrow> fs \<noteq> [] \<Longrightarrow>
      gives db s (rd_HSet C k fs) (Inr ()) (s(k \<mapsto> RHash (hash_at s k ++ map_of (rev fs))))"
    and "is_hash s k \<Longrightarrow> hash_number (hash_at s k) f = Some m \<Longrightarrow> in64 (m + n) \<Longrightarrow>
      \<exists>rs. gives db s (rd_Exec C [HIncrBy k f n, Expire k ttl]) (Inr rs)
         (if 0 < ttl then s(k \<mapsto> RHash ((hash_at s k)(f \<mapsto> fmt_d (m + n)))) else s(k := None))"
    and "\<forall>k \<in> set ks. is_hash s k \<Longrightarrow>
      gives db s (rd_Exec C (map HGetAll ks)) (Inr (map (\<lambda>k. Inr (hash_at s k)) ks)) s"
  using assms unfolding redis_server_def by auto

lemma at_upd [simp]:
  "hash_at (s(k \<mapsto> RHash h)) k' = (if k' = k then h else hash_at s k')"
  "set_at (s(k \<mapsto> RSet S)) k' = (if k' = k then S else set_at s k')"
  "k' \<noteq> k \<Longrightarrow> hash_at (s(k := v)) k' = hash_at s k'"
  "k' \<noteq> k \<Longrightarrow> set_at (s(k := v)) k' = set_at s k'"
  "k' \<noteq> k \<Longrightarrow> is_hash (s(k := v)) k' = is_hash s k'"
  "k' \<noteq> k \<Longrightarrow> is_set (s(k := v)) k' = is_set s k'"
  "is_hash (s(k \<mapsto> RHash h)) k" "is_set (s(k \<mapsto> RSet S)) k = finite S"
  "is_set (s(k := set_value S)) k = finite S" "set_at (s(k := set_value S)) k = S"
  by (auto simp: hash_at_def set_at_def is_hash_def is_set_def set_value_def)

lemma at_cong:
  assumes "s' k = s k"
  shows "hash_at s' k = hash_at s k" "set_at s' k = set_at s k" "is_hash s' k = is_hash s k"
    "is_set s' k = is_set s k"
  using assms by (simp_all add: hash_at_def set_at_def is_hash_def is_set_def)

lemma finite_set_at: "is_set s k \<Longrightarrow> finite (set_at s k)"
  by (auto simp: is_set_def set_at_def)

end
