(* ===== verification/MainProgram.thy ===== *)
theory MainProgram
  imports Scenarios ConfigProvider RedisClient
begin

text \<open>
  \<open>cmd/payment-gateway-router/main.go\<close> and the constructors of the services: how the program is put
  together from its configuration. Logging, the HTTP server and the shutdown are not modelled.
\<close>

section \<open>Constructors\<close>

definition NewHealthService :: "'h \<Rightarrow> Env \<Rightarrow> 'h HealthService" where
  "NewHealthService repository env =
     Env.extend env (HealthService.HealthService.fields repository (500 * Millisecond) Map.empty)"

definition NewRoutingService :: "'h HealthService \<Rightarrow> 'h RoutingService" where
  "NewRoutingService healthService =
     HealthService.HealthService.extend healthService (RoutingService.RoutingService.fields 0 (100 * Millisecond) empty_snapshot)"

definition NewOrderGatewayBlacklistService :: "'b \<Rightarrow> 'h RoutingService
    \<Rightarrow> ('h, 'b) OrderGatewayBlacklistService" where
  "NewOrderGatewayBlacklistService repository routing =
     RoutingService.RoutingService.extend routing (OrderGatewayBlacklistService.fields repository)"

definition NewTransactionService :: "'t \<Rightarrow> ('h, 'b) OrderGatewayBlacklistService
    \<Rightarrow> ('h, 'b, 't) TransactionService" where
  "NewTransactionService transactions services =
     OrderGatewayBlacklistService.extend services (TransactionService.TransactionService.fields transactions True)"

text \<open>The services of \<open>main\<close> over repositories, with the lifetimes of the runtime configuration.\<close>

definition new_services :: "RuntimeConfig \<Rightarrow> Env \<Rightarrow> 't \<Rightarrow> 'h \<Rightarrow> 'b \<Rightarrow> ('h, 'b, 't) TransactionService" where
  "new_services runtimeConfig env transactionRepo healthRepo orderGatewayRepo =
     (let healthService = snd (HealthService_SetCacheTTL (GatewayStateCacheTTL runtimeConfig)
            (NewHealthService healthRepo env));
          routingService = snd (RoutingService_SetCacheTTL (RoutingCacheTTL runtimeConfig)
            (NewRoutingService healthService)) in
      NewTransactionService transactionRepo
        (NewOrderGatewayBlacklistService orderGatewayRepo routingService))"

section \<open>The main program\<close>

text \<open>
  With the Redis backend the repositories keep nothing themselves: their state is on the server.
\<close>

datatype 'r backend = InMemory System | OnRedis "'r Store" "(unit, unit, unit) TransactionService"

record 'r Server =
  sv_Addr :: string
  sv_ReadHeaderTimeout :: duration
  sv_configProvider :: FileProvider
  sv_reloadInterval :: duration
  sv_backend :: "'r backend"
  sv_registry :: Registry

text \<open>
  What the program finds outside: \<open>viper\<close>, the parsers, the file system, the Redis client, the clock and
  the random identifiers. \<open>mo_polls i\<close> is the number of polls the watcher has done when the services
  read the configuration for the \<open>i\<close>-th time.
\<close>

record 'r MainOutside =
  mo_viper :: "(string \<times> setting) list \<Rightarrow> go_error + RuntimeConfig"
  mo_unmarshal :: Unmarshal
  mo_files :: "nat \<Rightarrow> string \<Rightarrow> OsFile"
  mo_NewClient :: "ClientOptions \<Rightarrow> 'r Redis"
  mo_Ping :: "'r Redis \<Rightarrow> ('r, go_error, unit) proc"
  mo_clock :: "nat \<Rightarrow> time"
  mo_ids :: "nat \<Rightarrow> string \<Rightarrow> string"
  mo_polls :: "nat \<Rightarrow> nat"

definition services_env :: "'r MainOutside \<Rightarrow> FileProvider \<Rightarrow> Env" where
  "services_env E provider = \<lparr>env_clock = mo_clock E, env_ticks = 0,
     env_config = (\<lambda>i. fp_current (Watch (mo_unmarshal E) (mo_polls E i) provider)), env_reads = 0,
     env_ids = mo_ids E, env_issued = 0\<rparr>"

definition redis_options :: "RuntimeConfig \<Rightarrow> Options" where
  "redis_options runtimeConfig = (let r = ru_Redis runtimeConfig in
     \<lparr>op_Addr = rd_Addr r, op_Password = rd_Password r, op_DB = rd_DB r,
      op_KeyPrefix = rd_KeyPrefix r, op_PoolSize = rd_PoolSize r\<rparr>)"

text \<open>\<open>main\<close> up to \<open>ListenAndServe\<close>; \<open>Inl code\<close> is \<open>os.Exit(code)\<close>.\<close>

definition router_main :: "'r MainOutside \<Rightarrow> ('r, int, 'r Server) proc" where
  "router_main E =
     (case LoadRuntimeConfig (mo_viper E) of
        Inl err \<Rightarrow> throw 1
      | Inr runtimeConfig \<Rightarrow>
     (case NewFileProvider (mo_unmarshal E) (mo_files E) (ru_ConfigPath runtimeConfig) of
        Inl err \<Rightarrow> throw 1
      | Inr configProvider \<Rightarrow>
         (let env = services_env E configProvider;
              serve = (\<lambda>b. ret \<lparr>sv_Addr = ru_Addr runtimeConfig, sv_ReadHeaderTimeout = 5 * Second,
                sv_configProvider = configProvider, sv_reloadInterval = ConfigReloadInterval runtimeConfig,
                sv_backend = b, sv_registry = NewRegistry\<rparr>) in
          if ru_StateBackend runtimeConfig = ''redis'' then
            (let redisStore = NewStore (mo_NewClient E) (redis_options runtimeConfig) in
             onError (mo_Ping E (st_client redisStore)) (\<lambda>err. throw 1) (\<lambda>_.
             serve (OnRedis redisStore (new_services runtimeConfig env () () ()))))
          else serve (InMemory (new_services runtimeConfig env MemTx_New MemHealth_New MemBlacklist_New)))))"

lemmas new_defs = NewHealthService_def NewRoutingService_def NewOrderGatewayBlacklistService_def
  NewTransactionService_def HealthService_SetCacheTTL_def RoutingService_SetCacheTTL_def
  Env.defs HealthService.HealthService.defs RoutingService.RoutingService.defs OrderGatewayBlacklistService.defs TransactionService.TransactionService.defs

text \<open>
  The lifetimes of the caches are positive, whatever is configured: one that overflows is ignored.
\<close>

lemma new_services_TTL:
  "0 < hs_cacheTTL (new_services c env t h b)" "0 < rs_cacheTTL (new_services c env t h b)"
  by (simp_all add: new_services_def new_defs Let_def Millisecond_def)

lemma new_services_env:
  "env_config (new_services c env t h b) = env_config env" "env_reads (new_services c env t h b) = env_reads env"
  by (simp_all add: new_services_def new_defs Let_def)

lemma new_services_started: "started (new_services c env MemTx_New MemHealth_New MemBlacklist_New)"
  by (simp add: started_def new_services_def new_defs Let_def)

section \<open>From the file to the gateway of a transaction\<close>

lemma router_main_InMemory:
  assumes "router_main E r0 = (Inr sv, r1)" "sv_backend sv = InMemory s0"
  obtains c where "LoadRuntimeConfig (mo_viper E) = Inr c"
    "NewFileProvider (mo_unmarshal E) (mo_files E) (ru_ConfigPath c) = Inr (sv_configProvider sv)"
    "s0 = new_services c (services_env E (sv_configProvider sv)) MemTx_New MemHealth_New MemBlacklist_New"
    "sv_registry sv = NewRegistry"
proof (cases "LoadRuntimeConfig (mo_viper E)")
  case (Inl e)
  with assms(1) show ?thesis by (simp add: router_main_def throw_def)
next
  case c: (Inr c)
  show ?thesis
  proof (cases "NewFileProvider (mo_unmarshal E) (mo_files E) (ru_ConfigPath c)")
    case (Inl e)
    with assms(1) c show ?thesis by (simp add: router_main_def throw_def)
  next
    case p: (Inr p)
    show ?thesis
    proof (cases "ru_StateBackend c = ''redis''")
      case True
      with assms c p show ?thesis
        by (auto simp: router_main_def Let_def ret_def throw_def onError_def split: sum.splits prod.splits)
    next
      case False
      with assms c p have "sv = \<lparr>sv_Addr = ru_Addr c, sv_ReadHeaderTimeout = 5 * Second, sv_configProvider = p,
          sv_reloadInterval = ConfigReloadInterval c, sv_backend = InMemory (new_services c (services_env E p)
            MemTx_New MemHealth_New MemBlacklist_New), sv_registry = NewRegistry\<rparr>"
        by (simp add: router_main_def Let_def ret_def)
      with assms(2) c p that show ?thesis by simp
    qed
  qed
qed

lemma run_frame:
  assumes "(serves reg)\<^sup>*\<^sup>* s s'" "reachable reg s"
  shows "reachable reg s' \<and> env_config s' = env_config s"
  using assms
proof (induction rule: rtranclp_induct)
  case (step t u)
  then have "env_moves t u" using serves_effect [OF step(2) reachable_inv] by blast
  with step show ?case by (auto simp: env_moves_def intro: reachable.step)
qed simp

text \<open>
  C27: with the memory backend, every transaction the program ever initiates goes to a gateway that some
  content of the configuration file listed, enabled and with a positive weight; that content was read by
  the program, parsed and accepted as a whole, and the gateway is one the program has a client for.
  The caches of the services have a positive lifetime, whatever the runtime configuration says.
\<close>
theorem main_routes_configured:
  assumes "router_main E r0 = (Inr sv, r1)" "sv_backend sv = InMemory s0"
    and "(serves (Registry_Client (sv_registry sv)))\<^sup>*\<^sup>* s0 s"
    and "Initiate MemHealth MemTx MemBlacklist (Registry_Client (sv_registry sv)) input s = (Inr x, s')"
  shows "\<exists>c k content cfg g. LoadRuntimeConfig (mo_viper E) = Inr c \<and>
    of_Data (mo_files E k (ru_ConfigPath c)) = Inr content \<and>
    accepts (mo_unmarshal E) (ru_ConfigPath c) content cfg \<and> g \<in> set (ac_Gateways cfg) \<and>
    gc_Name g = tx_Gateway x \<and> gc_Enabled g \<and> 0 < gc_Weight g \<and>
    tx_Gateway x \<in> {''razorpay'', ''payu'', ''cashfree''} \<and> 0 < hs_cacheTTL s0 \<and> 0 < rs_cacheTTL s0"
proof -
  obtain c where c: "LoadRuntimeConfig (mo_viper E) = Inr c"
    "NewFileProvider (mo_unmarshal E) (mo_files E) (ru_ConfigPath c) = Inr (sv_configProvider sv)"
    "s0 = new_services c (services_env E (sv_configProvider sv)) MemTx_New MemHealth_New MemBlacklist_New"
    "sv_registry sv = NewRegistry"
    by (rule router_main_InMemory [OF assms(1,2)])
  let ?reg = "Registry_Client (sv_registry sv)"
  have "reachable ?reg s0" unfolding c(3) by (intro reachable.start new_services_started)
  from run_frame [OF assms(3) this] have s: "reachable ?reg s" "env_config s = env_config s0" by simp_all
  note ok = mem.Initiate_ok [OF assms(4) sys_invD(1) [OF reachable_inv [OF s(1)]]]
  obtain g i where g: "gc_Name g = tx_Gateway x" "g \<in> set (ac_Gateways (env_config s i))"
    "gc_Enabled g" "0 < gc_Weight g"
    using ok(4,12) unfolding configured_def routable_def by metis
  have i: "env_config s i = fp_current (Watch (mo_unmarshal E) (mo_polls E i) (sv_configProvider sv))"
    by (simp add: s(2) c(3) new_services_env services_env_def)
  from watched_config [OF c(2), of "mo_polls E i"] obtain k content
    where "of_Data (mo_files E k (ru_ConfigPath c)) = Inr content"
      "accepts (mo_unmarshal E) (ru_ConfigPath c) content (env_config s i)"
    unfolding i by blast
  moreover have "tx_Gateway x \<in> {''razorpay'', ''payu'', ''cashfree''}"
    using ok(3) by (auto simp: c(4) Registry_Client_def clientMap_def NewRegistry_def split: if_splits)
  moreover have "0 < hs_cacheTTL s0" "0 < rs_cacheTTL s0" by (simp_all add: c(3) new_services_TTL)
  ultimately show ?thesis using c(1) g by blast
qed

text \<open>A start with the defaults and a file with one gateway.\<close>

definition solo_outside :: "unit MainOutside" where
  "solo_outside = \<lparr>mo_viper = viper_example 2,
     mo_unmarshal = \<lparr>um_tokens = (\<lambda>_. None), um_yaml = (\<lambda>_. Inr solo_config)\<rparr>,
     mo_files = (\<lambda>_ _. \<lparr>of_Data = Inr ''routing'', of_ModTime = Inr 1\<rparr>),
     mo_NewClient = (\<lambda>_. undefined), mo_Ping = (\<lambda>_. ret ()),
     mo_clock = (\<lambda>k. (1700000000 + int k) * 10 ^ 9), mo_ids = (\<lambda>k p. p @ ''_'' @ dec_nat k),
     mo_polls = (\<lambda>_. 0)\<rparr>"

definition solo_provider :: FileProvider where
  "solo_provider = \<lparr>fp_files = mo_files solo_outside, fp_calls = 2, fp_path = ''./configs/gateways.yaml'',
     fp_current = solo_config, fp_modTime = 1\<rparr>"

definition solo_server :: "unit Server" where
  "solo_server = \<lparr>sv_Addr = '':8080'', sv_ReadHeaderTimeout = 5 * Second, sv_configProvider = solo_provider,
     sv_reloadInterval = 2 * Second, sv_backend = InMemory solo0, sv_registry = NewRegistry\<rparr>"

lemma solo_starts: "router_main solo_outside () = (Inr solo_server, ())"
proof -
  have load: "LoadRuntimeConfig (mo_viper solo_outside) = Inr (runtime_example 2)"
    unfolding solo_outside_def by code_simp
  have valid: "Validate solo_config = None"
    by (simp add: Validate_None valid_gateways_def)
  have parse: "Parse (mo_unmarshal solo_outside) content (filepath_Ext ''./configs/gateways.yaml'') = Inr solo_config"
    for content
  proof -
    have "ToLower (filepath_Ext ''./configs/gateways.yaml'') \<noteq> ''.json''" by code_simp
    then show ?thesis by (simp add: Parse_def solo_outside_def)
  qed
  have files: "mo_files solo_outside = (\<lambda>_ _. \<lparr>of_Data = Inr ''routing'', of_ModTime = Inr 1\<rparr>)"
    by (simp add: solo_outside_def)
  have loaded: "NewFileProvider (mo_unmarshal solo_outside) (mo_files solo_outside) ''./configs/gateways.yaml'' =
      Inr solo_provider"
    by (simp add: NewFileProvider_def reload_def solo_provider_def files parse Let_def valid)
  have "new_services (runtime_example 2) (services_env solo_outside solo_provider) MemTx_New MemHealth_New
      MemBlacklist_New = solo0"
    by (simp add: new_services_def new_defs Let_def services_env_def solo_provider_def runtime_example_def
        GatewayStateCacheTTL_def RoutingCacheTTL_def Duration_def wrap64_def Millisecond_def solo0_def fresh_system_def)
      (simp add: solo_outside_def)
  moreover have "ConfigReloadInterval (runtime_example 2) = 2 * Second"
    by (simp add: ConfigReloadInterval_def runtime_example_def Duration_def wrap64_def Second_def)
  ultimately show ?thesis
    unfolding router_main_def load
    by (simp add: loaded runtime_example_def solo_server_def ret_def Let_def)
qed

theorem main_routes_configured_witness:
  "\<exists>k content cfg g. of_Data (mo_files solo_outside k ''./configs/gateways.yaml'') = Inr content \<and>
     accepts (mo_unmarshal solo_outside) ''./configs/gateways.yaml'' content cfg \<and>
     g \<in> set (ac_Gateways cfg) \<and> gc_Name g = ''payu'' \<and> gc_Enabled g"
proof -
  have backend: "sv_backend solo_server = InMemory solo0" "sv_registry solo_server = NewRegistry"
    by (simp_all add: solo_server_def)
  have load: "LoadRuntimeConfig (mo_viper solo_outside) = Inr (runtime_example 2)"
    unfolding solo_outside_def by code_simp
  show ?thesis
    using main_routes_configured [OF solo_starts backend(1) rtranclp.rtrancl_refl, of order1 txn0 solo1]
      solo_initiate(1) [unfolded mem_Initiate_def]
    by (simp add: backend(2) load) (auto simp: runtime_example_def)
qed

end
