(* ===== verification/RedisServer.thy ===== *)
theory RedisServer
  imports RedisClient "HOL-Library.Char_ord" "HOL-Library.List_Lexorder"
begin

text \<open>
  A key space that executes the commands: the promises can be kept. Used by the witnesses only.
\<close>

definition wrong_type :: go_error where
  "wrong_type = Errorf ''WRONGTYPE'' []"

fun pipe_step :: "pipe_command \<Rightarrow> keyspace \<Rightarrow> (go_error + (string \<rightharpoonup> string)) \<times> keyspace" where
  "pipe_step (HIncrBy k f n) s =
     (case hash_number (hash_at s k) f of
        None \<Rightarrow> (Inl wrong_type, s)
      | Some m \<Rightarrow> (Inr Map.empty, s(k \<mapsto> RHash ((hash_at s k)(f \<mapsto> fmt_d (m + n))))))"
| "pipe_step (Expire k ttl) s = (Inr Map.empty, if 0 < ttl then s else s(k := None))"
| "pipe_step (HGetAll k) s = (Inr (hash_at s k), s)"

fun pipe_steps :: "pipe_command list \<Rightarrow> keyspace \<Rightarrow> (go_error + (string \<rightharpoonup> string)) list \<times> keyspace" where
  "pipe_steps [] s = ([], s)"
| "pipe_steps (c # cs) s =
     (let (x, s') = pipe_step c s; (xs, s'') = pipe_steps cs s' in (x # xs, s''))"

definition key_server :: "keyspace Redis" where
  "key_server = \<lparr>
     rd_Get = (\<lambda>k s. case s k of None \<Rightarrow> (Inr None, s) | Some (RDoc j) \<Rightarrow> (Inr (Some j), s)
       | _ \<Rightarrow> (Inl wrong_type, s)),
     rd_Set = (\<lambda>k j s. (Inr (), s(k \<mapsto> RDoc j))),
     rd_SetNX = (\<lambda>k j s. case s k of None \<Rightarrow> (Inr True, s(k \<mapsto> RDoc j)) | Some _ \<Rightarrow> (Inr False, s)),
     rd_Incr = (\<lambda>k s. case s k of None \<Rightarrow> (Inr 1, s(k \<mapsto> RInt 1))
       | Some (RInt n) \<Rightarrow> (Inr (n + 1), s(k \<mapsto> RInt (n + 1))) | _ \<Rightarrow> (Inl wrong_type, s)),
     rd_SMembers = (\<lambda>k s. (Inr (sorted_list_of_set (set_at s k)), s)),
     rd_HGet = (\<lambda>k f s. (Inr (hash_at s k f), s)),
     rd_HSet = (\<lambda>k fs s. (Inr (), s(k \<mapsto> RHash (hash_at s k ++ map_of (rev fs))))),
     rd_SIsMember = (\<lambda>k x s. (Inr (x \<in> set_at s k), s)),
     rd_SAdd = (\<lambda>k x s. (Inr (), s(k \<mapsto> RSet (insert x (set_at s k))))),
     rd_SRem = (\<lambda>k x s. (Inr (), s(k := set_value (set_at s k - {x})))),
     rd_Exec = (\<lambda>cs s. let (xs, s') = pipe_steps cs s in (Inr xs, s')),
     rd_Run = (\<lambda>m. m)\<rparr>"

lemma pipe_get_all: "pipe_steps (map HGetAll ks) s = (map (\<lambda>k. Inr (hash_at s k)) ks, s)"
  by (induction ks) simp_all

lemma key_server_works: "redis_server key_server (\<lambda>s. s)"
  unfolding redis_server_def gives_def key_server_def
  by (auto simp: pipe_get_all Let_def finite_set_at intro: exI [of _ "sorted_list_of_set _"])

end
