(* ===== verification/RedisDocs.thy ===== *)
theory RedisDocs
  imports RedisServer
begin

text \<open>
  The documents the Redis repositories store: \<open>json.Marshal\<close> and \<open>json.Unmarshal\<close> of
  \<open>domain.Transaction\<close> and \<open>domain.GatewayRuntimeState\<close> by their \<open>json\<close> tags. Strings are valid
  UTF-8. A number in a document stands for the literal Go writes, which rounds to it. The second
  part shows that what a document decodes to does not depend on the order of its members.
\<close>

section \<open>Writing\<close>

text \<open>\<open>time.Time\<close> is written in RFC 3339; a year outside 0 to 9999 is an error (\<open>None\<close>).\<close>

definition time_json :: "time \<Rightarrow> json option" where
  "time_json t = (if 0 \<le> year_of t \<and> year_of t \<le> 9999 then Some (JString (Format_RFC3339Nano t))
     else None)"

text \<open>A \<open>float64\<close>: an integral value below 1e21 has no fraction and no exponent.\<close>

definition float_json :: "f64 \<Rightarrow> json option" where
  "float_json f = (case f of
     Fin r \<Rightarrow> Some (if of_int \<lfloor>r\<rfloor> = r \<and> \<bar>r\<bar> < 10 ^ 21 then JInt \<lfloor>r\<rfloor> else JNumber r)
   | _ \<Rightarrow> None)"

text \<open>Maps are written with sorted keys.\<close>

fun any_json :: "any \<Rightarrow> json option"
and any_list_json :: "any list \<Rightarrow> json list option"
and any_map_json :: "(string \<times> any) list \<Rightarrow> (string \<times> json) list option"
where
  "any_json AnyNil = Some JNull"
| "any_json (AnyBool b) = Some (JBool b)"
| "any_json (AnyNumber f) = float_json f"
| "any_json (AnyString s) = Some (JString s)"
| "any_json (AnySlice xs) = map_option JArray (any_list_json xs)"
| "any_json (AnyMap m) = map_option (\<lambda>ms. JObject (sort_key fst ms)) (any_map_json m)"
| "any_list_json [] = Some []"
| "any_list_json (x # xs) =
     Option.bind (any_json x) (\<lambda>j. map_option ((#) j) (any_list_json xs))"
| "any_map_json [] = Some []"
| "any_map_json ((k, x) # m) =
     Option.bind (any_json x) (\<lambda>j. map_option ((#) (k, j)) (any_map_json m))"

text \<open>A member of a struct, left out by \<open>omitempty\<close> when it is empty.\<close>

definition omit_empty :: "string \<Rightarrow> string \<Rightarrow> (string \<times> json) list" where
  "omit_empty name s = (if s = '''' then [] else [(name, JString s)])"

definition instrument_json :: "(string \<times> any) list option \<Rightarrow> (string \<times> json) list option" where
  "instrument_json m = (case m of
     None \<Rightarrow> Some []
   | Some m \<Rightarrow> if m = [] then Some []
       else map_option (\<lambda>j. [(''payment_instrument'', j)]) (any_json (AnyMap m)))"

definition completed_json :: "time option \<Rightarrow> (string \<times> json) list option" where
  "completed_json t = (case t of None \<Rightarrow> Some []
     | Some t \<Rightarrow> map_option (\<lambda>j. [(''completed_at'', j)]) (time_json t))"

definition json_Marshal_Transaction :: "Transaction \<Rightarrow> json option" where
  "json_Marshal_Transaction x =
     Option.bind (float_json (tx_Amount x)) (\<lambda>amount.
     Option.bind (instrument_json (tx_PaymentInstrument x)) (\<lambda>instrument.
     Option.bind (time_json (tx_CreatedAt x)) (\<lambda>created.
     Option.bind (time_json (tx_UpdatedAt x)) (\<lambda>updated.
     Option.bind (completed_json (tx_CompletedAt x)) (\<lambda>completed.
     Some (JObject (
       [(''transaction_id'', JString (tx_ID x)), (''order_id'', JString (tx_OrderID x)),
        (''attempt_no'', JInt (tx_AttemptNo x)), (''amount'', amount)] @ instrument @
       [(''gateway'', JString (tx_Gateway x))] @
       omit_empty ''gateway_reference_id'' (tx_GatewayReferenceID x) @
       [(''status'', JString (status_word (tx_Status x)))] @
       omit_empty ''failure_reason'' (tx_FailureReason x) @
       [(''created_at'', created), (''updated_at'', updated)] @ completed)))))))"

definition probe_json :: "HalfOpenProbe \<Rightarrow> json" where
  "probe_json p = JObject [(''transaction_id'', JString (hp_TransactionID p)),
     (''expires_at_unix_milli'', JInt (hp_ExpiresAtUnixMilli p))]"

fun state_word :: "GatewayState \<Rightarrow> string" where
  "state_word GatewayStateHealthy = ''healthy''"
| "state_word GatewayStateUnhealthy = ''unhealthy''"
| "state_word GatewayStateHalfOpen = ''half_open''"
| "state_word (GatewayStateOther s) = s"

definition json_Marshal_GatewayRuntimeState :: "GatewayRuntimeState \<Rightarrow> json option" where
  "json_Marshal_GatewayRuntimeState st =
     Option.bind (time_json (rt_UnhealthyUntil st)) (\<lambda>until.
     Option.bind (time_json (rt_UpdatedAt st)) (\<lambda>updated.
     Some (JObject (
       [(''gateway'', JString (rt_Gateway st)), (''state'', JString (state_word (rt_State st))),
        (''unhealthy_until'', until), (''half_open_in_flight'', JInt (rt_HalfOpenInFlight st))] @
       (if rt_HalfOpenProbes st = [] then []
        else [(''half_open_probes'', JArray (map probe_json (rt_HalfOpenProbes st)))]) @
       [(''updated_at'', updated)]))))"

section \<open>Reading\<close>

definition decode_time :: "(time \<Rightarrow> 'a \<Rightarrow> 'a) \<Rightarrow> 'a decoder" where
  "decode_time put j x = (case j of
     JNull \<Rightarrow> Some x
   | JString s \<Rightarrow> map_option (\<lambda>t. put t x) (Parse_RFC3339Nano s)
   | _ \<Rightarrow> None)"

text \<open>A pointer to a time: \<open>null\<close> makes it nil.\<close>

definition decode_time_ptr :: "(time option \<Rightarrow> 'a \<Rightarrow> 'a) \<Rightarrow> 'a decoder" where
  "decode_time_ptr put j x = (case j of
     JNull \<Rightarrow> Some (put None x)
   | JString s \<Rightarrow> map_option (\<lambda>t. put (Some t) x) (Parse_RFC3339Nano s)
   | _ \<Rightarrow> None)"

definition status_of_word :: "string \<Rightarrow> TransactionStatus" where
  "status_of_word s = (if s = ''pending'' then TransactionStatusPending
     else if s = ''success'' then TransactionStatusSuccess
     else if s = ''failure'' then TransactionStatusFailure else TransactionStatusOther s)"

definition state_of_word :: "string \<Rightarrow> GatewayState" where
  "state_of_word s = (if s = ''healthy'' then GatewayStateHealthy
     else if s = ''unhealthy'' then GatewayStateUnhealthy
     else if s = ''half_open'' then GatewayStateHalfOpen else GatewayStateOther s)"

definition Transaction_fields :: "(string \<times> Transaction decoder) list" where
  "Transaction_fields =
     [(''transaction_id'', decode_string (\<lambda>v. tx_ID_update (\<lambda>_. v))),
      (''order_id'', decode_string (\<lambda>v. tx_OrderID_update (\<lambda>_. v))),
      (''attempt_no'', decode_int (\<lambda>v. tx_AttemptNo_update (\<lambda>_. v))),
      (''amount'', decode_float (\<lambda>v. tx_Amount_update (\<lambda>_. v))),
      (''payment_instrument'', decode_any_map tx_PaymentInstrument
         (\<lambda>v. tx_PaymentInstrument_update (\<lambda>_. v))),
      (''gateway'', decode_string (\<lambda>v. tx_Gateway_update (\<lambda>_. v))),
      (''gateway_reference_id'', decode_string (\<lambda>v. tx_GatewayReferenceID_update (\<lambda>_. v))),
      (''status'', decode_string (\<lambda>v. tx_Status_update (\<lambda>_. status_of_word v))),
      (''failure_reason'', decode_string (\<lambda>v. tx_FailureReason_update (\<lambda>_. v))),
      (''created_at'', decode_time (\<lambda>v. tx_CreatedAt_update (\<lambda>_. v))),
      (''updated_at'', decode_time (\<lambda>v. tx_UpdatedAt_update (\<lambda>_. v))),
      (''completed_at'', decode_time_ptr (\<lambda>v. tx_CompletedAt_update (\<lambda>_. v)))]"

definition zero_Transaction :: Transaction where
  "zero_Transaction = \<lparr>tx_ID = '''', tx_OrderID = '''', tx_AttemptNo = 0, tx_Amount = Fin 0,
     tx_PaymentInstrument = None, tx_Gateway = '''', tx_GatewayReferenceID = '''',
     tx_Status = TransactionStatusOther '''', tx_FailureReason = '''', tx_CreatedAt = zero_time,
     tx_UpdatedAt = zero_time, tx_CompletedAt = None\<rparr>"

definition doc_error :: go_error where
  "doc_error = Errorf ''json'' []"

definition decodeTransaction :: "json \<Rightarrow> go_error + Transaction" where
  "decodeTransaction payload =
     (case unmarshal_struct Transaction_fields payload zero_Transaction of
        None \<Rightarrow> Inl doc_error | Some transaction \<Rightarrow> Inr transaction)"

definition HalfOpenProbe_fields :: "(string \<times> HalfOpenProbe decoder) list" where
  "HalfOpenProbe_fields =
     [(''transaction_id'', decode_string (\<lambda>v. hp_TransactionID_update (\<lambda>_. v))),
      (''expires_at_unix_milli'', decode_int (\<lambda>v. hp_ExpiresAtUnixMilli_update (\<lambda>_. v)))]"

definition zero_HalfOpenProbe :: HalfOpenProbe where
  "zero_HalfOpenProbe = \<lparr>hp_TransactionID = '''', hp_ExpiresAtUnixMilli = 0\<rparr>"

definition GatewayRuntimeState_fields :: "(string \<times> GatewayRuntimeState decoder) list" where
  "GatewayRuntimeState_fields =
     [(''gateway'', decode_string (\<lambda>v. rt_Gateway_update (\<lambda>_. v))),
      (''state'', decode_string (\<lambda>v. rt_State_update (\<lambda>_. state_of_word v))),
      (''unhealthy_until'', decode_time (\<lambda>v. rt_UnhealthyUntil_update (\<lambda>_. v))),
      (''half_open_in_flight'', decode_int (\<lambda>v. rt_HalfOpenInFlight_update (\<lambda>_. v))),
      (''half_open_probes'', unmarshal_slice rt_HalfOpenProbes (\<lambda>v. rt_HalfOpenProbes_update (\<lambda>_. v))
         zero_HalfOpenProbe (unmarshal_struct HalfOpenProbe_fields)),
      (''updated_at'', decode_time (\<lambda>v. rt_UpdatedAt_update (\<lambda>_. v)))]"

definition zero_GatewayRuntimeState :: GatewayRuntimeState where
  "zero_GatewayRuntimeState = \<lparr>rt_Gateway = '''', rt_State = GatewayStateOther '''',
     rt_UnhealthyUntil = zero_time, rt_HalfOpenInFlight = 0, rt_HalfOpenProbes = [],
     rt_UpdatedAt = zero_time\<rparr>"

definition decodeGatewayState :: "json \<Rightarrow> go_error + GatewayRuntimeState" where
  "decodeGatewayState payload =
     (case unmarshal_struct GatewayRuntimeState_fields payload zero_GatewayRuntimeState of
        None \<Rightarrow> Inl doc_error | Some state \<Rightarrow> Inr state)"

section \<open>The order of the members does not matter\<close>

text \<open>
  \<open>get\<close> reads one field of the target: the member \<open>n\<close> sets it to \<open>v\<close> of its value, no other
  member changes it.
\<close>

lemma unmarshal_get:
  assumes "unmarshal_members fs ms x = Some y" "distinct (map fst ms)" "fst ` set ms \<subseteq> keys"
    and frame: "\<And>k d j x y. k \<in> keys \<Longrightarrow> k \<noteq> n \<Longrightarrow> field_for fs k = Some d \<Longrightarrow> d j x = Some y \<Longrightarrow> get y = get x"
    and hit: "\<And>d j x y. field_for fs n = Some d \<Longrightarrow> d j x = Some y \<Longrightarrow> (n, j) \<in> set ms \<Longrightarrow> get y = v j"
    and known: "\<And>k. k \<in> keys \<Longrightarrow> field_for fs k \<noteq> None"
  shows "get y = (case map_of ms n of None \<Rightarrow> get x | Some j \<Rightarrow> v j)"
  using assms(1-3) hit
proof (induction ms arbitrary: x)
  case (Cons m ms)
  obtain k j where m: "m = (k, j)" by (cases m)
  have k: "k \<in> keys" using Cons.prems(3) m by simp
  then obtain d where d: "field_for fs k = Some d" using known by blast
  then obtain z where z: "d j x = Some z" "unmarshal_members fs ms z = Some y"
    using Cons.prems(1) m by (auto split: option.splits)
  have IH: "get y = (case map_of ms n of None \<Rightarrow> get z | Some j \<Rightarrow> v j)"
    using Cons.IH [OF z(2)] Cons.prems(2-4) m by simp
  show ?case
  proof (cases "k = n")
    case True
    then have "map_of ms n = None" using Cons.prems(2) m by (simp add: map_of_eq_None_iff)
    moreover have "get z = v j" using Cons.prems(4) [of d j x z] d z(1) True m by simp
    ultimately show ?thesis using IH True m by simp
  next
    case False
    from frame [OF k this d z(1)] IH False m show ?thesis by (simp split: option.split)
  qed
qed simp

lemma unmarshal_succeeds:
  assumes "\<And>k j. (k, j) \<in> set ms \<Longrightarrow> \<exists>d. field_for fs k = Some d \<and> (\<forall>x. d j x \<noteq> None)"
  shows "\<exists>y. unmarshal_members fs ms x = Some y"
  using assms
proof (induction ms arbitrary: x)
  case (Cons m ms)
  obtain k j where m: "m = (k, j)" by (cases m)
  from Cons.prems [of k j] m obtain d where d: "field_for fs k = Some d" "\<forall>x. d j x \<noteq> None" by auto
  then obtain z where "d j x = Some z" by blast
  with Cons.IH [of z] Cons.prems d m show ?case by simp
qed simp

section \<open>Transactions\<close>

lemma field_for_Cons:
  "field_for ((n, d) # fs) k = (if fold_name n = fold_name k then Some d else field_for fs k)"
  "field_for [] k = None"
  by (simp_all add: field_for_def)

definition transaction_keys :: "string list" where
  "transaction_keys = map fst Transaction_fields"

lemma fold_transaction_keys: "map fold_name transaction_keys =
  [''TRANSACTION_ID'', ''ORDER_ID'', ''ATTEMPT_NO'', ''AMOUNT'', ''PAYMENT_INSTRUMENT'', ''GATEWAY'',
   ''GATEWAY_REFERENCE_ID'', ''STATUS'', ''FAILURE_REASON'', ''CREATED_AT'', ''UPDATED_AT'',
   ''COMPLETED_AT'']"
  by code_simp

lemma field_for_exact:
  assumes "distinct (map fold_name (map fst fs))" "i < length fs"
  shows "field_for fs (fst (fs ! i)) = Some (snd (fs ! i))"
  using assms
proof (induction fs arbitrary: i)
  case (Cons p fs)
  obtain n d where p: "p = (n, d)" by (cases p)
  show ?case
  proof (cases i)
    case (Suc k)
    have "fold_name (fst (fs ! k)) \<in> set (map fold_name (map fst fs))" using Cons.prems(2) Suc by simp
    then have "fold_name n \<noteq> fold_name (fst (fs ! k))" using Cons.prems(1) p by (metis
      distinct.simps(2) fst_conv list.simps(9))
    moreover have "field_for fs (fst (fs ! k)) = Some (snd (fs ! k))" using Cons Suc by simp
    ultimately show ?thesis using Suc p by (simp add: field_for_Cons)
  qed (simp add: p field_for_Cons)
qed simp

lemma field_for_member:
  assumes "distinct (map fold_name (map fst fs))" "(n, d) \<in> set fs"
  shows "field_for fs n = Some d"
proof -
  from assms(2) obtain i where "i < length fs" "fs ! i = (n, d)" by (auto simp: in_set_conv_nth)
  with field_for_exact [OF assms(1) this(1)] show ?thesis by simp
qed

lemma distinct_transaction_keys: "distinct (map fold_name (map fst Transaction_fields))"
  using fold_transaction_keys by (simp add: transaction_keys_def)

lemma Transaction_field:
  "(n, d) \<in> set Transaction_fields \<Longrightarrow> field_for Transaction_fields n = Some d"
  by (rule field_for_member [OF distinct_transaction_keys])

lemmas decoder_defs = decode_string_def decode_int_def decode_float_def decode_any_map_def
  decode_time_def decode_time_ptr_def unmarshal_slice_def

lemma field_for_mem:
  assumes "distinct (map fold_name (map fst fs))" "k \<in> set (map fst fs)" "field_for fs k = Some d"
  shows "(k, d) \<in> set fs"
proof -
  from assms(2) obtain e where "(k, e) \<in> set fs" by auto
  with field_for_member [OF assms(1) this] assms(3) show ?thesis by simp
qed

text \<open>Numbers in the range of \<open>float64\<close>: what \<open>any\<close> decodes.\<close>

fun numbers_ok :: "json \<Rightarrow> bool" where
  "numbers_ok (JInt n) = (json_float (of_int n) \<noteq> None)"
| "numbers_ok (JNumber q) = (json_float q \<noteq> None)"
| "numbers_ok (JArray js) = list_all numbers_ok js"
| "numbers_ok (JObject ms) = list_all (\<lambda>(k, j). numbers_ok j) ms"
| "numbers_ok _ = True"

lemma any_of_numbers_ok:
  "(any_of_json j \<noteq> None) = numbers_ok j"
  "(any_of_list js \<noteq> None) = list_all numbers_ok js"
  "(any_of_members ms acc \<noteq> None) = list_all (\<lambda>(k, j). numbers_ok j) ms"
proof (induction j and js and ms acc rule: any_of_json_any_of_list_any_of_members.induct)
qed (auto split: option.splits)

lemma any_of_members_None: "(any_of_members ms acc = None) = (\<not> list_all (\<lambda>(k, j). numbers_ok j) ms)"
  using any_of_numbers_ok(3) by blast

definition is_number :: "json \<Rightarrow> bool" where
  "is_number j \<longleftrightarrow> (\<exists>n. j = JInt n) \<or> (\<exists>q. j = JNumber q)"

text \<open>A value a decoder takes, whatever the target holds.\<close>

definition fits :: "'a decoder \<Rightarrow> json \<Rightarrow> bool" where
  "fits d j \<longleftrightarrow> (\<forall>x. d j x \<noteq> None)"

lemma fits_decoders [simp]:
  "fits (decode_string put_s) j \<longleftrightarrow> j = JNull \<or> (\<exists>s. j = JString s)"
  "fits (decode_int put_i) j \<longleftrightarrow> j = JNull \<or> (\<exists>n. j = JInt n \<and> in64 n)"
  "fits (decode_float put_f) j \<longleftrightarrow> j = JNull \<or> (is_number j \<and> numbers_ok j)"
  "fits (decode_any_map get put_m) j \<longleftrightarrow> j = JNull \<or> ((\<exists>ms. j = JObject ms) \<and> numbers_ok j)"
  "fits (decode_time put_t) j \<longleftrightarrow> j = JNull \<or> (\<exists>s. j = JString s \<and> Parse_RFC3339Nano s \<noteq> None)"
  "fits (decode_time_ptr put_p) j \<longleftrightarrow> j = JNull \<or> (\<exists>s. j = JString s \<and> Parse_RFC3339Nano s \<noteq> None)"
  by (cases j; simp add: fits_def decoder_defs is_number_def any_of_members_None)+

definition fits_member :: "(string \<times> 'a decoder) list \<Rightarrow> string \<times> json \<Rightarrow> bool" where
  "fits_member fs m \<longleftrightarrow> (\<exists>d. (fst m, d) \<in> set fs \<and> fits d (snd m))"

section \<open>What \<open>cjson\<close> makes of a document\<close>

text \<open>Numbers in range and no member twice: what \<open>json.Marshal\<close> writes.\<close>

fun regular :: "json \<Rightarrow> bool" where
  "regular (JInt n) = (json_float (of_int n) \<noteq> None)"
| "regular (JNumber q) = (json_float q \<noteq> None)"
| "regular (JArray js) = list_all regular js"
| "regular (JObject ms) = (distinct (map fst ms) \<and> list_all (\<lambda>(k, j). regular j) ms)"
| "regular _ = True"

lemma regular_numbers_ok: "regular j \<Longrightarrow> numbers_ok j"
  by (induction j rule: regular.induct) (auto simp: list_all_iff)

text \<open>
  What \<open>cjson.encode\<close> writes for a table that stands for a document: strings, booleans and \<open>null\<close>
  as they are, integers of at most 14 digits exactly and other numbers as some number in range, an
  array of at least one element as the array of its elements, the empty table as an object, and the
  members of an object in some order. Documents are nested within the limit of the encoder.
\<close>

definition cjson_encoder :: "(json \<Rightarrow> json) \<Rightarrow> bool" where
  "cjson_encoder enc \<longleftrightarrow> enc JNull = JNull \<and> (\<forall>b. enc (JBool b) = JBool b) \<and>
    (\<forall>s. enc (JString s) = JString s) \<and>
    (\<forall>n. \<bar>n\<bar> < 10 ^ 14 \<longrightarrow> enc (JInt n) = JInt n) \<and>
    (\<forall>j. is_number j \<longrightarrow> regular j \<longrightarrow> is_number (enc j) \<and> regular (enc j)) \<and>
    (\<forall>js. js \<noteq> [] \<longrightarrow> enc (JArray js) = JArray (map enc js)) \<and>
    enc (JArray []) = JObject [] \<and>
    (\<forall>ms. distinct (map fst ms) \<longrightarrow>
       (\<exists>ms'. enc (JObject ms) = JObject ms' \<and> mset ms' = mset (map (\<lambda>(k, j). (k, enc j)) ms)))"

lemma encoder_laws:
  assumes "cjson_encoder enc"
  shows "enc JNull = JNull" "enc (JBool b) = JBool b" "enc (JString s) = JString s"
    "\<bar>n\<bar> < 10 ^ 14 \<Longrightarrow> enc (JInt n) = JInt n"
    "is_number j \<Longrightarrow> regular j \<Longrightarrow> is_number (enc j) \<and> regular (enc j)"
    "js \<noteq> [] \<Longrightarrow> enc (JArray js) = JArray (map enc js)" "enc (JArray []) = JObject []"
  using assms unfolding cjson_encoder_def by auto

lemma encoder_object:
  assumes "cjson_encoder enc" "distinct (map fst ms)"
  obtains ms' where "enc (JObject ms) = JObject ms'" "distinct (map fst ms')"
    "map_of ms' = (\<lambda>k. map_option enc (map_of ms k))"
    "set ms' = (\<lambda>(k, j). (k, enc j)) ` set ms"
proof -
  obtain ms' where ms': "enc (JObject ms) = JObject ms'"
    "mset ms' = mset (map (\<lambda>(k, j). (k, enc j)) ms)"
    using assms unfolding cjson_encoder_def by blast
  have fst: "map fst (map (\<lambda>(k, j). (k, enc j)) ms) = map fst ms" by (simp add: split_def)
  have "mset (map fst ms') = mset (map fst ms)"
    by (metis fst mset_map ms'(2))
  then have d: "distinct (map fst ms')" using assms(2) by (metis mset_eq_imp_distinct_iff)
  have set: "set ms' = set (map (\<lambda>(k, j). (k, enc j)) ms)" by (rule mset_eq_setD [OF ms'(2)])
  have "map_of ms' = map_of (map (\<lambda>(k, j). (k, enc j)) ms)"
    by (subst map_of_inject_set) (use d set assms(2) in \<open>simp_all add: comp_def split_def\<close>)
  also have "\<dots> = (\<lambda>k. map_option enc (map_of ms k))" by (simp add: map_of_map fun_eq_iff)
  finally show thesis using that [OF ms'(1) d _] set by simp
qed

lemma regular_enc: "cjson_encoder enc \<Longrightarrow> regular j \<Longrightarrow> regular (enc j)"
proof (induction j rule: regular.induct)
  case (1 n)
  then show ?case using encoder_laws(5) [of enc "JInt n"] by (simp add: is_number_def)
next
  case (2 q)
  then show ?case using encoder_laws(5) [of enc "JNumber q"] by (simp add: is_number_def)
next
  case (3 js)
  then show ?case
    by (cases "js = []") (auto simp: encoder_laws list_all_iff)
next
  case (4 ms)
  then have "distinct (map fst ms)" by simp
  from encoder_object [OF 4(2) this] obtain ms' where ms': "enc (JObject ms) = JObject ms'"
    "distinct (map fst ms')" "set ms' = (\<lambda>(k, j). (k, enc j)) ` set ms" by (metis (no_types))
  have "regular (enc j)" if "(k, j) \<in> set ms" for k j
    using 4(1) [OF that refl 4(2)] 4(3) that by (auto simp: list_all_iff)
  with ms' show ?case by (auto simp: list_all_iff)
qed (simp_all add: encoder_laws)

text \<open>A transaction but for its amount and its payment instrument.\<close>

definition core :: "Transaction \<Rightarrow> Transaction" where
  "core x = x\<lparr>tx_Amount := Fin 0, tx_PaymentInstrument := None\<rparr>"

text \<open>The members \<open>ms\<close>, in any order, are a document of the transaction \<open>x\<close>.\<close>

definition tx_doc :: "(string \<times> json) list \<Rightarrow> Transaction \<Rightarrow> bool" where
  "tx_doc ms x \<longleftrightarrow> distinct (map fst ms) \<and> list_all (fits_member Transaction_fields) ms \<and>
     list_all (\<lambda>(k, j). regular j) ms \<and>
     map_of ms ''transaction_id'' = Some (JString (tx_ID x)) \<and>
     map_of ms ''order_id'' = Some (JString (tx_OrderID x)) \<and>
     map_of ms ''attempt_no'' = Some (JInt (tx_AttemptNo x)) \<and> in64 (tx_AttemptNo x) \<and>
     map_of ms ''gateway'' = Some (JString (tx_Gateway x)) \<and>
     map_of ms ''gateway_reference_id'' \<in>
       (if tx_GatewayReferenceID x = '''' then {None, Some (JString '''')}
        else {Some (JString (tx_GatewayReferenceID x))}) \<and>
     map_of ms ''status'' = Some (JString (status_word (tx_Status x))) \<and>
     status_of_word (status_word (tx_Status x)) = tx_Status x \<and>
     map_of ms ''failure_reason'' \<in>
       (if tx_FailureReason x = '''' then {None, Some (JString '''')}
        else {Some (JString (tx_FailureReason x))}) \<and>
     (\<exists>c. map_of ms ''created_at'' = Some (JString c) \<and> Parse_RFC3339Nano c = Some (tx_CreatedAt x)) \<and>
     (\<exists>c. map_of ms ''updated_at'' = Some (JString c) \<and> Parse_RFC3339Nano c = Some (tx_UpdatedAt x)) \<and>
     (case tx_CompletedAt x of None \<Rightarrow> map_of ms ''completed_at'' = None
      | Some t \<Rightarrow> (\<exists>c. map_of ms ''completed_at'' = Some (JString c) \<and> Parse_RFC3339Nano c = Some t))"

text \<open>A decoder that leaves a reading of the target alone.\<close>

definition keeps :: "('a \<Rightarrow> 'b) \<Rightarrow> 'a decoder \<Rightarrow> bool" where
  "keeps get d \<longleftrightarrow> (\<forall>j x y. d j x = Some y \<longrightarrow> get y = get x)"

lemma keeps_decoders [simp]:
  "(\<And>v x. get (put_s v x) = get x) \<Longrightarrow> keeps get (decode_string put_s)"
  "(\<And>v x. get (put_i v x) = get x) \<Longrightarrow> keeps get (decode_int put_i)"
  "(\<And>v x. get (put_f v x) = get x) \<Longrightarrow> keeps get (decode_float put_f)"
  "(\<And>v x. get (put_m v x) = get x) \<Longrightarrow> keeps get (decode_any_map get' put_m)"
  "(\<And>v x. get (put_t v x) = get x) \<Longrightarrow> keeps get (decode_time put_t)"
  "(\<And>v x. get (put_p v x) = get x) \<Longrightarrow> keeps get (decode_time_ptr put_p)"
  "(\<And>v x. get (put_l v x) = get x) \<Longrightarrow> keeps get (unmarshal_slice get'' put_l z dec)"
  by (auto simp: keeps_def decoder_defs split: json.splits if_splits)

definition only_field :: "(string \<times> 'a decoder) list \<Rightarrow> ('a \<Rightarrow> 'b) \<Rightarrow> string \<Rightarrow> bool" where
  "only_field fs get n \<longleftrightarrow> list_all (\<lambda>(k, d). k = n \<or> keeps get d) fs"

lemma unmarshal_field:
  assumes "unmarshal_members fs ms x = Some y" "distinct (map fst ms)" "fst ` set ms \<subseteq> set (map fst fs)"
    and "distinct (map fold_name (map fst fs))" "only_field fs get n"
    and hit: "\<And>d j x y. (n, d) \<in> set fs \<Longrightarrow> d j x = Some y \<Longrightarrow> (n, j) \<in> set ms \<Longrightarrow> get y = v j"
  shows "get y = (case map_of ms n of None \<Rightarrow> get x | Some j \<Rightarrow> v j)"
proof (rule unmarshal_get [OF assms(1-3)])
  show "get y = get x" if "k \<in> set (map fst fs)" "k \<noteq> n" "field_for fs k = Some d" "d j x = Some y" for k d j x y
    using field_for_mem [OF assms(4) that(1,3)] assms(5) that(2,4)
    by (auto simp: only_field_def list_all_iff keeps_def)
  show "get y = v j" if "field_for fs n = Some d" "d j x = Some y" "(n, j) \<in> set ms" for d j x y
    using field_for_mem [OF assms(4) _ that(1)] assms(3) that hit by force
  show "field_for fs k \<noteq> None" if "k \<in> set (map fst fs)" for k
    using field_for_member [OF assms(4)] that by auto
qed

lemma tx_only_field:
  "only_field Transaction_fields tx_ID ''transaction_id''"
  "only_field Transaction_fields tx_OrderID ''order_id''"
  "only_field Transaction_fields tx_AttemptNo ''attempt_no''"
  "only_field Transaction_fields tx_Gateway ''gateway''"
  "only_field Transaction_fields tx_GatewayReferenceID ''gateway_reference_id''"
  "only_field Transaction_fields tx_Status ''status''"
  "only_field Transaction_fields tx_FailureReason ''failure_reason''"
  "only_field Transaction_fields tx_CreatedAt ''created_at''"
  "only_field Transaction_fields tx_UpdatedAt ''updated_at''"
  "only_field Transaction_fields tx_CompletedAt ''completed_at''"
  by (simp_all add: only_field_def Transaction_fields_def)

text \<open>\<open>y\<close> is what the members \<open>ms\<close>, with known names and none twice, make of \<open>x\<close>.\<close>

definition unmarshals :: "(string \<times> 'a decoder) list \<Rightarrow> (string \<times> json) list \<Rightarrow> 'a \<Rightarrow> 'a \<Rightarrow> bool" where
  "unmarshals fs ms x y \<longleftrightarrow> unmarshal_members fs ms x = Some y \<and> distinct (map fst ms) \<and>
     fst ` set ms \<subseteq> set (map fst fs) \<and> distinct (map fold_name (map fst fs))"

lemma field_absent:
  assumes "unmarshals fs ms x y" "only_field fs get n" "map_of ms n = None"
  shows "get y = get x"
proof -
  have "get y = (case map_of ms n of None \<Rightarrow> get x | Some j \<Rightarrow> get x)"
    using assms
    by (intro unmarshal_field [of fs ms x y get n "\<lambda>_. get x"])
      (auto simp: unmarshals_def map_of_eq_None_iff image_iff)
  with assms(3) show ?thesis by simp
qed

lemma field_present:
  assumes "unmarshals fs ms x y" "only_field fs get n" "(n, d) \<in> set fs" "map_of ms n = Some j"
    and "\<And>x y. d j x = Some y \<Longrightarrow> get y = w"
  shows "get y = w"
proof -
  have "get y = (case map_of ms n of None \<Rightarrow> get x | Some j \<Rightarrow> w)"
  proof (rule unmarshal_field [of fs ms x y get n "\<lambda>_. w"])
    show "get y' = w" if "(n, d') \<in> set fs" "d' j' x' = Some y'" "(n, j') \<in> set ms" for d' j' x' y'
    proof -
      have "j' = j" using that(3) assms(1,4) by (simp add: unmarshals_def)
      moreover have "d' = d"
      proof -
        have "distinct (map fold_name (map fst fs))" using assms(1) by (simp add: unmarshals_def)
        from field_for_member [OF this that(1)] field_for_member [OF this assms(3)] show ?thesis by simp
      qed
      ultimately show ?thesis using assms(5) that(2) by simp
    qed
  qed (use assms(1,2) in \<open>simp_all add: unmarshals_def\<close>)
  with assms(4) show ?thesis by simp
qed

text \<open>A string that may be left out when it is empty.\<close>

lemma field_omitted:
  assumes "unmarshals fs ms x y" "only_field fs get n" "(n, decode_string put) \<in> set fs"
    and "map_of ms n \<in> (if s = '''' then {None, Some (JString '''')} else {Some (JString s)})"
    and "\<And>v x. get (put v x) = v" "get x = ''''"
  shows "get y = s"
proof (cases "map_of ms n")
  case None
  with assms(4) have "s = ''''" by (simp split: if_splits)
  with field_absent [OF assms(1,2) None] assms(6) show ?thesis by simp
next
  case (Some j)
  with assms(4) have "j = JString s" by (auto split: if_splits)
  with Some field_present [OF assms(1-3), of j s] assms(5) show ?thesis
    by (auto simp: decode_string_def)
qed

lemma unmarshals_fitting:
  assumes "distinct (map fold_name (map fst fs))" "distinct (map fst ms)" "list_all (fits_member fs) ms"
  obtains y where "unmarshals fs ms x y"
proof -
  have "\<exists>y. unmarshal_members fs ms x = Some y"
  proof (rule unmarshal_succeeds)
    fix k j assume "(k, j) \<in> set ms"
    with assms(3) obtain d where "(k, d) \<in> set fs" "fits d j"
      by (auto simp: list_all_iff fits_member_def)
    with field_for_member [OF assms(1)] show "\<exists>d. field_for fs k = Some d \<and> (\<forall>x. d j x \<noteq> None)"
      by (auto simp: fits_def)
  qed
  moreover have "fst ` set ms \<subseteq> set (map fst fs)"
    using assms(3) by (force simp: list_all_iff fits_member_def)
  ultimately show thesis using that assms(1,2) by (auto simp: unmarshals_def)
qed

lemma tx_docD:
  assumes "tx_doc ms x"
  shows "map_of ms ''transaction_id'' = Some (JString (tx_ID x))"
    "map_of ms ''order_id'' = Some (JString (tx_OrderID x))"
    "map_of ms ''attempt_no'' = Some (JInt (tx_AttemptNo x))" "in64 (tx_AttemptNo x)"
    "map_of ms ''gateway'' = Some (JString (tx_Gateway x))"
    "map_of ms ''gateway_reference_id'' \<in>
       (if tx_GatewayReferenceID x = '''' then {None, Some (JString '''')}
        else {Some (JString (tx_GatewayReferenceID x))})"
    "map_of ms ''status'' = Some (JString (status_word (tx_Status x)))"
    "status_of_word (status_word (tx_Status x)) = tx_Status x"
    "map_of ms ''failure_reason'' \<in>
       (if tx_FailureReason x = '''' then {None, Some (JString '''')}
        else {Some (JString (tx_FailureReason x))})"
    "\<exists>c. map_of ms ''created_at'' = Some (JString c) \<and> Parse_RFC3339Nano c = Some (tx_CreatedAt x)"
    "\<exists>c. map_of ms ''updated_at'' = Some (JString c) \<and> Parse_RFC3339Nano c = Some (tx_UpdatedAt x)"
    "case tx_CompletedAt x of None \<Rightarrow> map_of ms ''completed_at'' = None
      | Some t \<Rightarrow> (\<exists>c. map_of ms ''completed_at'' = Some (JString c) \<and> Parse_RFC3339Nano c = Some t)"
    "distinct (map fst ms)" "list_all (fits_member Transaction_fields) ms"
    "list_all (\<lambda>(k, j). regular j) ms"
  using assms by (simp_all only: tx_doc_def)

lemma tx_fields:
  "(''transaction_id'', decode_string (\<lambda>v. tx_ID_update (\<lambda>_. v))) \<in> set Transaction_fields"
  "(''order_id'', decode_string (\<lambda>v. tx_OrderID_update (\<lambda>_. v))) \<in> set Transaction_fields"
  "(''attempt_no'', decode_int (\<lambda>v. tx_AttemptNo_update (\<lambda>_. v))) \<in> set Transaction_fields"
  "(''gateway'', decode_string (\<lambda>v. tx_Gateway_update (\<lambda>_. v))) \<in> set Transaction_fields"
  "(''gateway_reference_id'', decode_string (\<lambda>v. tx_GatewayReferenceID_update (\<lambda>_. v))) \<in> set Transaction_fields"
  "(''status'', decode_string (\<lambda>v. tx_Status_update (\<lambda>_. status_of_word v))) \<in> set Transaction_fields"
  "(''failure_reason'', decode_string (\<lambda>v. tx_FailureReason_update (\<lambda>_. v))) \<in> set Transaction_fields"
  "(''created_at'', decode_time (\<lambda>v. tx_CreatedAt_update (\<lambda>_. v))) \<in> set Transaction_fields"
  "(''updated_at'', decode_time (\<lambda>v. tx_UpdatedAt_update (\<lambda>_. v))) \<in> set Transaction_fields"
  "(''completed_at'', decode_time_ptr (\<lambda>v. tx_CompletedAt_update (\<lambda>_. v))) \<in> set Transaction_fields"
  by (simp_all add: Transaction_fields_def)

lemma tx_doc_decodes:
  assumes doc: "tx_doc ms x"
  obtains y where "decodeTransaction (JObject ms) = Inr y" "core y = core x"
proof -
  note D = tx_docD [OF doc]
  obtain y where y: "unmarshals Transaction_fields ms zero_Transaction y"
    using unmarshals_fitting [OF distinct_transaction_keys D(13,14)] by blast
  note present = field_present [OF y]
  have "tx_ID y = tx_ID x" "tx_OrderID y = tx_OrderID x" "tx_AttemptNo y = tx_AttemptNo x"
    "tx_Gateway y = tx_Gateway x" "tx_Status y = tx_Status x"
    using D(4,8)
    by (auto simp: decode_string_def decode_int_def
        intro!: present [OF tx_only_field(1) tx_fields(1) D(1)] present [OF tx_only_field(2) tx_fields(2) D(2)]
          present [OF tx_only_field(3) tx_fields(3) D(3)] present [OF tx_only_field(4) tx_fields(4) D(5)]
          present [OF tx_only_field(6) tx_fields(6) D(7)])
  moreover have "tx_GatewayReferenceID y = tx_GatewayReferenceID x" "tx_FailureReason y = tx_FailureReason x"
    by (rule field_omitted [OF y tx_only_field(5) tx_fields(5) D(6)];
        simp add: zero_Transaction_def)
      (rule field_omitted [OF y tx_only_field(7) tx_fields(7) D(9)]; simp add: zero_Transaction_def)
  moreover obtain c u where c: "map_of ms ''created_at'' = Some (JString c)" "Parse_RFC3339Nano c = Some (tx_CreatedAt x)"
    and u: "map_of ms ''updated_at'' = Some (JString u)" "Parse_RFC3339Nano u = Some (tx_UpdatedAt x)"
    using D(10,11) by blast
  have "tx_CreatedAt y = tx_CreatedAt x" "tx_UpdatedAt y = tx_UpdatedAt x"
    using c(2) u(2)
    by (auto simp: decode_time_def
        intro!: present [OF tx_only_field(8) tx_fields(8) c(1)] present [OF tx_only_field(9) tx_fields(9) u(1)])
  moreover have "tx_CompletedAt y = tx_CompletedAt x"
  proof (cases "tx_CompletedAt x")
    case None
    with D(12) field_absent [OF y tx_only_field(10)] show ?thesis by (simp add: zero_Transaction_def)
  next
    case (Some t)
    with D(12) obtain w where w: "map_of ms ''completed_at'' = Some (JString w)" "Parse_RFC3339Nano w = Some t"
      by auto
    show ?thesis unfolding Some
      by (rule present [OF tx_only_field(10) tx_fields(10) w(1)]) (auto simp: decode_time_ptr_def w(2))
  qed
  ultimately have "core y = core x" by (simp add: core_def)
  moreover have "decodeTransaction (JObject ms) = Inr y"
    using y by (simp add: decodeTransaction_def unmarshal_struct_def unmarshals_def)
  ultimately show thesis using that by blast
qed

lemma tx_fits_member:
  "fits_member Transaction_fields (''transaction_id'', v) \<longleftrightarrow> v = JNull \<or> (\<exists>s. v = JString s)"
  "fits_member Transaction_fields (''order_id'', v) \<longleftrightarrow> v = JNull \<or> (\<exists>s. v = JString s)"
  "fits_member Transaction_fields (''attempt_no'', v) \<longleftrightarrow> v = JNull \<or> (\<exists>n. v = JInt n \<and> in64 n)"
  "fits_member Transaction_fields (''amount'', v) \<longleftrightarrow> v = JNull \<or> (is_number v \<and> numbers_ok v)"
  "fits_member Transaction_fields (''payment_instrument'', v) \<longleftrightarrow>
     v = JNull \<or> ((\<exists>ms. v = JObject ms) \<and> numbers_ok v)"
  "fits_member Transaction_fields (''gateway'', v) \<longleftrightarrow> v = JNull \<or> (\<exists>s. v = JString s)"
  "fits_member Transaction_fields (''gateway_reference_id'', v) \<longleftrightarrow> v = JNull \<or> (\<exists>s. v = JString s)"
  "fits_member Transaction_fields (''status'', v) \<longleftrightarrow> v = JNull \<or> (\<exists>s. v = JString s)"
  "fits_member Transaction_fields (''failure_reason'', v) \<longleftrightarrow> v = JNull \<or> (\<exists>s. v = JString s)"
  "fits_member Transaction_fields (''created_at'', v) \<longleftrightarrow>
     v = JNull \<or> (\<exists>s. v = JString s \<and> Parse_RFC3339Nano s \<noteq> None)"
  "fits_member Transaction_fields (''updated_at'', v) \<longleftrightarrow>
     v = JNull \<or> (\<exists>s. v = JString s \<and> Parse_RFC3339Nano s \<noteq> None)"
  "fits_member Transaction_fields (''completed_at'', v) \<longleftrightarrow>
     v = JNull \<or> (\<exists>s. v = JString s \<and> Parse_RFC3339Nano s \<noteq> None)"
  by (simp_all add: fits_member_def Transaction_fields_def)

lemma tx_doc_enc:
  assumes enc: "cjson_encoder enc" and doc: "tx_doc ms x" and small: "\<bar>tx_AttemptNo x\<bar> < 10 ^ 14"
  obtains ms' where "enc (JObject ms) = JObject ms'" "tx_doc ms' x"
proof -
  note D = tx_docD [OF doc]
  obtain ms' where ms': "enc (JObject ms) = JObject ms'" "distinct (map fst ms')"
    "map_of ms' = (\<lambda>k. map_option enc (map_of ms k))" "set ms' = (\<lambda>(k, j). (k, enc j)) ` set ms"
    by (rule encoder_object [OF enc D(13)])
  note laws = encoder_laws [OF enc]
  have reg: "list_all (\<lambda>(k, j). regular j) ms'"
    using D(15) regular_enc [OF enc] unfolding list_all_iff ms'(4) by auto
  have "fits_member Transaction_fields (k, enc j)" if kj: "(k, j) \<in> set ms" for k j
  proof -
    obtain d where d: "(k, d) \<in> set Transaction_fields" "fits d j"
      using D(14) kj by (auto simp: list_all_iff fits_member_def)
    have r: "regular j" "regular (enc j)" using D(15) kj regular_enc [OF enc] by (auto simp: list_all_iff)
    have attempt: "k = ''attempt_no'' \<Longrightarrow> j = JInt (tx_AttemptNo x)"
      using D(3) map_of_is_SomeI [OF D(13) kj] by (metis option.inject)
    have number: "is_number j \<Longrightarrow> is_number (enc j) \<and> numbers_ok (enc j)"
      using laws(5) [OF _ r(1)] regular_numbers_ok by blast
    have object: "j = JObject l \<Longrightarrow> \<exists>l'. enc j = JObject l'" for l
      by (rule encoder_object [OF enc, of l]) (use that r(1) in auto)
    have "fits d (enc j)"
      using d attempt number object laws(1,3) laws(4) [OF small] regular_numbers_ok [OF r(2)]
      by (fastforce simp: Transaction_fields_def)
    with d(1) show ?thesis by (auto simp: fits_member_def)
  qed
  then have fit: "list_all (fits_member Transaction_fields) ms'"
    unfolding list_all_iff ms'(4) by auto
  have "tx_doc ms' x"
    unfolding tx_doc_def ms'(3)
    using D ms'(2) reg fit laws(3) laws(4) [OF small]
    by (intro conjI) (auto split: if_splits option.splits)
  with ms'(1) that show thesis by blast
qed

text \<open>What the script writes into a document that is not final.\<close>

lemma tx_doc_complete:
  assumes doc: "tx_doc ms x" and c: "Parse_RFC3339Nano c = Some now"
    and st: "status_of_word (status_word st) = st"
  shows "tx_doc (map_put ''completed_at'' (JString c) (map_put ''updated_at'' (JString c)
      (map_put ''failure_reason'' (JString reason) (map_put ''status'' (JString (status_word st)) ms))))
    (x\<lparr>tx_Status := st, tx_FailureReason := reason, tx_UpdatedAt := now, tx_CompletedAt := Some now\<rparr>)"
proof -
  note D = tx_docD [OF doc]
  have put: "list_all P (map_put k v ms)" if "list_all P ms" "P (k, v)" for P k v and ms :: "(string \<times> json) list"
    using that by (induction k v ms rule: map_put.induct) auto
  show ?thesis
    unfolding tx_doc_def
    using D c st by (intro conjI) (auto simp: put tx_fits_member distinct_map_put split: if_splits)
qed

lemma Marshal_tx_doc:
  assumes "json_Marshal_Transaction x = Some j" "regular j" "in64 (tx_AttemptNo x)"
    "status_of_word (status_word (tx_Status x)) = tx_Status x"
  obtains ms where "j = JObject ms" "tx_doc ms x"
proof -
  obtain a inst cr up comp where parts: "float_json (tx_Amount x) = Some a"
    "instrument_json (tx_PaymentInstrument x) = Some inst" "time_json (tx_CreatedAt x) = Some cr"
    "time_json (tx_UpdatedAt x) = Some up" "completed_json (tx_CompletedAt x) = Some comp"
    using assms(1) by (auto simp: json_Marshal_Transaction_def bind_eq_Some_conv)
  define ms where "ms = [(''transaction_id'', JString (tx_ID x)), (''order_id'', JString (tx_OrderID x)),
        (''attempt_no'', JInt (tx_AttemptNo x)), (''amount'', a)] @ inst @
       [(''gateway'', JString (tx_Gateway x))] @
       omit_empty ''gateway_reference_id'' (tx_GatewayReferenceID x) @
       [(''status'', JString (status_word (tx_Status x)))] @
       omit_empty ''failure_reason'' (tx_FailureReason x) @
       [(''created_at'', cr), (''updated_at'', up)] @ comp"
  have j: "j = JObject ms" using assms(1) parts by (simp add: json_Marshal_Transaction_def ms_def)
  have a: "is_number a"
    using parts(1) by (auto simp: float_json_def is_number_def split: f64.splits if_splits)
  have time: "\<exists>c. tj = JString c \<and> Parse_RFC3339Nano c = Some t" if "time_json t = Some tj" for t tj
    using that Parse_Format_RFC3339Nano by (auto simp: time_json_def split: if_splits)
  have inst: "inst = [] \<or> (\<exists>l. inst = [(''payment_instrument'', JObject l)])"
    using parts(2) by (auto simp: instrument_json_def split: option.splits if_splits)
  have comp: "case tx_CompletedAt x of None \<Rightarrow> comp = []
      | Some t \<Rightarrow> \<exists>c. comp = [(''completed_at'', JString c)] \<and> Parse_RFC3339Nano c = Some t"
    using parts(5) time by (auto simp: completed_json_def split: option.splits)
  obtain c u where c: "cr = JString c" "Parse_RFC3339Nano c = Some (tx_CreatedAt x)"
    and u: "up = JString u" "Parse_RFC3339Nano u = Some (tx_UpdatedAt x)"
    using time [OF parts(3)] time [OF parts(4)] by blast
  have reg: "distinct (map fst ms)" "list_all (\<lambda>(k, j). regular j) ms" using assms(2) j by simp_all
  have num: "numbers_ok v" if "(k, v) \<in> set ms" for k v
    using reg(2) that regular_numbers_ok by (auto simp: list_all_iff)
  have num_inst: "list_all (\<lambda>(k, y). numbers_ok y) l" if "inst = [(''payment_instrument'', JObject l)]" for l
    using num [of "''payment_instrument''" "JObject l"] that by (simp add: ms_def)
  have num_a: "numbers_ok a" using num [of "''amount''" a] by (simp add: ms_def)
  have fit: "list_all (fits_member Transaction_fields) ms"
    unfolding ms_def omit_empty_def
    using a inst comp c u num_a num_inst assms(3)
    by (auto simp: tx_fits_member ms_def split: option.splits)
  have optional: "map_of ms ''gateway_reference_id'' \<in>
       (if tx_GatewayReferenceID x = '''' then {None, Some (JString '''')}
        else {Some (JString (tx_GatewayReferenceID x))})"
    "map_of ms ''failure_reason'' \<in>
       (if tx_FailureReason x = '''' then {None, Some (JString '''')}
        else {Some (JString (tx_FailureReason x))})"
    "case tx_CompletedAt x of None \<Rightarrow> map_of ms ''completed_at'' = None
      | Some t \<Rightarrow> (\<exists>c. map_of ms ''completed_at'' = Some (JString c) \<and> Parse_RFC3339Nano c = Some t)"
    unfolding ms_def omit_empty_def using inst comp
    by (auto split: option.splits if_splits)
  have members: "map_of ms ''transaction_id'' = Some (JString (tx_ID x))"
    "map_of ms ''order_id'' = Some (JString (tx_OrderID x))"
    "map_of ms ''attempt_no'' = Some (JInt (tx_AttemptNo x))"
    "map_of ms ''gateway'' = Some (JString (tx_Gateway x))"
    "map_of ms ''status'' = Some (JString (status_word (tx_Status x)))"
    "map_of ms ''created_at'' = Some (JString c)" "map_of ms ''updated_at'' = Some (JString u)"
    unfolding ms_def omit_empty_def c u using inst by (elim disjE exE; simp)+
  have "tx_doc ms x"
    unfolding tx_doc_def members
    using c(2) u(2) by (intro conjI reg fit assms(3,4) optional refl exI) simp_all
  with j that show thesis by blast
qed

end
