(* ===== verification/RedisBlacklist.thy ===== *)
theory RedisBlacklist
  imports RedisServer MemoryBlacklist
begin

text \<open>
  \<open>internal/adapters/repository/redis/order_gateway_blacklist_repository.go\<close>: a hash per order and
  gateway counts the outcomes, a set per order holds the blacklisted gateways, and one script
  updates both. Numbers of Lua are integers here; they are exact up to 2^53. A hash field that is
  not a decimal integer is an error of the script; only the script writes the fields.
\<close>

definition script_error :: go_error where
  "script_error = Errorf ''script'' []"

definition summaryKey :: "'r Store \<Rightarrow> string \<Rightarrow> string \<Rightarrow> string" where
  "summaryKey S orderID gateway = Key S [''order'', orderID, ''gateway'', gateway, ''attempts'']"

definition blacklistKey :: "'r Store \<Rightarrow> string \<Rightarrow> string" where
  "blacklistKey S orderID = Key S [''order'', orderID, ''blacklisted_gateways'']"

text \<open>\<open>tonumber(redis.call("HGET", key, field) or "0")\<close>.\<close>

definition hget_number :: "'r Redis \<Rightarrow> string \<Rightarrow> string \<Rightarrow> ('r, go_error, int) proc" where
  "hget_number C key field =
     andThen (rd_HGet C key field) (\<lambda>value.
     case Atoi (case value of None \<Rightarrow> ''0'' | Some v \<Rightarrow> v) of
       None \<Rightarrow> throw script_error | Some n \<Rightarrow> ret n)"

definition lua_bool :: "bool \<Rightarrow> string" where
  "lua_bool b = (if b then ''true'' else ''false'')"

definition recordOrderGatewayOutcomeScript :: "'r Redis \<Rightarrow> string \<Rightarrow> string \<Rightarrow> string \<Rightarrow> string
    \<Rightarrow> string \<Rightarrow> int \<Rightarrow> string \<Rightarrow> ('r, go_error, reply list) proc" where
  "recordOrderGatewayOutcomeScript C key1 key2 orderID gateway status threshold updated =
     andThen (hget_number C key1 ''failures'') (\<lambda>failures0.
     andThen (hget_number C key1 ''successes'') (\<lambda>successes0.
     andThen (rd_SIsMember C key2 gateway) (\<lambda>was_blacklisted.
     andThen
       (if status = ''success'' then
          andThen (rd_SRem C key2 gateway) (\<lambda>_. ret (failures0, successes0 + 1, False))
        else if status = ''failure'' then
          (if successes0 = 0 \<and> failures0 + 1 \<ge> threshold then
             andThen (rd_SAdd C key2 gateway) (\<lambda>_. ret (failures0 + 1, successes0, True))
           else ret (failures0 + 1, successes0, was_blacklisted))
        else ret (failures0, successes0, was_blacklisted))
       (\<lambda>(failures, successes, blacklisted).
     andThen (rd_HSet C key1 [(''order_id'', orderID), (''gateway'', gateway),
         (''failures'', fmt_d failures), (''successes'', fmt_d successes),
         (''blacklisted'', lua_bool blacklisted), (''updated_at'', updated)]) (\<lambda>_.
     ret [ReplyInt failures, ReplyInt successes, ReplyText (lua_bool blacklisted),
       ReplyText (lua_bool (blacklisted \<and> \<not> was_blacklisted)), ReplyText updated])))))"

text \<open>\<open>fmt.Sprint\<close> of an element of a script's result; \<open>strconv.ParseBool\<close>.\<close>

definition reply_text :: "reply \<Rightarrow> string" where
  "reply_text x = (case x of ReplyText s \<Rightarrow> s | ReplyInt n \<Rightarrow> fmt_d n | ReplyDoc _ \<Rightarrow> '''')"

definition ParseBool :: "string \<Rightarrow> bool option" where
  "ParseBool s = (if s \<in> {''1'', ''t'', ''T'', ''true'', ''TRUE'', ''True''} then Some True
     else if s \<in> {''0'', ''f'', ''F'', ''false'', ''FALSE'', ''False''} then Some False else None)"

text \<open>\<open>x, err := parse(s); if err != nil { return ..., err }\<close>.\<close>

definition parsed :: "string \<Rightarrow> 'a option \<Rightarrow> ('r, go_error, 'a) proc" where
  "parsed what x = (case x of None \<Rightarrow> throw (Errorf what []) | Some y \<Rightarrow> ret y)"

definition RedisBlacklist_BlacklistedGateways ::
  "'r Store \<Rightarrow> string \<Rightarrow> ('r, go_error, string set) proc" where
  "RedisBlacklist_BlacklistedGateways S orderID =
     andThen (rd_SMembers (st_client S) (blacklistKey S orderID)) (\<lambda>gateways. ret (set gateways))"

text \<open>The part of \<open>RecordOutcome\<close> that reads the result of the script.\<close>

definition read_outcome :: "string \<Rightarrow> string \<Rightarrow> reply list
    \<Rightarrow> ('r, go_error, OrderGatewayAttemptSummary \<times> bool) proc" where
  "read_outcome orderID gateway result =
     (if length result < 5 then
        throw (Errorf ''unexpected redis order gateway response: %v'' (map reply_text result))
      else
        andThen (parsed ''atoi'' (Atoi (reply_text (result ! 0)))) (\<lambda>failures.
        andThen (parsed ''atoi'' (Atoi (reply_text (result ! 1)))) (\<lambda>successes.
        andThen (parsed ''parse bool'' (ParseBool (reply_text (result ! 2)))) (\<lambda>blacklisted.
        andThen (parsed ''parse bool'' (ParseBool (reply_text (result ! 3)))) (\<lambda>newlyBlacklisted.
        andThen (parsed ''parse time'' (Parse_RFC3339Nano (reply_text (result ! 4)))) (\<lambda>updatedAt.
        ret (\<lparr>og_OrderID = orderID, og_Gateway = gateway, og_Failures = failures,
           og_Successes = successes, og_Blacklisted = blacklisted, og_UpdatedAt = updatedAt\<rparr>,
           newlyBlacklisted)))))))"

definition RedisBlacklist_RecordOutcome :: "'r Store \<Rightarrow> string \<Rightarrow> string \<Rightarrow> TransactionStatus \<Rightarrow> int
    \<Rightarrow> time \<Rightarrow> ('r, go_error, OrderGatewayAttemptSummary \<times> bool) proc" where
  "RedisBlacklist_RecordOutcome S orderID gateway status failureThreshold now =
     (if \<not> IsFinal status then throw (Sentinel ErrInvalidStatus)
      else
       (let threshold = (if failureThreshold \<le> 0 then 1 else failureThreshold) in
        andThen (rd_Run (st_client S)
          (recordOrderGatewayOutcomeScript (st_client S) (summaryKey S orderID gateway)
            (blacklistKey S orderID) orderID gateway (status_word status) threshold
            (Format_RFC3339Nano now)))
          (read_outcome orderID gateway)))"

definition RedisBlacklist :: "'r Store \<Rightarrow> 'r OrderGatewayBlacklistRepository" where
  "RedisBlacklist S = \<lparr>or_BlacklistedGateways = RedisBlacklist_BlacklistedGateways S,
     or_RecordOutcome = RedisBlacklist_RecordOutcome S\<rparr>"

section \<open>Calls\<close>

datatype bl_op = BlGateways string | BlRecord string string TransactionStatus int time

datatype bl_result = GatewaySet "string set" | Recorded OrderGatewayAttemptSummary bool

fun bl_call :: "'b OrderGatewayBlacklistRepository \<Rightarrow> bl_op \<Rightarrow> ('b, go_error, bl_result) proc" where
  "bl_call B (BlGateways o_id) = andThen (or_BlacklistedGateways B o_id) (\<lambda>gs. ret (GatewaySet gs))"
| "bl_call B (BlRecord o_id g st n now) =
     andThen (or_RecordOutcome B o_id g st n now) (\<lambda>(s, newly). ret (Recorded s newly))"

text \<open>The results of a sequence of calls; a call that fails does not end the sequence.\<close>

fun bl_calls :: "'b OrderGatewayBlacklistRepository \<Rightarrow> bl_op list \<Rightarrow> 'b \<Rightarrow> (go_error + bl_result) list" where
  "bl_calls B [] b = []"
| "bl_calls B (p # ps) b = (case bl_call B p b of (x, b') \<Rightarrow> x # bl_calls B ps b')"

fun plain_bl_op :: "bl_op \<Rightarrow> bool" where
  "plain_bl_op (BlGateways o_id) = plain_name o_id"
| "plain_bl_op (BlRecord o_id g st n now) \<longleftrightarrow> plain_name o_id \<and> plain_name g \<and>
     0 \<le> year_of now \<and> year_of now \<le> 9999"

text \<open>
  The key space holds what the memory repository holds, for plain names; no counter exceeds \<open>k\<close>.
\<close>

definition mirrors_blacklist :: "'r Store \<Rightarrow> int \<Rightarrow> keyspace \<Rightarrow> MemoryBlacklist \<Rightarrow> bool" where
  "mirrors_blacklist S k s b \<longleftrightarrow> (\<forall>o_id. plain_name o_id \<longrightarrow>
     is_set s (blacklistKey S o_id) \<and> set_at s (blacklistKey S o_id) = blacklisted_of b o_id \<and>
     (\<forall>g. plain_name g \<longrightarrow> is_hash s (summaryKey S o_id g) \<and>
       hash_number (hash_at s (summaryKey S o_id g)) ''failures'' = Some (failures_of b o_id g) \<and>
       hash_number (hash_at s (summaryKey S o_id g)) ''successes'' = Some (successes_of b o_id g) \<and>
       0 \<le> failures_of b o_id g \<and> failures_of b o_id g \<le> k \<and>
       0 \<le> successes_of b o_id g \<and> successes_of b o_id g \<le> k))"

lemma plain_words [simp]:
  "plain_name ''order''" "plain_name ''gateway''" "plain_name ''attempts''"
  "plain_name ''blacklisted_gateways''" "plain_name ''transaction''" "plain_name ''attempt''"
  "plain_name ''state''" "plain_name ''stats''"
  by (simp_all add: plain_name_def)

lemma blacklist_keys:
  assumes "plain_name o1" "plain_name o2" "plain_name g1" "plain_name g2"
  shows "summaryKey S o1 g1 = summaryKey S o2 g2 \<longleftrightarrow> o1 = o2 \<and> g1 = g2"
    "blacklistKey S o1 = blacklistKey S o2 \<longleftrightarrow> o1 = o2"
    "summaryKey S o1 g1 \<noteq> blacklistKey S o2" "blacklistKey S o2 \<noteq> summaryKey S o1 g1"
  using assms by (auto simp: summaryKey_def blacklistKey_def Key_inj)

section \<open>The script\<close>

lemma gives_hget_number:
  assumes "redis_server C db" "is_hash s k" "hash_number (hash_at s k) f = Some n"
  shows "gives db s (hget_number C k f) (Inr n) s"
proof -
  have zero: "Atoi ''0'' = Some 0" by code_simp
  have "Atoi (case hash_at s k f of None \<Rightarrow> ''0'' | Some v \<Rightarrow> v) = Some n"
    using assms(3) zero by (simp add: hash_number_def split: option.splits)
  with assms(1,2) show ?thesis
    unfolding hget_number_def
    by (intro gives_andThen [OF server_hashes(1)]) (simp_all add: gives_ret)
qed

lemma record_script:
  assumes server: "redis_server C db" and types: "is_hash s k1" "is_set s k2" "k1 \<noteq> k2"
    and counts: "hash_number (hash_at s k1) ''failures'' = Some f"
      "hash_number (hash_at s k1) ''successes'' = Some n"
    and final: "IsFinal st" and range: "in64 (f + 1)" "in64 (n + 1)"
    and S': "S' = (if st = TransactionStatusSuccess then set_at s k2 - {g}
        else if n = 0 \<and> f + 1 \<ge> threshold then insert g (set_at s k2) else set_at s k2)"
    and f': "f' = (if st = TransactionStatusFailure then f + 1 else f)"
    and n': "n' = (if st = TransactionStatusSuccess then n + 1 else n)"
  obtains s' where
    "gives db s (recordOrderGatewayOutcomeScript C k1 k2 o_id g (status_word st) threshold updated)
      (Inr [ReplyInt f', ReplyInt n', ReplyText (lua_bool (g \<in> S')),
        ReplyText (lua_bool (g \<in> S' \<and> g \<notin> set_at s k2)), ReplyText updated]) s'"
    "is_hash s' k1" "is_set s' k2" "set_at s' k2 = S'"
    "hash_number (hash_at s' k1) ''failures'' = Some f'"
    "hash_number (hash_at s' k1) ''successes'' = Some n'"
    "\<And>k. k \<noteq> k1 \<Longrightarrow> k \<noteq> k2 \<Longrightarrow> s' k = s k"
proof -
  define fields where "fields = [(''order_id'', o_id), (''gateway'', g),
    (''failures'', fmt_d f'), (''successes'', fmt_d n'),
    (''blacklisted'', lua_bool (g \<in> S')), (''updated_at'', updated)]"
  define s1 where "s1 = (if st = TransactionStatusSuccess then s(k2 := set_value S')
    else if n = 0 \<and> f + 1 \<ge> threshold then s(k2 \<mapsto> RSet S') else s)"
  define s' where "s' = s1(k1 \<mapsto> RHash (hash_at s1 k1 ++ map_of (rev fields)))"
  let ?branch = "if status_word st = ''success'' then
        andThen (rd_SRem C k2 g) (\<lambda>_. ret (f, n + 1, False))
      else if status_word st = ''failure'' then
        (if n = 0 \<and> f + 1 \<ge> threshold then andThen (rd_SAdd C k2 g) (\<lambda>_. ret (f + 1, n, True))
         else ret (f + 1, n, g \<in> set_at s k2))
      else ret (f, n, g \<in> set_at s k2)"
  have branch: "gives db s ?branch (Inr (f', n', g \<in> S')) s1"
    using final
  proof (cases rule: IsFinal_cases)
    case 1
    have "gives db s (andThen (rd_SRem C k2 g) (\<lambda>_. ret (f, n + 1, False))) (Inr (f, n + 1, False))
        (s(k2 := set_value (set_at s k2 - {g})))"
      by (rule gives_andThen_ret [OF server_sets(4) [OF server types(2)]])
    with 1 show ?thesis by (simp add: s1_def S' f' n' cong del: if_weak_cong)
  next
    case 2
    show ?thesis
    proof (cases "n = 0 \<and> f + 1 \<ge> threshold")
      case True
      have "gives db s (andThen (rd_SAdd C k2 g) (\<lambda>_. ret (f + 1, n, True))) (Inr (f + 1, n, True))
          (s(k2 \<mapsto> RSet (insert g (set_at s k2))))"
        by (rule gives_andThen_ret [OF server_sets(3) [OF server types(2)]])
      with 2 True show ?thesis by (simp add: s1_def S' f' n')
    next
      case False
      with 2 gives_ret show ?thesis by (auto simp: s1_def S' f' n')
    qed
  qed
  have hash1: "is_hash s1 k1" "hash_at s1 k1 = hash_at s k1" and set1: "is_set s1 k2" "set_at s1 k2 = S'"
    using types finite_set_at [OF types(2)] by (auto simp: s1_def S')
  have run: "gives db s (recordOrderGatewayOutcomeScript C k1 k2 o_id g (status_word st) threshold updated)
      (Inr [ReplyInt f', ReplyInt n', ReplyText (lua_bool (g \<in> S')),
        ReplyText (lua_bool (g \<in> S' \<and> g \<notin> set_at s k2)), ReplyText updated]) s'"
    unfolding recordOrderGatewayOutcomeScript_def s'_def
    by (rule gives_andThen [OF gives_hget_number [OF server types(1) counts(1)]]
        gives_andThen [OF gives_hget_number [OF server types(1) counts(2)]]
        gives_andThen [OF server_sets(2) [OF server types(2)]] gives_andThen [OF branch])+
      (use server_hashes(2) [OF server hash1(1), of fields] in
        \<open>auto simp: fields_def intro: gives_andThen gives_ret\<close>)
  have in64: "in64 f'" "in64 n'"
    using range counts f' n' by (auto simp: hash_number_def in64_def Atoi_def split: option.splits if_splits)
  show thesis
  proof (rule that [OF run])
    show "is_hash s' k1" "is_set s' k2" "set_at s' k2 = S'"
      using set1 types(3) by (simp_all add: s'_def)
    show "hash_number (hash_at s' k1) ''failures'' = Some f'"
      "hash_number (hash_at s' k1) ''successes'' = Some n'"
      using in64 by (simp_all add: s'_def fields_def hash_number_def map_add_def)
    show "s' k = s k" if "k \<noteq> k1" "k \<noteq> k2" for k
      using that by (simp add: s'_def s1_def)
  qed
qed

section \<open>The memory repository is the specification\<close>

lemma bl_simps [simp]:
  "or_BlacklistedGateways (RedisBlacklist S) = RedisBlacklist_BlacklistedGateways S"
  "or_RecordOutcome (RedisBlacklist S) = RedisBlacklist_RecordOutcome S"
  by (simp_all add: RedisBlacklist_def)

lemma mirrors_mono: "mirrors_blacklist S k s b \<Longrightarrow> k \<le> k' \<Longrightarrow> mirrors_blacklist S k' s b"
  unfolding mirrors_blacklist_def by (meson order_trans)

lemma ParseBool_lua [simp]: "ParseBool (lua_bool b) = Some b"
  by (simp add: ParseBool_def lua_bool_def)

lemma read_outcome_run:
  assumes "in64 f" "in64 n" "0 \<le> year_of now" "year_of now \<le> 9999"
  shows "read_outcome o_id g [ReplyInt f, ReplyInt n, ReplyText (lua_bool bl), ReplyText (lua_bool nw),
      ReplyText (Format_RFC3339Nano now)] =
    ret (\<lparr>og_OrderID = o_id, og_Gateway = g, og_Failures = f, og_Successes = n, og_Blacklisted = bl,
      og_UpdatedAt = now\<rparr>, nw)"
  using assms by (simp add: read_outcome_def reply_text_def parsed_def Parse_Format_RFC3339Nano del: ret_run)

text \<open>What one outcome does in memory.\<close>

lemma MemBlacklist_RecordOutcome_run:
  assumes "IsFinal st"
  obtains b' where "MemBlacklist_RecordOutcome o_id g st t now b =
      (Inr (\<lparr>og_OrderID = o_id, og_Gateway = g, og_Failures = failures_of b' o_id g, og_Successes = successes_of b' o_id g,
         og_Blacklisted = (g \<in> blacklisted_of b' o_id), og_UpdatedAt = now\<rparr>,
         g \<in> blacklisted_of b' o_id \<and> g \<notin> blacklisted_of b o_id), b')"
    "blacklisted_of b' o_id = (if st = TransactionStatusSuccess then blacklisted_of b o_id - {g}
       else if successes_of b o_id g = 0 \<and> failures_of b o_id g + 1 \<ge> (if t \<le> 0 then 1 else t) then insert g (blacklisted_of b o_id)
       else blacklisted_of b o_id)"
    "failures_of b' o_id g = (if st = TransactionStatusFailure then failures_of b o_id g + 1 else failures_of b o_id g)"
    "successes_of b' o_id g = (if st = TransactionStatusSuccess then successes_of b o_id g + 1 else successes_of b o_id g)"
    "\<And>o2 g2. o2 \<noteq> o_id \<or> g2 \<noteq> g \<Longrightarrow> failures_of b' o2 g2 = failures_of b o2 g2 \<and>
      successes_of b' o2 g2 = successes_of b o2 g2"
    "\<And>o2. o2 \<noteq> o_id \<Longrightarrow> blacklisted_of b' o2 = blacklisted_of b o2"
proof -
  define b' where "b' = snd (MemBlacklist_RecordOutcome o_id g st t now b)"
  show thesis
    by (rule that [of b']; use assms(1) in \<open>cases rule: IsFinal_cases\<close>)
      (auto simp: b'_def MemBlacklist_RecordOutcome_def Let_def abstraction_defs)
qed

lemma bl_record_step:
  assumes server: "redis_server (st_client S) db" and mirrors: "mirrors_blacklist S k s b"
    and plain: "plain_name o_id" "plain_name g" "0 \<le> year_of now" "year_of now \<le> 9999"
    and small: "k < 2 ^ 53" and final: "IsFinal st"
    and run: "MemBlacklist_RecordOutcome o_id g st t now b = (x, b')"
  shows "\<exists>s'. gives db s (RedisBlacklist_RecordOutcome S o_id g st t now) x s' \<and>
    mirrors_blacklist S (k + 1) s' b'"
proof -
  let ?k1 = "summaryKey S o_id g" and ?k2 = "blacklistKey S o_id"
  let ?t = "if t \<le> 0 then 1 else t"
  note m = mirrors [unfolded mirrors_blacklist_def, rule_format, OF plain(1)]
  have types: "is_hash s ?k1" "is_set s ?k2" "?k1 \<noteq> ?k2" and old: "set_at s ?k2 = blacklisted_of b o_id"
    and counts: "hash_number (hash_at s ?k1) ''failures'' = Some (failures_of b o_id g)"
      "hash_number (hash_at s ?k1) ''successes'' = Some (successes_of b o_id g)"
    and bounds: "0 \<le> failures_of b o_id g" "failures_of b o_id g \<le> k"
      "0 \<le> successes_of b o_id g" "successes_of b o_id g \<le> k"
    using m plain blacklist_keys(3) [OF plain(1,1,2,2)] by auto
  have range: "in64 (failures_of b o_id g + 1)" "in64 (successes_of b o_id g + 1)"
    using bounds small by (simp_all add: in64_def)
  obtain b'' where mem: "MemBlacklist_RecordOutcome o_id g st t now b =
      (Inr (\<lparr>og_OrderID = o_id, og_Gateway = g, og_Failures = failures_of b'' o_id g,
         og_Successes = successes_of b'' o_id g, og_Blacklisted = (g \<in> blacklisted_of b'' o_id),
         og_UpdatedAt = now\<rparr>, g \<in> blacklisted_of b'' o_id \<and> g \<notin> blacklisted_of b o_id), b'')"
    and S': "blacklisted_of b'' o_id = (if st = TransactionStatusSuccess
       then blacklisted_of b o_id - {g}
       else if successes_of b o_id g = 0 \<and> failures_of b o_id g + 1 \<ge> ?t
       then insert g (blacklisted_of b o_id) else blacklisted_of b o_id)"
    and f': "failures_of b'' o_id g = (if st = TransactionStatusFailure then failures_of b o_id g + 1
       else failures_of b o_id g)"
    and n': "successes_of b'' o_id g = (if st = TransactionStatusSuccess then successes_of b o_id g + 1
       else successes_of b o_id g)"
    and others: "\<And>o2 g2. o2 \<noteq> o_id \<or> g2 \<noteq> g \<Longrightarrow> failures_of b'' o2 g2 = failures_of b o2 g2 \<and>
      successes_of b'' o2 g2 = successes_of b o2 g2"
      "\<And>o2. o2 \<noteq> o_id \<Longrightarrow> blacklisted_of b'' o2 = blacklisted_of b o2"
    by (rule MemBlacklist_RecordOutcome_run [OF final, of o_id g t now b]) (rule that)
  obtain s' where script: "gives db s (recordOrderGatewayOutcomeScript (st_client S) ?k1 ?k2 o_id g
        (status_word st) ?t (Format_RFC3339Nano now))
      (Inr [ReplyInt (failures_of b'' o_id g), ReplyInt (successes_of b'' o_id g),
        ReplyText (lua_bool (g \<in> blacklisted_of b'' o_id)),
        ReplyText (lua_bool (g \<in> blacklisted_of b'' o_id \<and> g \<notin> set_at s ?k2)),
        ReplyText (Format_RFC3339Nano now)]) s'"
    and s': "is_hash s' ?k1" "is_set s' ?k2" "set_at s' ?k2 = blacklisted_of b'' o_id"
      "hash_number (hash_at s' ?k1) ''failures'' = Some (failures_of b'' o_id g)"
      "hash_number (hash_at s' ?k1) ''successes'' = Some (successes_of b'' o_id g)"
      "\<And>k. k \<noteq> ?k1 \<Longrightarrow> k \<noteq> ?k2 \<Longrightarrow> s' k = s k"
    by (rule record_script [OF server types counts final range S' [folded old] f' n']) (rule that)
  have in64: "in64 (failures_of b'' o_id g)" "in64 (successes_of b'' o_id g)"
    using f' n' bounds small by (auto simp: in64_def)
  have x: "x = Inr (\<lparr>og_OrderID = o_id, og_Gateway = g, og_Failures = failures_of b'' o_id g,
      og_Successes = successes_of b'' o_id g, og_Blacklisted = (g \<in> blacklisted_of b'' o_id),
      og_UpdatedAt = now\<rparr>, g \<in> blacklisted_of b'' o_id \<and> g \<notin> set_at s ?k2)"
    using run mem old by auto
  have "RedisBlacklist_RecordOutcome S o_id g st t now =
      andThen (rd_Run (st_client S) (recordOrderGatewayOutcomeScript (st_client S) ?k1 ?k2 o_id g
        (status_word st) ?t (Format_RFC3339Nano now))) (read_outcome o_id g)"
    using final by (simp add: RedisBlacklist_RecordOutcome_def Let_def)
  moreover have "gives db s \<dots> x s'"
    unfolding x by (rule gives_andThen [OF server_strings(8) [OF server script]])
      (simp only: read_outcome_run [OF in64 plain(3,4)] gives_ret)
  ultimately have "gives db s (RedisBlacklist_RecordOutcome S o_id g st t now) x s'" by simp
  moreover have "mirrors_blacklist S (k + 1) s' b'"
    unfolding mirrors_blacklist_def
  proof (intro allI impI)
    fix o2 assume o2: "plain_name o2"
    note m2 = mirrors [unfolded mirrors_blacklist_def, rule_format, OF o2]
    have b'': "b' = b''" using run mem by simp
    have set: "is_set s' (blacklistKey S o2) \<and> set_at s' (blacklistKey S o2) = blacklisted_of b' o2"
    proof (cases "o2 = o_id")
      case True
      with s'(2,3) b'' show ?thesis by simp
    next
      case False
      then have "s' (blacklistKey S o2) = s (blacklistKey S o2)"
        using s'(6) blacklist_keys [OF plain(1) o2 plain(2,2)] by metis
      then show ?thesis
        using False m2 others(2) [OF False] b'' at_cong [of s' "blacklistKey S o2" s] by simp
    qed
    moreover have "is_hash s' (summaryKey S o2 g2) \<and>
       hash_number (hash_at s' (summaryKey S o2 g2)) ''failures'' = Some (failures_of b' o2 g2) \<and>
       hash_number (hash_at s' (summaryKey S o2 g2)) ''successes'' = Some (successes_of b' o2 g2) \<and>
       0 \<le> failures_of b' o2 g2 \<and> failures_of b' o2 g2 \<le> k + 1 \<and>
       0 \<le> successes_of b' o2 g2 \<and> successes_of b' o2 g2 \<le> k + 1" if g2: "plain_name g2" for g2
    proof (cases "o2 = o_id \<and> g2 = g")
      case True
      with s'(1,4,5) b'' f' n' bounds show ?thesis by simp
    next
      case False
      then have "s' (summaryKey S o2 g2) = s (summaryKey S o2 g2)"
        using s'(6) blacklist_keys(1) [OF plain(1) o2 plain(2) g2]
          blacklist_keys(3) [OF o2 plain(1) g2 plain(2)] by metis
      moreover have "failures_of b'' o2 g2 = failures_of b o2 g2"
        "successes_of b'' o2 g2 = successes_of b o2 g2" using others(1) [of o2 g2] False by auto
      ultimately show ?thesis
        using m2 g2 b'' at_cong [of s' "summaryKey S o2 g2" s] by force
    qed
    ultimately show "is_set s' (blacklistKey S o2) \<and> set_at s' (blacklistKey S o2) = blacklisted_of b' o2 \<and>
      (\<forall>g2. plain_name g2 \<longrightarrow> is_hash s' (summaryKey S o2 g2) \<and>
       hash_number (hash_at s' (summaryKey S o2 g2)) ''failures'' = Some (failures_of b' o2 g2) \<and>
       hash_number (hash_at s' (summaryKey S o2 g2)) ''successes'' = Some (successes_of b' o2 g2) \<and>
       0 \<le> failures_of b' o2 g2 \<and> failures_of b' o2 g2 \<le> k + 1 \<and>
       0 \<le> successes_of b' o2 g2 \<and> successes_of b' o2 g2 \<le> k + 1)" by blast
  qed
  ultimately show ?thesis by blast
qed

lemma bl_step:
  assumes "redis_server (st_client S) db" "mirrors_blacklist S k s b" "plain_bl_op p" "k < 2 ^ 53"
    and run: "bl_call MemBlacklist p b = (x, b')"
  shows "\<exists>s'. gives db s (bl_call (RedisBlacklist S) p) x s' \<and> mirrors_blacklist S (k + 1) s' b'"
proof (cases p)
  case (BlGateways o_id)
  have "is_set s (blacklistKey S o_id)" "set_at s (blacklistKey S o_id) = blacklisted_of b o_id"
    using assms(2,3) BlGateways by (auto simp: mirrors_blacklist_def)
  from server_sets(1) [OF assms(1) this(1)] this(2)
  obtain xs where xs: "set xs = blacklisted_of b o_id"
    "gives db s (rd_SMembers (st_client S) (blacklistKey S o_id)) (Inr xs) s" by auto
  have "gives db s (bl_call (RedisBlacklist S) p) (Inr (GatewaySet (set xs))) s"
    unfolding BlGateways bl_call.simps bl_simps RedisBlacklist_BlacklistedGateways_def
    by (intro gives_andThen_ret xs(2))
  moreover have "x = Inr (GatewaySet (set xs))" "b' = b"
    using run xs(1) by (auto simp: BlGateways BlacklistedGateways_eq andThen_def)
  moreover have "mirrors_blacklist S (k + 1) s b" by (rule mirrors_mono [OF assms(2)]) simp
  ultimately show ?thesis by auto
next
  case (BlRecord o_id g st n now)
  show ?thesis
  proof (cases "IsFinal st")
    case False
    then have "gives db s (bl_call (RedisBlacklist S) p) (Inl (Sentinel ErrInvalidStatus)) s"
      unfolding BlRecord bl_call.simps bl_simps
      by (intro gives_andThen_error) (simp only: RedisBlacklist_RecordOutcome_def if_True gives_throw
          not_False_eq_True)
    moreover have "x = Inl (Sentinel ErrInvalidStatus)" "b' = b"
      using run False by (auto simp: BlRecord MemBlacklist_RecordOutcome_def andThen_def)
    moreover have "mirrors_blacklist S (k + 1) s b" by (rule mirrors_mono [OF assms(2)]) simp
    ultimately show ?thesis by auto
  next
    case True
    obtain y b'' where mem: "MemBlacklist_RecordOutcome o_id g st n now b = (y, b'')"
      by (cases "MemBlacklist_RecordOutcome o_id g st n now b")
    obtain su nw where y: "y = Inr (su, nw)"
      by (rule MemBlacklist_RecordOutcome_run [OF True, of o_id g n now b]) (use mem in auto)
    have "\<exists>s'. gives db s (RedisBlacklist_RecordOutcome S o_id g st n now) y s' \<and>
        mirrors_blacklist S (k + 1) s' b''"
      using bl_record_step [OF assms(1,2) _ _ _ _ assms(4) True mem] assms(3) BlRecord by simp
    then obtain s' where s': "gives db s (RedisBlacklist_RecordOutcome S o_id g st n now) y s'"
      "mirrors_blacklist S (k + 1) s' b''" by blast
    have "gives db s (bl_call (RedisBlacklist S) p) (Inr (Recorded su nw)) s'"
      unfolding BlRecord bl_call.simps bl_simps
      by (rule gives_andThen [OF s'(1) [unfolded y]]) (simp only: prod.case gives_ret)
    moreover have "x = Inr (Recorded su nw)" "b' = b''"
      using run mem y by (auto simp: BlRecord andThen_def)
    ultimately show ?thesis using s'(2) by auto
  qed
qed

lemma mirrors_empty: "mirrors_blacklist S 0 Map.empty MemBlacklist_New"
  by (simp add: mirrors_blacklist_def is_set_def is_hash_def set_at_def hash_at_def hash_number_def
      abstraction_defs summary_of_def byGateway_def MemBlacklist_New_def zero_summary_def)

lemma bl_calls_agree:
  assumes "redis_server (st_client S) db" "mirrors_blacklist S k s b" "\<forall>p \<in> set ps. plain_bl_op p"
    and "k + int (length ps) \<le> 2 ^ 53" "db r = s"
  shows "bl_calls (RedisBlacklist S) ps r = bl_calls MemBlacklist ps b"
  using assms
proof (induction ps arbitrary: k s b r)
  case (Cons p ps)
  obtain x b' where mem: "bl_call MemBlacklist p b = (x, b')" by (cases "bl_call MemBlacklist p b")
  have "plain_bl_op p" "k < 2 ^ 53" using Cons.prems(3,4) by auto
  from bl_step [OF Cons.prems(1,2) this mem]
  obtain s' where s': "gives db s (bl_call (RedisBlacklist S) p) x s'" "mirrors_blacklist S (k + 1) s' b'"
    by blast
  from gives_run [OF s'(1) Cons.prems(5)]
  obtain r' where r': "bl_call (RedisBlacklist S) p r = (x, r')" "db r' = s'" by blast
  have "bl_calls (RedisBlacklist S) ps r' = bl_calls MemBlacklist ps b'"
    by (rule Cons.IH [OF Cons.prems(1) s'(2) _ _ r'(2)]) (use Cons.prems(3,4) in auto)
  then show ?case using mem r' by simp
qed simp

text \<open>
  C21: over a Redis server that starts empty, every sequence of at most 2^53 calls of the blacklist repository,
  with names of orders and gateways that are not empty and have no colon and with times whose years have
  four digits, gives exactly the results the memory repository gives: summaries, blacklists and errors.
\<close>
theorem redis_blacklist_agrees:
  assumes "redis_server (st_client S) db" "db r = Map.empty"
    and "\<forall>p \<in> set ps. plain_bl_op p" "int (length ps) \<le> 2 ^ 53"
  shows "bl_calls (RedisBlacklist S) ps r = bl_calls MemBlacklist ps MemBlacklist_New"
  using bl_calls_agree [OF assms(1) mirrors_empty assms(3) _ assms(2)] assms(4) by simp

definition example_store :: "keyspace Store" where
  "example_store = NewStore (\<lambda>_. key_server) \<lparr>op_Addr = '''', op_Password = '''', op_DB = 0,
     op_KeyPrefix = ''pgr:'', op_PoolSize = 0\<rparr>"

theorem redis_blacklist_agrees_witness:
  "bl_calls (RedisBlacklist example_store)
     [BlRecord ''o1'' ''payu'' TransactionStatusFailure 2 5, BlRecord ''o1'' ''payu'' TransactionStatusFailure 2 6,
      BlGateways ''o1'', BlRecord ''o1'' ''payu'' TransactionStatusPending 2 7] Map.empty =
   [Inr (Recorded \<lparr>og_OrderID = ''o1'', og_Gateway = ''payu'', og_Failures = 1, og_Successes = 0,
       og_Blacklisted = False, og_UpdatedAt = 5\<rparr> False),
    Inr (Recorded \<lparr>og_OrderID = ''o1'', og_Gateway = ''payu'', og_Failures = 2, og_Successes = 0,
       og_Blacklisted = True, og_UpdatedAt = 6\<rparr> True),
    Inr (GatewaySet {''payu''}), Inl (Sentinel ErrInvalidStatus)]"
proof -
  let ?ps = "[BlRecord ''o1'' ''payu'' TransactionStatusFailure 2 5,
      BlRecord ''o1'' ''payu'' TransactionStatusFailure 2 6,
      BlGateways ''o1'', BlRecord ''o1'' ''payu'' TransactionStatusPending 2 7]"
  have server: "redis_server (st_client example_store) (\<lambda>s. s)"
    using key_server_works by (simp add: example_store_def NewStore_def Let_def)
  have "bl_calls (RedisBlacklist example_store) ?ps Map.empty = bl_calls MemBlacklist ?ps MemBlacklist_New"
    by (rule redis_blacklist_agrees [OF server]) (simp_all add: plain_name_def year_of_range)
  also have "\<dots> = [Inr (Recorded \<lparr>og_OrderID = ''o1'', og_Gateway = ''payu'', og_Failures = 1, og_Successes = 0,
       og_Blacklisted = False, og_UpdatedAt = 5\<rparr> False),
    Inr (Recorded \<lparr>og_OrderID = ''o1'', og_Gateway = ''payu'', og_Failures = 2, og_Successes = 0,
       og_Blacklisted = True, og_UpdatedAt = 6\<rparr> True),
    Inr (GatewaySet {''payu''}), Inl (Sentinel ErrInvalidStatus)]"
    by (simp add: andThen_def MemBlacklist_RecordOutcome_def MemBlacklist_BlacklistedGateways_def Let_def
        summary_of_def byGateway_def MemBlacklist_New_def zero_summary_def)
  finally show ?thesis .
qed

text \<open>
  Colons at the ends of an identifier are cut off, so orders that differ in them only share their
  counters and their blacklist.
\<close>

lemma orders_share_keys:
  assumes "strings_Trim p (CHR '':'') = strings_Trim q (CHR '':'')"
  shows "summaryKey S p g = summaryKey S q g" "blacklistKey S p = blacklistKey S q"
  using assms by (simp_all add: summaryKey_def blacklistKey_def Key_def)

lemma colon_order_shared:
  "blacklistKey S ''o1:'' = blacklistKey S ''o1''" "summaryKey S ''o1:'' g = summaryKey S ''o1'' g"
  by (rule orders_share_keys, simp add: strings_Trim_def)+

end
