(* ===== verification/RedisTransactions.thy ===== *)
theory RedisTransactions
  imports RedisDocs RedisBlacklist MemoryTransactions
begin

text \<open>
  \<open>internal/adapters/repository/redis/transaction_repository.go\<close>: a transaction is a JSON document
  under its key, an attempt counter is a number under the key of its order, and a script completes a
  transaction. The document \<open>cjson.encode\<close> writes for a table is the parameter \<open>enc\<close>.
\<close>

section \<open>Lua tables\<close>

text \<open>
  A table that \<open>cjson.decode\<close> makes of a document is kept as the document, where a later member
  replaces an earlier one of the same name. Indexing a string or an array by a name gives nil,
  indexing anything else than a table or a string is an error.
\<close>

definition lua_table :: "(string \<times> json) list \<Rightarrow> (string \<times> json) list" where
  "lua_table ms = fold (\<lambda>(k, j). map_put k j) ms []"

definition cjson_decode :: "json \<Rightarrow> json" where
  "cjson_decode j = (case j of JObject ms \<Rightarrow> JObject (lua_table ms) | _ \<Rightarrow> j)"

definition lua_index :: "json \<Rightarrow> string \<Rightarrow> go_error + json option" where
  "lua_index j name = (case j of
     JObject ms \<Rightarrow> Inr (map_of ms name)
   | JArray _ \<Rightarrow> Inr None
   | JString _ \<Rightarrow> Inr None
   | _ \<Rightarrow> Inl script_error)"

definition lua_set :: "string \<Rightarrow> json \<Rightarrow> json \<Rightarrow> go_error + json" where
  "lua_set name v j = (case j of JObject ms \<Rightarrow> Inr (JObject (map_put name v ms)) | _ \<Rightarrow> Inl script_error)"

definition lift :: "go_error + 'a \<Rightarrow> ('r, go_error, 'a) proc" where
  "lift x = (case x of Inl e \<Rightarrow> throw e | Inr y \<Rightarrow> ret y)"

lemma map_put_fresh: "k \<notin> fst ` set m \<Longrightarrow> map_put k v m = m @ [(k, v)]"
  by (induction k v m rule: map_put.induct) auto

lemma lua_table_distinct [simp]: "distinct (map fst ms) \<Longrightarrow> lua_table ms = ms"
proof (induction ms rule: rev_induct)
  case (snoc m ms)
  then show ?case by (cases m) (auto simp: lua_table_def map_put_fresh)
qed (simp add: lua_table_def)

section \<open>The repository\<close>

definition completeTransactionScript :: "'r Redis \<Rightarrow> (json \<Rightarrow> json) \<Rightarrow> string \<Rightarrow> string \<Rightarrow> string \<Rightarrow> string
    \<Rightarrow> ('r, go_error, reply list) proc" where
  "completeTransactionScript C enc key status reason completed =
     andThen (rd_Get C key) (\<lambda>raw.
     case raw of
       None \<Rightarrow> ret [ReplyText ''not_found'']
     | Some raw \<Rightarrow>
        andThen (lift (lua_index (cjson_decode raw) ''status'')) (\<lambda>current.
        if current = Some (JString ''success'') \<or> current = Some (JString ''failure'') then
          (if current = Some (JString status) then ret [ReplyText ''idempotent'', ReplyDoc raw]
           else ret [ReplyText ''conflict'', ReplyText
             (case current of Some (JString s) \<Rightarrow> s | _ \<Rightarrow> '''')])
        else
          andThen (lift (lua_set ''status'' (JString status) (cjson_decode raw))) (\<lambda>t1.
          andThen (lift (lua_set ''failure_reason'' (JString reason) t1)) (\<lambda>t2.
          andThen (lift (lua_set ''updated_at'' (JString completed) t2)) (\<lambda>t3.
          andThen (lift (lua_set ''completed_at'' (JString completed) t3)) (\<lambda>txn.
          andThen (rd_Set C key (enc txn)) (\<lambda>_.
          ret [ReplyText ''changed'', ReplyDoc (enc txn)])))))))"

definition attemptKey :: "'r Store \<Rightarrow> string \<Rightarrow> string" where
  "attemptKey S orderID = Key S [''order'', orderID, ''attempt'']"

definition transactionKey :: "'r Store \<Rightarrow> string \<Rightarrow> string" where
  "transactionKey S transactionID = Key S [''transaction'', transactionID]"

definition RedisTx_NextAttempt :: "'r Store \<Rightarrow> string \<Rightarrow> ('r, go_error, int) proc" where
  "RedisTx_NextAttempt S orderID = rd_Incr (st_client S) (attemptKey S orderID)"

definition RedisTx_Save :: "'r Store \<Rightarrow> Transaction \<Rightarrow> ('r, go_error, unit) proc" where
  "RedisTx_Save S transaction =
     (case json_Marshal_Transaction transaction of
        None \<Rightarrow> throw doc_error
      | Some payload \<Rightarrow>
          andThen (rd_SetNX (st_client S) (transactionKey S (tx_ID transaction)) payload) (\<lambda>created.
          if \<not> created then
            throw (Wrapf ErrConflict ''%w: transaction %q already exists'' [tx_ID transaction])
          else ret ()))"

definition RedisTx_get :: "'r Store \<Rightarrow> string \<Rightarrow> ('r, go_error, Transaction) proc" where
  "RedisTx_get S key =
     andThen (rd_Get (st_client S) key) (\<lambda>payload.
     case payload of
       None \<Rightarrow> throw (Wrapf ErrNotFound ''%w: transaction %q'' [key])
     | Some payload \<Rightarrow> lift (decodeTransaction payload))"

definition RedisTx_GetByID :: "'r Store \<Rightarrow> string \<Rightarrow> ('r, go_error, Transaction) proc" where
  "RedisTx_GetByID S transactionID = RedisTx_get S (transactionKey S transactionID)"

text \<open>The part of \<open>Complete\<close> that reads the result of the script.\<close>

definition decode_reply :: "reply \<Rightarrow> (json \<Rightarrow> go_error + 'a) \<Rightarrow> go_error + 'a" where
  "decode_reply x dec = (case x of ReplyDoc j \<Rightarrow> dec j | _ \<Rightarrow> Inl doc_error)"

definition read_completion :: "string \<Rightarrow> reply list \<Rightarrow> ('r, go_error, Transaction \<times> bool) proc" where
  "read_completion transactionID result =
     (if length result < 1 then
        throw (Errorf ''unexpected redis complete response: %v'' (map reply_text result))
      else
       (let code = reply_text (result ! 0) in
        if code = ''not_found'' then
          throw (Wrapf ErrNotFound ''%w: transaction %q'' [transactionID])
        else if code = ''conflict'' then
          throw (Wrapf ErrConflict ''%w: transaction %q already completed as %q''
            [transactionID, if length result > 1 then reply_text (result ! 1) else ''unknown''])
        else if code = ''changed'' \<or> code = ''idempotent'' then
          (if length result < 2 then
             throw (Errorf ''missing transaction payload for redis complete response: %v''
               (map reply_text result))
           else
             andThen (lift (decode_reply (result ! 1) decodeTransaction)) (\<lambda>transaction.
             ret (transaction, code = ''changed'')))
        else throw (Errorf ''unexpected redis complete code %q'' [code])))"

definition RedisTx_Complete :: "'r Store \<Rightarrow> (json \<Rightarrow> json) \<Rightarrow> string \<Rightarrow> TransactionStatus \<Rightarrow> string \<Rightarrow> time
    \<Rightarrow> ('r, go_error, Transaction \<times> bool) proc" where
  "RedisTx_Complete S enc transactionID status reason completedAt =
     (if \<not> IsFinal status then throw (Sentinel ErrInvalidStatus)
      else
        andThen (rd_Run (st_client S)
          (completeTransactionScript (st_client S) enc (transactionKey S transactionID)
            (status_word status) reason (Format_RFC3339Nano completedAt)))
          (read_completion transactionID))"

definition RedisTx :: "'r Store \<Rightarrow> (json \<Rightarrow> json) \<Rightarrow> 'r TransactionRepository" where
  "RedisTx S enc = \<lparr>tr_NextAttempt = RedisTx_NextAttempt S, tr_Save = RedisTx_Save S,
     tr_GetByID = RedisTx_GetByID S, tr_Complete = RedisTx_Complete S enc\<rparr>"

section \<open>Calls\<close>

datatype tx_result = Attempt int | Saved | Found Transaction | Completed Transaction bool

fun tx_call :: "'t TransactionRepository \<Rightarrow> tx_op \<Rightarrow> ('t, go_error, tx_result) proc" where
  "tx_call T (OpNextAttempt o_id) = andThen (tr_NextAttempt T o_id) (\<lambda>n. ret (Attempt n))"
| "tx_call T (OpSave x) = andThen (tr_Save T x) (\<lambda>_. ret Saved)"
| "tx_call T (OpGetByID i) = andThen (tr_GetByID T i) (\<lambda>x. ret (Found x))"
| "tx_call T (OpComplete i st reason now) =
     andThen (tr_Complete T i st reason now) (\<lambda>(x, changed). ret (Completed x changed))"

text \<open>
  What a caller sees of a result, leaving out the amount and the payment instrument, which
  \<open>cjson\<close> may round, and the name in a not-found error, where \<open>GetByID\<close> over Redis gives the key.
\<close>

fun seen :: "go_error + tx_result \<Rightarrow> go_error + tx_result" where
  "seen (Inl (Wrapf s f args)) = Inl (Wrapf s f (if s = ErrNotFound then [] else args))"
| "seen (Inl e) = Inl e"
| "seen (Inr (Found x)) = Inr (Found (core x))"
| "seen (Inr (Completed x changed)) = Inr (Completed (core x) changed)"
| "seen (Inr y) = Inr y"

fun tx_calls :: "'t TransactionRepository \<Rightarrow> tx_op list \<Rightarrow> 't \<Rightarrow> (go_error + tx_result) list" where
  "tx_calls T [] t = []"
| "tx_calls T (p # ps) t = (case tx_call T p t of (x, t') \<Rightarrow> seen x # tx_calls T ps t')"

text \<open>
  A transaction that can be written: \<open>json.Marshal\<close> succeeds (finite numbers, years of four digits),
  its numbers are in range, its status is one of the constants if it is spelled like one, and its
  attempt number has at most 14 digits.
\<close>

definition storable :: "Transaction \<Rightarrow> bool" where
  "storable x \<longleftrightarrow> plain_name (tx_ID x) \<and>
     (case json_Marshal_Transaction x of None \<Rightarrow> False | Some j \<Rightarrow> regular j) \<and>
     \<bar>tx_AttemptNo x\<bar> < 10 ^ 14 \<and> status_of_word (status_word (tx_Status x)) = tx_Status x"

fun plain_tx_op :: "tx_op \<Rightarrow> bool" where
  "plain_tx_op (OpNextAttempt o_id) = plain_name o_id"
| "plain_tx_op (OpSave x) = storable x"
| "plain_tx_op (OpGetByID i) = plain_name i"
| "plain_tx_op (OpComplete i st reason now) \<longleftrightarrow> plain_name i \<and> 0 \<le> year_of now \<and> year_of now \<le> 9999"

definition holds_tx :: "redis_value option \<Rightarrow> Transaction option \<Rightarrow> bool" where
  "holds_tx v x \<longleftrightarrow> (case x of
     None \<Rightarrow> v = None
   | Some x \<Rightarrow> (\<exists>ms. v = Some (RDoc (JObject ms)) \<and> tx_doc ms x \<and> \<bar>tx_AttemptNo x\<bar> < 10 ^ 14))"

definition mirrors_txns :: "'r Store \<Rightarrow> int \<Rightarrow> keyspace \<Rightarrow> MemoryTransactions \<Rightarrow> bool" where
  "mirrors_txns S k s t \<longleftrightarrow>
     (\<forall>i. plain_name i \<longrightarrow> holds_tx (s (transactionKey S i)) (mt_transactions t i)) \<and>
     (\<forall>o_id. plain_name o_id \<longrightarrow> s (attemptKey S o_id) = map_option RInt (mt_attempts t o_id) \<and>
        0 \<le> MemTx_attempts t o_id \<and> MemTx_attempts t o_id \<le> k)"

lemma transaction_keys_differ:
  assumes "plain_name i" "plain_name j"
  shows "transactionKey S i = transactionKey S j \<longleftrightarrow> i = j" "attemptKey S i = attemptKey S j \<longleftrightarrow> i = j"
    "transactionKey S i \<noteq> attemptKey S j" "attemptKey S j \<noteq> transactionKey S i"
  using assms by (auto simp: transactionKey_def attemptKey_def Key_inj)

lemma mirrors_txns_mono: "mirrors_txns S k s t \<Longrightarrow> k \<le> k' \<Longrightarrow> mirrors_txns S k' s t"
  unfolding mirrors_txns_def by (meson order_trans)

lemma mirrors_txns_put:
  assumes "mirrors_txns S k s t" "plain_name i" "holds_tx v (Some x)"
  shows "mirrors_txns S k (s(transactionKey S i := v)) (t\<lparr>mt_transactions := (mt_transactions t)(i \<mapsto> x)\<rparr>)"
  using assms by (simp add: mirrors_txns_def transaction_keys_differ MemTx_attempts_def)

lemma mirrors_txns_count:
  assumes "mirrors_txns S k s t" "plain_name i" "n = MemTx_attempts t i + 1"
  shows "mirrors_txns S (k + 1) (s(attemptKey S i \<mapsto> RInt n)) (t\<lparr>mt_attempts := (mt_attempts t)(i \<mapsto> n)\<rparr>)"
  using assms by (fastforce simp: mirrors_txns_def transaction_keys_differ MemTx_attempts_def)

lemma mirrors_txns_empty: "mirrors_txns S 0 Map.empty MemTx_New"
  by (simp add: mirrors_txns_def holds_tx_def MemTx_New_def MemTx_attempts_def)

lemma lift_simps [simp]: "lift (Inr x) = ret x" "lift (Inl e) = throw e"
  by (simp_all add: lift_def)

section \<open>Each call\<close>

lemma next_attempt_step:
  assumes "redis_server (st_client S) db" "mirrors_txns S k s t" "plain_name i" "k < 2 ^ 53"
  shows "gives db s (RedisTx_NextAttempt S i) (Inr (MemTx_attempts t i + 1))
    (s(attemptKey S i \<mapsto> RInt (MemTx_attempts t i + 1)))"
proof -
  have at: "s (attemptKey S i) = map_option RInt (mt_attempts t i)"
    "0 \<le> MemTx_attempts t i" "MemTx_attempts t i \<le> k"
    using assms(2,3) by (auto simp: mirrors_txns_def)
  show ?thesis
  proof (cases "mt_attempts t i")
    case None
    with at server_strings(6) [OF assms(1), of s "attemptKey S i"] show ?thesis
      by (simp add: RedisTx_NextAttempt_def MemTx_attempts_def)
  next
    case (Some n)
    with at assms(4) server_strings(7) [OF assms(1), of s "attemptKey S i" n] show ?thesis
      by (simp add: RedisTx_NextAttempt_def MemTx_attempts_def in64_def)
  qed
qed

lemma storableD:
  assumes "storable x"
  obtains ms where "json_Marshal_Transaction x = Some (JObject ms)" "tx_doc ms x"
    "holds_tx (Some (RDoc (JObject ms))) (Some x)" "plain_name (tx_ID x)"
proof -
  obtain j where j: "json_Marshal_Transaction x = Some j" "regular j" "\<bar>tx_AttemptNo x\<bar> < 10 ^ 14"
    "status_of_word (status_word (tx_Status x)) = tx_Status x" "plain_name (tx_ID x)"
    using assms by (auto simp: storable_def split: option.splits)
  have "in64 (tx_AttemptNo x)" using j(3) unfolding in64_def abs_less_iff by simp
  from Marshal_tx_doc [OF j(1,2) this j(4)] obtain ms where "j = JObject ms" "tx_doc ms x" by blast
  with j that show thesis by (simp add: holds_tx_def)
qed

lemma save_step:
  assumes "redis_server (st_client S) db" "mirrors_txns S k s t" "storable x"
    and run: "MemTx_Save x t = (y, t')"
  shows "\<exists>s'. gives db s (RedisTx_Save S x) y s' \<and> mirrors_txns S k s' t'"
proof -
  obtain ms where ms: "json_Marshal_Transaction x = Some (JObject ms)" "tx_doc ms x"
    "holds_tx (Some (RDoc (JObject ms))) (Some x)" "plain_name (tx_ID x)"
    by (rule storableD [OF assms(3)])
  let ?k = "transactionKey S (tx_ID x)"
  have held: "holds_tx (s ?k) (mt_transactions t (tx_ID x))"
    using assms(2) ms(4) by (simp add: mirrors_txns_def)
  show ?thesis
  proof (cases "mt_transactions t (tx_ID x)")
    case None
    with held have "s ?k = None" by (simp add: holds_tx_def)
    have "gives db s (RedisTx_Save S x) (Inr ()) (s(?k \<mapsto> RDoc (JObject ms)))"
      unfolding RedisTx_Save_def ms(1) option.case
      by (rule gives_andThen [OF server_strings(4) [where s = s, OF assms(1) \<open>s ?k = None\<close>]])
        (simp only: not_True_eq_False if_False gives_ret)
    moreover have "mirrors_txns S k (s(?k \<mapsto> RDoc (JObject ms))) t'" "y = Inr ()"
      using run None mirrors_txns_put [OF assms(2) ms(4,3)] by (auto simp: MemTx_Save_def)
    ultimately show ?thesis by blast
  next
    case (Some z)
    with held have "s ?k \<noteq> None" by (auto simp: holds_tx_def)
    have "gives db s (RedisTx_Save S x)
        (Inl (Wrapf ErrConflict ''%w: transaction %q already exists'' [tx_ID x])) s"
      unfolding RedisTx_Save_def ms(1) option.case
      by (rule gives_andThen [OF server_strings(5) [where s = s, OF assms(1) \<open>s ?k \<noteq> None\<close>]])
        (simp only: not_False_eq_True if_True gives_throw)
    with assms(2) run Some show ?thesis by (auto simp: MemTx_Save_def)
  qed
qed

lemma get_step:
  assumes "redis_server (st_client S) db" "mirrors_txns S k s t" "plain_name i"
    and run: "MemTx_GetByID i t = (y, t')"
  shows "t' = t \<and> (case y of
      Inl e \<Rightarrow> gives db s (RedisTx_GetByID S i)
        (Inl (Wrapf ErrNotFound ''%w: transaction %q'' [transactionKey S i])) s
    | Inr x \<Rightarrow> \<exists>x'. core x' = core x \<and> gives db s (RedisTx_GetByID S i) (Inr x') s)"
proof -
  let ?k = "transactionKey S i"
  have held: "holds_tx (s ?k) (mt_transactions t i)" using assms(2,3) by (simp add: mirrors_txns_def)
  show ?thesis
  proof (cases "mt_transactions t i")
    case None
    with held have "s ?k = None" by (simp add: holds_tx_def)
    have "gives db s (RedisTx_GetByID S i) (Inl (Wrapf ErrNotFound ''%w: transaction %q'' [?k])) s"
      unfolding RedisTx_GetByID_def RedisTx_get_def
      by (rule gives_andThen [OF server_strings(1) [where s = s, OF assms(1) \<open>s ?k = None\<close>]])
        (simp only: option.case gives_throw)
    with run None show ?thesis by (auto simp: MemTx_GetByID_def)
  next
    case (Some x)
    with held obtain ms where ms: "s ?k = Some (RDoc (JObject ms))" "tx_doc ms x"
      by (auto simp: holds_tx_def)
    from tx_doc_decodes [OF ms(2)] obtain x' where x': "decodeTransaction (JObject ms) = Inr x'"
      "core x' = core x" by blast
    have "gives db s (RedisTx_GetByID S i) (Inr x') s"
      unfolding RedisTx_GetByID_def RedisTx_get_def
      by (rule gives_andThen [OF server_strings(2) [where s = s, OF assms(1) ms(1)]])
        (simp only: option.case x'(1) lift_simps gives_ret)
    with run Some x'(2) show ?thesis by (auto simp: MemTx_GetByID_def)
  qed
qed

text \<open>What the script finds and does, by the transaction that is there.\<close>

definition completed :: "Transaction \<Rightarrow> TransactionStatus \<Rightarrow> string \<Rightarrow> time \<Rightarrow> Transaction" where
  "completed x st reason now = x\<lparr>tx_Status := st, tx_FailureReason := reason, tx_UpdatedAt := now,
     tx_CompletedAt := Some now\<rparr>"

lemma script_final:
  assumes server: "redis_server C db" and doc: "s k = Some (RDoc (JObject ms))" "tx_doc ms x"
    and "IsFinal (tx_Status x)" "IsFinal st"
  shows "gives db s (completeTransactionScript C enc k (status_word st) reason c)
    (Inr (if tx_Status x = st then [ReplyText ''idempotent'', ReplyDoc (JObject ms)]
       else [ReplyText ''conflict'', ReplyText (status_word (tx_Status x))])) s"
proof -
  note D = tx_docD [OF doc(2)]
  have index: "lua_index (cjson_decode (JObject ms)) ''status'' = Inr (Some (JString (status_word (tx_Status x))))"
    using D(7,13) by (simp add: lua_index_def cjson_decode_def)
  show ?thesis
    unfolding completeTransactionScript_def
    by (rule gives_andThen [OF server_strings(2) [where s = s, OF server doc(1)]])
      (unfold option.case index lift_simps andThen_ret andThen_throw,
       rule IsFinal_cases [OF assms(4)]; rule IsFinal_cases [OF assms(5)]; simp add: gives_ret del: ret_run)
qed

lemma script_pending:
  assumes server: "redis_server C db" and enc: "cjson_encoder enc"
    and doc: "s k = Some (RDoc (JObject ms))" "tx_doc ms x" "\<bar>tx_AttemptNo x\<bar> < 10 ^ 14"
    and st: "\<not> IsFinal (tx_Status x)" "IsFinal st" and c: "Parse_RFC3339Nano c = Some now"
  obtains ms' where "gives db s (completeTransactionScript C enc k (status_word st) reason c)
      (Inr [ReplyText ''changed'', ReplyDoc (JObject ms')]) (s(k \<mapsto> RDoc (JObject ms')))"
    "tx_doc ms' (completed x st reason now)"
proof -
  note D = tx_docD [OF doc(2)]
  let ?put = "map_put ''completed_at'' (JString c) (map_put ''updated_at'' (JString c)
      (map_put ''failure_reason'' (JString reason) (map_put ''status'' (JString (status_word st)) ms)))"
  have decode: "cjson_decode (JObject ms) = JObject ms" using D(13) by (simp add: cjson_decode_def)
  have index: "lua_index (JObject ms) ''status'' = Inr (Some (JString (status_word (tx_Status x))))"
    using D(7) by (simp add: lua_index_def)
  have word: "status_word (tx_Status x) \<noteq> ''success''" "status_word (tx_Status x) \<noteq> ''failure''"
    using st(1) D(8) by (auto simp: IsFinal_def status_of_word_def)
  have "status_of_word (status_word st) = st" using st(2) by (auto simp: status_of_word_def elim: IsFinal_cases)
  from tx_doc_complete [OF doc(2) c this, of reason]
  have "tx_doc ?put (completed x st reason now)" by (simp add: completed_def)
  from tx_doc_enc [OF enc this] doc(3) obtain ms' where ms': "enc (JObject ?put) = JObject ms'"
    "tx_doc ms' (completed x st reason now)" by (auto simp: completed_def)
  have set: "lua_set n v (JObject l) = Inr (JObject (map_put n v l))" for n v l by (simp add: lua_set_def)
  have "gives db s (completeTransactionScript C enc k (status_word st) reason c)
      (Inr [ReplyText ''changed'', ReplyDoc (JObject ms')]) (s(k \<mapsto> RDoc (JObject ms')))"
    unfolding completeTransactionScript_def
    by (rule gives_andThen [OF server_strings(2) [where s = s, OF server doc(1)]])
      (simp add: decode index word andThen_ret andThen_throw set ms'(1) del: ret_run, rule gives_andThen_ret,
       rule server_strings(3) [OF server])
  with ms'(2) that show thesis by blast
qed

lemma read_completion_simps:
  "read_completion i [ReplyText ''not_found''] = throw (Wrapf ErrNotFound ''%w: transaction %q'' [i])"
  "read_completion i [ReplyText ''conflict'', ReplyText w] =
     throw (Wrapf ErrConflict ''%w: transaction %q already completed as %q'' [i, w])"
  "decodeTransaction j = Inr x \<Longrightarrow> read_completion i [ReplyText ''changed'', ReplyDoc j] = ret (x, True)"
  "decodeTransaction j = Inr x \<Longrightarrow> read_completion i [ReplyText ''idempotent'', ReplyDoc j] = ret (x, False)"
  by (simp_all add: read_completion_def reply_text_def decode_reply_def andThen_ret andThen_throw del: ret_run)

lemma complete_step:
  assumes server: "redis_server (st_client S) db" and enc: "cjson_encoder enc"
    and mirrors: "mirrors_txns S k s t" and plain: "plain_name i" "0 \<le> year_of now" "year_of now \<le> 9999"
    and run: "MemTx_Complete i st reason now t = (y, t')"
  shows "\<exists>s' y'. gives db s (RedisTx_Complete S enc i st reason now) y' s' \<and> mirrors_txns S k s' t' \<and>
    map_sum id (map_prod core id) y' = map_sum id (map_prod core id) y"
proof (cases "IsFinal st")
  case False
  have "gives db s (RedisTx_Complete S enc i st reason now) (Inl (Sentinel ErrInvalidStatus)) s"
    using False by (simp only: RedisTx_Complete_def not_False_eq_True if_True gives_throw)
  with False run mirrors show ?thesis by (auto simp: MemTx_Complete_def)
next
  case True
  let ?k = "transactionKey S i" and ?c = "Format_RFC3339Nano now"
  let ?script = "completeTransactionScript (st_client S) enc ?k (status_word st) reason ?c"
  have complete: "RedisTx_Complete S enc i st reason now =
      andThen (rd_Run (st_client S) ?script) (read_completion i)"
    using True by (simp add: RedisTx_Complete_def)
  have gives: "gives db s (RedisTx_Complete S enc i st reason now) y' s'"
    if "gives db s ?script (Inr reply) s'" "gives db s' (read_completion i reply) y' s'" for y' reply s'
    unfolding complete by (rule gives_andThen [OF server_strings(8) [OF server that(1)]]) (rule that(2))
  have held: "holds_tx (s ?k) (mt_transactions t i)" using mirrors plain(1) by (simp add: mirrors_txns_def)
  show ?thesis
  proof (cases "mt_transactions t i")
    case None
    with held have "s ?k = None" by (simp add: holds_tx_def)
    have "gives db s ?script (Inr [ReplyText ''not_found'']) s"
      unfolding completeTransactionScript_def
      by (rule gives_andThen [OF server_strings(1) [where s = s, OF server \<open>s ?k = None\<close>]])
        (simp only: option.case gives_ret)
    from gives [OF this] have "gives db s (RedisTx_Complete S enc i st reason now)
        (Inl (Wrapf ErrNotFound ''%w: transaction %q'' [i])) s"
      by (simp only: read_completion_simps gives_throw)
    with mirrors run True None show ?thesis by (auto simp: MemTx_Complete_def)
  next
    case (Some x)
    with held obtain ms where ms: "s ?k = Some (RDoc (JObject ms))" "tx_doc ms x"
      and small: "\<bar>tx_AttemptNo x\<bar> < 10 ^ 14" by (auto simp: holds_tx_def)
    show ?thesis
    proof (cases "IsFinal (tx_Status x)")
      case final: True
      note script = script_final [where s = s, OF server ms final True, of enc reason ?c]
      from tx_doc_decodes [OF ms(2)] obtain x' where x': "decodeTransaction (JObject ms) = Inr x'"
        "core x' = core x" by blast
      have "gives db s (RedisTx_Complete S enc i st reason now)
          (if tx_Status x = st then Inr (x', False)
           else Inl (Wrapf ErrConflict ''%w: transaction %q already completed as %q''
             [i, status_word (tx_Status x)])) s"
        by (rule gives [OF script])
          (simp add: read_completion_simps(2,4) x'(1) gives_throw gives_ret del: ret_run throw_run)
      with mirrors run True Some final x'(2) show ?thesis
        by (fastforce simp: MemTx_Complete_def split: if_splits)
    next
      case False
      obtain ms' where script: "gives db s ?script (Inr [ReplyText ''changed'', ReplyDoc (JObject ms')])
          (s(?k \<mapsto> RDoc (JObject ms')))" and doc: "tx_doc ms' (completed x st reason now)"
        by (rule script_pending [where s = s, OF server enc ms small False True Parse_Format_RFC3339Nano [OF plain(2,3)]])
      from tx_doc_decodes [OF doc] obtain x' where x': "decodeTransaction (JObject ms') = Inr x'"
        "core x' = core (completed x st reason now)" by blast
      have "gives db s (RedisTx_Complete S enc i st reason now) (Inr (x', True)) (s(?k \<mapsto> RDoc (JObject ms')))"
        by (rule gives [OF script]) (simp only: read_completion_simps(3) [OF x'(1)] gives_ret)
      moreover have "holds_tx (Some (RDoc (JObject ms'))) (Some (completed x st reason now))"
        using doc small by (simp add: holds_tx_def completed_def)
      from mirrors_txns_put [OF mirrors plain(1) this]
      have "mirrors_txns S k (s(?k \<mapsto> RDoc (JObject ms'))) t'"
        using run True Some False by (auto simp: MemTx_Complete_def completed_def Let_def)
      moreover have "y = Inr (completed x st reason now, True)"
        using run True Some False by (auto simp: MemTx_Complete_def completed_def Let_def)
      ultimately show ?thesis using x'(2) by fastforce
    qed
  qed
qed

section \<open>The memory repository is the specification\<close>

lemma tx_call_step:
  assumes server: "redis_server (st_client S) db" and enc: "cjson_encoder enc"
    and mirrors: "mirrors_txns S k s t" and op: "plain_tx_op p" "k < 2 ^ 53"
    and run: "tx_call MemTx p t = (y, t')"
  shows "\<exists>s' y'. gives db s (tx_call (RedisTx S enc) p) y' s' \<and> mirrors_txns S (k + 1) s' t' \<and> seen y' = seen y"
proof (cases p)
  case (OpNextAttempt o_id)
  have "gives db s (tx_call (RedisTx S enc) p) (Inr (Attempt (MemTx_attempts t o_id + 1)))
      (s(attemptKey S o_id \<mapsto> RInt (MemTx_attempts t o_id + 1)))"
    unfolding OpNextAttempt tx_call.simps RedisTx_def TransactionRepository.simps
    by (rule gives_andThen_ret [OF next_attempt_step [OF server mirrors _ op(2)]])
      (use op OpNextAttempt in simp)
  moreover have "mirrors_txns S (k + 1) (s(attemptKey S o_id \<mapsto> RInt (MemTx_attempts t o_id + 1))) t'"
    "y = Inr (Attempt (MemTx_attempts t o_id + 1))"
    using run mirrors_txns_count [OF mirrors _ refl, of o_id] op OpNextAttempt
    by (auto simp: MemTx_NextAttempt_def Let_def andThen_def)
  ultimately show ?thesis by blast
next
  case (OpSave x)
  obtain z t'' where mem: "MemTx_Save x t = (z, t'')" by fastforce
  from save_step [OF server mirrors _ mem] op OpSave
  obtain s' where s': "gives db s (RedisTx_Save S x) z s'" "mirrors_txns S k s' t''" by auto
  have "gives db s (tx_call (RedisTx S enc) p) y s'" "t'' = t'"
    using s'(1) run mem unfolding OpSave
    by (cases z; auto simp: RedisTx_def andThen_def gives_def)+
  with s'(2) mirrors_txns_mono show ?thesis by fastforce
next
  case (OpGetByID i)
  obtain z t'' where mem: "MemTx_GetByID i t = (z, t'')" by fastforce
  from get_step [OF server mirrors _ mem] op OpGetByID have "t'' = t" and
    got: "case z of Inl e \<Rightarrow> gives db s (RedisTx_GetByID S i)
        (Inl (Wrapf ErrNotFound ''%w: transaction %q'' [transactionKey S i])) s
    | Inr x \<Rightarrow> \<exists>x'. core x' = core x \<and> gives db s (RedisTx_GetByID S i) (Inr x') s" by auto
  have "mirrors_txns S (k + 1) s t" using mirrors_txns_mono [OF mirrors] by simp
  moreover have "\<exists>y'. gives db s (tx_call (RedisTx S enc) p) y' s \<and> seen y' = seen y"
  proof (cases z)
    case (Inl e)
    then have "y = Inl (Wrapf ErrNotFound ''%w: transaction %q'' [i])"
      using run mem OpGetByID by (auto simp: andThen_def MemTx_GetByID_def split: option.splits)
    moreover have "gives db s (tx_call (RedisTx S enc) p)
        (Inl (Wrapf ErrNotFound ''%w: transaction %q'' [transactionKey S i])) s"
      unfolding OpGetByID tx_call.simps RedisTx_def TransactionRepository.simps
      by (rule gives_andThen_error) (use got Inl in simp)
    ultimately show ?thesis by fastforce
  next
    case (Inr x)
    with got obtain x' where x': "core x' = core x" "gives db s (RedisTx_GetByID S i) (Inr x') s" by auto
    have "gives db s (tx_call (RedisTx S enc) p) (Inr (Found x')) s"
      unfolding OpGetByID tx_call.simps RedisTx_def TransactionRepository.simps
      by (rule gives_andThen_ret [OF x'(2)])
    moreover have "y = Inr (Found x)" using run mem Inr OpGetByID by (auto simp: andThen_def)
    ultimately show ?thesis using x'(1) by fastforce
  qed
  moreover have "t' = t" using run mem \<open>t'' = t\<close> OpGetByID
    by (cases z) (auto simp: andThen_def)
  ultimately show ?thesis by blast
next
  case (OpComplete i st reason now)
  obtain z t'' where mem: "MemTx_Complete i st reason now t = (z, t'')" by fastforce
  from complete_step [OF server enc mirrors _ _ _ mem] op OpComplete
  obtain s' z' where s': "gives db s (RedisTx_Complete S enc i st reason now) z' s'" "mirrors_txns S k s' t''"
    "map_sum id (map_prod core id) z' = map_sum id (map_prod core id) z" by auto
  have "t'' = t'" using run mem OpComplete by (cases z) (auto simp: andThen_def)
  moreover have "\<exists>y'. gives db s (tx_call (RedisTx S enc) p) y' s' \<and> seen y' = seen y"
  proof (cases z')
    case (Inl e)
    then have "z = Inl e" using s'(3) by (cases z) auto
    moreover have "gives db s (tx_call (RedisTx S enc) p) (Inl e) s'"
      unfolding OpComplete tx_call.simps RedisTx_def TransactionRepository.simps
      by (rule gives_andThen_error) (use s'(1) Inl in simp)
    ultimately show ?thesis using run mem OpComplete by (auto simp: andThen_def)
  next
    case (Inr xc)
    then obtain x' c x where x: "z' = Inr (x', c)" "z = Inr (x, c)" "core x' = core x"
      using s'(3) by (cases z; cases xc) auto
    have "gives db s (tx_call (RedisTx S enc) p) (Inr (Completed x' c)) s'"
      unfolding OpComplete tx_call.simps RedisTx_def TransactionRepository.simps
      by (rule gives_andThen [OF s'(1) [unfolded x(1)]]) (simp only: prod.case gives_ret)
    moreover have "y = Inr (Completed x c)" using run mem x(2) OpComplete by (auto simp: andThen_def)
    ultimately show ?thesis using x(3) by fastforce
  qed
  ultimately show ?thesis using s'(2) mirrors_txns_mono [of S k s' t'' "k + 1"] by auto
qed

lemma tx_calls_agree:
  assumes "redis_server (st_client S) db" "cjson_encoder enc" "mirrors_txns S k s t"
    and "\<forall>p \<in> set ps. plain_tx_op p" "k + int (length ps) \<le> 2 ^ 53" "db r = s"
  shows "tx_calls (RedisTx S enc) ps r = tx_calls MemTx ps t"
  using assms
proof (induction ps arbitrary: k s t r)
  case (Cons p ps)
  obtain y t' where mem: "tx_call MemTx p t = (y, t')" by fastforce
  have "plain_tx_op p" "k < 2 ^ 53" using Cons.prems(4,5) by auto
  from tx_call_step [OF Cons.prems(1-3) this mem]
  obtain s' y' where s': "gives db s (tx_call (RedisTx S enc) p) y' s'" "mirrors_txns S (k + 1) s' t'"
    and y': "seen y' = seen y" by blast
  from gives_run [OF s'(1) Cons.prems(6)]
  obtain r' where r': "tx_call (RedisTx S enc) p r = (y', r')" "db r' = s'" by blast
  have "tx_calls (RedisTx S enc) ps r' = tx_calls MemTx ps t'"
    by (rule Cons.IH [OF Cons.prems(1,2) s'(2) _ _ r'(2)]) (use Cons.prems(4,5) in auto)
  then show ?case using mem r' y' by simp
qed simp

text \<open>
  C22: over a Redis server that starts empty, every sequence of calls of the transaction repository gives what the
  memory repository gives: attempt numbers, transactions (but for amount and payment instrument, which
  the encoder of the script may round), the changed flag of a completion, and errors with their arguments, but for
  the name in a not-found error, where GetByID over Redis gives the key instead of the identifier. This holds as long as the
  identifiers of orders and transactions are not empty and have no colon (a key drops colons at the ends
  of its parts, so the orders o and o: would share a counter), the transactions saved can be written as JSON with
  numbers in range and attempt numbers of 14 digits at most, completion times have years of four
  digits, and the calls are 2^53 at most.
\<close>
theorem redis_transactions_agree:
  assumes "redis_server (st_client S) db" "cjson_encoder enc" "db r = Map.empty"
    and "\<forall>p \<in> set ps. plain_tx_op p" "int (length ps) \<le> 2 ^ 53"
  shows "tx_calls (RedisTx S enc) ps r = tx_calls MemTx ps MemTx_New"
  using tx_calls_agree [OF assms(1,2) mirrors_txns_empty assms(4) _ assms(3)] assms(5) by simp

text \<open>An encoder that reverses the members of every object.\<close>

fun cjson_example :: "json \<Rightarrow> json" where
  "cjson_example (JArray js) = (if js = [] then JObject [] else JArray (map cjson_example js))"
| "cjson_example (JObject ms) = JObject (rev (map (\<lambda>(k, j). (k, cjson_example j)) ms))"
| "cjson_example j = j"

lemma cjson_example_works: "cjson_encoder cjson_example"
  by (auto simp: cjson_encoder_def is_number_def)

definition unpaid :: Transaction where
  "unpaid = \<lparr>tx_ID = ''t1'', tx_OrderID = ''o1'', tx_AttemptNo = 1, tx_Amount = Fin 10,
     tx_PaymentInstrument = None, tx_Gateway = ''payu'', tx_GatewayReferenceID = '''',
     tx_Status = TransactionStatusPending, tx_FailureReason = '''', tx_CreatedAt = 0,
     tx_UpdatedAt = 0, tx_CompletedAt = None\<rparr>"

theorem redis_transactions_agree_witness:
  "tx_calls (RedisTx example_store cjson_example) [OpNextAttempt ''o1'', OpSave unpaid, OpSave unpaid,
     OpComplete ''t1'' TransactionStatusSuccess '''' 5, OpComplete ''t1'' TransactionStatusFailure ''late'' 6,
     OpGetByID ''t2''] Map.empty =
   [Inr (Attempt 1), Inr Saved, Inl (Wrapf ErrConflict ''%w: transaction %q already exists'' [''t1'']),
    Inr (Completed (core (completed unpaid TransactionStatusSuccess '''' 5)) True),
    Inl (Wrapf ErrConflict ''%w: transaction %q already completed as %q'' [''t1'', ''success'']),
    Inl (Wrapf ErrNotFound ''%w: transaction %q'' [])]" (is "?redis = _")
proof -
  let ?ps = "[OpNextAttempt ''o1'', OpSave unpaid, OpSave unpaid,
     OpComplete ''t1'' TransactionStatusSuccess '''' 5, OpComplete ''t1'' TransactionStatusFailure ''late'' 6,
     OpGetByID ''t2'']"
  have years: "0 \<le> year_of 5" "year_of 5 \<le> 9999" "0 \<le> year_of 6" "year_of 6 \<le> 9999" by code_simp+
  have zero: "0 \<le> year_of 0 \<and> year_of 0 \<le> 9999" by code_simp
  have "json_float 10 = Some (Fin 10)" "json_float 1 = Some (Fin 1)"
    using rnd_of_int [of 10] round_f64_Fin [of 10] rnd_of_int [of 1] round_f64_Fin [of 1]
    by (simp_all add: json_float_def)
  then have "storable unpaid"
    by (simp add: storable_def json_Marshal_Transaction_def unpaid_def float_json_def instrument_json_def
        time_json_def zero completed_json_def omit_empty_def plain_name_def status_of_word_def)
  then have plain: "\<forall>p \<in> set ?ps. plain_tx_op p" using years by (simp add: plain_name_def)
  have server: "redis_server (st_client example_store) (\<lambda>s. s)"
    using key_server_works by (simp add: example_store_def NewStore_def Let_def)
  have "?redis = tx_calls MemTx ?ps MemTx_New"
    by (rule redis_transactions_agree [OF server cjson_example_works _ plain]) simp_all
  also have "\<dots> = [Inr (Attempt 1), Inr Saved, Inl (Wrapf ErrConflict ''%w: transaction %q already exists'' [''t1'']),
    Inr (Completed (core (completed unpaid TransactionStatusSuccess '''' 5)) True),
    Inl (Wrapf ErrConflict ''%w: transaction %q already completed as %q'' [''t1'', ''success'']),
    Inl (Wrapf ErrNotFound ''%w: transaction %q'' [])]"
    by (simp add: andThen_def MemTx_defs MemTx_New_def MemTx_attempts_def Let_def unpaid_def completed_def)
  finally show ?thesis .
qed

end
