(* ===== verification/RedisHealth.thy ===== *)
theory RedisHealth
  imports RedisTransactions MemoryHealth
begin

text \<open>
  \<open>internal/adapters/repository/redis/gateway_health_repository.go\<close>: the runtime state of a gateway
  is a JSON document that three scripts change, the callbacks of a minute are counted in a hash.
  The second part proves that the scripts do what the memory repository does, and that the counters
  give its statistics for a window of whole minutes.
\<close>

section \<open>The scripts\<close>

text \<open>
  A value is true unless it is nil or \<open>false\<close>. \<open>tonumber\<close> takes numbers and numerals; the
  numerals here are decimal integers. The repository writes the members it reads as numbers and
  strings itself.
\<close>

definition lua_true :: "json option \<Rightarrow> bool" where
  "lua_true v \<longleftrightarrow> v \<noteq> None \<and> v \<noteq> Some (JBool False)"

definition lua_or :: "json option \<Rightarrow> json \<Rightarrow> json" where
  "lua_or v w = (if lua_true v then the v else w)"

definition lua_tonumber :: "json \<Rightarrow> rat option" where
  "lua_tonumber j = (case j of
     JInt n \<Rightarrow> Some (of_int n) | JNumber q \<Rightarrow> Some q
   | JString s \<Rightarrow> map_option of_int (Atoi s) | _ \<Rightarrow> None)"

text \<open>
  \<open>ipairs\<close> goes through the elements of an array; a table made from an object has no element 1;
  anything that is not a table is an error.
\<close>

definition lua_ipairs :: "json \<Rightarrow> go_error + json list" where
  "lua_ipairs j = (case j of JArray js \<Rightarrow> Inr js | JObject _ \<Rightarrow> Inr [] | _ \<Rightarrow> Inl script_error)"

definition lua_unset :: "string \<Rightarrow> json \<Rightarrow> go_error + json" where
  "lua_unset name j = (case j of
     JObject ms \<Rightarrow> Inr (JObject (filter (\<lambda>(k, _). k \<noteq> name) ms)) | _ \<Rightarrow> Inl script_error)"

text \<open>The test of the loops: \<open>probe["transaction_id"] and expires_at > now_millis\<close>.\<close>

definition lua_live_probe :: "int \<Rightarrow> json \<Rightarrow> ('r, go_error, bool) proc" where
  "lua_live_probe now_millis probe =
     andThen (lift (lua_index probe ''expires_at_unix_milli'')) (\<lambda>expires.
     andThen (lift (lua_index probe ''transaction_id'')) (\<lambda>transaction_id.
     if \<not> lua_true transaction_id then ret False
     else (case lua_tonumber (lua_or expires (JInt 0)) of
        None \<Rightarrow> throw script_error
      | Some expires_at \<Rightarrow> ret (expires_at > of_int now_millis))))"

fun active_probes :: "int \<Rightarrow> json list \<Rightarrow> ('r, go_error, json list) proc" where
  "active_probes now_millis [] = ret []"
| "active_probes now_millis (probe # probes) =
     andThen (lua_live_probe now_millis probe) (\<lambda>live.
     andThen (active_probes now_millis probes) (\<lambda>active.
     ret (if live then probe # active else active)))"

text \<open>The loop of the release script, which also drops the probes of the transaction.\<close>

fun release_loop :: "int \<Rightarrow> string \<Rightarrow> json list \<Rightarrow> ('r, go_error, json list \<times> bool) proc" where
  "release_loop now_millis transaction_id [] = ret ([], False)"
| "release_loop now_millis transaction_id (probe # probes) =
     andThen (lua_live_probe now_millis probe) (\<lambda>live.
     andThen (lift (lua_index probe ''transaction_id'')) (\<lambda>tid.
     andThen (release_loop now_millis transaction_id probes) (\<lambda>(active, released).
     ret (if live \<and> tid = Some (JString transaction_id) then (active, True)
       else if live then (probe # active, released) else (active, released)))))"

text \<open>\<open>ipairs(state["half_open_probes"] or {})\<close>.\<close>

definition state_probes :: "json \<Rightarrow> go_error + json list" where
  "state_probes state = (case lua_index state ''half_open_probes'' of
     Inl e \<Rightarrow> Inl e | Inr v \<Rightarrow> lua_ipairs (lua_or v (JArray [])))"

text \<open>The probes and their number are written back; an empty list removes the member.\<close>

definition put_probes :: "json list \<Rightarrow> json \<Rightarrow> ('r, go_error, json) proc" where
  "put_probes active state =
     andThen (lift (if active \<noteq> [] then lua_set ''half_open_probes'' (JArray active) state
       else lua_unset ''half_open_probes'' state)) (\<lambda>state.
     lift (lua_set ''half_open_in_flight'' (JInt (int (length active))) state))"

text \<open>The end of the scripts: the time of the update is set, the state encoded and stored.\<close>

definition store_state :: "'r Redis \<Rightarrow> (json \<Rightarrow> json) \<Rightarrow> string \<Rightarrow> string \<Rightarrow> string \<Rightarrow> json
    \<Rightarrow> ('r, go_error, reply list) proc" where
  "store_state C enc key code updated_at state =
     andThen (lift (lua_set ''updated_at'' (JString updated_at) state)) (\<lambda>state.
     andThen (rd_Set C key (enc state)) (\<lambda>_. ret [ReplyText code, ReplyDoc (enc state)]))"

definition acquireProbeScript :: "'r Redis \<Rightarrow> (json \<Rightarrow> json) \<Rightarrow> string \<Rightarrow> int \<Rightarrow> string \<Rightarrow> int \<Rightarrow> int
    \<Rightarrow> string \<Rightarrow> ('r, go_error, reply list) proc" where
  "acquireProbeScript C enc key maxInFlight transaction_id expires_at now_millis updated_at =
     andThen (rd_Get C key) (\<lambda>raw.
     case raw of
       None \<Rightarrow> ret [ReplyText ''missing'']
     | Some raw \<Rightarrow>
        andThen (lift (lua_index (cjson_decode raw) ''state'')) (\<lambda>current.
        if current \<noteq> Some (JString ''half_open'') then ret [ReplyText ''not_half_open'', ReplyDoc raw]
        else
          andThen (lift (state_probes (cjson_decode raw))) (\<lambda>probes.
          andThen (active_probes now_millis probes) (\<lambda>active.
          andThen (put_probes active (cjson_decode raw)) (\<lambda>state.
          if int (length active) \<ge> maxInFlight then store_state C enc key ''full'' updated_at state
          else
            andThen (put_probes (active @ [JObject [(''transaction_id'', JString transaction_id),
              (''expires_at_unix_milli'', JInt expires_at)]]) state)
            (store_state C enc key ''acquired'' updated_at))))))"

definition releaseProbeScript :: "'r Redis \<Rightarrow> (json \<Rightarrow> json) \<Rightarrow> string \<Rightarrow> string \<Rightarrow> int \<Rightarrow> string
    \<Rightarrow> ('r, go_error, reply list) proc" where
  "releaseProbeScript C enc key transaction_id now_millis updated_at =
     andThen (rd_Get C key) (\<lambda>raw.
     case raw of
       None \<Rightarrow> ret [ReplyText ''missing'']
     | Some raw \<Rightarrow>
        andThen (lift (lua_index (cjson_decode raw) ''state'')) (\<lambda>current.
        if current \<noteq> Some (JString ''half_open'') then ret [ReplyText ''not_half_open'', ReplyDoc raw]
        else
          andThen (lift (state_probes (cjson_decode raw))) (\<lambda>probes.
          andThen (release_loop now_millis transaction_id probes) (\<lambda>(active, released).
          andThen (put_probes active (cjson_decode raw))
          (store_state C enc key (if released then ''released'' else ''not_found'') updated_at)))))"

definition pruneExpiredProbesScript :: "'r Redis \<Rightarrow> (json \<Rightarrow> json) \<Rightarrow> string \<Rightarrow> int \<Rightarrow> string
    \<Rightarrow> ('r, go_error, reply list) proc" where
  "pruneExpiredProbesScript C enc key now_millis updated_at =
     andThen (rd_Get C key) (\<lambda>raw.
     case raw of
       None \<Rightarrow> ret [ReplyText ''missing'']
     | Some raw \<Rightarrow>
        andThen (lift (lua_index (cjson_decode raw) ''state'')) (\<lambda>current.
        if current \<noteq> Some (JString ''half_open'') then ret [ReplyText ''ok'', ReplyDoc raw]
        else
          andThen (lift (state_probes (cjson_decode raw))) (\<lambda>probes.
          andThen (active_probes now_millis probes) (\<lambda>active.
          andThen (put_probes active (cjson_decode raw)) (store_state C enc key ''ok'' updated_at)))))"

section \<open>The repository\<close>

definition stateKey :: "'r Store \<Rightarrow> string \<Rightarrow> string" where
  "stateKey S gateway = Key S [''gateway'', gateway, ''state'']"

definition statsKey :: "'r Store \<Rightarrow> string \<Rightarrow> int \<Rightarrow> string" where
  "statsKey S gateway bucket = Key S [''gateway'', gateway, ''stats'', fmt_d bucket]"

definition marshalled :: "json option \<Rightarrow> ('r, go_error, json) proc" where
  "marshalled payload = (case payload of None \<Rightarrow> throw doc_error | Some j \<Rightarrow> ret j)"

definition RedisHealth_Ensure :: "'r Store \<Rightarrow> string \<Rightarrow> time \<Rightarrow> ('r, go_error, unit) proc" where
  "RedisHealth_Ensure S gateway now =
     andThen (marshalled (json_Marshal_GatewayRuntimeState
       \<lparr>rt_Gateway = gateway, rt_State = GatewayStateHealthy, rt_UnhealthyUntil = zero_time,
        rt_HalfOpenInFlight = 0, rt_HalfOpenProbes = [], rt_UpdatedAt = now\<rparr>)) (\<lambda>payload.
     andThen (rd_SetNX (st_client S) (stateKey S gateway) payload) (\<lambda>_. ret ()))"

definition getState :: "'r Store \<Rightarrow> string \<Rightarrow> ('r, go_error, GatewayRuntimeState) proc" where
  "getState S gateway =
     andThen (rd_Get (st_client S) (stateKey S gateway)) (\<lambda>payload.
     case payload of
       None \<Rightarrow> throw (Wrapf ErrNotFound ''%w: gateway %q'' [gateway])
     | Some payload \<Rightarrow> lift (decodeGatewayState payload))"

definition RedisHealth_Get :: "'r Store \<Rightarrow> string \<Rightarrow> ('r, go_error, GatewayRuntimeState) proc" where
  "RedisHealth_Get S gateway = getState S gateway"

definition RedisHealth_Save :: "'r Store \<Rightarrow> GatewayRuntimeState \<Rightarrow> ('r, go_error, unit) proc" where
  "RedisHealth_Save S state =
     andThen (marshalled (json_Marshal_GatewayRuntimeState state)) (\<lambda>payload.
     rd_Set (st_client S) (stateKey S (rt_Gateway state)) payload)"

text \<open>What the three methods do with the result of their script; \<open>what\<close> names the method in errors.\<close>

definition read_state :: "string \<Rightarrow> string \<Rightarrow> reply list \<Rightarrow> ('r, go_error, GatewayRuntimeState) proc" where
  "read_state what gateway result =
     (if length result = 0 then
        throw (Errorf (''unexpected redis '' @ what @ '' response: %v'') (map reply_text result))
      else if reply_text (result ! 0) = ''missing'' then
        throw (Wrapf ErrNotFound ''%w: gateway %q'' [gateway])
      else if length result < 2 then
        throw (Errorf (''missing gateway state in redis '' @ what @ '' response: %v'')
          (map reply_text result))
      else lift (decode_reply (result ! 1) decodeGatewayState))"

definition RedisHealth_PruneExpiredHalfOpenProbes :: "'r Store \<Rightarrow> (json \<Rightarrow> json) \<Rightarrow> string \<Rightarrow> time
    \<Rightarrow> ('r, go_error, GatewayRuntimeState) proc" where
  "RedisHealth_PruneExpiredHalfOpenProbes S enc gateway now =
     andThen (rd_Run (st_client S) (pruneExpiredProbesScript (st_client S) enc (stateKey S gateway)
       (UnixMilli now) (Format_RFC3339Nano now)))
     (read_state ''prune'' gateway)"

definition RedisHealth_TryAcquireHalfOpenProbe :: "'r Store \<Rightarrow> (json \<Rightarrow> json) \<Rightarrow> string \<Rightarrow> string \<Rightarrow> int
    \<Rightarrow> time \<Rightarrow> time \<Rightarrow> ('r, go_error, GatewayRuntimeState \<times> bool) proc" where
  "RedisHealth_TryAcquireHalfOpenProbe S enc gateway transactionID maxInFlight expiresAt now =
     andThen (rd_Run (st_client S) (acquireProbeScript (st_client S) enc (stateKey S gateway)
       maxInFlight transactionID (UnixMilli expiresAt) (UnixMilli now) (Format_RFC3339Nano now)))
     (\<lambda>result. andThen (read_state ''probe'' gateway result) (\<lambda>state.
     ret (state, reply_text (result ! 0) = ''acquired'')))"

definition RedisHealth_ReleaseHalfOpenProbe :: "'r Store \<Rightarrow> (json \<Rightarrow> json) \<Rightarrow> string \<Rightarrow> string \<Rightarrow> time
    \<Rightarrow> ('r, go_error, GatewayRuntimeState \<times> bool) proc" where
  "RedisHealth_ReleaseHalfOpenProbe S enc gateway transactionID now =
     andThen (rd_Run (st_client S) (releaseProbeScript (st_client S) enc (stateKey S gateway)
       transactionID (UnixMilli now) (Format_RFC3339Nano now)))
     (\<lambda>result. andThen (read_state ''release'' gateway result) (\<lambda>state.
     ret (state, reply_text (result ! 0) = ''released'')))"

text \<open>The callbacks of one minute, a bucket named by the second it starts at, share a hash.\<close>

definition event_bucket :: "time \<Rightarrow> int" where
  "event_bucket t = Unix (Truncate t Minute)"

definition event_field :: "TransactionStatus \<Rightarrow> string" where
  "event_field status = (if status = TransactionStatusSuccess then ''successes'' else ''failures'')"

definition RedisHealth_RecordEvent :: "'r Store \<Rightarrow> GatewayEvent \<Rightarrow> duration \<Rightarrow> ('r, go_error, unit) proc" where
  "RedisHealth_RecordEvent S event retention =
     (let bucket = event_bucket (ge_CreatedAt event);
          key = statsKey S (ge_Gateway event) bucket;
          ttl = wrap64 (retention + 2 * Minute) in
      andThen (rd_Exec (st_client S) [HIncrBy key (event_field (ge_Status event)) 1, Expire key ttl])
        (\<lambda>_. ret ()))"

text \<open>
  \<open>int64(bucketSize.Seconds())\<close>: the seconds as a \<open>float64\<close>, cut to an integer.
\<close>

definition Seconds_int64 :: "duration \<Rightarrow> int" where
  "Seconds_int64 d = (let sec = (if d < 0 then - ((- d) div Second) else d div Second);
       nsec = d - sec * Second;
       x = rnd (of_int sec + rnd (of_int nsec / 10 ^ 9)) in
     if x < 0 then \<lceil>x\<rceil> else \<lfloor>x\<rfloor>)"

text \<open>
  The buckets of the loop \<open>for bucket := start; bucket <= end; bucket += step\<close>. The counter is an
  \<open>int64\<close> and wraps, so the loop may not end, which is the value \<open>None\<close>.
\<close>

partial_function (option) buckets :: "int \<Rightarrow> int \<Rightarrow> int \<Rightarrow> int list option" where
  "buckets bucket until step =
     (if bucket \<le> until
      then Option.bind (buckets (wrap64 (bucket + step)) until step) (\<lambda>bs. Some (bucket # bs))
      else Some [])"

text \<open>Stands for a method that does not return, in the results of the model.\<close>

definition never_returns :: go_error where
  "never_returns = Errorf ''(does not return)'' []"

definition defaultString :: "string \<Rightarrow> string \<Rightarrow> string" where
  "defaultString value fallback = (if value = '''' then fallback else value)"

text \<open>Reading an absent key of a map of strings gives the empty string.\<close>

definition field_number :: "(string \<rightharpoonup> string) \<Rightarrow> string \<Rightarrow> ('r, go_error, int) proc" where
  "field_number h name = parsed ''atoi''
     (Atoi (defaultString (case h name of None \<Rightarrow> '''' | Some v \<Rightarrow> v) ''0''))"

fun sum_buckets :: "(go_error + (string \<rightharpoonup> string)) list \<Rightarrow> int \<times> int \<Rightarrow> ('r, go_error, int \<times> int) proc" where
  "sum_buckets [] counts = ret counts"
| "sum_buckets (command # commands) counts =
     andThen (lift command) (\<lambda>h.
     andThen (field_number h ''successes'') (\<lambda>successes.
     andThen (field_number h ''failures'') (\<lambda>failures.
     sum_buckets commands (wrap64 (fst counts + successes), wrap64 (snd counts + failures)))))"

definition RedisHealth_StatsSince :: "'r Store \<Rightarrow> string \<Rightarrow> time \<Rightarrow> time \<Rightarrow> duration
    \<Rightarrow> ('r, go_error, GatewayStats) proc" where
  "RedisHealth_StatsSince S gateway since until bucketSize =
     (let startBucket = Unix (Truncate since bucketSize);
          endBucket = Unix (Truncate until bucketSize);
          step0 = Seconds_int64 bucketSize;
          step = (if step0 \<le> 0 then 60 else step0) in
      case buckets startBucket endBucket step of
        None \<Rightarrow> throw never_returns
      | Some bs \<Rightarrow>
          andThen (rd_Exec (st_client S) (map (\<lambda>bucket. HGetAll (statsKey S gateway bucket)) bs)) (\<lambda>commands.
          andThen (sum_buckets commands (0, 0)) (\<lambda>counts.
          ret (stats_of_counts gateway counts))))"

definition RedisHealth :: "'r Store \<Rightarrow> (json \<Rightarrow> json) \<Rightarrow> 'r GatewayHealthRepository" where
  "RedisHealth S enc = \<lparr>hr_Ensure = RedisHealth_Ensure S, hr_Get = RedisHealth_Get S,
     hr_Save = RedisHealth_Save S,
     hr_PruneExpiredHalfOpenProbes = RedisHealth_PruneExpiredHalfOpenProbes S enc,
     hr_TryAcquireHalfOpenProbe = RedisHealth_TryAcquireHalfOpenProbe S enc,
     hr_ReleaseHalfOpenProbe = RedisHealth_ReleaseHalfOpenProbe S enc,
     hr_RecordEvent = RedisHealth_RecordEvent S, hr_StatsSince = RedisHealth_StatsSince S\<rparr>"

end
