(* ===== verification/RedisHealthScripts.thy ===== *)
theory RedisHealthScripts
  imports RedisHealth
begin

text \<open>
  The documents of runtime states and probes that the health repository keeps in Redis, and what each
  of its scripts does to them.
\<close>

section \<open>Documents of probes and states\<close>

definition probe_doc :: "json \<Rightarrow> HalfOpenProbe \<Rightarrow> bool" where
  "probe_doc j p \<longleftrightarrow> (\<exists>ms. j = JObject ms \<and> distinct (map fst ms) \<and>
     list_all (fits_member HalfOpenProbe_fields) ms \<and>
     map_of ms ''transaction_id'' = Some (JString (hp_TransactionID p)) \<and>
     map_of ms ''expires_at_unix_milli'' = Some (JInt (hp_ExpiresAtUnixMilli p)) \<and>
     \<bar>hp_ExpiresAtUnixMilli p\<bar> < 10 ^ 14)"

definition state_doc :: "(string \<times> json) list \<Rightarrow> GatewayRuntimeState \<Rightarrow> bool" where
  "state_doc ms st \<longleftrightarrow> distinct (map fst ms) \<and>
     list_all (fits_member GatewayRuntimeState_fields) ms \<and>
     map_of ms ''gateway'' = Some (JString (rt_Gateway st)) \<and>
     map_of ms ''state'' = Some (JString (state_word (rt_State st))) \<and>
     state_of_word (state_word (rt_State st)) = rt_State st \<and>
     (\<exists>c. map_of ms ''unhealthy_until'' = Some (JString c) \<and> Parse_RFC3339Nano c = Some (rt_UnhealthyUntil st)) \<and>
     map_of ms ''half_open_in_flight'' = Some (JInt (rt_HalfOpenInFlight st)) \<and>
     \<bar>rt_HalfOpenInFlight st\<bar> < 10 ^ 14 \<and> int (length (rt_HalfOpenProbes st)) < 10 ^ 14 \<and>
     (if rt_HalfOpenProbes st = [] then map_of ms ''half_open_probes'' = None
      else \<exists>js. map_of ms ''half_open_probes'' = Some (JArray js) \<and>
        list_all2 probe_doc js (rt_HalfOpenProbes st)) \<and>
     (\<exists>c. map_of ms ''updated_at'' = Some (JString c) \<and> Parse_RFC3339Nano c = Some (rt_UpdatedAt st))"

lemma state_docD:
  assumes "state_doc ms st"
  shows "distinct (map fst ms)" "list_all (fits_member GatewayRuntimeState_fields) ms"
    "map_of ms ''gateway'' = Some (JString (rt_Gateway st))"
    "map_of ms ''state'' = Some (JString (state_word (rt_State st)))"
    "state_of_word (state_word (rt_State st)) = rt_State st"
    "\<exists>c. map_of ms ''unhealthy_until'' = Some (JString c) \<and> Parse_RFC3339Nano c = Some (rt_UnhealthyUntil st)"
    "map_of ms ''half_open_in_flight'' = Some (JInt (rt_HalfOpenInFlight st))"
    "\<bar>rt_HalfOpenInFlight st\<bar> < 10 ^ 14" "int (length (rt_HalfOpenProbes st)) < 10 ^ 14"
    "if rt_HalfOpenProbes st = [] then map_of ms ''half_open_probes'' = None
      else \<exists>js. map_of ms ''half_open_probes'' = Some (JArray js) \<and>
        list_all2 probe_doc js (rt_HalfOpenProbes st)"
    "\<exists>c. map_of ms ''updated_at'' = Some (JString c) \<and> Parse_RFC3339Nano c = Some (rt_UpdatedAt st)"
  using assms unfolding state_doc_def by (unfold if_bool_eq_conj) blast+

lemma distinct_state_keys: "distinct (map fold_name (map fst GatewayRuntimeState_fields))"
  "distinct (map fold_name (map fst HalfOpenProbe_fields))"
proof -
  have "map fold_name (map fst GatewayRuntimeState_fields) = [''GATEWAY'', ''STATE'', ''UNHEALTHY_UNTIL'',
    ''HALF_OPEN_IN_FLIGHT'', ''HALF_OPEN_PROBES'', ''UPDATED_AT'']" by code_simp
  then show "distinct (map fold_name (map fst GatewayRuntimeState_fields))" by simp
  have "map fold_name (map fst HalfOpenProbe_fields) = [''TRANSACTION_ID'', ''EXPIRES_AT_UNIX_MILLI'']"
    by code_simp
  then show "distinct (map fold_name (map fst HalfOpenProbe_fields))" by simp
qed

lemma state_only_field:
  "only_field GatewayRuntimeState_fields rt_Gateway ''gateway''"
  "only_field GatewayRuntimeState_fields rt_State ''state''"
  "only_field GatewayRuntimeState_fields rt_UnhealthyUntil ''unhealthy_until''"
  "only_field GatewayRuntimeState_fields rt_HalfOpenInFlight ''half_open_in_flight''"
  "only_field GatewayRuntimeState_fields rt_HalfOpenProbes ''half_open_probes''"
  "only_field GatewayRuntimeState_fields rt_UpdatedAt ''updated_at''"
  "only_field HalfOpenProbe_fields hp_TransactionID ''transaction_id''"
  "only_field HalfOpenProbe_fields hp_ExpiresAtUnixMilli ''expires_at_unix_milli''"
  by (simp_all add: only_field_def GatewayRuntimeState_fields_def HalfOpenProbe_fields_def)

lemma state_fields:
  "(''gateway'', decode_string (\<lambda>v. rt_Gateway_update (\<lambda>_. v))) \<in> set GatewayRuntimeState_fields"
  "(''state'', decode_string (\<lambda>v. rt_State_update (\<lambda>_. state_of_word v))) \<in> set GatewayRuntimeState_fields"
  "(''unhealthy_until'', decode_time (\<lambda>v. rt_UnhealthyUntil_update (\<lambda>_. v))) \<in> set GatewayRuntimeState_fields"
  "(''half_open_in_flight'', decode_int (\<lambda>v. rt_HalfOpenInFlight_update (\<lambda>_. v))) \<in> set GatewayRuntimeState_fields"
  "(''half_open_probes'', unmarshal_slice rt_HalfOpenProbes (\<lambda>v. rt_HalfOpenProbes_update (\<lambda>_. v))
     zero_HalfOpenProbe (unmarshal_struct HalfOpenProbe_fields)) \<in> set GatewayRuntimeState_fields"
  "(''updated_at'', decode_time (\<lambda>v. rt_UpdatedAt_update (\<lambda>_. v))) \<in> set GatewayRuntimeState_fields"
  "(''transaction_id'', decode_string (\<lambda>v. hp_TransactionID_update (\<lambda>_. v))) \<in> set HalfOpenProbe_fields"
  "(''expires_at_unix_milli'', decode_int (\<lambda>v. hp_ExpiresAtUnixMilli_update (\<lambda>_. v))) \<in> set HalfOpenProbe_fields"
  by (simp_all add: GatewayRuntimeState_fields_def HalfOpenProbe_fields_def)

lemma in64_14: "\<bar>n\<bar> < 10 ^ 14 \<Longrightarrow> in64 n"
  unfolding in64_def abs_less_iff by simp

lemma probe_doc_decodes:
  assumes "probe_doc j p"
  shows "unmarshal_struct HalfOpenProbe_fields j x = Some p"
proof -
  obtain ms where j: "j = JObject ms" and ms: "distinct (map fst ms)" "list_all (fits_member HalfOpenProbe_fields) ms"
    and v: "map_of ms ''transaction_id'' = Some (JString (hp_TransactionID p))"
      "map_of ms ''expires_at_unix_milli'' = Some (JInt (hp_ExpiresAtUnixMilli p))"
      "\<bar>hp_ExpiresAtUnixMilli p\<bar> < 10 ^ 14"
    using assms by (auto simp: probe_doc_def)
  obtain y where y: "unmarshals HalfOpenProbe_fields ms x y"
    using unmarshals_fitting [OF distinct_state_keys(2) ms] by blast
  have "hp_TransactionID y = hp_TransactionID p" "hp_ExpiresAtUnixMilli y = hp_ExpiresAtUnixMilli p"
    using in64_14 [OF v(3)]
    by (auto simp: decode_string_def decode_int_def
        intro!: field_present [OF y state_only_field(7) state_fields(7) v(1)]
          field_present [OF y state_only_field(8) state_fields(8) v(2)])
  then have "y = p" by simp
  with y j show ?thesis by (simp add: unmarshal_struct_def unmarshals_def)
qed

lemma probe_docs_decode:
  "list_all2 probe_doc js ps \<Longrightarrow>
   unmarshal_elements (unmarshal_struct HalfOpenProbe_fields) z js old = Some ps"
  by (induction js ps arbitrary: old rule: list_all2_induct) (auto simp: probe_doc_decodes)

lemma probe_docs_fit:
  "list_all2 probe_doc js ps \<Longrightarrow>
   fits (unmarshal_slice get put z (unmarshal_struct HalfOpenProbe_fields)) (JArray js)"
  by (simp add: fits_def unmarshal_slice_def probe_docs_decode)

lemma state_doc_decodes:
  assumes doc: "state_doc ms st"
  shows "decodeGatewayState (JObject ms) = Inr st"
proof -
  note D = state_docD [OF doc]
  obtain y where y: "unmarshals GatewayRuntimeState_fields ms zero_GatewayRuntimeState y"
    using unmarshals_fitting [OF distinct_state_keys(1) D(1,2)] by blast
  note present = field_present [OF y]
  have "rt_Gateway y = rt_Gateway st" "rt_State y = rt_State st"
    "rt_HalfOpenInFlight y = rt_HalfOpenInFlight st"
    using D(5) in64_14 [OF D(8)]
    by (auto simp: decode_string_def decode_int_def intro!: present [OF state_only_field(1) state_fields(1) D(3)]
        present [OF state_only_field(2) state_fields(2) D(4)] present [OF state_only_field(4) state_fields(4) D(7)])
  moreover obtain c u where c: "map_of ms ''unhealthy_until'' = Some (JString c)"
    "Parse_RFC3339Nano c = Some (rt_UnhealthyUntil st)"
    and u: "map_of ms ''updated_at'' = Some (JString u)" "Parse_RFC3339Nano u = Some (rt_UpdatedAt st)"
    using D(6,11) by blast
  have "rt_UnhealthyUntil y = rt_UnhealthyUntil st" "rt_UpdatedAt y = rt_UpdatedAt st"
    using c(2) u(2)
    by (auto simp: decode_time_def intro!: present [OF state_only_field(3) state_fields(3) c(1)]
        present [OF state_only_field(6) state_fields(6) u(1)])
  moreover have "rt_HalfOpenProbes y = rt_HalfOpenProbes st"
  proof (cases "rt_HalfOpenProbes st = []")
    case True
    with D(10) field_absent [OF y state_only_field(5)] show ?thesis by (simp add: zero_GatewayRuntimeState_def)
  next
    case False
    with D(10) obtain js where js: "map_of ms ''half_open_probes'' = Some (JArray js)"
      "list_all2 probe_doc js (rt_HalfOpenProbes st)" by auto
    show ?thesis
      by (rule present [OF state_only_field(5) state_fields(5) js(1)])
        (auto simp: unmarshal_slice_def probe_docs_decode [OF js(2)])
  qed
  ultimately have "y = st" by simp
  with y show ?thesis by (simp add: decodeGatewayState_def unmarshal_struct_def unmarshals_def)
qed

lemma state_fits_member:
  "fits_member GatewayRuntimeState_fields (''gateway'', v) \<longleftrightarrow> v = JNull \<or> (\<exists>s. v = JString s)"
  "fits_member GatewayRuntimeState_fields (''state'', v) \<longleftrightarrow> v = JNull \<or> (\<exists>s. v = JString s)"
  "fits_member GatewayRuntimeState_fields (''unhealthy_until'', v) \<longleftrightarrow>
     v = JNull \<or> (\<exists>s. v = JString s \<and> Parse_RFC3339Nano s \<noteq> None)"
  "fits_member GatewayRuntimeState_fields (''half_open_in_flight'', v) \<longleftrightarrow>
     v = JNull \<or> (\<exists>n. v = JInt n \<and> in64 n)"
  "fits_member GatewayRuntimeState_fields (''updated_at'', v) \<longleftrightarrow>
     v = JNull \<or> (\<exists>s. v = JString s \<and> Parse_RFC3339Nano s \<noteq> None)"
  "fits_member HalfOpenProbe_fields (''transaction_id'', v) \<longleftrightarrow> v = JNull \<or> (\<exists>s. v = JString s)"
  "fits_member HalfOpenProbe_fields (''expires_at_unix_milli'', v) \<longleftrightarrow>
     v = JNull \<or> (\<exists>n. v = JInt n \<and> in64 n)"
  by (simp_all add: fits_member_def GatewayRuntimeState_fields_def HalfOpenProbe_fields_def)

lemma state_member_name:
  "fits_member GatewayRuntimeState_fields (k, v) \<Longrightarrow> k = ''half_open_probes'' \<or>
     k = ''half_open_in_flight'' \<or> k = ''gateway'' \<or> k = ''state'' \<or> k = ''unhealthy_until'' \<or> k = ''updated_at''"
  by (simp only: fits_member_def GatewayRuntimeState_fields_def fst_conv list.set insert_iff empty_iff
      prod.inject) (elim exE conjE disjE; simp only: simp_thms)

lemma probe_docs_fit_member:
  "list_all2 probe_doc js ps \<Longrightarrow> fits_member GatewayRuntimeState_fields (''half_open_probes'', JArray js)"
  using state_fields(5) probe_docs_fit by (fastforce simp: fits_member_def)

lemma probe_doc_enc:
  assumes enc: "cjson_encoder enc" and doc: "probe_doc j p"
  shows "probe_doc (enc j) p"
proof -
  obtain ms where j: "j = JObject ms" and ms: "distinct (map fst ms)" "list_all (fits_member HalfOpenProbe_fields) ms"
    and v: "map_of ms ''transaction_id'' = Some (JString (hp_TransactionID p))"
      "map_of ms ''expires_at_unix_milli'' = Some (JInt (hp_ExpiresAtUnixMilli p))"
      "\<bar>hp_ExpiresAtUnixMilli p\<bar> < 10 ^ 14"
    using doc by (auto simp: probe_doc_def)
  obtain ms' where ms': "enc (JObject ms) = JObject ms'" "distinct (map fst ms')"
    "map_of ms' = (\<lambda>k. map_option enc (map_of ms k))" "set ms' = (\<lambda>(k, j). (k, enc j)) ` set ms"
    by (rule encoder_object [OF enc ms(1)])
  have "fits_member HalfOpenProbe_fields (k, enc v)" if kv: "(k, v) \<in> set ms" for k v
  proof -
    have "k = ''transaction_id'' \<or> k = ''expires_at_unix_milli''"
      using ms(2) kv by (auto simp: list_all_iff fits_member_def HalfOpenProbe_fields_def)
    moreover have "map_of ms k = Some v" using map_of_is_SomeI [OF ms(1) kv] .
    ultimately show ?thesis
      using \<open>map_of ms k = Some v\<close> assms v encoder_laws(3,4) [OF enc] in64_14 [OF v(3)]
      by (elim disjE) (auto simp: state_fits_member)
  qed
  then have "list_all (fits_member HalfOpenProbe_fields) ms'" unfolding list_all_iff ms'(4) by auto
  with ms' v j encoder_laws(3,4) [OF enc] show ?thesis by (auto simp: probe_doc_def)
qed

lemma state_doc_enc:
  assumes enc: "cjson_encoder enc" and doc: "state_doc ms st"
  obtains ms' where "enc (JObject ms) = JObject ms'" "state_doc ms' st"
proof -
  note D = state_docD [OF doc]
  obtain ms' where ms': "enc (JObject ms) = JObject ms'" "distinct (map fst ms')"
    "map_of ms' = (\<lambda>k. map_option enc (map_of ms k))" "set ms' = (\<lambda>(k, j). (k, enc j)) ` set ms"
    by (rule encoder_object [OF enc D(1)])
  note laws = encoder_laws [OF enc]
  have probes: "if rt_HalfOpenProbes st = [] then map_of ms' ''half_open_probes'' = None
      else \<exists>js. map_of ms' ''half_open_probes'' = Some (JArray js) \<and> list_all2 probe_doc js (rt_HalfOpenProbes st)"
  proof (cases "rt_HalfOpenProbes st = []")
    case False
    with D(10) obtain js where js: "map_of ms ''half_open_probes'' = Some (JArray js)"
      "list_all2 probe_doc js (rt_HalfOpenProbes st)" by auto
    have "js \<noteq> []" using js(2) False by auto
    moreover have "list_all2 probe_doc (map enc js) (rt_HalfOpenProbes st)"
      using js(2) probe_doc_enc [OF enc] by (simp add: list_all2_conv_all_nth)
    ultimately show ?thesis using False js(1) laws(6) by (simp add: ms'(3))
  qed (use D(10) in \<open>simp add: ms'(3)\<close>)
  have "fits_member GatewayRuntimeState_fields (k, enc v)" if kv: "(k, v) \<in> set ms" for k v
  proof -
    have kv': "map_of ms k = Some v" by (rule map_of_is_SomeI [OF D(1) kv])
    have "fits_member GatewayRuntimeState_fields (k, v)"
      using D(2) kv by (simp add: list_all_iff)
    from state_member_name [OF this] show ?thesis
    proof (elim disjE, goal_cases)
      case 1
      with kv' probes have "map_of ms' k = Some (enc v)" "rt_HalfOpenProbes st \<noteq> []"
        by (auto simp: ms'(3) split: if_splits)
      with probes 1 obtain js where "enc v = JArray js" "list_all2 probe_doc js (rt_HalfOpenProbes st)" by auto
      with 1 probe_docs_fit_member show ?thesis by simp
    next
      case 2
      with kv' D(7) laws(4) [OF D(8)] in64_14 [OF D(8)] show ?thesis by (auto simp: state_fits_member)
    qed (use kv' D(3,4,6,11) laws(3) in \<open>auto simp: state_fits_member\<close>)
  qed
  then have fit: "list_all (fits_member GatewayRuntimeState_fields) ms'" unfolding list_all_iff ms'(4) by auto
  have "state_doc ms' st"
    unfolding state_doc_def using D ms'(2) fit probes laws(3) laws(4) [OF D(8)]
    by (intro conjI) (auto simp: ms'(3))
  with ms'(1) that show thesis by blast
qed

section \<open>The loops of the scripts\<close>

lemma lua_live_probe_doc:
  "probe_doc j p \<Longrightarrow> lua_live_probe n j = ret (n < hp_ExpiresAtUnixMilli p)"
  by (auto simp: probe_doc_def lua_live_probe_def lua_index_def lua_true_def lua_or_def lua_tonumber_def
      simp del: ret_run)

lemma active_probes_docs:
  assumes "list_all2 probe_doc js ps"
  obtains js' where "active_probes n js = (ret js' :: ('r, go_error, json list) proc)"
    "list_all2 probe_doc js' (filter (\<lambda>p. n < hp_ExpiresAtUnixMilli p) ps)"
  using assms
proof (induction js ps arbitrary: thesis rule: list_all2_induct)
  case (Cons j js p ps)
  obtain js' where js': "active_probes n js = (ret js' :: ('r, go_error, json list) proc)"
    "list_all2 probe_doc js' (filter (\<lambda>p. n < hp_ExpiresAtUnixMilli p) ps)" by (rule Cons.IH)
  show ?case
    by (rule Cons.prems [of "if n < hp_ExpiresAtUnixMilli p then j # js' else js'"])
      (simp_all add: js' lua_live_probe_doc [OF Cons.hyps(1)] Cons.hyps(1) del: ret_run)
qed simp

lemma probe_doc_id: "probe_doc j p \<Longrightarrow> lua_index j ''transaction_id'' = Inr (Some (JString (hp_TransactionID p)))"
  by (auto simp: probe_doc_def lua_index_def)

lemma release_loop_docs:
  assumes "list_all2 probe_doc js ps"
  obtains js' where "release_loop n tid js =
      (ret (js', \<exists>p \<in> set ps. n < hp_ExpiresAtUnixMilli p \<and> hp_TransactionID p = tid)
        :: ('r, go_error, json list \<times> bool) proc)"
    "list_all2 probe_doc js' (filter (\<lambda>p. n < hp_ExpiresAtUnixMilli p \<and> hp_TransactionID p \<noteq> tid) ps)"
  using assms
proof (induction js ps arbitrary: thesis rule: list_all2_induct)
  case (Cons j js p ps)
  obtain js' where js': "release_loop n tid js =
      (ret (js', \<exists>p \<in> set ps. n < hp_ExpiresAtUnixMilli p \<and> hp_TransactionID p = tid)
        :: ('r, go_error, json list \<times> bool) proc)"
    "list_all2 probe_doc js' (filter (\<lambda>p. n < hp_ExpiresAtUnixMilli p \<and> hp_TransactionID p \<noteq> tid) ps)"
    by (rule Cons.IH)
  show ?case
    by (rule Cons.prems [of "if n < hp_ExpiresAtUnixMilli p \<and> hp_TransactionID p \<noteq> tid then j # js' else js'"])
      (simp_all add: js' lua_live_probe_doc [OF Cons.hyps(1)] probe_doc_id [OF Cons.hyps(1)] Cons.hyps(1)
        del: ret_run)
qed simp

lemma state_probes_doc:
  assumes "state_doc ms st"
  obtains js where "state_probes (JObject ms) = Inr js" "list_all2 probe_doc js (rt_HalfOpenProbes st)"
  using state_docD(10) [OF assms]
  by (auto simp: state_probes_def lua_index_def lua_or_def lua_true_def lua_ipairs_def split: if_splits)

lemma map_of_unset: "map_of (filter (\<lambda>(k, _). k \<noteq> name) ms) k = (if k = name then None else map_of ms k)"
  by (induction ms) auto

lemma distinct_unset: "distinct (map fst ms) \<Longrightarrow> distinct (map fst (filter P ms))"
  by (induction ms) auto

lemma list_all_put:
  "list_all P ms \<Longrightarrow> P (k, v) \<Longrightarrow> list_all P (map_put k v ms)" for ms :: "(string \<times> json) list"
  by (induction k v ms rule: map_put.induct) auto

lemma put_probes_doc:
  assumes doc: "state_doc ms st" and ps: "list_all2 probe_doc js ps" "int (length ps) < 10 ^ 14"
  obtains ms' where "put_probes js (JObject ms) = ret (JObject ms')" "state_doc ms' (with_probes ps st)"
proof -
  note D = state_docD [OF doc]
  define ms1 where "ms1 = (if js \<noteq> [] then map_put ''half_open_probes'' (JArray js) ms
    else filter (\<lambda>(k, _). k \<noteq> ''half_open_probes'') ms)"
  define ms' where "ms' = map_put ''half_open_in_flight'' (JInt (int (length js))) ms1"
  have run: "put_probes js (JObject ms) = ret (JObject ms')"
    by (simp add: put_probes_def lua_set_def lua_unset_def ms1_def ms'_def del: ret_run)
  have len: "length js = length ps" by (rule list_all2_lengthD [OF ps(1)])
  have one: "map_of ms1 k = (if k = ''half_open_probes'' then (if js = [] then None else Some (JArray js))
      else map_of ms k)" for k
    by (simp add: ms1_def map_of_unset)
  have fit1: "list_all (fits_member GatewayRuntimeState_fields) ms1"
    using D(2) probe_docs_fit_member [OF ps(1)] by (auto simp: ms1_def list_all_iff intro: list_all_put
      [unfolded list_all_iff, rule_format])
  have "in64 (int (length ps))" using ps(2) by (simp add: in64_14)
  then have fit: "list_all (fits_member GatewayRuntimeState_fields) ms'"
    unfolding ms'_def by (intro list_all_put fit1) (simp add: state_fits_member len)
  have dist: "distinct (map fst ms')"
    unfolding ms'_def ms1_def using D(1) by (simp add: distinct_map_put distinct_unset)
  have "state_doc ms' (with_probes ps st)"
    unfolding state_doc_def with_probes_simps
    using D(3-6,11) ps len
    by (intro conjI dist fit) (auto simp: ms'_def one)
  with run that show thesis by blast
qed

lemma store_state_doc:
  assumes server: "redis_server C db" and enc: "cjson_encoder enc" and doc: "state_doc ms st"
    and c: "Parse_RFC3339Nano c = Some now"
  obtains ms' where "gives db s (store_state C enc k code c (JObject ms))
      (Inr [ReplyText code, ReplyDoc (JObject ms')]) (s(k \<mapsto> RDoc (JObject ms')))"
    "state_doc ms' (st\<lparr>rt_UpdatedAt := now\<rparr>)"
proof -
  note D = state_docD [OF doc]
  let ?ms = "map_put ''updated_at'' (JString c) ms"
  have "state_doc ?ms (st\<lparr>rt_UpdatedAt := now\<rparr>)"
    unfolding state_doc_def using D c
    by (intro conjI) (auto simp: state_fits_member intro: list_all_put distinct_map_put)
  from state_doc_enc [OF enc this] obtain ms' where ms': "enc (JObject ?ms) = JObject ms'"
    "state_doc ms' (st\<lparr>rt_UpdatedAt := now\<rparr>)" by blast
  have "gives db s (store_state C enc k code c (JObject ms))
      (Inr [ReplyText code, ReplyDoc (JObject ms')]) (s(k \<mapsto> RDoc (JObject ms')))"
    by (simp add: store_state_def lua_set_def ms'(1) del: ret_run, rule gives_andThen_ret,
      rule server_strings(3) [OF server])
  with ms'(2) that show thesis by blast
qed

section \<open>What the scripts do\<close>

definition unexpired :: "time \<Rightarrow> GatewayRuntimeState \<Rightarrow> HalfOpenProbe list" where
  "unexpired now st = filter (\<lambda>p. UnixMilli now < hp_ExpiresAtUnixMilli p) (rt_HalfOpenProbes st)"

definition with_probes_at :: "time \<Rightarrow> HalfOpenProbe list \<Rightarrow> GatewayRuntimeState \<Rightarrow> GatewayRuntimeState" where
  "with_probes_at now ps st = (with_probes ps st)\<lparr>rt_UpdatedAt := now\<rparr>"

lemma half_open_word:
  "state_of_word (state_word x) = x \<Longrightarrow> state_word x = ''half_open'' \<longleftrightarrow> x = GatewayStateHalfOpen"
  by (auto simp: state_of_word_def)

lemma half_open_script:
  assumes server: "redis_server C db" and doc: "s k = Some (RDoc (JObject ms))" "state_doc ms st"
    and run: "rt_State st \<noteq> GatewayStateHalfOpen \<Longrightarrow> gives db s (B (JObject ms)) x t"
      "rt_State st = GatewayStateHalfOpen \<Longrightarrow> gives db s (D (JObject ms)) x t"
  shows "gives db s (andThen (rd_Get C k) (\<lambda>raw. case raw of None \<Rightarrow> A | Some raw \<Rightarrow>
      andThen (lift (lua_index (cjson_decode raw) ''state'')) (\<lambda>current.
        if current \<noteq> Some (JString ''half_open'') then B raw else D raw))) x t"
proof -
  note S = state_docD [OF doc(2)]
  have index: "lua_index (cjson_decode (JObject ms)) ''state'' = Inr (Some (JString (state_word (rt_State st))))"
    using S(1,4) by (simp add: lua_index_def cjson_decode_def)
  show ?thesis
    by (rule gives_andThen [OF server_strings(2) [where s = s, OF server doc(1)]])
      (use run half_open_word [OF S(5)] in \<open>auto simp: index simp del: ret_run\<close>)
qed

lemma state_doc_length: "state_doc ms st \<Longrightarrow> int (length (filter P (rt_HalfOpenProbes st))) < 10 ^ 14"
  using state_docD(9) [of ms st] length_filter_le [of P "rt_HalfOpenProbes st"] by linarith

lemma decode_state_doc: "state_doc ms st \<Longrightarrow> cjson_decode (JObject ms) = JObject ms"
  by (simp add: cjson_decode_def state_docD(1))

lemma prune_script:
  fixes C :: "'r Redis"
  assumes server: "redis_server C db" and enc: "cjson_encoder enc"
    and doc: "s k = Some (RDoc (JObject ms))" "state_doc ms st" and c: "Parse_RFC3339Nano c = Some now"
    and st': "st' = (if rt_State st \<noteq> GatewayStateHalfOpen then st else with_probes_at now (unexpired now st) st)"
  obtains ms' where "gives db s (pruneExpiredProbesScript C enc k (UnixMilli now) c)
      (Inr [ReplyText ''ok'', ReplyDoc (JObject ms')]) (s(k \<mapsto> RDoc (JObject ms')))" "state_doc ms' st'"
proof (cases "rt_State st = GatewayStateHalfOpen")
  case False
  have "gives db s (pruneExpiredProbesScript C enc k (UnixMilli now) c)
      (Inr [ReplyText ''ok'', ReplyDoc (JObject ms)]) s"
    unfolding pruneExpiredProbesScript_def
    by (rule half_open_script [where s = s, OF server doc]) (use False in \<open>simp_all add: gives_ret del: ret_run\<close>)
  with False doc st' that [of ms] show thesis by (simp add: map_upd_triv)
next
  case True
  obtain js where js: "state_probes (JObject ms) = Inr js" "list_all2 probe_doc js (rt_HalfOpenProbes st)"
    by (rule state_probes_doc [OF doc(2)])
  obtain as where as: "active_probes (UnixMilli now) js = (ret as :: ('r, go_error, json list) proc)"
    "list_all2 probe_doc as (unexpired now st)" unfolding unexpired_def by (rule active_probes_docs [OF js(2)])
  obtain ms1 where ms1: "put_probes as (JObject ms) = (ret (JObject ms1) :: ('r, go_error, json) proc)"
    "state_doc ms1 (with_probes (unexpired now st) st)"
    by (rule put_probes_doc [OF doc(2) as(2)]) (use state_doc_length [OF doc(2)] in \<open>simp add: unexpired_def\<close>)
  obtain ms2 where ms2: "gives db s (store_state C enc k ''ok'' c (JObject ms1))
      (Inr [ReplyText ''ok'', ReplyDoc (JObject ms2)]) (s(k \<mapsto> RDoc (JObject ms2)))" "state_doc ms2 st'"
    using True st' by (auto simp: with_probes_at_def intro: store_state_doc [OF server enc ms1(2) c])
  have "gives db s (pruneExpiredProbesScript C enc k (UnixMilli now) c)
      (Inr [ReplyText ''ok'', ReplyDoc (JObject ms2)]) (s(k \<mapsto> RDoc (JObject ms2)))"
    unfolding pruneExpiredProbesScript_def
    by (rule half_open_script [where s = s, OF server doc])
      (use True in \<open>simp_all add: decode_state_doc [OF doc(2)] js(1) as(1) ms1(1) ms2(1) del: ret_run\<close>)
  with ms2(2) that show thesis by blast
qed

lemma with_probes_twice [simp]: "with_probes qs (with_probes ps st) = with_probes qs st"
  by (simp add: with_probes_def)

lemma new_probe_doc:
  assumes "\<bar>UnixMilli expires\<bar> < 10 ^ 14"
  shows "probe_doc (JObject [(''transaction_id'', JString tid),
    (''expires_at_unix_milli'', JInt (UnixMilli expires))]) (new_probe tid expires)"
  using assms in64_14 [OF assms] by (simp add: probe_doc_def new_probe_def state_fits_member)

lemma acquire_script:
  fixes C :: "'r Redis"
  assumes server: "redis_server C db" and enc: "cjson_encoder enc"
    and doc: "s k = Some (RDoc (JObject ms))" "state_doc ms st" and c: "Parse_RFC3339Nano c = Some now"
    and small: "\<bar>UnixMilli expires\<bar> < 10 ^ 14" "maxn < 10 ^ 14"
    and st': "(code, st') = (if rt_State st \<noteq> GatewayStateHalfOpen then (''not_half_open'', st)
      else if maxn \<le> int (length (unexpired now st)) then (''full'', with_probes_at now (unexpired now st) st)
      else (''acquired'', with_probes_at now (unexpired now st @ [new_probe tid expires]) st))"
  obtains ms' where "gives db s (acquireProbeScript C enc k maxn tid (UnixMilli expires) (UnixMilli now) c)
      (Inr [ReplyText code, ReplyDoc (JObject ms')]) (s(k \<mapsto> RDoc (JObject ms')))" "state_doc ms' st'"
proof (cases "rt_State st = GatewayStateHalfOpen")
  case False
  have "gives db s (acquireProbeScript C enc k maxn tid (UnixMilli expires) (UnixMilli now) c)
      (Inr [ReplyText ''not_half_open'', ReplyDoc (JObject ms)]) s"
    unfolding acquireProbeScript_def
    by (rule half_open_script [where s = s, OF server doc]) (use False in \<open>simp_all add: gives_ret del: ret_run\<close>)
  with False doc st' that [of ms] show thesis by (simp add: map_upd_triv)
next
  case True
  let ?new = "JObject [(''transaction_id'', JString tid), (''expires_at_unix_milli'', JInt (UnixMilli expires))]"
  obtain js where js: "state_probes (JObject ms) = Inr js" "list_all2 probe_doc js (rt_HalfOpenProbes st)"
    by (rule state_probes_doc [OF doc(2)])
  obtain as where as: "active_probes (UnixMilli now) js = (ret as :: ('r, go_error, json list) proc)"
    "list_all2 probe_doc as (unexpired now st)" unfolding unexpired_def by (rule active_probes_docs [OF js(2)])
  obtain ms1 where ms1: "put_probes as (JObject ms) = (ret (JObject ms1) :: ('r, go_error, json) proc)"
    "state_doc ms1 (with_probes (unexpired now st) st)"
    by (rule put_probes_doc [OF doc(2) as(2)]) (use state_doc_length [OF doc(2)] in \<open>simp add: unexpired_def\<close>)
  have len: "length as = length (unexpired now st)" by (rule list_all2_lengthD [OF as(2)])
  obtain ms2 where ms2: "gives db s (if maxn \<le> int (length as) then store_state C enc k ''full'' c (JObject ms1)
      else andThen (put_probes (as @ [?new]) (JObject ms1)) (store_state C enc k ''acquired'' c))
      (Inr [ReplyText code, ReplyDoc (JObject ms2)]) (s(k \<mapsto> RDoc (JObject ms2)))" "state_doc ms2 st'"
  proof (cases "maxn \<le> int (length as)")
    case full: True
    then show ?thesis
      using True st' len that
      by (auto simp: with_probes_at_def intro: store_state_doc [OF server enc ms1(2) c])
  next
    case False
    have docs: "list_all2 probe_doc (as @ [?new]) (unexpired now st @ [new_probe tid expires])"
      using as(2) new_probe_doc [OF small(1)] by (simp add: list_all2_appendI)
    obtain ms3 where ms3: "put_probes (as @ [?new]) (JObject ms1) = (ret (JObject ms3) :: ('r, go_error, json) proc)"
      "state_doc ms3 (with_probes (unexpired now st @ [new_probe tid expires]) st)"
      by (rule put_probes_doc [OF ms1(2) docs]) (use False small(2) len in simp_all)
    show ?thesis
      by (rule store_state_doc [where s = s and k = k and code = code, OF server enc ms3(2) c], rule that)
        (use False True st' len ms3(1) in \<open>simp_all add: with_probes_at_def\<close>)
  qed
  have "gives db s (acquireProbeScript C enc k maxn tid (UnixMilli expires) (UnixMilli now) c)
      (Inr [ReplyText code, ReplyDoc (JObject ms2)]) (s(k \<mapsto> RDoc (JObject ms2)))"
    unfolding acquireProbeScript_def
    by (rule half_open_script [where s = s, OF server doc])
      (use True ms2(1) in \<open>simp_all add: decode_state_doc [OF doc(2)] js(1) as(1) ms1(1) del: ret_run\<close>)
  with ms2(2) that show thesis by blast
qed

lemma release_script:
  fixes C :: "'r Redis"
  assumes server: "redis_server C db" and enc: "cjson_encoder enc"
    and doc: "s k = Some (RDoc (JObject ms))" "state_doc ms st" and c: "Parse_RFC3339Nano c = Some now"
    and st': "(code, st') = (if rt_State st \<noteq> GatewayStateHalfOpen then (''not_half_open'', st)
      else (if \<exists>p \<in> set (unexpired now st). hp_TransactionID p = tid then ''released'' else ''not_found'',
        with_probes_at now (filter (\<lambda>p. hp_TransactionID p \<noteq> tid) (unexpired now st)) st))"
  obtains ms' where "gives db s (releaseProbeScript C enc k tid (UnixMilli now) c)
      (Inr [ReplyText code, ReplyDoc (JObject ms')]) (s(k \<mapsto> RDoc (JObject ms')))" "state_doc ms' st'"
proof (cases "rt_State st = GatewayStateHalfOpen")
  case False
  have "gives db s (releaseProbeScript C enc k tid (UnixMilli now) c)
      (Inr [ReplyText ''not_half_open'', ReplyDoc (JObject ms)]) s"
    unfolding releaseProbeScript_def
    by (rule half_open_script [where s = s, OF server doc]) (use False in \<open>simp_all add: gives_ret del: ret_run\<close>)
  with False doc st' that [of ms] show thesis by (simp add: map_upd_triv)
next
  case True
  let ?kept = "filter (\<lambda>p. hp_TransactionID p \<noteq> tid) (unexpired now st)"
  let ?released = "\<exists>p \<in> set (unexpired now st). hp_TransactionID p = tid"
  obtain js where js: "state_probes (JObject ms) = Inr js" "list_all2 probe_doc js (rt_HalfOpenProbes st)"
    by (rule state_probes_doc [OF doc(2)])
  have kept: "?kept = filter (\<lambda>p. UnixMilli now < hp_ExpiresAtUnixMilli p \<and> hp_TransactionID p \<noteq> tid) (rt_HalfOpenProbes st)"
    by (simp add: unexpired_def conj_commute)
  have released: "?released \<longleftrightarrow> (\<exists>p \<in> set (rt_HalfOpenProbes st). UnixMilli now < hp_ExpiresAtUnixMilli p \<and> hp_TransactionID p = tid)"
    by (auto simp: unexpired_def)
  obtain as where as: "release_loop (UnixMilli now) tid js = (ret (as, ?released) :: ('r, go_error, json list \<times> bool) proc)"
    "list_all2 probe_doc as ?kept" unfolding kept released by (rule release_loop_docs [OF js(2)])
  obtain ms1 where ms1: "put_probes as (JObject ms) = (ret (JObject ms1) :: ('r, go_error, json) proc)"
    "state_doc ms1 (with_probes ?kept st)"
    by (rule put_probes_doc [OF doc(2) as(2)]) (use state_doc_length [OF doc(2)] in \<open>simp add: kept\<close>)
  obtain ms2 where ms2: "gives db s (store_state C enc k code c (JObject ms1))
      (Inr [ReplyText code, ReplyDoc (JObject ms2)]) (s(k \<mapsto> RDoc (JObject ms2)))" "state_doc ms2 st'"
    using True st' by (auto simp: with_probes_at_def intro: store_state_doc [OF server enc ms1(2) c])
  have "gives db s (releaseProbeScript C enc k tid (UnixMilli now) c)
      (Inr [ReplyText code, ReplyDoc (JObject ms2)]) (s(k \<mapsto> RDoc (JObject ms2)))"
    unfolding releaseProbeScript_def
    by (rule half_open_script [where s = s, OF server doc])
      (use True ms2(1) st' in \<open>simp_all add: decode_state_doc [OF doc(2)] js(1) as(1) ms1(1) del: ret_run\<close>)
  with ms2(2) that show thesis by blast
qed

lemma missing_script:
  assumes server: "redis_server C db" and "s k = None"
  shows "gives db s (pruneExpiredProbesScript C enc k n c) (Inr [ReplyText ''missing'']) s"
    "gives db s (acquireProbeScript C enc k maxn tid e n c) (Inr [ReplyText ''missing'']) s"
    "gives db s (releaseProbeScript C enc k tid n c) (Inr [ReplyText ''missing'']) s"
  unfolding pruneExpiredProbesScript_def acquireProbeScript_def releaseProbeScript_def
  by (rule gives_andThen [OF server_strings(1) [where s = s, OF assms]], simp only: option.case gives_ret)+

end
