(* ===== verification/RedisHealthSpec.thy ===== *)
theory RedisHealthSpec
  imports RedisHealthScripts
begin

text \<open>
  The health repository over Redis against the memory repository: the operations on states and probes
  agree up to the time of the last update.
\<close>

section \<open>Calls\<close>

datatype health_op = HEnsure string time | HGet string | HSave GatewayRuntimeState
  | HPrune string time | HAcquire string string int time time | HRelease string string time

datatype health_result = Done | GotState GatewayRuntimeState | Tried GatewayRuntimeState bool

fun health_call :: "'h GatewayHealthRepository \<Rightarrow> health_op \<Rightarrow> ('h, go_error, health_result) proc" where
  "health_call H (HEnsure g now) = andThen (hr_Ensure H g now) (\<lambda>_. ret Done)"
| "health_call H (HGet g) = andThen (hr_Get H g) (\<lambda>st. ret (GotState st))"
| "health_call H (HSave st) = andThen (hr_Save H st) (\<lambda>_. ret Done)"
| "health_call H (HPrune g now) =
     andThen (hr_PruneExpiredHalfOpenProbes H g now) (\<lambda>st. ret (GotState st))"
| "health_call H (HAcquire g tid maxn expires now) =
     andThen (hr_TryAcquireHalfOpenProbe H g tid maxn expires now) (\<lambda>(st, ok). ret (Tried st ok))"
| "health_call H (HRelease g tid now) =
     andThen (hr_ReleaseHalfOpenProbe H g tid now) (\<lambda>(st, ok). ret (Tried st ok))"

text \<open>
  A result without the time of the last update: the script sets it when no probe is free, the
  memory repository does not.
\<close>

definition untimed :: "GatewayRuntimeState \<Rightarrow> GatewayRuntimeState" where
  "untimed st = st\<lparr>rt_UpdatedAt := zero_time\<rparr>"

fun untimed_result :: "go_error + health_result \<Rightarrow> go_error + health_result" where
  "untimed_result (Inr (GotState st)) = Inr (GotState (untimed st))"
| "untimed_result (Inr (Tried st ok)) = Inr (Tried (untimed st) ok)"
| "untimed_result y = y"

fun health_calls :: "'h GatewayHealthRepository \<Rightarrow> health_op list \<Rightarrow> 'h \<Rightarrow> (go_error + health_result) list" where
  "health_calls H [] h = []"
| "health_calls H (p # ps) h =
     (case health_call H p h of (y, h') \<Rightarrow> untimed_result y # health_calls H ps h')"

definition writable :: "time \<Rightarrow> bool" where
  "writable t \<longleftrightarrow> 0 \<le> year_of t \<and> year_of t \<le> 9999"

text \<open>
  A state the health service saves: times that can be written, a state spelled like one only if it is
  one, probes of named transactions, and numbers of at most 14 digits (for milliseconds since 1970
  these reach the year 5138).
\<close>

definition storable_state :: "GatewayRuntimeState \<Rightarrow> bool" where
  "storable_state st \<longleftrightarrow> plain_name (rt_Gateway st) \<and> writable (rt_UnhealthyUntil st) \<and>
     writable (rt_UpdatedAt st) \<and> state_of_word (state_word (rt_State st)) = rt_State st \<and>
     \<bar>rt_HalfOpenInFlight st\<bar> < 10 ^ 14 \<and> int (length (rt_HalfOpenProbes st)) < 10 ^ 14 \<and>
     (\<forall>p \<in> set (rt_HalfOpenProbes st). hp_TransactionID p \<noteq> '''' \<and> \<bar>hp_ExpiresAtUnixMilli p\<bar> < 10 ^ 14)"

fun plain_health_op :: "health_op \<Rightarrow> bool" where
  "plain_health_op (HEnsure g now) \<longleftrightarrow> plain_name g \<and> writable now"
| "plain_health_op (HGet g) \<longleftrightarrow> plain_name g"
| "plain_health_op (HSave st) \<longleftrightarrow> storable_state st"
| "plain_health_op (HPrune g now) \<longleftrightarrow> plain_name g \<and> writable now"
| "plain_health_op (HAcquire g tid maxn expires now) \<longleftrightarrow> plain_name g \<and> tid \<noteq> '''' \<and>
     maxn < 10 ^ 14 \<and> \<bar>UnixMilli expires\<bar> < 10 ^ 14 \<and> writable now"
| "plain_health_op (HRelease g tid now) \<longleftrightarrow> plain_name g \<and> writable now"

definition named_probes :: "GatewayRuntimeState \<Rightarrow> bool" where
  "named_probes st \<longleftrightarrow> (\<forall>p \<in> set (rt_HalfOpenProbes st). hp_TransactionID p \<noteq> '''')"

definition holds_state :: "redis_value option \<Rightarrow> GatewayRuntimeState option \<Rightarrow> bool" where
  "holds_state v x \<longleftrightarrow> (case x of
     None \<Rightarrow> v = None
   | Some st \<Rightarrow> (\<exists>ms st'. v = Some (RDoc (JObject ms)) \<and> state_doc ms st' \<and>
       untimed st' = untimed st \<and> named_probes st))"

definition mirrors_health :: "'r Store \<Rightarrow> keyspace \<Rightarrow> MemoryHealth \<Rightarrow> bool" where
  "mirrors_health S s h \<longleftrightarrow> (\<forall>g. plain_name g \<longrightarrow> holds_state (s (stateKey S g)) (mh_states h g))"

lemma stateKey_inj: "plain_name g \<Longrightarrow> plain_name g' \<Longrightarrow> stateKey S g = stateKey S g' \<longleftrightarrow> g = g'"
  by (simp add: stateKey_def Key_inj)

lemma mirrors_health_put:
  assumes "mirrors_health S s h" "plain_name g" "holds_state v (Some st)"
  shows "mirrors_health S (s(stateKey S g := v)) (h\<lparr>mh_states := (mh_states h)(g \<mapsto> st)\<rparr>)"
  using assms by (simp add: mirrors_health_def stateKey_inj)

lemma mirrors_health_empty: "mirrors_health S Map.empty MemHealth_New"
  by (simp add: mirrors_health_def holds_state_def MemHealth_New_def)

lemma untimed_parts:
  assumes "untimed a = untimed b"
  shows "rt_State a = rt_State b" "rt_HalfOpenProbes a = rt_HalfOpenProbes b" "rt_Gateway a = rt_Gateway b"
    "untimed (with_probes ps a) = untimed (with_probes ps b)"
proof -
  show "rt_State a = rt_State b" "rt_HalfOpenProbes a = rt_HalfOpenProbes b" "rt_Gateway a = rt_Gateway b"
    using arg_cong [OF assms, of rt_State] arg_cong [OF assms, of rt_HalfOpenProbes]
      arg_cong [OF assms, of rt_Gateway] by (simp_all add: untimed_def)
  have "untimed (with_probes ps c) = with_probes ps (untimed c)" for c
    by (simp add: untimed_def with_probes_def)
  with assms show "untimed (with_probes ps a) = untimed (with_probes ps b)" by simp
qed

lemma untimed_update [simp]: "untimed (st\<lparr>rt_UpdatedAt := t\<rparr>) = untimed st"
  "untimed (with_probes_at t ps st) = untimed (with_probes ps st)"
  by (simp_all add: untimed_def with_probes_at_def)

lemma live_unexpired: "named_probes st \<Longrightarrow> live_probes now st = unexpired now st"
  by (auto simp: named_probes_def live_probes_def unexpired_def live_probe_def intro: filter_cong)

lemma named_simps [simp]: "named_probes (st\<lparr>rt_UpdatedAt := t\<rparr>) = named_probes st"
  by (simp add: named_probes_def)

lemma named_filter: "named_probes st \<Longrightarrow> (\<And>p. p \<in> set ps \<Longrightarrow> p \<in> set (rt_HalfOpenProbes st) \<or> hp_TransactionID p \<noteq> '''')
    \<Longrightarrow> named_probes (with_probes ps st)"
  by (auto simp: named_probes_def)

section \<open>Writing a state\<close>

lemma probe_json_doc:
  assumes "\<bar>hp_ExpiresAtUnixMilli p\<bar> < 10 ^ 14"
  shows "probe_doc (probe_json p) p"
  using assms in64_14 [OF assms] by (simp add: probe_doc_def probe_json_def state_fits_member)

lemma Marshal_state_doc:
  assumes "storable_state st"
  obtains ms where "json_Marshal_GatewayRuntimeState st = Some (JObject ms)" "state_doc ms st"
proof -
  have years: "writable (rt_UnhealthyUntil st)" "writable (rt_UpdatedAt st)"
    and word: "state_of_word (state_word (rt_State st)) = rt_State st"
    and small: "\<bar>rt_HalfOpenInFlight st\<bar> < 10 ^ 14" "int (length (rt_HalfOpenProbes st)) < 10 ^ 14"
    and probes: "\<forall>p \<in> set (rt_HalfOpenProbes st). \<bar>hp_ExpiresAtUnixMilli p\<bar> < 10 ^ 14"
    using assms by (simp_all add: storable_state_def)
  let ?u = "Format_RFC3339Nano (rt_UnhealthyUntil st)" and ?t = "Format_RFC3339Nano (rt_UpdatedAt st)"
  let ?js = "map probe_json (rt_HalfOpenProbes st)"
  have times: "Parse_RFC3339Nano ?u = Some (rt_UnhealthyUntil st)" "Parse_RFC3339Nano ?t = Some (rt_UpdatedAt st)"
    using years by (simp_all add: writable_def Parse_Format_RFC3339Nano)
  define ms where "ms = [(''gateway'', JString (rt_Gateway st)), (''state'', JString (state_word (rt_State st))),
     (''unhealthy_until'', JString ?u), (''half_open_in_flight'', JInt (rt_HalfOpenInFlight st))] @
    (if rt_HalfOpenProbes st = [] then [] else [(''half_open_probes'', JArray ?js)]) @ [(''updated_at'', JString ?t)]"
  have run: "json_Marshal_GatewayRuntimeState st = Some (JObject ms)"
    using years by (simp add: json_Marshal_GatewayRuntimeState_def time_json_def writable_def ms_def)
  have docs: "list_all2 probe_doc ?js (rt_HalfOpenProbes st)"
    using probes by (simp add: list_all2_conv_all_nth probe_json_doc)
  have "list_all (fits_member GatewayRuntimeState_fields) ms"
    using times in64_14 [OF small(1)] probe_docs_fit_member [OF docs] by (simp add: ms_def state_fits_member)
  moreover have "distinct (map fst ms)" by (simp add: ms_def)
  ultimately have "state_doc ms st"
    unfolding state_doc_def using word small times docs by (intro conjI) (auto simp: ms_def)
  with run that show thesis by blast
qed

section \<open>Each call\<close>

lemma named_live: "named_probes st \<Longrightarrow> named_probes (with_probes (live_probes now st) st)"
  "named_probes st \<Longrightarrow> named_probes (with_probes (filter P (live_probes now st)) st)"
  "named_probes st \<Longrightarrow> tid \<noteq> '''' \<Longrightarrow> named_probes (with_probes (live_probes now st @ [new_probe tid t]) st)"
  by (rule named_filter; auto simp: live_probes_def new_probe_def)+

lemma storable_initial:
  assumes "plain_name g" "writable now"
  shows "storable_state (initial_state g now)"
  using assms by (simp add: storable_state_def initial_state_def writable_def year_of_zero state_of_word_def)

lemma Marshal_run:
  "json_Marshal_GatewayRuntimeState st = Some j \<Longrightarrow> marshalled (json_Marshal_GatewayRuntimeState st) = ret j"
  by (simp add: marshalled_def)

lemma mirrors_held:
  assumes "mirrors_health S s h" "plain_name g"
  obtains "mh_states h g = None" "s (stateKey S g) = None"
  | st ms st' where "mh_states h g = Some st" "s (stateKey S g) = Some (RDoc (JObject ms))" "state_doc ms st'"
    "untimed st' = untimed st" "named_probes st"
proof -
  have "holds_state (s (stateKey S g)) (mh_states h g)" using assms by (simp add: mirrors_health_def)
  then show thesis using that by (cases "mh_states h g") (auto simp: holds_state_def)
qed

lemma ensure_step:
  assumes server: "redis_server (st_client S) db" and mirrors: "mirrors_health S s h"
    and op: "plain_name g" "writable now"
  shows "\<exists>s'. gives db s (RedisHealth_Ensure S g now) (Inr ()) s' \<and>
    mirrors_health S s' (snd (MemHealth_Ensure g now h))"
proof -
  obtain ms where ms: "json_Marshal_GatewayRuntimeState (initial_state g now) = Some (JObject ms)"
    "state_doc ms (initial_state g now)"
    by (rule Marshal_state_doc [OF storable_initial [OF op]])
  have run: "RedisHealth_Ensure S g now =
      andThen (rd_SetNX (st_client S) (stateKey S g) (JObject ms)) (\<lambda>_. ret ())"
    by (simp only: RedisHealth_Ensure_def initial_state_def [symmetric] Marshal_run [OF ms(1)] andThen_ret)
  show ?thesis
  proof (cases rule: mirrors_held [OF mirrors op(1)])
    case 1
    have "gives db s (RedisHealth_Ensure S g now) (Inr ()) (s(stateKey S g \<mapsto> RDoc (JObject ms)))"
      unfolding run by (rule gives_andThen_ret [OF server_strings(4) [where s = s, OF server 1(2)]])
    moreover have "holds_state (Some (RDoc (JObject ms))) (Some (initial_state g now))"
      using ms(2) by (auto simp: holds_state_def named_probes_def initial_state_def)
    ultimately show ?thesis
      using mirrors_health_put [OF mirrors op(1)] 1(1)
      by (auto simp: MemHealth_Ensure_def initial_state_def)
  next
    case (2 st ms' st')
    then have "s (stateKey S g) \<noteq> None" by simp
    have "gives db s (RedisHealth_Ensure S g now) (Inr ()) s"
      unfolding run by (rule gives_andThen_ret [OF server_strings(5) [where s = s, OF server \<open>s _ \<noteq> None\<close>]])
    with mirrors 2(1) show ?thesis by (auto simp: MemHealth_Ensure_def)
  qed
qed

lemma save_state_step:
  assumes server: "redis_server (st_client S) db" and mirrors: "mirrors_health S s h" and op: "storable_state st"
  shows "\<exists>s'. gives db s (RedisHealth_Save S st) (Inr ()) s' \<and> mirrors_health S s' (snd (MemHealth_Save st h))"
proof -
  obtain ms where ms: "json_Marshal_GatewayRuntimeState st = Some (JObject ms)" "state_doc ms st"
    by (rule Marshal_state_doc [OF op])
  have "gives db s (RedisHealth_Save S st) (Inr ()) (s(stateKey S (rt_Gateway st) \<mapsto> RDoc (JObject ms)))"
    by (simp only: RedisHealth_Save_def Marshal_run [OF ms(1)] andThen_ret server_strings(3) [OF server])
  moreover have "holds_state (Some (RDoc (JObject ms))) (Some st)" "plain_name (rt_Gateway st)"
    using ms(2) op by (auto simp: holds_state_def named_probes_def storable_state_def)
  ultimately show ?thesis using mirrors_health_put [OF mirrors] by (auto simp: MemHealth_Save_def)
qed

lemma get_state_step:
  assumes server: "redis_server (st_client S) db" and mirrors: "mirrors_health S s h" and op: "plain_name g"
  shows "\<exists>y'. gives db s (RedisHealth_Get S g) y' s \<and>
    map_sum id untimed y' = map_sum id untimed (fst (MemHealth_Get g h)) \<and> snd (MemHealth_Get g h) = h"
proof (cases rule: mirrors_held [OF mirrors op])
  case 1
  have "gives db s (RedisHealth_Get S g) (Inl (gateway_not_found g)) s"
    unfolding RedisHealth_Get_def getState_def gateway_not_found_def
    by (rule gives_andThen [OF server_strings(1) [where s = s, OF server 1(2)]]) (simp only: option.case gives_throw)
  with 1(1) show ?thesis by (auto simp: MemHealth_Get_def)
next
  case (2 st ms st')
  have "gives db s (RedisHealth_Get S g) (Inr st') s"
    unfolding RedisHealth_Get_def getState_def
    by (rule gives_andThen [OF server_strings(2) [where s = s, OF server 2(2)]])
      (simp only: option.case state_doc_decodes [OF 2(3)] lift_simps gives_ret)
  with 2(1,4) show ?thesis by (auto simp: MemHealth_Get_def)
qed

lemma read_state_run:
  "read_state what g [ReplyText ''missing''] = throw (gateway_not_found g)"
  "state_doc ms st \<Longrightarrow> code \<noteq> ''missing'' \<Longrightarrow> read_state what g [ReplyText code, ReplyDoc (JObject ms)] = ret st"
  by (simp_all add: read_state_def reply_text_def gateway_not_found_def decode_reply_def state_doc_decodes
      del: ret_run throw_run)

lemma holds_stateI:
  "state_doc ms st' \<Longrightarrow> untimed st' = untimed st \<Longrightarrow> named_probes st \<Longrightarrow>
   holds_state (Some (RDoc (JObject ms))) (Some st)"
  by (auto simp: holds_state_def)

lemma unexpired_untimed:
  assumes "untimed st' = untimed st" "named_probes st"
  shows "unexpired now st' = live_probes now st"
  using assms(2) untimed_parts(2) [OF assms(1)] by (simp add: live_unexpired unexpired_def)

text \<open>The memory operations on a gateway that has a state, in one form.\<close>

lemma memory_probe_calls:
  assumes "mh_states h g = Some st"
  shows "MemHealth_PruneExpiredHalfOpenProbes g now h =
      (let m = (if rt_State st \<noteq> GatewayStateHalfOpen then st
         else with_probes_at now (live_probes now st) st) in
       (Inr m, h\<lparr>mh_states := (mh_states h)(g \<mapsto> m)\<rparr>))"
    "MemHealth_TryAcquireHalfOpenProbe g tid maxn expires now h =
      (let m = (if rt_State st \<noteq> GatewayStateHalfOpen then st
         else if maxn \<le> int (length (live_probes now st)) then with_probes (live_probes now st) st
         else with_probes_at now (live_probes now st @ [new_probe tid expires]) st) in
       (Inr (m, rt_State st = GatewayStateHalfOpen \<and> int (length (live_probes now st)) < maxn),
        h\<lparr>mh_states := (mh_states h)(g \<mapsto> m)\<rparr>))"
    "MemHealth_ReleaseHalfOpenProbe g tid now h =
      (let m = (if rt_State st \<noteq> GatewayStateHalfOpen then st
         else with_probes_at now (filter (\<lambda>p. hp_TransactionID p \<noteq> tid) (live_probes now st)) st) in
       (Inr (m, rt_State st = GatewayStateHalfOpen \<and> (\<exists>p \<in> set (live_probes now st). hp_TransactionID p = tid)),
        h\<lparr>mh_states := (mh_states h)(g \<mapsto> m)\<rparr>))"
  using assms
  by (auto simp: MemHealth_Prune_Some MemHealth_TryAcquire_Some MemHealth_Release_Some with_probes_at_def
      Let_def map_upd_triv)

lemma named_at [simp]: "named_probes (with_probes_at t ps st) = named_probes (with_probes ps st)"
  by (simp add: with_probes_at_def)

lemma prune_step:
  assumes server: "redis_server (st_client S) db" and enc: "cjson_encoder enc"
    and mirrors: "mirrors_health S s h" and op: "plain_name g" "writable now"
    and run: "MemHealth_PruneExpiredHalfOpenProbes g now h = (y, h')"
  shows "\<exists>s' y'. gives db s (RedisHealth_PruneExpiredHalfOpenProbes S enc g now) y' s' \<and>
    map_sum id untimed y' = map_sum id untimed y \<and> mirrors_health S s' h'"
proof -
  let ?c = "Format_RFC3339Nano now"
  have c: "Parse_RFC3339Nano ?c = Some now" using op(2) by (simp add: writable_def Parse_Format_RFC3339Nano)
  show ?thesis
  proof (cases rule: mirrors_held [OF mirrors op(1)])
    case 1
    have "gives db s (RedisHealth_PruneExpiredHalfOpenProbes S enc g now) (Inl (gateway_not_found g)) s"
      unfolding RedisHealth_PruneExpiredHalfOpenProbes_def
      by (rule gives_andThen [OF server_strings(8) [OF server missing_script(1) [where s = s, OF server 1(2)]]])
        (simp only: read_state_run gives_throw)
    with run 1(1) mirrors show ?thesis by (auto simp: MemHealth_probe_None)
  next
    case (2 st ms st')
    define st2 where "st2 = (if rt_State st' \<noteq> GatewayStateHalfOpen then st' else with_probes_at now (unexpired now st') st')"
    obtain ms2 where ms2: "gives db s (pruneExpiredProbesScript (st_client S) enc (stateKey S g) (UnixMilli now) ?c)
        (Inr [ReplyText ''ok'', ReplyDoc (JObject ms2)]) (s(stateKey S g \<mapsto> RDoc (JObject ms2)))" "state_doc ms2 st2"
      by (rule prune_script [where s = s, OF server enc 2(2,3) c st2_def])
    have "gives db s (RedisHealth_PruneExpiredHalfOpenProbes S enc g now) (Inr st2) (s(stateKey S g \<mapsto> RDoc (JObject ms2)))"
      unfolding RedisHealth_PruneExpiredHalfOpenProbes_def
      by (rule gives_andThen [OF server_strings(8) [OF server ms2(1)]]) (simp add: read_state_run(2) [OF ms2(2)] gives_ret del: ret_run)
    moreover obtain m where m: "y = Inr m" "untimed st2 = untimed m" "named_probes m"
      "h' = h\<lparr>mh_states := (mh_states h)(g \<mapsto> m)\<rparr>"
    proof
      let ?m = "if rt_State st \<noteq> GatewayStateHalfOpen then st
         else with_probes_at now (live_probes now st) st"
      show "y = Inr ?m" "h' = h\<lparr>mh_states := (mh_states h)(g \<mapsto> ?m)\<rparr>"
        using run by (simp_all add: memory_probe_calls(1) [OF 2(1)] Let_def)
      show "untimed st2 = untimed ?m" "named_probes ?m"
        unfolding st2_def unexpired_untimed [OF 2(4,5)] untimed_parts(1) [OF 2(4)]
        using 2(4,5) untimed_parts(4) [OF 2(4)] by (simp_all add: named_live)
    qed
    ultimately show ?thesis
      using mirrors_health_put [OF mirrors op(1) holds_stateI [OF ms2(2) m(2,3)]] by fastforce
  qed
qed

lemma acquire_step:
  assumes server: "redis_server (st_client S) db" and enc: "cjson_encoder enc"
    and mirrors: "mirrors_health S s h"
    and op: "plain_name g" "tid \<noteq> ''''" "maxn < 10 ^ 14" "\<bar>UnixMilli expires\<bar> < 10 ^ 14" "writable now"
    and run: "MemHealth_TryAcquireHalfOpenProbe g tid maxn expires now h = (y, h')"
  shows "\<exists>s' y'. gives db s (RedisHealth_TryAcquireHalfOpenProbe S enc g tid maxn expires now) y' s' \<and>
    map_sum id (map_prod untimed id) y' = map_sum id (map_prod untimed id) y \<and> mirrors_health S s' h'"
proof -
  let ?c = "Format_RFC3339Nano now"
  have c: "Parse_RFC3339Nano ?c = Some now" using op(5) by (simp add: writable_def Parse_Format_RFC3339Nano)
  show ?thesis
  proof (cases rule: mirrors_held [OF mirrors op(1)])
    case 1
    have "gives db s (RedisHealth_TryAcquireHalfOpenProbe S enc g tid maxn expires now) (Inl (gateway_not_found g)) s"
      unfolding RedisHealth_TryAcquireHalfOpenProbe_def
      by (rule gives_andThen [OF server_strings(8) [OF server missing_script(2) [where s = s, OF server 1(2)]]])
        (simp only: read_state_run andThen_throw gives_throw)
    with run 1(1) mirrors show ?thesis by (auto simp: MemHealth_probe_None)
  next
    case (2 st ms st')
    obtain code st2 where st2: "(code, st2) = (if rt_State st' \<noteq> GatewayStateHalfOpen then (''not_half_open'', st')
      else if maxn \<le> int (length (unexpired now st')) then (''full'', with_probes_at now (unexpired now st') st')
      else (''acquired'', with_probes_at now (unexpired now st' @ [new_probe tid expires]) st'))"
      by (metis surj_pair)
    obtain ms2 where ms2: "gives db s (acquireProbeScript (st_client S) enc (stateKey S g) maxn tid
          (UnixMilli expires) (UnixMilli now) ?c)
        (Inr [ReplyText code, ReplyDoc (JObject ms2)]) (s(stateKey S g \<mapsto> RDoc (JObject ms2)))" "state_doc ms2 st2"
      by (rule acquire_script [where s = s, OF server enc 2(2,3) c op(4,3) st2])
    have "code \<noteq> ''missing''" using st2 by (auto split: if_splits)
    have "gives db s (RedisHealth_TryAcquireHalfOpenProbe S enc g tid maxn expires now)
        (Inr (st2, code = ''acquired'')) (s(stateKey S g \<mapsto> RDoc (JObject ms2)))"
      unfolding RedisHealth_TryAcquireHalfOpenProbe_def
      by (rule gives_andThen [OF server_strings(8) [OF server ms2(1)]])
        (simp add: read_state_run(2) [OF ms2(2) \<open>code \<noteq> _\<close>] gives_ret reply_text_def del: ret_run)
    moreover obtain m ok where m: "y = Inr (m, ok)" "untimed st2 = untimed m" "named_probes m"
      "h' = h\<lparr>mh_states := (mh_states h)(g \<mapsto> m)\<rparr>" "ok \<longleftrightarrow> code = ''acquired''"
    proof
      let ?m = "if rt_State st \<noteq> GatewayStateHalfOpen then st
         else if maxn \<le> int (length (live_probes now st)) then with_probes (live_probes now st) st
         else with_probes_at now (live_probes now st @ [new_probe tid expires]) st"
      let ?ok = "rt_State st = GatewayStateHalfOpen \<and> int (length (live_probes now st)) < maxn"
      show "y = Inr (?m, ?ok)" "h' = h\<lparr>mh_states := (mh_states h)(g \<mapsto> ?m)\<rparr>"
        using run by (simp_all only: memory_probe_calls(2) [OF 2(1)] Let_def prod.inject)
      show "untimed st2 = untimed ?m" "named_probes ?m" "?ok = (code = ''acquired'')"
        using st2 2(4,5) untimed_parts(4) [OF 2(4)] op(2)
        unfolding unexpired_untimed [OF 2(4,5)] untimed_parts(1) [OF 2(4)]
        by (auto simp: named_live split: if_splits)
    qed
    ultimately show ?thesis
      using mirrors_health_put [OF mirrors op(1) holds_stateI [OF ms2(2) m(2,3)]] by fastforce
  qed
qed

lemma release_step:
  assumes server: "redis_server (st_client S) db" and enc: "cjson_encoder enc"
    and mirrors: "mirrors_health S s h" and op: "plain_name g" "writable now"
    and run: "MemHealth_ReleaseHalfOpenProbe g tid now h = (y, h')"
  shows "\<exists>s' y'. gives db s (RedisHealth_ReleaseHalfOpenProbe S enc g tid now) y' s' \<and>
    map_sum id (map_prod untimed id) y' = map_sum id (map_prod untimed id) y \<and> mirrors_health S s' h'"
proof -
  let ?c = "Format_RFC3339Nano now"
  have c: "Parse_RFC3339Nano ?c = Some now" using op(2) by (simp add: writable_def Parse_Format_RFC3339Nano)
  show ?thesis
  proof (cases rule: mirrors_held [OF mirrors op(1)])
    case 1
    have "gives db s (RedisHealth_ReleaseHalfOpenProbe S enc g tid now) (Inl (gateway_not_found g)) s"
      unfolding RedisHealth_ReleaseHalfOpenProbe_def
      by (rule gives_andThen [OF server_strings(8) [OF server missing_script(3) [where s = s, OF server 1(2)]]])
        (simp only: read_state_run andThen_throw gives_throw)
    with run 1(1) mirrors show ?thesis by (auto simp: MemHealth_probe_None)
  next
    case (2 st ms st')
    obtain code st2 where st2: "(code, st2) = (if rt_State st' \<noteq> GatewayStateHalfOpen then (''not_half_open'', st')
      else (if \<exists>p \<in> set (unexpired now st'). hp_TransactionID p = tid then ''released'' else ''not_found'',
        with_probes_at now (filter (\<lambda>p. hp_TransactionID p \<noteq> tid) (unexpired now st')) st'))"
      by (metis surj_pair)
    obtain ms2 where ms2: "gives db s (releaseProbeScript (st_client S) enc (stateKey S g) tid (UnixMilli now) ?c)
        (Inr [ReplyText code, ReplyDoc (JObject ms2)]) (s(stateKey S g \<mapsto> RDoc (JObject ms2)))" "state_doc ms2 st2"
      by (rule release_script [where s = s, OF server enc 2(2,3) c st2])
    have "code \<noteq> ''missing''" using st2 by (auto split: if_splits)
    have "gives db s (RedisHealth_ReleaseHalfOpenProbe S enc g tid now)
        (Inr (st2, code = ''released'')) (s(stateKey S g \<mapsto> RDoc (JObject ms2)))"
      unfolding RedisHealth_ReleaseHalfOpenProbe_def
      by (rule gives_andThen [OF server_strings(8) [OF server ms2(1)]])
        (simp add: read_state_run(2) [OF ms2(2) \<open>code \<noteq> _\<close>] gives_ret reply_text_def del: ret_run)
    moreover obtain m ok where m: "y = Inr (m, ok)" "untimed st2 = untimed m" "named_probes m"
      "h' = h\<lparr>mh_states := (mh_states h)(g \<mapsto> m)\<rparr>" "ok \<longleftrightarrow> code = ''released''"
    proof
      let ?m = "if rt_State st \<noteq> GatewayStateHalfOpen then st
         else with_probes_at now (filter (\<lambda>p. hp_TransactionID p \<noteq> tid) (live_probes now st)) st"
      let ?ok = "rt_State st = GatewayStateHalfOpen \<and> (\<exists>p \<in> set (live_probes now st). hp_TransactionID p = tid)"
      show "y = Inr (?m, ?ok)" "h' = h\<lparr>mh_states := (mh_states h)(g \<mapsto> ?m)\<rparr>"
        using run by (simp_all only: memory_probe_calls(3) [OF 2(1)] Let_def prod.inject)
      show "untimed st2 = untimed ?m" "named_probes ?m" "?ok = (code = ''released'')"
        using st2 2(4,5) untimed_parts(4) [OF 2(4)]
        unfolding unexpired_untimed [OF 2(4,5)] untimed_parts(1) [OF 2(4)]
        by (auto simp: named_live split: if_splits)
    qed
    ultimately show ?thesis
      using mirrors_health_put [OF mirrors op(1) holds_stateI [OF ms2(2) m(2,3)]] by fastforce
  qed
qed

section \<open>The memory repository is the specification\<close>

lemma untimed_GotState:
  assumes "gives db s m y' s'" "map_sum id untimed y' = map_sum id untimed y"
  shows "\<exists>z'. gives db s (andThen m (\<lambda>st. ret (GotState st))) z' s' \<and>
    untimed_result z' = untimed_result (map_sum id GotState y)"
proof (cases y')
  case (Inl e)
  with assms show ?thesis by (cases y) (auto dest: gives_andThen_error)
next
  case (Inr st)
  with gives_andThen_ret [where f = GotState] assms show ?thesis by (cases y) fastforce+
qed

lemma untimed_Tried:
  assumes "gives db s m y' s'" "map_sum id (map_prod untimed id) y' = map_sum id (map_prod untimed id) y"
  shows "\<exists>z'. gives db s (andThen m (\<lambda>(st, ok). ret (Tried st ok))) z' s' \<and>
    untimed_result z' = untimed_result (map_sum id (\<lambda>(st, ok). Tried st ok) y)"
proof (cases y')
  case (Inl e)
  with assms show ?thesis by (cases y) (auto dest: gives_andThen_error)
next
  case (Inr p)
  obtain st ok where p: "p = (st, ok)" by (cases p)
  have "gives db s (andThen m (\<lambda>(st, ok). ret (Tried st ok))) (Inr (Tried st ok)) s'"
    by (rule gives_andThen [OF assms(1) [unfolded Inr]]) (simp only: p prod.case gives_ret)
  with assms(2) Inr p show ?thesis by (cases y) fastforce+
qed

lemma health_call_memory:
  "health_call MemHealth (HPrune g now) h = map_prod (map_sum id GotState) id (MemHealth_PruneExpiredHalfOpenProbes g now h)"
  "health_call MemHealth (HGet g) h = map_prod (map_sum id GotState) id (MemHealth_Get g h)"
  "health_call MemHealth (HAcquire g tid maxn expires now) h = map_prod (map_sum id (\<lambda>(st, ok). Tried st ok)) id
     (MemHealth_TryAcquireHalfOpenProbe g tid maxn expires now h)"
  "health_call MemHealth (HRelease g tid now) h = map_prod (map_sum id (\<lambda>(st, ok). Tried st ok)) id
     (MemHealth_ReleaseHalfOpenProbe g tid now h)"
  by (auto simp: andThen_def split: prod.splits sum.splits)

lemma health_call_step:
  assumes server: "redis_server (st_client S) db" and enc: "cjson_encoder enc"
    and mirrors: "mirrors_health S s h" and op: "plain_health_op p"
    and run: "health_call MemHealth p h = (y, h')"
  shows "\<exists>s' y'. gives db s (health_call (RedisHealth S enc) p) y' s' \<and> untimed_result y' = untimed_result y \<and>
    mirrors_health S s' h'"
proof (cases p)
  case (HEnsure g now)
  from ensure_step [OF server mirrors, of g now] op HEnsure
  obtain s' where s': "gives db s (RedisHealth_Ensure S g now) (Inr ()) s'"
    "mirrors_health S s' (snd (MemHealth_Ensure g now h))" by auto
  have "gives db s (health_call (RedisHealth S enc) p) (Inr Done) s'"
    unfolding HEnsure health_call.simps RedisHealth_def GatewayHealthRepository.simps
    by (rule gives_andThen_ret [OF s'(1)])
  with s'(2) run HEnsure show ?thesis
    by (fastforce simp: andThen_def MemHealth_Ensure_def split: option.splits)
next
  case (HSave st)
  from save_state_step [OF server mirrors, of st] op HSave
  obtain s' where s': "gives db s (RedisHealth_Save S st) (Inr ()) s'"
    "mirrors_health S s' (snd (MemHealth_Save st h))" by auto
  have "gives db s (health_call (RedisHealth S enc) p) (Inr Done) s'"
    unfolding HSave health_call.simps RedisHealth_def GatewayHealthRepository.simps
    by (rule gives_andThen_ret [OF s'(1)])
  with s'(2) run HSave show ?thesis by (fastforce simp: andThen_def MemHealth_Save_def)
next
  case (HGet g)
  obtain z h1 where mem: "MemHealth_Get g h = (z, h1)" by fastforce
  from get_state_step [OF server mirrors, of g] op HGet mem obtain y' where
    y': "gives db s (RedisHealth_Get S g) y' s" "map_sum id untimed y' = map_sum id untimed z" "h1 = h" by auto
  have "health_call (RedisHealth S enc) p = andThen (RedisHealth_Get S g) (\<lambda>st. ret (GotState st))"
    by (simp add: HGet RedisHealth_def del: ret_run)
  with untimed_GotState [OF y'(1,2)] y'(3) mirrors run mem HGet show ?thesis
    by (auto simp: health_call_memory simp del: health_call.simps)
next
  case (HPrune g now)
  obtain z h1 where mem: "MemHealth_PruneExpiredHalfOpenProbes g now h = (z, h1)" by fastforce
  from prune_step [OF server enc mirrors _ _ mem] op HPrune obtain s' y' where
    y': "gives db s (RedisHealth_PruneExpiredHalfOpenProbes S enc g now) y' s'"
    "map_sum id untimed y' = map_sum id untimed z" "mirrors_health S s' h1" by auto
  have "health_call (RedisHealth S enc) p =
      andThen (RedisHealth_PruneExpiredHalfOpenProbes S enc g now) (\<lambda>st. ret (GotState st))"
    by (simp add: HPrune RedisHealth_def del: ret_run)
  with untimed_GotState [OF y'(1,2)] y'(3) run mem HPrune show ?thesis
    by (auto simp: health_call_memory simp del: health_call.simps)
next
  case (HAcquire g tid maxn expires now)
  obtain z h1 where mem: "MemHealth_TryAcquireHalfOpenProbe g tid maxn expires now h = (z, h1)" by fastforce
  from acquire_step [OF server enc mirrors _ _ _ _ _ mem] op HAcquire obtain s' y' where
    y': "gives db s (RedisHealth_TryAcquireHalfOpenProbe S enc g tid maxn expires now) y' s'"
    "map_sum id (map_prod untimed id) y' = map_sum id (map_prod untimed id) z" "mirrors_health S s' h1" by auto
  have "health_call (RedisHealth S enc) p =
      andThen (RedisHealth_TryAcquireHalfOpenProbe S enc g tid maxn expires now) (\<lambda>(st, ok). ret (Tried st ok))"
    by (simp add: HAcquire RedisHealth_def del: ret_run)
  with untimed_Tried [OF y'(1,2)] y'(3) run mem HAcquire show ?thesis
    by (auto simp: health_call_memory simp del: health_call.simps)
next
  case (HRelease g tid now)
  obtain z h1 where mem: "MemHealth_ReleaseHalfOpenProbe g tid now h = (z, h1)" by fastforce
  from release_step [OF server enc mirrors _ _ mem] op HRelease obtain s' y' where
    y': "gives db s (RedisHealth_ReleaseHalfOpenProbe S enc g tid now) y' s'"
    "map_sum id (map_prod untimed id) y' = map_sum id (map_prod untimed id) z" "mirrors_health S s' h1" by auto
  have "health_call (RedisHealth S enc) p =
      andThen (RedisHealth_ReleaseHalfOpenProbe S enc g tid now) (\<lambda>(st, ok). ret (Tried st ok))"
    by (simp add: HRelease RedisHealth_def del: ret_run)
  with untimed_Tried [OF y'(1,2)] y'(3) run mem HRelease show ?thesis
    by (auto simp: health_call_memory simp del: health_call.simps)
qed

lemma health_calls_agree:
  assumes "redis_server (st_client S) db" "cjson_encoder enc" "mirrors_health S s h"
    and "\<forall>p \<in> set ps. plain_health_op p" "db r = s"
  shows "health_calls (RedisHealth S enc) ps r = health_calls MemHealth ps h"
  using assms
proof (induction ps arbitrary: s h r)
  case (Cons p ps)
  obtain y h' where mem: "health_call MemHealth p h = (y, h')" by fastforce
  have "plain_health_op p" using Cons.prems(4) by simp
  from health_call_step [OF Cons.prems(1-3) this mem]
  obtain s' y' where s': "gives db s (health_call (RedisHealth S enc) p) y' s'" "mirrors_health S s' h'"
    and y': "untimed_result y' = untimed_result y" by blast
  from gives_run [OF s'(1) Cons.prems(5)]
  obtain r' where r': "health_call (RedisHealth S enc) p r = (y', r')" "db r' = s'" by blast
  have "health_calls (RedisHealth S enc) ps r' = health_calls MemHealth ps h'"
    by (rule Cons.IH [OF Cons.prems(1,2) s'(2) _ r'(2)]) (use Cons.prems(4) in simp)
  then show ?case using mem r' y' by simp
qed simp

text \<open>
  C23: over a Redis server that starts empty, every sequence of the state and probe operations of the
  health repository gives what the memory repository gives, but for the time of the last update:
  states, the probes in flight, which probes are admitted and released, and errors. This holds as long as the
  names of gateways are not empty and have no colon, the transactions that acquire or, in a saved state, hold a probe
  have an identifier that is not empty (the scripts keep a probe without one, the memory repository drops it),
  times have years of four digits, the times a probe expires at in milliseconds, the limit of probes and the
  numbers of a saved state have 14 digits at most, and no state word is represented twice.
\<close>
theorem redis_health_agrees:
  assumes "redis_server (st_client S) db" "cjson_encoder enc" "db r = Map.empty"
    and "\<forall>p \<in> set ps. plain_health_op p"
  shows "health_calls (RedisHealth S enc) ps r = health_calls MemHealth ps MemHealth_New"
  using health_calls_agree [OF assms(1,2) mirrors_health_empty assms(4,3)] .

theorem redis_health_agrees_witness:
  "health_calls (RedisHealth example_store cjson_example)
     [HEnsure ''payu'' 0, HSave ((initial_state ''payu'' 0)\<lparr>rt_State := GatewayStateHalfOpen\<rparr>),
      HAcquire ''payu'' ''t1'' 1 60000000000 0, HAcquire ''payu'' ''t2'' 1 60000000000 0,
      HRelease ''payu'' ''t1'' 0, HGet ''cashfree''] Map.empty =
   [Inr Done, Inr Done,
    Inr (Tried (untimed (with_probes [new_probe ''t1'' 60000000000]
       ((initial_state ''payu'' 0)\<lparr>rt_State := GatewayStateHalfOpen\<rparr>))) True),
    Inr (Tried (untimed (with_probes [new_probe ''t1'' 60000000000]
       ((initial_state ''payu'' 0)\<lparr>rt_State := GatewayStateHalfOpen\<rparr>))) False),
    Inr (Tried (untimed ((initial_state ''payu'' 0)\<lparr>rt_State := GatewayStateHalfOpen\<rparr>)) True),
    Inl (gateway_not_found ''cashfree'')]" (is "?redis = ?results")
proof -
  let ?ps = "[HEnsure ''payu'' 0, HSave ((initial_state ''payu'' 0)\<lparr>rt_State := GatewayStateHalfOpen\<rparr>),
      HAcquire ''payu'' ''t1'' 1 60000000000 0, HAcquire ''payu'' ''t2'' 1 60000000000 0,
      HRelease ''payu'' ''t1'' 0, HGet ''cashfree'']"
  have zero: "0 \<le> year_of 0 \<and> year_of 0 \<le> 9999" by code_simp
  have plain: "\<forall>p \<in> set ?ps. plain_health_op p"
    using zero year_of_zero by (simp add: plain_name_def writable_def storable_state_def initial_state_def
        UnixMilli_def state_of_word_def)
  have server: "redis_server (st_client example_store) (\<lambda>s. s)"
    using key_server_works by (simp add: example_store_def NewStore_def Let_def)
  have "?redis = health_calls MemHealth ?ps MemHealth_New"
    by (rule redis_health_agrees [OF server cjson_example_works _ plain]) simp
  also have "\<dots> = ?results"
    by (simp add: andThen_def MemHealth_store_defs MemHealth_probe_defs prune_eq live_probes_def live_probe_def
        MemHealth_New_def initial_state_def new_probe_def with_probes_def untimed_def Let_def UnixMilli_def)
  finally show ?thesis .
qed

end
