(* ===== verification/RedisHealthStats.thy ===== *)
theory RedisHealthStats
  imports RedisHealth
begin

text \<open>
  The statistics of the health repository over Redis: which buckets the loop of \<open>StatsSince\<close> visits,
  and that their counters give the statistics of the recorded callbacks for whole minutes.
\<close>

section \<open>The buckets\<close>

text \<open>The start and every following bucket a multiple of the step later, up to the end.\<close>

definition visited :: "int \<Rightarrow> int \<Rightarrow> int \<Rightarrow> int list" where
  "visited start until step = map (\<lambda>i. start + int i * step)
     [0..<(if start \<le> until then Suc (nat ((until - start) div step)) else 0)]"

lemma visited_step:
  assumes "0 < step"
  shows "visited start until step = (if start \<le> until then start # visited (start + step) until step else [])"
proof (cases "start \<le> until")
  case True
  have "until - start = (until - (start + step)) + step" by simp
  then have split: "(until - start) div step = (until - (start + step)) div step + 1"
    using div_add_self2 [of step "until - (start + step)"] assms by simp
  have n: "(if start + step \<le> until then Suc (nat ((until - (start + step)) div step)) else 0) =
      nat ((until - start) div step)"
  proof (cases "start + step \<le> until")
    case True
    then have "0 \<le> (until - (start + step)) div step" using assms by (simp add: pos_imp_zdiv_nonneg_iff)
    with True split show ?thesis by (simp add: Suc_nat_eq_nat_zadd1)
  next
    case False
    then have "(until - start) div step = 0" using \<open>start \<le> until\<close> by (simp add: div_pos_pos_trivial)
    with False show ?thesis by simp
  qed
  have "visited start until step = map (\<lambda>i. start + int i * step) [0..<Suc (nat ((until - start) div step))]"
    using True by (simp add: visited_def)
  also have "[0..<Suc (nat ((until - start) div step))] = 0 # map Suc [0..<nat ((until - start) div step)]"
    by (simp only: map_Suc_upt upt_conv_Cons zero_less_Suc One_nat_def)
  also have "map (\<lambda>i. start + int i * step) \<dots> = start # visited (start + step) until step"
    unfolding visited_def n by (simp add: algebra_simps)
  finally show ?thesis using True by simp
qed (simp add: visited_def)

lemma buckets_end:
  assumes "0 < step" "in64 start" "in64 (until + step)"
  shows "buckets start until step = Some (visited start until step)"
  using assms(2)
proof (induction "nat (until - start + 1)" arbitrary: start rule: less_induct)
  case less
  show ?case
  proof (cases "start \<le> until")
    case True
    have in64: "in64 (start + step)" using True assms(1,3) less.prems by (auto simp: in64_def)
    have "buckets (start + step) until step = Some (visited (start + step) until step)"
      using True assms(1) in64 by (intro less.hyps) auto
    with True in64 show ?thesis
      by (subst buckets.simps) (simp add: visited_step [OF assms(1), of start])
  next
    case False
    then show ?thesis by (subst buckets.simps) (simp add: visited_def)
  qed
qed

lemma buckets_loop:
  assumes "in64 start"
  shows "buckets start (2 ^ 63 - 1) step = None"
proof (rule ccontr)
  assume "buckets start (2 ^ 63 - 1) step \<noteq> None"
  then obtain bs where ret: "buckets start (2 ^ 63 - 1) step = Some bs" by blast
  have "\<not> (in64 start \<and> (2 ^ 63 - 1 :: int) = 2 ^ 63 - 1)"
  proof (rule buckets.raw_induct [where P = "\<lambda>b u s r. \<not> (in64 b \<and> u = 2 ^ 63 - 1)", OF _ ret])
    fix f bucket until step r
    assume IH: "\<And>b u s r. f b u s = Some r \<Longrightarrow> \<not> (in64 b \<and> u = 2 ^ 63 - 1)"
      and eq: "(if bucket \<le> until
        then Option.bind (f (wrap64 (bucket + step)) until step) (\<lambda>bs. Some (bucket # bs)) else Some []) = Some r"
    show "\<not> (in64 bucket \<and> until = 2 ^ 63 - 1)"
    proof
      assume b: "in64 bucket \<and> until = 2 ^ 63 - 1"
      then have "bucket \<le> until" by (simp add: in64_def)
      with eq obtain bs where "f (wrap64 (bucket + step)) until step = Some bs"
        by (auto simp: bind_eq_Some_conv)
      from IH [OF this] b show False by simp
    qed
  qed
  with assms show False by simp
qed

text \<open>
  C36: the loop over the buckets, with its int64 counter: for a positive step and an end from which a
  step does not overflow it ends after visiting the start and every following bucket a multiple of the
  step later up to the end, and none if the end is before the start. An end at the greatest int64 is
  never passed: then the loop does not end, for any start and step.
\<close>
theorem buckets_visited:
  assumes "in64 start"
  shows "(0 < step \<and> in64 (until + step) \<longrightarrow> buckets start until step =
      Some (map (\<lambda>i. start + int i * step) [0..<(if start \<le> until then Suc (nat ((until - start) div step)) else 0)])) \<and>
    buckets start (2 ^ 63 - 1) step = None"
  using buckets_end [OF _ assms] buckets_loop [OF assms] by (simp add: visited_def)

theorem buckets_visited_witness:
  "buckets 0 150 60 = Some [0, 60, 120] \<and> buckets 0 (2 ^ 63 - 1) 60 = None"
  using buckets_visited [of 0 60 150] by (simp add: upt_rec in64_def)

section \<open>Statistics\<close>

fun record_events :: "'r Store \<Rightarrow> duration \<Rightarrow> GatewayEvent list \<Rightarrow> ('r, go_error, unit) proc" where
  "record_events S retention [] = ret ()"
| "record_events S retention (e # es) =
     andThen (RedisHealth_RecordEvent S e retention) (\<lambda>_. record_events S retention es)"

text \<open>How many of the events count in a field of a bucket.\<close>

definition bucket_count :: "GatewayEvent list \<Rightarrow> string \<Rightarrow> string \<Rightarrow> int \<Rightarrow> int" where
  "bucket_count es g field b = int (length (filter (\<lambda>e. (ge_Gateway e = g \<and> event_field (ge_Status e) = field) \<and>
     event_bucket (ge_CreatedAt e) = b) es))"

definition counts_events :: "'r Store \<Rightarrow> keyspace \<Rightarrow> GatewayEvent list \<Rightarrow> bool" where
  "counts_events S s es \<longleftrightarrow> (\<forall>g b. plain_name g \<longrightarrow> is_hash s (statsKey S g b) \<and>
     (\<forall>field \<in> {''successes'', ''failures''}.
        hash_number (hash_at s (statsKey S g b)) field = Some (bucket_count es g field b)))"

lemma plain_fmt_d: "plain_name (fmt_d n)"
  using dec_nat_digits [of "nat n"] dec_nat_digits [of "nat (- n)"] is_digit_sign
  by (auto simp: plain_name_def fmt_d_def list_all_iff)

lemma statsKey_inj:
  assumes "plain_name g" "plain_name g'"
  shows "statsKey S g b = statsKey S g' b' \<longleftrightarrow> g = g' \<and> b = b'"
  using assms plain_fmt_d by (auto simp: statsKey_def Key_inj dest: fmt_d_inj)

lemma event_field_cases: "event_field st \<in> {''successes'', ''failures''}"
  by (simp add: event_field_def)

lemma bucket_count_bound: "0 \<le> bucket_count es g field b" "bucket_count es g field b \<le> int (length es)"
  by (simp_all add: bucket_count_def)

lemma record_event_step:
  assumes server: "redis_server (st_client S) db" and ttl: "0 < wrap64 (retention + 2 * Minute)"
    and counts: "counts_events S s es"
    and plain: "plain_name (ge_Gateway e)" and small: "int (length es) < 2 ^ 53"
  obtains s' where "gives db s (RedisHealth_RecordEvent S e retention) (Inr ()) s'" "counts_events S s' (es @ [e])"
proof -
  let ?k = "statsKey S (ge_Gateway e) (event_bucket (ge_CreatedAt e))" and ?f = "event_field (ge_Status e)"
  let ?n = "bucket_count es (ge_Gateway e) ?f (event_bucket (ge_CreatedAt e))"
  let ?s = "s(?k \<mapsto> RHash ((hash_at s ?k)(?f \<mapsto> fmt_d (?n + 1))))"
  have k: "is_hash s ?k" "hash_number (hash_at s ?k) ?f = Some ?n"
    using counts [unfolded counts_events_def, rule_format, OF plain] event_field_cases by blast+
  have "in64 (?n + 1)"
    using bucket_count_bound [of es "ge_Gateway e" ?f "event_bucket (ge_CreatedAt e)"] small by (simp add: in64_def)
  then obtain rs where "gives db s (rd_Exec (st_client S)
      [HIncrBy ?k ?f 1, Expire ?k (wrap64 (retention + 2 * Minute))]) (Inr rs) ?s"
    using server_hashes(3) [OF server k, of 1 "wrap64 (retention + 2 * Minute)"] ttl by auto
  then have "gives db s (RedisHealth_RecordEvent S e retention) (Inr ()) ?s"
    by (simp only: RedisHealth_RecordEvent_def Let_def) (rule gives_andThen_ret)
  moreover have "counts_events S ?s (es @ [e])"
    using counts plain \<open>in64 (?n + 1)\<close>
    by (auto simp: counts_events_def statsKey_inj bucket_count_def hash_number_def)
  ultimately show thesis using that by blast
qed

lemma record_events_run:
  assumes server: "redis_server (st_client S) db" and ttl: "0 < wrap64 (retention + 2 * Minute)"
    and "counts_events S s es"
    and "\<forall>e \<in> set es'. plain_name (ge_Gateway e)" "int (length (es @ es')) \<le> 2 ^ 53"
  shows "\<exists>s'. gives db s (record_events S retention es') (Inr ()) s' \<and> counts_events S s' (es @ es')"
  using assms(3-)
proof (induction es' arbitrary: s es)
  case (Cons e es')
  have "plain_name (ge_Gateway e)" "int (length es) < 2 ^ 53" using Cons.prems by auto
  from record_event_step [OF server ttl Cons.prems(1) this] obtain s1 where
    s1: "gives db s (RedisHealth_RecordEvent S e retention) (Inr ()) s1" "counts_events S s1 (es @ [e])" by blast
  from Cons.IH [OF s1(2)] Cons.prems(2,3) obtain s' where
    "gives db s1 (record_events S retention es') (Inr ()) s'" "counts_events S s' (es @ e # es')" by auto
  with gives_andThen [OF s1(1)] show ?case by fastforce
next
  case Nil
  then have "counts_events S s (es @ [])" by simp
  show ?case unfolding record_events.simps
    by (rule exI [of _ s], rule conjI, rule gives_ret) (rule \<open>counts_events S s (es @ [])\<close>)
qed

lemma field_number_run:
  "hash_number h f = Some n \<Longrightarrow> field_number h f = ret n"
proof -
  assume h: "hash_number h f = Some n"
  have "Atoi ''0'' = Some 0" "Atoi '''' = None" by code_simp+
  with h show ?thesis
    by (cases "h f") (auto simp: hash_number_def field_number_def parsed_def defaultString_def simp del: ret_run)
qed

lemma sum_buckets_run:
  assumes "\<forall>h \<in> set hs. hash_number h ''successes'' = Some (su h) \<and> hash_number h ''failures'' = Some (fa h) \<and>
      0 \<le> su h \<and> 0 \<le> fa h"
    and "0 \<le> a" "0 \<le> b" "a + sum_list (map su hs) < 2 ^ 63" "b + sum_list (map fa hs) < 2 ^ 63"
  shows "sum_buckets (map Inr hs) (a, b) = ret (a + sum_list (map su hs), b + sum_list (map fa hs))"
  using assms
proof (induction hs arbitrary: a b)
  case (Cons h hs)
  have "0 \<le> sum_list (map su hs)" "0 \<le> sum_list (map fa hs)"
    using Cons.prems(1) by (auto intro!: sum_list_nonneg)
  then have "in64 (a + su h)" "in64 (b + fa h)" using Cons.prems by (auto simp: in64_def)
  moreover have h: "hash_number h ''successes'' = Some (su h)" "hash_number h ''failures'' = Some (fa h)"
    using Cons.prems(1) by simp_all
  ultimately show ?case
    using Cons.prems Cons.IH [of "a + su h" "b + fa h"]
    by (simp add: add.assoc field_number_run [OF h(1)] field_number_run [OF h(2)] del: ret_run)
qed simp

text \<open>The buckets between two times hold the events of the whole minutes.\<close>

lemma Truncate_Minute: "Truncate t Minute = Minute * (t div Minute)"
proof -
  have "(t - zero_time) mod Minute = t mod Minute"
    using mod_diff_eq [of t Minute zero_time] by (simp add: zero_time_def Minute_def)
  then show ?thesis by (simp add: Truncate_def Minute_def minus_mod_eq_mult_div)
qed

lemma event_bucket_minute: "event_bucket t = 60 * (t div Minute)"
  by (simp add: event_bucket_def Unix_def Truncate_Minute) (simp add: Minute_def)

lemma Seconds_Minute: "Seconds_int64 Minute = 60"
  by code_simp

lemma minute_buckets:
  "distinct (visited (event_bucket since) (event_bucket until) 60)"
  "event_bucket t \<in> set (visited (event_bucket since) (event_bucket until) 60) \<longleftrightarrow>
     since div Minute \<le> t div Minute \<and> t div Minute \<le> until div Minute"
proof -
  define a where "a = since div Minute"
  define b where "b = until div Minute"
  have bs: "visited (event_bucket since) (event_bucket until) 60 =
      map (\<lambda>i. 60 * a + int i * 60) [0..<(if a \<le> b then Suc (nat (b - a)) else 0)]"
    by (simp add: visited_def event_bucket_minute a_def b_def algebra_simps)
  show "distinct (visited (event_bucket since) (event_bucket until) 60)"
    unfolding bs by (simp add: distinct_map inj_on_def)
  have "(\<exists>i. i < (if a \<le> b then Suc (nat (b - a)) else 0) \<and> 60 * n = 60 * a + int i * 60) \<longleftrightarrow> a \<le> n \<and> n \<le> b" for n
  proof
    assume "a \<le> n \<and> n \<le> b"
    then show "\<exists>i. i < (if a \<le> b then Suc (nat (b - a)) else 0) \<and> 60 * n = 60 * a + int i * 60"
      by (intro exI [of _ "nat (n - a)"]) auto
  qed (auto split: if_splits)
  then show "event_bucket t \<in> set (visited (event_bucket since) (event_bucket until) 60) \<longleftrightarrow>
     since div Minute \<le> t div Minute \<and> t div Minute \<le> until div Minute"
    unfolding bs event_bucket_minute [of t] a_def [symmetric] b_def [symmetric] by (simp only: set_map set_upt image_iff Bex_def atLeastLessThan_iff) simp
qed

text \<open>The window of whole minutes that contains a window.\<close>

definition minute_start :: "time \<Rightarrow> time" where
  "minute_start t = Truncate t Minute"

definition minute_end :: "time \<Rightarrow> time" where
  "minute_end t = Truncate t Minute + Minute - 1"

lemma le_div_Minute: "x \<le> t div Minute \<longleftrightarrow> Minute * x \<le> t"
proof -
  have pos: "0 < Minute" by (simp add: Minute_def)
  have t: "Minute * (t div Minute) + t mod Minute = t" "0 \<le> t mod Minute" "t mod Minute < Minute"
    using pos by simp_all
  show ?thesis
  proof
    assume "x \<le> t div Minute"
    then have "Minute * x \<le> Minute * (t div Minute)" using pos by simp
    with t show "Minute * x \<le> t" by linarith
  next
    assume x: "Minute * x \<le> t"
    show "x \<le> t div Minute"
    proof (rule ccontr)
      assume "\<not> x \<le> t div Minute"
      then have "Minute * (t div Minute + 1) \<le> Minute * x" using pos by simp
      then have "Minute * (t div Minute) + Minute \<le> Minute * x" by (simp add: distrib_left)
      with x t show False by linarith
    qed
  qed
qed

lemma whole_minutes:
  "since div Minute \<le> t div Minute \<and> t div Minute \<le> until div Minute \<longleftrightarrow>
     minute_start since \<le> t \<and> t \<le> minute_end until"
proof -
  have "t div Minute \<le> until div Minute \<longleftrightarrow> t < Minute * (until div Minute + 1)"
    using le_div_Minute [of "until div Minute + 1" t] by linarith
  also have "\<dots> \<longleftrightarrow> t \<le> minute_end until" by (auto simp: minute_end_def Truncate_Minute distrib_left)
  finally show ?thesis by (simp add: minute_start_def Truncate_Minute le_div_Minute)
qed

lemma sum_over_buckets:
  "distinct bs \<Longrightarrow> sum_list (map (\<lambda>b. int (length (filter (\<lambda>e. P e \<and> k e = b) es))) bs) =
     int (length (filter (\<lambda>e. P e \<and> k e \<in> set bs) es))"
proof (induction es)
  case (Cons e es)
  have "sum_list (map (\<lambda>b. int (length (filter (\<lambda>e. P e \<and> k e = b) (e # es)))) bs) =
      sum_list (map (\<lambda>b. int (length (filter (\<lambda>e. P e \<and> k e = b) es)) + (if P e \<and> k e = b then 1 else 0)) bs)"
    by (intro arg_cong [of _ _ sum_list] map_cong) auto
  also have "\<dots> = int (length (filter (\<lambda>e. P e \<and> k e \<in> set bs) es)) +
      sum_list (map (\<lambda>b. if P e \<and> k e = b then 1 else 0) bs)"
    using Cons by (simp add: sum_list_addf)
  also have "sum_list (map (\<lambda>b. if P e \<and> k e = b then 1 else 0) bs) = (if P e \<and> k e \<in> set bs then (1 :: int) else 0)"
    using Cons.prems by (induction bs) auto
  finally show ?case by simp
qed simp

lemma sum_bucket_counts:
  assumes "\<forall>e \<in> set es. IsFinal (ge_Status e)"
  shows "sum_list (map (bucket_count es g ''successes'') (visited (event_bucket since) (event_bucket until) 60)) =
      int (length (filter (in_window g (minute_start since) (minute_end until) TransactionStatusSuccess) es))"
    "sum_list (map (bucket_count es g ''failures'') (visited (event_bucket since) (event_bucket until) 60)) =
      int (length (filter (in_window g (minute_start since) (minute_end until) TransactionStatusFailure) es))"
proof -
  have eq: "filter (\<lambda>e. (ge_Gateway e = g \<and> event_field (ge_Status e) = f) \<and> event_bucket (ge_CreatedAt e) \<in>
      set (visited (event_bucket since) (event_bucket until) 60)) es =
    filter (in_window g (minute_start since) (minute_end until) st) es"
    if "\<And>e. e \<in> set es \<Longrightarrow> event_field (ge_Status e) = f \<longleftrightarrow> ge_Status e = st" for f st
    unfolding minute_buckets(2) whole_minutes using that by (intro filter_cong) (auto simp: in_window_def)
  have "event_field (ge_Status e) = ''successes'' \<longleftrightarrow> ge_Status e = TransactionStatusSuccess"
    "event_field (ge_Status e) = ''failures'' \<longleftrightarrow> ge_Status e = TransactionStatusFailure" if "e \<in> set es" for e
    using assms that by (auto simp: event_field_def IsFinal_def)
  note fields = eq [OF this(1)] eq [OF this(2)]
  show "sum_list (map (bucket_count es g ''successes'') (visited (event_bucket since) (event_bucket until) 60)) =
      int (length (filter (in_window g (minute_start since) (minute_end until) TransactionStatusSuccess) es))"
    "sum_list (map (bucket_count es g ''failures'') (visited (event_bucket since) (event_bucket until) 60)) =
      int (length (filter (in_window g (minute_start since) (minute_end until) TransactionStatusFailure) es))"
    unfolding bucket_count_def sum_over_buckets [OF minute_buckets(1)] by (simp_all only: fields)
qed

text \<open>
  A retention for which the time to live is not positive loses the counters of the bucket at once.
\<close>

lemma record_event_lost:
  assumes "redis_server (st_client S) db" "wrap64 (retention + 2 * Minute) \<le> 0"
    and "is_hash s (statsKey S (ge_Gateway e) (event_bucket (ge_CreatedAt e)))"
    and "hash_number (hash_at s (statsKey S (ge_Gateway e) (event_bucket (ge_CreatedAt e)))) (event_field (ge_Status e)) = Some n"
    and "in64 (n + 1)"
  shows "gives db s (RedisHealth_RecordEvent S e retention) (Inr ())
    (s(statsKey S (ge_Gateway e) (event_bucket (ge_CreatedAt e)) := None))"
proof -
  obtain rs where "gives db s (rd_Exec (st_client S)
      [HIncrBy (statsKey S (ge_Gateway e) (event_bucket (ge_CreatedAt e))) (event_field (ge_Status e)) 1,
       Expire (statsKey S (ge_Gateway e) (event_bucket (ge_CreatedAt e))) (wrap64 (retention + 2 * Minute))]) (Inr rs)
    (s(statsKey S (ge_Gateway e) (event_bucket (ge_CreatedAt e)) := None))"
    using server_hashes(3) [OF assms(1,3,4,5), of "wrap64 (retention + 2 * Minute)"] assms(2) by auto
  then show ?thesis by (simp only: RedisHealth_RecordEvent_def Let_def) (rule gives_andThen_ret)
qed

text \<open>
  C24: over a Redis server that starts empty, after any sequence of recorded callbacks of gateways whose names
  are not empty and have no colon, with a final status each and 2^53 of them at most, StatsSince by minutes
  gives what the memory repository gives for the same callbacks on the window widened to whole minutes at
  both ends. The retention is one for which the time to live, retention and two minutes in 64 bits, is
  positive (with any other one Redis deletes the counters at once), no counter reaches the end of its time
  meanwhile, and the ends of the window are int64 seconds at least a minute below the greatest one.
\<close>
theorem redis_stats_of_history:
  assumes server: "redis_server (st_client S) db" and "db r = Map.empty"
    and "\<forall>e \<in> set es. plain_name (ge_Gateway e) \<and> IsFinal (ge_Status e)" "int (length es) \<le> 2 ^ 53"
    and plain: "plain_name g" and ttl: "0 < wrap64 (retention + 2 * Minute)"
    and range: "in64 (event_bucket since)" "in64 (event_bucket until + 60)"
  shows "fst (andThen (record_events S retention es) (\<lambda>_. RedisHealth_StatsSince S g since until Minute) r) =
    fst (MemHealth_StatsSince g (minute_start since) (minute_end until) Minute (MemHealth_New\<lparr>mh_events := es\<rparr>))"
proof -
  let ?bs = "visited (event_bucket since) (event_bucket until) 60"
  let ?su = "\<lambda>b. bucket_count es g ''successes'' b" and ?fa = "\<lambda>b. bucket_count es g ''failures'' b"
  have "counts_events S Map.empty []"
    by (simp add: counts_events_def is_hash_def hash_number_def hash_at_def bucket_count_def)
  from record_events_run [OF server ttl this, of es] assms(3,4)
  obtain s where s: "gives db Map.empty (record_events S retention es) (Inr ()) s" "counts_events S s es" by auto
  note counts = s(2) [unfolded counts_events_def, rule_format, OF plain]
  let ?h = "\<lambda>b. hash_at s (statsKey S g b)"
  have final: "\<forall>e \<in> set es. IsFinal (ge_Status e)" using assms(3) by blast
  have small: "int (length (filter P es)) < 2 ^ 63" for P
  proof -
    have "int (length (filter P es)) \<le> int (length es)" by simp
    also note assms(4)
    also have "(2 :: int) ^ 53 < 2 ^ 63" by simp
    finally show ?thesis .
  qed
  have sums: "0 \<le> sum_list (map ?su ?bs)" "sum_list (map ?su ?bs) < 2 ^ 63"
    "0 \<le> sum_list (map ?fa ?bs)" "sum_list (map ?fa ?bs) < 2 ^ 63"
    unfolding sum_bucket_counts [OF final] by (simp_all only: small of_nat_0_le_iff)
  have exec: "gives db s (rd_Exec (st_client S) (map (\<lambda>b. HGetAll (statsKey S g b)) ?bs)) (Inr (map (\<lambda>b. Inr (?h b)) ?bs)) s"
    using server_hashes(4) [where s = s, OF server, of "map (statsKey S g) ?bs"] counts by (simp add: comp_def)
  have num: "\<forall>b \<in> set ?bs. hash_number (?h b) ''successes'' = Some (?su b) \<and> hash_number (?h b) ''failures'' = Some (?fa b)"
    using counts by simp
  have sum: "sum_buckets (map (\<lambda>b. Inr (?h b)) ?bs) (0, 0) = ret (sum_list (map ?su ?bs), sum_list (map ?fa ?bs))"
  proof -
    let ?n = "\<lambda>f h. the (hash_number h f)"
    have eq: "map (?n ''successes'') (map ?h ?bs) = map ?su ?bs" "map (?n ''failures'') (map ?h ?bs) = map ?fa ?bs"
      using num by auto
    have "sum_buckets (map Inr (map ?h ?bs)) (0, 0) =
        ret (0 + sum_list (map (?n ''successes'') (map ?h ?bs)), 0 + sum_list (map (?n ''failures'') (map ?h ?bs)))"
      by (rule sum_buckets_run; (unfold eq)?) (use num sums bucket_count_bound in auto)
    then show ?thesis unfolding eq by (simp add: comp_def)
  qed
  have sixty: "(if (60 :: int) \<le> 0 then 60 else 60) = (60 :: int)" by simp
  have "gives db s (RedisHealth_StatsSince S g since until Minute)
      (Inr (stats_of_counts g (sum_list (map ?su ?bs), sum_list (map ?fa ?bs)))) s"
    unfolding RedisHealth_StatsSince_def Let_def Seconds_Minute event_bucket_def [symmetric] sixty
    by (simp only: buckets_end [OF _ range] zero_less_numeral option.case)
      (rule gives_andThen [OF exec], simp only: sum andThen_ret gives_ret)
  from gives_run [OF gives_andThen [OF s(1) this]] assms(2)
  obtain r' where "andThen (record_events S retention es) (\<lambda>_. RedisHealth_StatsSince S g since until Minute) r =
    (Inr (stats_of_counts g (sum_list (map ?su ?bs), sum_list (map ?fa ?bs))), r')" by blast
  then show ?thesis
    using sum_bucket_counts [OF final, of g since until]
    by (simp add: MemHealth_StatsSince_def count_events_eq MemHealth_New_def)
qed

text \<open>A callback of second 10 counts in the window from second 45 to second 90.\<close>

theorem redis_stats_of_history_witness:
  "map_sum id gs_Total (fst (andThen (record_events example_store (10 * Minute)
      [\<lparr>ge_Gateway = ''payu'', ge_TransactionID = ''t'', ge_Status = TransactionStatusSuccess,
        ge_CreatedAt = 10 * Second\<rparr>])
      (\<lambda>_. RedisHealth_StatsSince example_store ''payu'' (45 * Second) (90 * Second) Minute) Map.empty)) = Inr 1"
proof -
  let ?es = "[\<lparr>ge_Gateway = ''payu'', ge_TransactionID = ''t'', ge_Status = TransactionStatusSuccess,
        ge_CreatedAt = 10 * Second\<rparr>]"
  have server: "redis_server (st_client example_store) (\<lambda>s. s)"
    using key_server_works by (simp add: example_store_def NewStore_def Let_def)
  have window: "minute_start (45 * Second) = 0" "minute_end (90 * Second) = 119999999999" by code_simp+
  have "fst (andThen (record_events example_store (10 * Minute) ?es)
      (\<lambda>_. RedisHealth_StatsSince example_store ''payu'' (45 * Second) (90 * Second) Minute) Map.empty) =
    fst (MemHealth_StatsSince ''payu'' (minute_start (45 * Second)) (minute_end (90 * Second)) Minute
      (MemHealth_New\<lparr>mh_events := ?es\<rparr>))"
    by (rule redis_stats_of_history [OF server])
      (simp_all add: plain_name_def in64_def event_bucket_minute Minute_def Second_def)
  moreover have "map_sum id gs_Total (fst (MemHealth_StatsSince ''payu'' 0 119999999999 Minute
      (MemHealth_New\<lparr>mh_events := ?es\<rparr>))) = Inr 1"
    by (simp add: MemHealth_StatsSince_def Second_def Before_def After_def stats_of_counts_def)
  ultimately show ?thesis unfolding window by (simp only:)
qed

end
