(* ===== verification/Simulator.thy ===== *)
theory Simulator
  imports RedisDocs
begin

text \<open>
  \<open>cmd/simulator/main.go\<close>: the load generator that initiates transactions over HTTP, sends callbacks
  and adds up what it saw. The clock, the random numbers, the HTTP client and the tokenising of
  JSON texts are parameters, and so is what a printed line does to the outside.
\<close>

section \<open>Requests and responses\<close>

record http_request =
  rq_Method :: string
  rq_URL :: string
  rq_Body :: "json option"

text \<open>The body as it was read, and the error that ended the reading, if any.\<close>

record http_response =
  rs_StatusCode :: int
  rs_Body :: "string \<times> go_error option"

text \<open>
  \<open>ou_NewRequest\<close> is the error of \<open>http.NewRequestWithContext\<close>, if any; \<open>ou_tokens\<close> reads a whole
  text as one JSON document, as \<open>json.Unmarshal\<close> does, \<open>ou_first\<close> the first document of a text, as a
  \<open>json.Decoder\<close> does.
\<close>

text \<open>What is printed: a line on the standard output, or a message with an error on the other one.\<close>

datatype printed = Stdout string | Stderr string go_error

record 'w Outside =
  ou_Now :: "'w \<Rightarrow> time \<times> 'w"
  ou_Float64 :: "'w \<Rightarrow> f64 \<times> 'w"
  ou_NewRequest :: "string \<Rightarrow> string \<Rightarrow> go_error option"
  ou_Do :: "http_request \<Rightarrow> ('w, go_error, http_response) proc"
  ou_tokens :: "string \<Rightarrow> json option"
  ou_first :: "string \<Rightarrow> json option"
  ou_Print :: "printed \<Rightarrow> 'w \<Rightarrow> 'w"

record transactionResponse =
  tp_TransactionID :: string
  tp_OrderID :: string
  tp_AttemptNo :: int
  tp_Amount :: f64
  tp_Gateway :: string
  tp_Status :: string

record gatewayRouting =
  gr_HealthWindowSeconds :: int
  gr_UnhealthyCooldownSeconds :: int
  gr_MinCallbackCount :: int
  gr_SuccessRateThreshold :: f64
  gr_HalfOpenProbeCount :: int
  gr_HalfOpenProbeTimeoutSeconds :: int
  gr_OrderGatewayFailureThreshold :: int

record gatewayRuntime =
  gu_Gateway :: string
  gu_State :: string
  gu_UnhealthyUntil :: time
  gu_HalfOpenInFlight :: int
  gu_UpdatedAt :: time

record gatewayStatus =
  gy_Name :: string
  gy_Enabled :: bool
  gy_Weight :: int
  gy_Runtime :: gatewayRuntime
  gy_Stats :: GatewayStats

record gatewayResponse =
  gp_Routing :: gatewayRouting
  gp_Gateways :: "gatewayStatus list"

definition transactionResponse_fields :: "(string \<times> transactionResponse decoder) list" where
  "transactionResponse_fields =
     [(''transaction_id'', decode_string (\<lambda>v. tp_TransactionID_update (\<lambda>_. v))),
      (''order_id'', decode_string (\<lambda>v. tp_OrderID_update (\<lambda>_. v))),
      (''attempt_no'', decode_int (\<lambda>v. tp_AttemptNo_update (\<lambda>_. v))),
      (''amount'', decode_float (\<lambda>v. tp_Amount_update (\<lambda>_. v))),
      (''gateway'', decode_string (\<lambda>v. tp_Gateway_update (\<lambda>_. v))),
      (''status'', decode_string (\<lambda>v. tp_Status_update (\<lambda>_. v)))]"

definition gatewayRouting_fields :: "(string \<times> gatewayRouting decoder) list" where
  "gatewayRouting_fields =
     [(''health_window_seconds'', decode_int (\<lambda>v. gr_HealthWindowSeconds_update (\<lambda>_. v))),
      (''unhealthy_cooldown_seconds'', decode_int (\<lambda>v. gr_UnhealthyCooldownSeconds_update (\<lambda>_. v))),
      (''min_callback_count'', decode_int (\<lambda>v. gr_MinCallbackCount_update (\<lambda>_. v))),
      (''success_rate_threshold'', decode_float (\<lambda>v. gr_SuccessRateThreshold_update (\<lambda>_. v))),
      (''half_open_probe_count'', decode_int (\<lambda>v. gr_HalfOpenProbeCount_update (\<lambda>_. v))),
      (''half_open_probe_timeout_seconds'', decode_int (\<lambda>v. gr_HalfOpenProbeTimeoutSeconds_update (\<lambda>_. v))),
      (''order_gateway_failure_threshold'', decode_int (\<lambda>v. gr_OrderGatewayFailureThreshold_update (\<lambda>_. v)))]"

definition gatewayRuntime_fields :: "(string \<times> gatewayRuntime decoder) list" where
  "gatewayRuntime_fields =
     [(''gateway'', decode_string (\<lambda>v. gu_Gateway_update (\<lambda>_. v))),
      (''state'', decode_string (\<lambda>v. gu_State_update (\<lambda>_. v))),
      (''unhealthy_until'', decode_time (\<lambda>v. gu_UnhealthyUntil_update (\<lambda>_. v))),
      (''half_open_in_flight'', decode_int (\<lambda>v. gu_HalfOpenInFlight_update (\<lambda>_. v))),
      (''updated_at'', decode_time (\<lambda>v. gu_UpdatedAt_update (\<lambda>_. v)))]"

definition gatewayStats_fields :: "(string \<times> GatewayStats decoder) list" where
  "gatewayStats_fields =
     [(''gateway'', decode_string (\<lambda>v. gs_Gateway_update (\<lambda>_. v))),
      (''successes'', decode_int (\<lambda>v. gs_Successes_update (\<lambda>_. v))),
      (''failures'', decode_int (\<lambda>v. gs_Failures_update (\<lambda>_. v))),
      (''total'', decode_int (\<lambda>v. gs_Total_update (\<lambda>_. v))),
      (''success_rate'', decode_float (\<lambda>v. gs_SuccessRate_update (\<lambda>_. v)))]"

definition gatewayStatus_fields :: "(string \<times> gatewayStatus decoder) list" where
  "gatewayStatus_fields =
     [(''name'', decode_string (\<lambda>v. gy_Name_update (\<lambda>_. v))),
      (''enabled'', decode_bool (\<lambda>v. gy_Enabled_update (\<lambda>_. v))),
      (''weight'', decode_int (\<lambda>v. gy_Weight_update (\<lambda>_. v))),
      (''runtime'', decode_in gy_Runtime (\<lambda>v. gy_Runtime_update (\<lambda>_. v))
         (unmarshal_struct gatewayRuntime_fields)),
      (''stats'', decode_in gy_Stats (\<lambda>v. gy_Stats_update (\<lambda>_. v))
         (unmarshal_struct gatewayStats_fields))]"

definition zero_gatewayRouting :: gatewayRouting where
  "zero_gatewayRouting = \<lparr>gr_HealthWindowSeconds = 0, gr_UnhealthyCooldownSeconds = 0, gr_MinCallbackCount = 0,
     gr_SuccessRateThreshold = Fin 0, gr_HalfOpenProbeCount = 0, gr_HalfOpenProbeTimeoutSeconds = 0,
     gr_OrderGatewayFailureThreshold = 0\<rparr>"

definition zero_gatewayStatus :: gatewayStatus where
  "zero_gatewayStatus = \<lparr>gy_Name = '''', gy_Enabled = False, gy_Weight = 0,
     gy_Runtime = \<lparr>gu_Gateway = '''', gu_State = '''', gu_UnhealthyUntil = zero_time,
       gu_HalfOpenInFlight = 0, gu_UpdatedAt = zero_time\<rparr>,
     gy_Stats = \<lparr>gs_Gateway = '''', gs_Successes = 0, gs_Failures = 0, gs_Total = 0,
       gs_SuccessRate = Fin 0\<rparr>\<rparr>"

definition gatewayResponse_fields :: "(string \<times> gatewayResponse decoder) list" where
  "gatewayResponse_fields =
     [(''routing'', decode_in gp_Routing (\<lambda>v. gp_Routing_update (\<lambda>_. v))
         (unmarshal_struct gatewayRouting_fields)),
      (''gateways'', unmarshal_slice gp_Gateways (\<lambda>v. gp_Gateways_update (\<lambda>_. v))
         zero_gatewayStatus (unmarshal_struct gatewayStatus_fields))]"

section \<open>Configuration\<close>

record simulatorConfig =
  sc_baseURL :: string
  sc_scenario :: string
  sc_total :: int
  sc_concurrency :: int
  sc_successRate :: f64
  sc_callbackRate :: f64
  sc_duplicateRate :: f64
  sc_amount :: f64
  sc_timeout :: duration
  sc_orderPrefix :: string
  sc_maxAttempts :: int

text \<open>The flags of the command line, parsed by the package \<open>flag\<close>; a later one wins.\<close>

datatype sim_flag = FlagBaseURL string | FlagScenario string | FlagTotal int | FlagConcurrency int
  | FlagSuccessRate f64 | FlagCallbackRate f64 | FlagDuplicateRate f64 | FlagAmount f64
  | FlagTimeout duration | FlagOrderPrefix string | FlagMaxAttempts int

fun set_flag :: "sim_flag \<Rightarrow> simulatorConfig \<Rightarrow> simulatorConfig" where
  "set_flag (FlagBaseURL s) c = c\<lparr>sc_baseURL := s\<rparr>"
| "set_flag (FlagScenario s) c = c\<lparr>sc_scenario := s\<rparr>"
| "set_flag (FlagTotal n) c = c\<lparr>sc_total := n\<rparr>"
| "set_flag (FlagConcurrency n) c = c\<lparr>sc_concurrency := n\<rparr>"
| "set_flag (FlagSuccessRate r) c = c\<lparr>sc_successRate := r\<rparr>"
| "set_flag (FlagCallbackRate r) c = c\<lparr>sc_callbackRate := r\<rparr>"
| "set_flag (FlagDuplicateRate r) c = c\<lparr>sc_duplicateRate := r\<rparr>"
| "set_flag (FlagAmount r) c = c\<lparr>sc_amount := r\<rparr>"
| "set_flag (FlagTimeout d) c = c\<lparr>sc_timeout := d\<rparr>"
| "set_flag (FlagOrderPrefix s) c = c\<lparr>sc_orderPrefix := s\<rparr>"
| "set_flag (FlagMaxAttempts n) c = c\<lparr>sc_maxAttempts := n\<rparr>"

definition flag_defaults :: simulatorConfig where
  "flag_defaults = \<lparr>sc_baseURL = ''http://localhost:8080'', sc_scenario = ''traffic'', sc_total = 1000,
     sc_concurrency = 50, sc_successRate = round_f64 (95 / 100), sc_callbackRate = Fin 1,
     sc_duplicateRate = Fin 0, sc_amount = Fin 499, sc_timeout = 10 * Second,
     sc_orderPrefix = ''ORD-SIM'', sc_maxAttempts = 20\<rparr>"

definition strings_TrimRight :: "string \<Rightarrow> char \<Rightarrow> string" where
  "strings_TrimRight s c = rev (dropWhile (\<lambda>d. d = c) (rev s))"

definition parseFlags :: "sim_flag list \<Rightarrow> simulatorConfig" where
  "parseFlags flags = (let cfg = fold set_flag flags flag_defaults in
     cfg\<lparr>sc_baseURL := strings_TrimRight (sc_baseURL cfg) (CHR ''/'')\<rparr>)"

definition simulatorConfig_validate :: "simulatorConfig \<Rightarrow> go_error option" where
  "simulatorConfig_validate c =
     (if sc_total c \<le> 0 then Some (Errorf ''total must be > 0'' [])
      else if sc_concurrency c \<le> 0 then Some (Errorf ''concurrency must be > 0'' [])
      else if sc_successRate c < Fin 0 \<or> Fin 1 < sc_successRate c
        then Some (Errorf ''success-rate must be between 0 and 1'' [])
      else if sc_callbackRate c < Fin 0 \<or> Fin 1 < sc_callbackRate c
        then Some (Errorf ''callback-rate must be between 0 and 1'' [])
      else if sc_duplicateRate c < Fin 0 \<or> Fin 1 < sc_duplicateRate c
        then Some (Errorf ''duplicate-rate must be between 0 and 1'' [])
      else if sc_timeout c \<le> 0 then Some (Errorf ''timeout must be > 0'' [])
      else if sc_scenario c \<noteq> ''traffic'' \<and> sc_scenario c \<noteq> ''order-blacklist''
        then Some (Errorf ''scenario must be traffic or order-blacklist'' [])
      else if sc_maxAttempts c \<le> 0 then Some (Errorf ''max-attempts must be > 0'' [])
      else None)"

section \<open>The client\<close>

definition json_error :: go_error where
  "json_error = Errorf ''json'' []"

definition new_request :: "'w Outside \<Rightarrow> string \<Rightarrow> string \<Rightarrow> ('w, go_error, unit) proc" where
  "new_request E meth url = (case ou_NewRequest E meth url of None \<Rightarrow> ret () | Some e \<Rightarrow> throw e)"

definition read_all :: "http_response \<Rightarrow> ('w, go_error, string) proc" where
  "read_all resp = (case snd (rs_Body resp) of None \<Rightarrow> ret (fst (rs_Body resp)) | Some e \<Rightarrow> throw e)"

text \<open>Decoding the document of a text into the zero value of the type.\<close>

definition decode_text :: "json option \<Rightarrow> 'a decoder \<Rightarrow> 'a \<Rightarrow> ('w, go_error, 'a) proc" where
  "decode_text doc dec zero = (case doc of
     None \<Rightarrow> throw json_error
   | Some j \<Rightarrow> (case dec j zero of None \<Rightarrow> throw json_error | Some x \<Rightarrow> ret x))"

definition postJSON :: "'w Outside \<Rightarrow> 'a decoder \<Rightarrow> 'a \<Rightarrow> string \<Rightarrow> json option \<Rightarrow> ('w, go_error, 'a) proc" where
  "postJSON E dec zero url payload =
     (case payload of None \<Rightarrow> throw json_error
      | Some body \<Rightarrow>
     andThen (new_request E ''POST'' url) (\<lambda>_.
     andThen (ou_Do E \<lparr>rq_Method = ''POST'', rq_URL = url, rq_Body = Some body\<rparr>) (\<lambda>resp.
     andThen (read_all resp) (\<lambda>respBody.
     if rs_StatusCode resp < 200 \<or> rs_StatusCode resp > 299 then
       throw (Errorf ''POST %s returned %d: %s'' [url, fmt_d (rs_StatusCode resp), TrimSpace respBody])
     else decode_text (ou_tokens E respBody) dec zero))))"

definition initiateRequest_json :: "string \<Rightarrow> f64 \<Rightarrow> json option" where
  "initiateRequest_json orderID amount = map_option (\<lambda>a. JObject [(''order_id'', JString orderID), (''amount'', a),
     (''payment_instrument'', JObject [(''card_number'', JString ''****''), (''expiry'', JString ''12/30''),
       (''type'', JString ''card'')])]) (float_json amount)"

definition callbackRequest_json :: "transactionResponse \<Rightarrow> string \<Rightarrow> string \<Rightarrow> json" where
  "callbackRequest_json transaction status reason = JObject
     ([(''transaction_id'', JString (tp_TransactionID transaction)), (''order_id'', JString (tp_OrderID transaction)),
       (''gateway'', JString (tp_Gateway transaction)), (''status'', JString status)] @
      omit_empty ''reason'' reason)"

definition zero_transactionResponse :: transactionResponse where
  "zero_transactionResponse = \<lparr>tp_TransactionID = '''', tp_OrderID = '''', tp_AttemptNo = 0,
     tp_Amount = Fin 0, tp_Gateway = '''', tp_Status = ''''\<rparr>"

definition sim_initiate :: "'w Outside \<Rightarrow> simulatorConfig \<Rightarrow> string \<Rightarrow> ('w, go_error, transactionResponse) proc" where
  "sim_initiate E cfg orderID =
     postJSON E (unmarshal_struct transactionResponse_fields) zero_transactionResponse
       (sc_baseURL cfg @ ''/transactions/initiate'') (initiateRequest_json orderID (sc_amount cfg))"

definition sendCallback :: "'w Outside \<Rightarrow> string \<Rightarrow> transactionResponse \<Rightarrow> string \<Rightarrow> ('w, go_error, unit) proc" where
  "sendCallback E baseURL transaction status =
     andThen (postJSON E (decode_any_map id (\<lambda>m _. m)) None (baseURL @ ''/transactions/callback'')
       (Some (callbackRequest_json transaction status
         (if status = ''failure'' then ''simulated_failure'' else '''')))) (\<lambda>_. ret ())"

definition healthCheck :: "'w Outside \<Rightarrow> string \<Rightarrow> ('w, go_error, unit) proc" where
  "healthCheck E baseURL =
     andThen (new_request E ''GET'' (baseURL @ ''/health'')) (\<lambda>_.
     andThen (ou_Do E \<lparr>rq_Method = ''GET'', rq_URL = baseURL @ ''/health'', rq_Body = None\<rparr>) (\<lambda>resp.
     if rs_StatusCode resp \<noteq> 200 then
       throw (Errorf ''GET /health returned %d: %s'' [fmt_d (rs_StatusCode resp), TrimSpace (fst (rs_Body resp))])
     else ret ()))"

text \<open>The decoder stops after the first document, so a body that breaks off later is accepted.\<close>

definition fetchGatewayStats :: "'w Outside \<Rightarrow> string \<Rightarrow> ('w, go_error, gatewayResponse) proc" where
  "fetchGatewayStats E baseURL =
     andThen (new_request E ''GET'' (baseURL @ ''/gateways'')) (\<lambda>_.
     andThen (ou_Do E \<lparr>rq_Method = ''GET'', rq_URL = baseURL @ ''/gateways'', rq_Body = None\<rparr>) (\<lambda>resp.
     if rs_StatusCode resp \<noteq> 200 then
       throw (Errorf ''GET /gateways returned %d: %s'' [fmt_d (rs_StatusCode resp), TrimSpace (fst (rs_Body resp))])
     else
       decode_text (ou_first E (fst (rs_Body resp))) (unmarshal_struct gatewayResponse_fields)
         \<lparr>gp_Routing = zero_gatewayRouting, gp_Gateways = []\<rparr>))"

section \<open>The blacklist scenario\<close>

definition println :: "'w Outside \<Rightarrow> string \<Rightarrow> ('w, 'e, unit) proc" where
  "println E line w = (Inr (), ou_Print E (Stdout line) w)"

text \<open>\<open>fmt.Errorf(prefix + "%w", args..., err)\<close>.\<close>

fun wrap_error :: "string \<Rightarrow> string list \<Rightarrow> go_error \<Rightarrow> go_error" where
  "wrap_error pfx args (Sentinel s) = Wrapf s (pfx @ ''%w'') args"
| "wrap_error pfx args (Wrapf s f as) = Wrapf s (pfx @ f) (args @ as)"
| "wrap_error pfx args (Errorf f as) = Errorf (pfx @ f) (args @ as)"

definition wrapping :: "string \<Rightarrow> string list \<Rightarrow> ('w, go_error, 'a) proc \<Rightarrow> ('w, go_error, 'a) proc" where
  "wrapping pfx args m = onError m (\<lambda>e. throw (wrap_error pfx args e)) ret"

definition attempt_line :: "int \<Rightarrow> string \<Rightarrow> int \<Rightarrow> string" where
  "attempt_line attempt g n =
     ''attempt='' @ fmt_d attempt @ '' gateway='' @ g @ '' failure_count_for_gateway='' @ fmt_d n"

text \<open>
  The loop over the attempts, \<open>n\<close> of them left: the gateway that reached the threshold, or the empty
  string. Reading an absent gateway of the map gives 0.
\<close>

fun blacklist_attempts :: "'w Outside \<Rightarrow> simulatorConfig \<Rightarrow> string \<Rightarrow> int \<Rightarrow> nat \<Rightarrow> int \<Rightarrow> (string \<Rightarrow> int)
    \<Rightarrow> ('w, go_error, string) proc" where
  "blacklist_attempts E cfg orderID threshold 0 attempt failures = ret ''''"
| "blacklist_attempts E cfg orderID threshold (Suc n) attempt failures =
     andThen (wrapping ''attempt %d initiate failed before blacklist threshold was reached: '' [fmt_d attempt]
       (sim_initiate E cfg orderID)) (\<lambda>transaction.
     andThen (wrapping ''attempt %d failure callback failed: '' [fmt_d attempt]
       (sendCallback E (sc_baseURL cfg) transaction ''failure'')) (\<lambda>_.
     let g = tp_Gateway transaction; failures' = failures(g := failures g + 1) in
     andThen (println E (attempt_line attempt g (failures' g))) (\<lambda>_.
     if failures' g \<ge> threshold then ret g
     else blacklist_attempts E cfg orderID threshold n (attempt + 1) failures')))"

definition runOrderBlacklistScenario :: "'w Outside \<Rightarrow> simulatorConfig \<Rightarrow> ('w, go_error, unit) proc" where
  "runOrderBlacklistScenario E cfg =
     andThen (fetchGatewayStats E (sc_baseURL cfg)) (\<lambda>gateways.
     if length (filter gy_Enabled (gp_Gateways gateways)) < 2 then
       throw (Errorf ''order-blacklist scenario needs at least two enabled gateways'' [])
     else
      (let threshold0 = gr_OrderGatewayFailureThreshold (gp_Routing gateways);
           threshold = (if threshold0 \<le> 0 then 2 else threshold0);
           orderID = sc_orderPrefix cfg @ ''-BLACKLIST'' in
       andThen (println E ''=== Order Gateway Blacklist Scenario ==='') (\<lambda>_.
       andThen (println E (''Order ID: '' @ orderID)) (\<lambda>_.
       andThen (println E (''Failure threshold: '' @ fmt_d threshold)) (\<lambda>_.
       andThen (blacklist_attempts E cfg orderID threshold (nat (sc_maxAttempts cfg)) 1 (\<lambda>_. 0)) (\<lambda>blacklisted.
       if blacklisted = '''' then
         throw (Errorf ''no gateway reached failure threshold within %d attempts'' [fmt_d (sc_maxAttempts cfg)])
       else
         andThen (wrapping ''post-blacklist initiate failed: '' [] (sim_initiate E cfg orderID)) (\<lambda>next_tx.
         if tp_Gateway next_tx = blacklisted then
           throw (Errorf ''blacklisted gateway %q was selected again for order %q'' [blacklisted, orderID])
         else
           println E (''blacklisted_gateway='' @ blacklisted @ '' next_gateway='' @ tp_Gateway next_tx @ '' result=passed''))))))))"

section \<open>One transaction\<close>

record sim_result =
  re_gateway :: string
  re_initiated :: bool
  re_callbackSent :: bool
  re_callbackSuccess :: bool
  re_duplicateSent :: bool
  re_initiateLatency :: duration
  re_callbackLatency :: duration
  re_initiateErr :: "go_error option"
  re_callbackErr :: "go_error option"

text \<open>\<open>time.Since\<close>: the difference of two times is cut to the range of a duration.\<close>

definition Since :: "time \<Rightarrow> time \<Rightarrow> duration" where
  "Since start now = max (- (2 ^ 63)) (min (2 ^ 63 - 1) (now - start))"

definition runTransaction :: "'w Outside \<Rightarrow> simulatorConfig \<Rightarrow> int \<Rightarrow> 'w \<Rightarrow> sim_result \<times> 'w" where
  "runTransaction E cfg job w0 =
     (let orderID = sc_orderPrefix cfg @ ''-'' @ fmt_d job;
          (start, w1) = ou_Now E w0;
          (initiated, w2) = sim_initiate E cfg orderID w1;
          (finish, w3) = ou_Now E w2;
          item = \<lparr>re_gateway = '''', re_initiated = False, re_callbackSent = False,
            re_callbackSuccess = False, re_duplicateSent = False,
            re_initiateLatency = Since start finish, re_callbackLatency = 0,
            re_initiateErr = None, re_callbackErr = None\<rparr> in
      case initiated of
        Inl err \<Rightarrow> (item\<lparr>re_initiateErr := Some err\<rparr>, w3)
      | Inr transaction \<Rightarrow>
         (let item1 = item\<lparr>re_initiated := True, re_gateway := tp_Gateway transaction\<rparr>;
              (r1, w4) = ou_Float64 E w3 in
          if sc_callbackRate cfg < r1 then (item1, w4)
          else
           (let (r2, w5) = ou_Float64 E w4;
                status = (if r2 < sc_successRate cfg then ''success'' else ''failure'');
                (start, w6) = ou_Now E w5;
                (sent, w7) = sendCallback E (sc_baseURL cfg) transaction status w6;
                (finish, w8) = ou_Now E w7;
                item2 = item1\<lparr>re_callbackLatency := Since start finish\<rparr> in
            case sent of
              Inl err \<Rightarrow> (item2\<lparr>re_callbackErr := Some err\<rparr>, w8)
            | Inr _ \<Rightarrow>
               (let item3 = item2\<lparr>re_callbackSent := True, re_callbackSuccess := (status = ''success'')\<rparr>;
                    (r3, w9) = ou_Float64 E w8 in
                if r3 < sc_duplicateRate cfg then
                  (item3\<lparr>re_duplicateSent := True\<rparr>,
                   snd (sendCallback E (sc_baseURL cfg) transaction status w9))
                else (item3, w9)))))"

section \<open>Adding up\<close>

record gatewayAggregate =
  ga_initiated :: int
  ga_callbacks :: int
  ga_successCallbacks :: int
  ga_failureCallbacks :: int
  ga_duplicates :: int

record aggregate =
  ag_totalInitiated :: int
  ag_totalCallbacks :: int
  ag_totalDuplicates :: int
  ag_successCallbacks :: int
  ag_failureCallbacks :: int
  ag_initiateErrors :: int
  ag_callbackErrors :: int
  ag_initiateLatencyNanos :: int
  ag_callbackLatencyNanos :: int
  ag_byGateway :: "string \<rightharpoonup> gatewayAggregate"

definition zero_gatewayAggregate :: gatewayAggregate where
  "zero_gatewayAggregate = \<lparr>ga_initiated = 0, ga_callbacks = 0, ga_successCallbacks = 0,
     ga_failureCallbacks = 0, ga_duplicates = 0\<rparr>"

definition new_aggregate :: aggregate where
  "new_aggregate = \<lparr>ag_totalInitiated = 0, ag_totalCallbacks = 0, ag_totalDuplicates = 0,
     ag_successCallbacks = 0, ag_failureCallbacks = 0, ag_initiateErrors = 0, ag_callbackErrors = 0,
     ag_initiateLatencyNanos = 0, ag_callbackLatencyNanos = 0, ag_byGateway = Map.empty\<rparr>"

definition gateway_entry :: "aggregate \<Rightarrow> string \<Rightarrow> gatewayAggregate" where
  "gateway_entry a g = (case ag_byGateway a g of None \<Rightarrow> zero_gatewayAggregate | Some s \<Rightarrow> s)"

text \<open>Counters are 64-bit and wrap.\<close>

definition inc :: "int \<Rightarrow> bool \<Rightarrow> int" where
  "inc n b = (if b then wrap64 (n + 1) else n)"

text \<open>The part of \<open>record\<close> for a callback that was sent.\<close>

definition record_callback :: "aggregate \<Rightarrow> sim_result \<Rightarrow> aggregate" where
  "record_callback a item =
     (let a1 = a\<lparr>ag_totalCallbacks := inc (ag_totalCallbacks a) True,
            ag_callbackLatencyNanos := wrap64 (ag_callbackLatencyNanos a + re_callbackLatency item),
            ag_totalDuplicates := inc (ag_totalDuplicates a) (re_duplicateSent item),
            ag_successCallbacks := inc (ag_successCallbacks a) (re_callbackSuccess item),
            ag_failureCallbacks := inc (ag_failureCallbacks a) (\<not> re_callbackSuccess item)\<rparr>;
          s = gateway_entry a1 (re_gateway item) in
      a1\<lparr>ag_byGateway := (ag_byGateway a1)(re_gateway item \<mapsto>
        s\<lparr>ga_callbacks := inc (ga_callbacks s) True,
          ga_duplicates := inc (ga_duplicates s) (re_duplicateSent item),
          ga_successCallbacks := inc (ga_successCallbacks s) (re_callbackSuccess item),
          ga_failureCallbacks := inc (ga_failureCallbacks s) (\<not> re_callbackSuccess item)\<rparr>)\<rparr>)"

definition aggregate_record :: "aggregate \<Rightarrow> sim_result \<Rightarrow> aggregate" where
  "aggregate_record a item =
     (if re_initiateErr item \<noteq> None then a\<lparr>ag_initiateErrors := inc (ag_initiateErrors a) True\<rparr>
      else
       (let a1 = a\<lparr>ag_totalInitiated := inc (ag_totalInitiated a) True,
              ag_initiateLatencyNanos := wrap64 (ag_initiateLatencyNanos a + re_initiateLatency item)\<rparr>;
            s = gateway_entry a1 (re_gateway item);
            a2 = a1\<lparr>ag_byGateway := (ag_byGateway a1)(re_gateway item \<mapsto>
              s\<lparr>ga_initiated := inc (ga_initiated s) True\<rparr>)\<rparr> in
        if re_callbackErr item \<noteq> None then a2\<lparr>ag_callbackErrors := inc (ag_callbackErrors a2) True\<rparr>
        else if \<not> re_callbackSent item then a2
        else record_callback a2 item))"

text \<open>Division of integers rounds towards zero in Go.\<close>

definition avgDuration :: "int \<Rightarrow> int \<Rightarrow> duration" where
  "avgDuration totalNanos n =
     (if n = 0 then 0 else wrap64 (sgn totalNanos * sgn n * (\<bar>totalNanos\<bar> div \<bar>n\<bar>)))"

end
