(* ===== verification/SimulatorPool.thy ===== *)
theory SimulatorPool
  imports Simulator
begin

text \<open>
  The traffic run of \<open>cmd/simulator/main.go\<close>: a feeder puts the transactions to run into a channel,
  workers take them, run them and put the results into a second channel, a collector adds them up.
  A step is one send, one receive, one run of a transaction, or the end of a goroutine. The first part
  is the scheme, the second proves that the summary does not depend on the schedule, that the
  run cannot get stuck and that it ends.
\<close>

section \<open>The goroutines\<close>

datatype worker = Idle | Running int | Sending sim_result | Stopped

text \<open>
  \<open>pl_next\<close> is the transaction the feeder sends next, a 64-bit counter; closing a channel is
  recorded by a flag. The channels are small enough for the memory.
\<close>

record Pool =
  pl_next :: int
  pl_jobs :: "int list"
  pl_jobsClosed :: bool
  pl_workers :: "worker list"
  pl_results :: "sim_result list"
  pl_resultsClosed :: bool
  pl_agg :: aggregate
  pl_done :: bool

definition start_pool :: "simulatorConfig \<Rightarrow> Pool" where
  "start_pool cfg = \<lparr>pl_next = 1, pl_jobs = [], pl_jobsClosed = False,
     pl_workers = replicate (nat (sc_concurrency cfg)) Idle, pl_results = [], pl_resultsClosed = False,
     pl_agg = new_aggregate, pl_done = False\<rparr>"

text \<open>The capacity of both channels, \<open>cfg.concurrency*2\<close>.\<close>

definition capacity :: "simulatorConfig \<Rightarrow> nat" where
  "capacity cfg = nat (sc_concurrency cfg * 2)"

text \<open>
  \<open>runs job item\<close>: a run of the transaction \<open>job\<close> may give \<open>item\<close>; what it gives depends on
  the network, the clock and the random numbers.
\<close>

inductive pool_step :: "simulatorConfig \<Rightarrow> (int \<Rightarrow> sim_result \<Rightarrow> bool) \<Rightarrow> Pool \<Rightarrow> Pool \<Rightarrow> bool"
  for cfg runs where
  feed: "pl_next p \<le> sc_total cfg \<Longrightarrow> length (pl_jobs p) < capacity cfg \<Longrightarrow>
    pool_step cfg runs p (p\<lparr>pl_jobs := pl_jobs p @ [pl_next p], pl_next := wrap64 (pl_next p + 1)\<rparr>)"
| close_jobs: "sc_total cfg < pl_next p \<Longrightarrow> \<not> pl_jobsClosed p \<Longrightarrow>
    pool_step cfg runs p (p\<lparr>pl_jobsClosed := True\<rparr>)"
| take_job: "k < length (pl_workers p) \<Longrightarrow> pl_workers p ! k = Idle \<Longrightarrow> pl_jobs p = job # jobs \<Longrightarrow>
    pool_step cfg runs p (p\<lparr>pl_jobs := jobs, pl_workers := (pl_workers p)[k := Running job]\<rparr>)"
| run_job: "k < length (pl_workers p) \<Longrightarrow> pl_workers p ! k = Running job \<Longrightarrow> runs job item \<Longrightarrow>
    pool_step cfg runs p (p\<lparr>pl_workers := (pl_workers p)[k := Sending item]\<rparr>)"
| send_result: "k < length (pl_workers p) \<Longrightarrow> pl_workers p ! k = Sending item \<Longrightarrow>
    length (pl_results p) < capacity cfg \<Longrightarrow>
    pool_step cfg runs p (p\<lparr>pl_results := pl_results p @ [item], pl_workers := (pl_workers p)[k := Idle]\<rparr>)"
| stop_worker: "k < length (pl_workers p) \<Longrightarrow> pl_workers p ! k = Idle \<Longrightarrow> pl_jobs p = [] \<Longrightarrow>
    pl_jobsClosed p \<Longrightarrow>
    pool_step cfg runs p (p\<lparr>pl_workers := (pl_workers p)[k := Stopped]\<rparr>)"
| close_results: "pl_jobsClosed p \<Longrightarrow> \<forall>w \<in> set (pl_workers p). w = Stopped \<Longrightarrow> \<not> pl_resultsClosed p \<Longrightarrow>
    pool_step cfg runs p (p\<lparr>pl_resultsClosed := True\<rparr>)"
| collect: "pl_results p = item # items \<Longrightarrow> \<not> pl_done p \<Longrightarrow>
    pool_step cfg runs p (p\<lparr>pl_results := items, pl_agg := aggregate_record (pl_agg p) item\<rparr>)"
| finish: "pl_results p = [] \<Longrightarrow> pl_resultsClosed p \<Longrightarrow> \<not> pl_done p \<Longrightarrow>
    pool_step cfg runs p (p\<lparr>pl_done := True\<rparr>)"

abbreviation pool_steps :: "simulatorConfig \<Rightarrow> (int \<Rightarrow> sim_result \<Rightarrow> bool) \<Rightarrow> Pool \<Rightarrow> Pool \<Rightarrow> bool" where
  "pool_steps cfg runs \<equiv> (pool_step cfg runs)\<^sup>*\<^sup>*"

section \<open>The order of the results does not matter\<close>

lemma wrap64_add_left [simp]: "wrap64 (wrap64 a + b) = wrap64 (a + b)"
proof -
  have "(wrap64 a + b + 2 ^ 63) mod 2 ^ 64 = ((a + 2 ^ 63) mod 2 ^ 64 + b) mod 2 ^ 64"
    by (simp add: wrap64_def)
  also have "\<dots> = (a + 2 ^ 63 + b) mod 2 ^ 64" by (rule mod_add_left_eq)
  also have "a + 2 ^ 63 + b = a + b + 2 ^ 63" by simp
  finally show ?thesis by (simp only: wrap64_def [of "wrap64 a + b"] wrap64_def [of "a + b"])
qed

lemma wrap64_add_right [simp]: "wrap64 (a + wrap64 b) = wrap64 (a + b)"
  using wrap64_add_left [of b a] by (simp add: add.commute)

lemma inc_inc: "inc (inc n b) c = inc (inc n c) b"
  by (simp add: inc_def)


lemma gateway_entry_upd:
  "gateway_entry (a\<lparr>ag_byGateway := m\<rparr>) g = (case m g of None \<Rightarrow> zero_gatewayAggregate | Some s \<Rightarrow> s)"
  by (simp add: gateway_entry_def)

text \<open>One result as an update of every counter.\<close>

definition bump :: "sim_result \<Rightarrow> gatewayAggregate \<Rightarrow> gatewayAggregate" where
  "bump item s = (let sent = re_callbackErr item = None \<and> re_callbackSent item in
     s\<lparr>ga_initiated := inc (ga_initiated s) True, ga_callbacks := inc (ga_callbacks s) sent,
       ga_duplicates := inc (ga_duplicates s) (sent \<and> re_duplicateSent item),
       ga_successCallbacks := inc (ga_successCallbacks s) (sent \<and> re_callbackSuccess item),
       ga_failureCallbacks := inc (ga_failureCallbacks s) (sent \<and> \<not> re_callbackSuccess item)\<rparr>)"

lemma aggregate_record_eq:
  "aggregate_record a item =
     (let ok = re_initiateErr item = None; sent = ok \<and> re_callbackErr item = None \<and> re_callbackSent item in
      a\<lparr>ag_totalInitiated := inc (ag_totalInitiated a) ok,
        ag_totalCallbacks := inc (ag_totalCallbacks a) sent,
        ag_totalDuplicates := inc (ag_totalDuplicates a) (sent \<and> re_duplicateSent item),
        ag_successCallbacks := inc (ag_successCallbacks a) (sent \<and> re_callbackSuccess item),
        ag_failureCallbacks := inc (ag_failureCallbacks a) (sent \<and> \<not> re_callbackSuccess item),
        ag_initiateErrors := inc (ag_initiateErrors a) (\<not> ok),
        ag_callbackErrors := inc (ag_callbackErrors a) (ok \<and> re_callbackErr item \<noteq> None),
        ag_initiateLatencyNanos := (if ok then wrap64 (ag_initiateLatencyNanos a + re_initiateLatency item)
          else ag_initiateLatencyNanos a),
        ag_callbackLatencyNanos := (if sent then wrap64 (ag_callbackLatencyNanos a + re_callbackLatency item)
          else ag_callbackLatencyNanos a),
        ag_byGateway := (if ok then (ag_byGateway a)(re_gateway item \<mapsto> bump item (gateway_entry a (re_gateway item)))
          else ag_byGateway a)\<rparr>)"
  by (simp add: aggregate_record_def record_callback_def Let_def inc_def bump_def gateway_entry_def
      split: option.splits)

lemma bump_bump: "bump i (bump j s) = bump j (bump i s)"
  unfolding bump_def Let_def by (simp add: inc_inc)

definition succeeded :: "sim_result \<Rightarrow> bool" where
  "succeeded item \<longleftrightarrow> re_initiateErr item = None"

definition called_back :: "sim_result \<Rightarrow> bool" where
  "called_back item \<longleftrightarrow> succeeded item \<and> re_callbackErr item = None \<and> re_callbackSent item"

lemma aggregate_record_simps [simp]:
  "ag_totalInitiated (aggregate_record a i) = inc (ag_totalInitiated a) (succeeded i)"
  "ag_totalCallbacks (aggregate_record a i) = inc (ag_totalCallbacks a) (called_back i)"
  "ag_totalDuplicates (aggregate_record a i) = inc (ag_totalDuplicates a) (called_back i \<and> re_duplicateSent i)"
  "ag_successCallbacks (aggregate_record a i) = inc (ag_successCallbacks a) (called_back i \<and> re_callbackSuccess i)"
  "ag_failureCallbacks (aggregate_record a i) = inc (ag_failureCallbacks a) (called_back i \<and> \<not> re_callbackSuccess i)"
  "ag_initiateErrors (aggregate_record a i) = inc (ag_initiateErrors a) (\<not> succeeded i)"
  "ag_callbackErrors (aggregate_record a i) = inc (ag_callbackErrors a) (succeeded i \<and> re_callbackErr i \<noteq> None)"
  "ag_initiateLatencyNanos (aggregate_record a i) = (if succeeded i
     then wrap64 (ag_initiateLatencyNanos a + re_initiateLatency i) else ag_initiateLatencyNanos a)"
  "ag_callbackLatencyNanos (aggregate_record a i) = (if called_back i
     then wrap64 (ag_callbackLatencyNanos a + re_callbackLatency i) else ag_callbackLatencyNanos a)"
  "ag_byGateway (aggregate_record a i) = (if succeeded i
     then (ag_byGateway a)(re_gateway i \<mapsto> bump i (gateway_entry a (re_gateway i))) else ag_byGateway a)"
  by (simp_all add: aggregate_record_eq Let_def succeeded_def called_back_def)

lemma gateway_entry_record: "gateway_entry (aggregate_record a i) g =
    (if succeeded i \<and> g = re_gateway i then bump i (gateway_entry a g) else gateway_entry a g)"
  by (simp add: gateway_entry_def)

lemma aggregate_record_commute:
  "aggregate_record (aggregate_record a i) j = aggregate_record (aggregate_record a j) i"
  by (rule aggregate.equality)
    (auto simp: inc_inc gateway_entry_record bump_bump add.commute add.left_commute fun_upd_twist)

definition summary :: "sim_result list \<Rightarrow> aggregate" where
  "summary items = fold (\<lambda>i a. aggregate_record a i) items new_aggregate"

lemma summary_snoc: "aggregate_record (summary items) i = summary (items @ [i])"
  by (simp add: summary_def)

lemma summary_mset:
  assumes "mset items = mset items'"
  shows "summary items = summary items'"
  unfolding summary_def
  by (rule fold_multiset_equiv [THEN fun_cong, OF _ assms]) (simp add: fun_eq_iff aggregate_record_commute)

section \<open>Where the transactions are\<close>

fun running :: "worker \<Rightarrow> int list" where
  "running (Running job) = [job]"
| "running _ = []"

fun sending :: "worker \<Rightarrow> sim_result list" where
  "sending (Sending item) = [item]"
| "sending _ = []"

definition at_workers :: "(worker \<Rightarrow> 'a list) \<Rightarrow> worker list \<Rightarrow> 'a multiset" where
  "at_workers f ws = mset (concat (map f ws))"

lemma at_workers_upd:
  "k < length ws \<Longrightarrow> at_workers f (ws[k := w]) + mset (f (ws ! k)) = at_workers f ws + mset (f w)"
  unfolding at_workers_def by (induction ws arbitrary: k) (auto split: nat.split simp: nth_Cons)

text \<open>
  \<open>finished\<close> pairs the transactions that were run with their results, \<open>collected\<close> are the results
  added up. Every transaction fed so far is queued, running or finished; every result is being
  sent, queued or collected.
\<close>

definition pool_inv :: "simulatorConfig \<Rightarrow> (int \<Rightarrow> sim_result \<Rightarrow> bool) \<Rightarrow> (int \<times> sim_result) list
    \<Rightarrow> sim_result list \<Rightarrow> Pool \<Rightarrow> bool" where
  "pool_inv cfg runs finished collected p \<longleftrightarrow>
     pl_agg p = summary collected \<and>
     mset (map fst finished) + mset (pl_jobs p) + at_workers running (pl_workers p) = mset [1..pl_next p - 1] \<and>
     mset (map snd finished) = mset collected + mset (pl_results p) + at_workers sending (pl_workers p) \<and>
     (\<forall>(job, item) \<in> set finished. runs job item) \<and>
     1 \<le> pl_next p \<and> (pl_next p \<le> sc_total cfg + 1 \<or> pl_next p = 1) \<and>
     (pl_jobsClosed p \<longrightarrow> sc_total cfg < pl_next p) \<and>
     (Stopped \<in> set (pl_workers p) \<longrightarrow> pl_jobsClosed p \<and> pl_jobs p = []) \<and>
     (pl_resultsClosed p \<longrightarrow> pl_jobsClosed p \<and> (\<forall>w \<in> set (pl_workers p). w = Stopped)) \<and>
     (pl_done p \<longrightarrow> pl_resultsClosed p \<and> pl_results p = []) \<and>
     length (pl_workers p) = nat (sc_concurrency cfg) \<and> sc_total cfg < 2 ^ 63 - 1"

lemma pool_inv_start: "sc_total cfg < 2 ^ 63 - 1 \<Longrightarrow> pool_inv cfg runs [] [] (start_pool cfg)"
  by (auto simp: pool_inv_def start_pool_def summary_def at_workers_def in_set_replicate)

lemma next_job: "1 \<le> pl_next p \<Longrightarrow> pl_next p \<le> t \<Longrightarrow> t < 2 ^ 63 - 1 \<Longrightarrow> wrap64 (pl_next p + 1) = pl_next p + 1"
  by (rule wrap64_id) (simp add: in64_def)

lemma upto_next: "1 \<le> n \<Longrightarrow> mset [1..n] = add_mset n (mset [1..n - 1])" for n :: int
  by (simp add: upto_rec2)

lemma pool_inv_step:
  assumes "pool_step cfg runs p p'" "pool_inv cfg runs finished collected p"
  shows "\<exists>finished' collected'. pool_inv cfg runs finished' collected' p'"
  using assms
proof (cases rule: pool_step.cases)
  case feed
  have "wrap64 (pl_next p + 1) = pl_next p + 1"
    using assms(2) feed(2) by (intro next_job [of _ "sc_total cfg"]) (simp_all add: pool_inv_def)
  then have "pool_inv cfg runs finished collected p'"
    using assms(2) feed by (auto simp: pool_inv_def upto_next)
  then show ?thesis by blast
next
  case close_jobs
  then have "pool_inv cfg runs finished collected p'" using assms(2) by (auto simp: pool_inv_def)
  then show ?thesis by blast
next
  case (take_job k job jobs)
  have "at_workers running ((pl_workers p)[k := Running job]) = at_workers running (pl_workers p) + {#job#}"
    "at_workers sending ((pl_workers p)[k := Running job]) = at_workers sending (pl_workers p)"
    using at_workers_upd [OF take_job(2), of running "Running job"]
      at_workers_upd [OF take_job(2), of sending "Running job"] take_job(3) by simp_all
  then have "pool_inv cfg runs finished collected p'"
    using assms(2) take_job nth_mem [OF take_job(2)]
    by (auto simp: pool_inv_def dest!: set_update_subset_insert [THEN subsetD])
  then show ?thesis by blast
next
  case (run_job k job item)
  have "at_workers running (pl_workers p) = add_mset job (at_workers running ((pl_workers p)[k := Sending item]))"
    "at_workers sending ((pl_workers p)[k := Sending item]) = add_mset item (at_workers sending (pl_workers p))"
    using at_workers_upd [OF run_job(2), of running "Sending item"]
      at_workers_upd [OF run_job(2), of sending "Sending item"] run_job(3) by simp_all
  then have "pool_inv cfg runs ((job, item) # finished) collected p'"
    using assms(2) run_job nth_mem [OF run_job(2)]
    by (auto simp: pool_inv_def dest!: set_update_subset_insert [THEN subsetD])
  then show ?thesis by blast
next
  case (send_result k item)
  have "at_workers running ((pl_workers p)[k := Idle]) = at_workers running (pl_workers p)"
    "at_workers sending (pl_workers p) = add_mset item (at_workers sending ((pl_workers p)[k := Idle]))"
    using at_workers_upd [OF send_result(2), of running Idle]
      at_workers_upd [OF send_result(2), of sending Idle] send_result(3) by simp_all
  then have "pool_inv cfg runs finished collected p'"
    using assms(2) send_result nth_mem [OF send_result(2)]
    by (auto simp: pool_inv_def dest!: set_update_subset_insert [THEN subsetD])
  then show ?thesis by blast
next
  case (stop_worker k)
  have "at_workers running ((pl_workers p)[k := Stopped]) = at_workers running (pl_workers p)"
    "at_workers sending ((pl_workers p)[k := Stopped]) = at_workers sending (pl_workers p)"
    using at_workers_upd [OF stop_worker(2), of running Stopped]
      at_workers_upd [OF stop_worker(2), of sending Stopped] stop_worker(3) by simp_all
  then have "pool_inv cfg runs finished collected p'"
    using assms(2) stop_worker nth_mem [OF stop_worker(2)]
    by (auto simp: pool_inv_def dest!: set_update_subset_insert [THEN subsetD])
  then show ?thesis by blast
next
  case close_results
  then have "pool_inv cfg runs finished collected p'" using assms(2) by (auto simp: pool_inv_def)
  then show ?thesis by blast
next
  case (collect item items)
  then have "pool_inv cfg runs finished (collected @ [item]) p'"
    using assms(2) by (auto simp: pool_inv_def summary_snoc)
  then show ?thesis by blast
next
  case finish
  then have "pool_inv cfg runs finished collected p'" using assms(2) by (auto simp: pool_inv_def)
  then show ?thesis by blast
qed

lemma pool_inv_reachable:
  assumes "pool_steps cfg runs (start_pool cfg) p" "sc_total cfg < 2 ^ 63 - 1"
  obtains finished collected where "pool_inv cfg runs finished collected p"
  using assms
proof (induction arbitrary: thesis rule: rtranclp_induct)
  case base
  then show ?case using pool_inv_start by blast
next
  case (step p p')
  then show ?case using pool_inv_step by metis
qed

lemma finished_summary:
  assumes "pool_steps cfg runs (start_pool cfg) p" "pl_done p" "0 < sc_concurrency cfg"
    and "sc_total cfg < 2 ^ 63 - 1"
  shows "\<exists>res. (\<forall>job \<in> {1..sc_total cfg}. runs job (res job)) \<and>
    pl_agg p = fold (\<lambda>item a. aggregate_record a item) (map res [1..sc_total cfg]) new_aggregate"
proof -
  obtain finished collected where inv: "pool_inv cfg runs finished collected p"
    by (rule pool_inv_reachable [OF assms(1,4)])
  have stopped: "\<forall>w \<in> set (pl_workers p). w = Stopped" and closed: "pl_jobsClosed p" "pl_results p = []"
    using inv assms(2) by (auto simp: pool_inv_def)
  have "pl_workers p \<noteq> []" using inv assms(3) by (auto simp: pool_inv_def)
  then have "Stopped \<in> set (pl_workers p)" using stopped by (cases "pl_workers p") auto
  then have jobs: "pl_jobs p = []" using inv by (auto simp: pool_inv_def)
  have empty: "at_workers running (pl_workers p) = {#}" "at_workers sending (pl_workers p) = {#}"
    using stopped by (auto simp: at_workers_def)
  have "sc_total cfg < pl_next p" "pl_next p \<le> sc_total cfg + 1 \<or> pl_next p = 1"
    using inv closed(1) by (simp_all add: pool_inv_def)
  then have "pl_next p - 1 = sc_total cfg \<or> pl_next p = 1 \<and> sc_total cfg < 1" by linarith
  then have last: "[1..pl_next p - 1] = [1..sc_total cfg]" by auto
  have fsts: "mset (map fst finished) = mset [1..sc_total cfg]"
    and snds: "mset (map snd finished) = mset collected"
    using inv jobs empty closed last by (auto simp: pool_inv_def)
  have dist: "distinct (map fst finished)"
    using fsts by (metis distinct_upto mset_eq_imp_distinct_iff)
  define res where "res job = the (map_of finished job)" for job
  have res: "res job = item" if "(job, item) \<in> set finished" for job item
    using map_of_is_SomeI [OF dist that] by (simp add: res_def)
  have "mset (map res [1..sc_total cfg]) = image_mset res (mset (map fst finished))"
    by (simp add: fsts [symmetric])
  also have "\<dots> = mset (map snd finished)"
    using res by (auto simp: multiset.map_comp intro!: image_mset_cong)
  finally have "summary (map res [1..sc_total cfg]) = summary collected"
    using snds by (intro summary_mset) simp
  moreover have "runs job (res job)" if "job \<in> {1..sc_total cfg}" for job
  proof -
    have "job \<in> set (map fst finished)"
      using that mset_eq_setD [OF fsts] by auto
    then obtain item where item: "(job, item) \<in> set finished" by auto
    then have "runs job item" using inv by (auto simp: pool_inv_def)
    with res [OF item] show ?thesis by simp
  qed
  moreover have "pl_agg p = summary collected" using inv by (simp add: pool_inv_def)
  ultimately show ?thesis unfolding summary_def by metis
qed

section \<open>A run ends\<close>

fun worker_weight :: "worker \<Rightarrow> nat" where
  "worker_weight Idle = 1"
| "worker_weight (Running _) = 4"
| "worker_weight (Sending _) = 3"
| "worker_weight Stopped = 0"

definition pool_weight :: "simulatorConfig \<Rightarrow> Pool \<Rightarrow> nat" where
  "pool_weight cfg p = 5 * nat (sc_total cfg - pl_next p + 1) + 4 * length (pl_jobs p) +
     sum_list (map worker_weight (pl_workers p)) + length (pl_results p) +
     (if pl_jobsClosed p then 0 else 1) + (if pl_resultsClosed p then 0 else 1) + (if pl_done p then 0 else 1)"

lemma worker_weight_upd:
  "k < length ws \<Longrightarrow> sum_list (map worker_weight (ws[k := w])) + worker_weight (ws ! k) =
     sum_list (map worker_weight ws) + worker_weight w"
  by (induction ws arbitrary: k) (auto split: nat.split simp: nth_Cons)

lemma pool_step_weight:
  assumes "pool_step cfg runs p p'" "pool_inv cfg runs finished collected p"
  shows "pool_weight cfg p' < pool_weight cfg p"
  using assms(1)
proof cases
  case feed
  have "wrap64 (pl_next p + 1) = pl_next p + 1"
    using assms(2) feed(2) by (intro next_job [of _ "sc_total cfg"]) (simp_all add: pool_inv_def)
  moreover have "nat (sc_total cfg - pl_next p + 1) = Suc (nat (sc_total cfg - (pl_next p + 1) + 1))"
    using feed(2) by simp
  ultimately show ?thesis using feed(1) by (simp add: pool_weight_def)
next
  case (take_job k job jobs)
  then show ?thesis using worker_weight_upd [OF take_job(2), of "Running job"] by (simp add: pool_weight_def)
next
  case (run_job k job item)
  then show ?thesis using worker_weight_upd [OF run_job(2), of "Sending item"] by (simp add: pool_weight_def)
next
  case (send_result k item)
  then show ?thesis using worker_weight_upd [OF send_result(2), of Idle] by (simp add: pool_weight_def)
next
  case (stop_worker k)
  then show ?thesis using worker_weight_upd [OF stop_worker(2), of Stopped] by (simp add: pool_weight_def)
qed (simp_all add: pool_weight_def)

lemma pool_progress:
  assumes inv: "pool_inv cfg runs finished collected p" and "0 < sc_concurrency cfg" "\<not> pl_done p"
    and runs: "\<forall>job. \<exists>item. runs job item"
  shows "\<exists>p'. pool_step cfg runs p p'"
proof (cases "pl_results p")
  case (Cons item items)
  with assms(3) show ?thesis by (blast intro: pool_step.collect)
next
  case Nil
  have cap: "0 < capacity cfg" using assms(2) by (simp add: capacity_def)
  have ne: "pl_workers p \<noteq> []" using inv assms(2) by (auto simp: pool_inv_def)
  consider (sending) k item where "k < length (pl_workers p)" "pl_workers p ! k = Sending item"
    | (running) k job where "k < length (pl_workers p)" "pl_workers p ! k = Running job"
    | (idle) k where "k < length (pl_workers p)" "pl_workers p ! k = Idle"
    | (stopped) "\<forall>w \<in> set (pl_workers p). w = Stopped"
    by (metis in_set_conv_nth worker.exhaust)
  then show ?thesis
  proof cases
    case sending
    with Nil cap show ?thesis by (fastforce intro: pool_step.send_result)
  next
    case running
    with runs show ?thesis by (blast intro: pool_step.run_job)
  next
    case idle
    show ?thesis
    proof (cases "pl_jobs p")
      case (Cons job jobs)
      with idle show ?thesis by (blast intro: pool_step.take_job)
    next
      case jobs: Nil
      show ?thesis
      proof (cases "pl_jobsClosed p")
        case True
        with idle jobs show ?thesis by (blast intro: pool_step.stop_worker)
      next
        case False
        then show ?thesis
          using jobs cap by (cases "pl_next p \<le> sc_total cfg")
            (fastforce intro: pool_step.feed pool_step.close_jobs)+
      qed
    qed
  next
    case stopped
    then have "Stopped \<in> set (pl_workers p)" using ne by (cases "pl_workers p") auto
    then have "pl_jobsClosed p" using inv by (simp add: pool_inv_def)
    with stopped Nil assms(3) show ?thesis
      by (cases "pl_resultsClosed p") (blast intro: pool_step.close_results pool_step.finish)+
  qed
qed

lemma pool_run_ends:
  assumes "(pool_step cfg runs ^^ steps) (start_pool cfg) p" "0 < sc_concurrency cfg" "0 \<le> sc_total cfg"
    and "\<forall>job. \<exists>item. runs job item" "sc_total cfg < 2 ^ 63 - 1"
  shows "int steps \<le> 5 * sc_total cfg + sc_concurrency cfg + 3" "(\<exists>p'. pool_step cfg runs p p') \<or> pl_done p"
proof -
  have "steps + pool_weight cfg p \<le> pool_weight cfg (start_pool cfg)"
    using assms(1)
  proof (induction steps arbitrary: p)
    case (Suc steps)
    then obtain q where "(pool_step cfg runs ^^ steps) (start_pool cfg) q" "pool_step cfg runs q p" by auto
    then obtain finished collected where "pool_inv cfg runs finished collected q"
      using pool_inv_reachable [OF relpowp_imp_rtranclp assms(5)] by metis
    with \<open>pool_step cfg runs q p\<close> have "pool_weight cfg p < pool_weight cfg q" by (rule pool_step_weight)
    with Suc.IH \<open>(pool_step cfg runs ^^ steps) (start_pool cfg) q\<close> show ?case by fastforce
  qed simp
  moreover have "int (pool_weight cfg (start_pool cfg)) = 5 * sc_total cfg + sc_concurrency cfg + 3"
    using assms(2,3) by (simp add: pool_weight_def start_pool_def sum_list_replicate)
  ultimately show "int steps \<le> 5 * sc_total cfg + sc_concurrency cfg + 3" by linarith
  have "pool_steps cfg runs (start_pool cfg) p" using assms(1) by (rule relpowp_imp_rtranclp)
  then obtain finished collected where "pool_inv cfg runs finished collected p"
    using pool_inv_reachable assms(5) by metis
  from pool_progress [OF this assms(2) _ assms(4)]
  show "(\<exists>p'. pool_step cfg runs p p') \<or> pl_done p" by blast
qed

end
