(* ===== verification/GoFormat.thy ===== *)
theory GoFormat
  imports GoNum GoTime Environment
begin

text \<open>
  The formats of \<open>fmt.Printf\<close> that the simulator prints with, and the rounding and the text of a
  \<open>time.Duration\<close>. Strings are bytes in UTF-8, as in Go; widths count runes.
\<close>

section \<open>Runes\<close>

text \<open>
  The bytes of the rune at the front of a text that is not empty, as \<open>utf8.DecodeRuneInString\<close> has them:
  a byte that begins no valid encoding counts as a rune of its own.
\<close>

definition cont_byte :: "char \<Rightarrow> bool" where
  "cont_byte c \<longleftrightarrow> 0x80 \<le> byte c \<and> byte c \<le> 0xBF"

definition second_byte :: "char \<Rightarrow> char \<Rightarrow> bool" where
  "second_byte a b \<longleftrightarrow> (if byte a = 0xE0 then 0xA0 else if byte a = 0xF0 then 0x90 else 0x80) \<le> byte b \<and>
     byte b \<le> (if byte a = 0xED then 0x9F else if byte a = 0xF4 then 0x8F else 0xBF)"

definition front_rune :: "string \<Rightarrow> nat" where
  "front_rune s = (case s of
     a # b # rest \<Rightarrow>
      (if 0xC2 \<le> byte a \<and> byte a \<le> 0xDF \<and> cont_byte b then 2
       else case rest of
         [] \<Rightarrow> 1
       | c # rest' \<Rightarrow>
          (if 0xE0 \<le> byte a \<and> byte a \<le> 0xEF \<and> second_byte a b \<and> cont_byte c then 3
           else case rest' of
             [] \<Rightarrow> 1
           | d # _ \<Rightarrow>
              if 0xF0 \<le> byte a \<and> byte a \<le> 0xF4 \<and> second_byte a b \<and> cont_byte c \<and> cont_byte d then 4 else 1))
   | _ \<Rightarrow> 1)"

lemma front_rune_pos: "0 < front_rune s"
  by (simp add: front_rune_def split: list.split)

function RuneCount :: "string \<Rightarrow> nat" where
  "RuneCount s = (if s = [] then 0 else Suc (RuneCount (drop (front_rune s) s)))"
  by pat_completeness auto
termination
  by (relation "measure length") (simp_all add: front_rune_pos)

declare RuneCount.simps [simp del]

lemma front_rune_ascii: "byte c < 0x80 \<Longrightarrow> front_rune (c # s) = 1"
  by (simp add: front_rune_def split: list.split)

lemma RuneCount_ascii: "\<forall>c \<in> set s. byte c < 0x80 \<Longrightarrow> RuneCount s = length s"
  by (induction s) (simp_all add: RuneCount.simps front_rune_ascii)

section \<open>Verbs of Printf\<close>

text \<open>\<open>%-12s\<close>: blanks on the right up to the width.\<close>

definition fmt_left :: "nat \<Rightarrow> string \<Rightarrow> string" where
  "fmt_left width s = s @ replicate (width - RuneCount s) (CHR '' '')"

definition fmt_t :: "bool \<Rightarrow> string" where
  "fmt_t b = (if b then ''true'' else ''false'')"

definition zero_padded :: "nat \<Rightarrow> nat \<Rightarrow> string" where
  "zero_padded k n = (let s = dec_nat n in replicate (k - length s) (CHR ''0'') @ s)"

text \<open>
  \<open>%.2f\<close> and \<open>%.4f\<close>: the exact value, rounded to that many digits, ties to even. The two zeros are one
  value in the model and have no sign.
\<close>

fun fmt_f :: "nat \<Rightarrow> f64 \<Rightarrow> string" where
  "fmt_f prec NaN = ''NaN''"
| "fmt_f prec PosInf = ''+Inf''"
| "fmt_f prec NegInf = ''-Inf''"
| "fmt_f prec (Fin q) =
     (let s = zero_padded (prec + 1) (nat (round_even (\<bar>q\<bar> * 10 ^ prec))) in
      (if q < 0 then ''-'' else '''') @ take (length s - prec) s @ ''.'' @ drop (length s - prec) s)"

section \<open>Durations\<close>

definition Microsecond :: duration where
  "Microsecond = 10 ^ 3"

text \<open>\<open>d.Round(m)\<close>: to the nearest multiple of \<open>m\<close>, halves away from zero; the ends of the range saturate.\<close>

definition Duration_Round :: "duration \<Rightarrow> duration \<Rightarrow> duration" where
  "Duration_Round d m =
     (if m \<le> 0 then d
      else
       (let r = \<bar>d\<bar> mod m in
        if d < 0 then
          (if r + r < m then d + r
           else let d1 = wrap64 (d - m + r) in if d1 < d then d1 else - (2 ^ 63))
        else if r + r < m then d - r
        else let d1 = wrap64 (d + m - r) in if d < d1 then d1 else 2 ^ 63 - 1))"

text \<open>The digits of a fraction without trailing zeros, nothing if it is zero.\<close>

definition fmt_frac :: "nat \<Rightarrow> nat \<Rightarrow> string" where
  "fmt_frac prec n = (if n = 0 then ''''
     else CHR ''.'' # rev (dropWhile (\<lambda>c. c = CHR ''0'') (rev (zero_padded prec n))))"

text \<open>\<open>d.String()\<close>; the sign for a millionth of a second is the rune U+00B5.\<close>

definition Duration_String :: "duration \<Rightarrow> string" where
  "Duration_String d =
     (let u = nat \<bar>d\<bar> in
      (if d < 0 then ''-'' else '''') @
      (if u = 0 then ''0s''
       else if u < 10 ^ 3 then dec_nat u @ ''ns''
       else if u < 10 ^ 6 then dec_nat (u div 10 ^ 3) @ fmt_frac 3 (u mod 10 ^ 3) @ [CHR 0xC2, CHR 0xB5] @ ''s''
       else if u < 10 ^ 9 then dec_nat (u div 10 ^ 6) @ fmt_frac 6 (u mod 10 ^ 6) @ ''ms''
       else
        (let secs = u div 10 ^ 9; mins = secs div 60; hours = mins div 60 in
         (if 0 < hours then dec_nat hours @ ''h'' else '''') @
         (if 0 < mins then dec_nat (mins mod 60) @ ''m'' else '''') @
         dec_nat (secs mod 60) @ fmt_frac 9 (u mod 10 ^ 9) @ ''s'')))"

text \<open>The sum of two finite values and of anything else.\<close>

fun f64_add :: "f64 \<Rightarrow> f64 \<Rightarrow> f64" where
  "f64_add NaN _ = NaN"
| "f64_add _ NaN = NaN"
| "f64_add (Fin a) (Fin b) = round_f64 (a + b)"
| "f64_add PosInf NegInf = NaN"
| "f64_add NegInf PosInf = NaN"
| "f64_add PosInf _ = PosInf"
| "f64_add _ PosInf = PosInf"
| "f64_add NegInf _ = NegInf"
| "f64_add _ NegInf = NegInf"

text \<open>\<open>d.Seconds()\<close>: whole seconds and the rest, each of the sign of \<open>d\<close>.\<close>

definition Duration_Seconds :: "duration \<Rightarrow> f64" where
  "Duration_Seconds d = f64_add (f64_of_int (sgn d * (\<bar>d\<bar> div Second)))
     (f64_div (f64_of_int (sgn d * (\<bar>d\<bar> mod Second))) (Fin (10 ^ 9)))"

text \<open>Away from the ends of the range, rounding moves a duration by half a unit at most.\<close>

lemma Duration_Round_near:
  assumes "0 < m" "\<bar>d\<bar> + m < 2 ^ 63"
  shows "m dvd Duration_Round d m" "2 * \<bar>Duration_Round d m - d\<bar> \<le> m"
proof -
  define r where "r = \<bar>d\<bar> mod m"
  have r: "0 \<le> r" "r < m" "r \<le> \<bar>d\<bar>" "m dvd \<bar>d\<bar> - r"
    using assms(1) by (simp_all add: r_def zmod_le_nonneg_dividend)
  have neg: "d < 0 \<Longrightarrow> m dvd d + r" using r(4) dvd_minus_iff [of m "\<bar>d\<bar> - r"] by (simp add: add.commute)
  have up: "d \<ge> 0 \<Longrightarrow> m dvd d - r" using r(4) by simp
  have w: "in64 (d - m + r)" "in64 (d + m - r)" using r assms(2) by (auto simp: in64_def)
  have split: "d - m + r = (d + r) - m" "d + m - r = (d - r) + m" by simp_all
  have "Duration_Round d m = (if d < 0 then (if r + r < m then d + r else (d + r) - m)
      else if r + r < m then d - r else (d - r) + m)"
    using assms(1) w r(2) by (auto simp: Duration_Round_def r_def [symmetric] Let_def)
  then show "m dvd Duration_Round d m" "2 * \<bar>Duration_Round d m - d\<bar> \<le> m"
    using neg up r by (auto simp: dvd_diff)
qed

end
