(* ===== verification/SimulatorReport.thy ===== *)
theory SimulatorReport
  imports SimulatorPool GoFormat "HOL-Library.List_Lexorder" "HOL-Library.Char_ord"
begin

text \<open>
  What the simulator prints at the end of a run, and its main function: the checks, the blacklist
  scenario, or the traffic run with its report.
\<close>

section \<open>The report\<close>

text \<open>One line for each gateway of the summary, in the order of the names.\<close>

definition client_row :: "string \<Rightarrow> gatewayAggregate \<Rightarrow> string" where
  "client_row name stats = fmt_left 12 name @
     '' initiated='' @ fmt_d (ga_initiated stats) @ '' callbacks='' @ fmt_d (ga_callbacks stats) @
     '' success='' @ fmt_d (ga_successCallbacks stats) @ '' failure='' @ fmt_d (ga_failureCallbacks stats) @
     '' duplicates='' @ fmt_d (ga_duplicates stats)"

definition summary_names :: "aggregate \<Rightarrow> string list" where
  "summary_names agg = sorted_list_of_set (dom (ag_byGateway agg))"

definition clientStats_lines :: "simulatorConfig \<Rightarrow> aggregate \<Rightarrow> duration \<Rightarrow> string list" where
  "clientStats_lines cfg agg d =
     (let initiated = ag_totalInitiated agg; callbacks = ag_totalCallbacks agg;
          avgInitiateLatency = avgDuration (ag_initiateLatencyNanos agg) initiated;
          avgCallbackLatency = avgDuration (ag_callbackLatencyNanos agg) callbacks in
      [''=== Simulator Summary ==='',
       ''Base URL:             '' @ sc_baseURL cfg,
       ''Requested total:      '' @ fmt_d (sc_total cfg),
       ''Concurrency:          '' @ fmt_d (sc_concurrency cfg),
       ''Duration:             '' @ Duration_String (Duration_Round d Millisecond),
       ''Throughput:           '' @ fmt_f 2 (f64_div (f64_of_int initiated) (Duration_Seconds d)) @ '' txn/sec'',
       ''Initiated:            '' @ fmt_d initiated,
       ''Callbacks sent:       '' @ fmt_d callbacks,
       ''Success callbacks:    '' @ fmt_d (ag_successCallbacks agg),
       ''Failure callbacks:    '' @ fmt_d (ag_failureCallbacks agg),
       ''Duplicate callbacks:  '' @ fmt_d (ag_totalDuplicates agg),
       ''Initiate errors:      '' @ fmt_d (ag_initiateErrors agg),
       ''Callback errors:      '' @ fmt_d (ag_callbackErrors agg),
       ''Avg initiate latency: '' @ Duration_String (Duration_Round avgInitiateLatency Microsecond),
       ''Avg callback latency: '' @ Duration_String (Duration_Round avgCallbackLatency Microsecond),
       '''',
       ''=== Client Gateway Distribution ===''] @
      map (\<lambda>name. client_row name (gateway_entry agg name)) (summary_names agg))"

definition server_row :: "gatewayStatus \<Rightarrow> string" where
  "server_row gateway = fmt_left 12 (gy_Name gateway) @
     '' enabled='' @ fmt_t (gy_Enabled gateway) @ '' weight='' @ fmt_d (gy_Weight gateway) @
     '' state='' @ gu_State (gy_Runtime gateway) @
     '' in_flight='' @ fmt_d (gu_HalfOpenInFlight (gy_Runtime gateway)) @
     '' total='' @ fmt_d (gs_Total (gy_Stats gateway)) @ '' success='' @ fmt_d (gs_Successes (gy_Stats gateway)) @
     '' failure='' @ fmt_d (gs_Failures (gy_Stats gateway)) @
     '' success_rate='' @ fmt_f 4 (gs_SuccessRate (gy_Stats gateway))"

definition serverStats_lines :: "gatewayResponse \<Rightarrow> string list" where
  "serverStats_lines response = (let routing = gp_Routing response in
     ['''',
      ''=== Server Gateway Stats ==='',
      ''Health window: '' @ fmt_d (gr_HealthWindowSeconds routing) @
      ''s, threshold: '' @ fmt_f 2 (gr_SuccessRateThreshold routing) @
      '', min callbacks: '' @ fmt_d (gr_MinCallbackCount routing) @
      '', cooldown: '' @ fmt_d (gr_UnhealthyCooldownSeconds routing) @
      ''s, probes: '' @ fmt_d (gr_HalfOpenProbeCount routing) @
      '', probe timeout: '' @ fmt_d (gr_HalfOpenProbeTimeoutSeconds routing) @
      ''s, order gateway failure threshold: '' @ fmt_d (gr_OrderGatewayFailureThreshold routing)] @
     map server_row (gp_Gateways response))"

definition print_lines :: "'w Outside \<Rightarrow> string list \<Rightarrow> 'w \<Rightarrow> 'w" where
  "print_lines E ls = fold (\<lambda>line. ou_Print E (Stdout line)) ls"

definition printClientStats :: "'w Outside \<Rightarrow> simulatorConfig \<Rightarrow> aggregate \<Rightarrow> duration \<Rightarrow> 'w \<Rightarrow> 'w" where
  "printClientStats E cfg agg d = print_lines E (clientStats_lines cfg agg d)"

definition printServerStats :: "'w Outside \<Rightarrow> gatewayResponse \<Rightarrow> 'w \<Rightarrow> 'w" where
  "printServerStats E response = print_lines E (serverStats_lines response)"

section \<open>The main function\<close>

text \<open>\<open>fmt.Fprintln(os.Stderr, message, err)\<close> and \<open>os.Exit(code)\<close>.\<close>

definition exit_with :: "'w Outside \<Rightarrow> int \<Rightarrow> string \<Rightarrow> go_error \<Rightarrow> ('w, int, 'a) proc" where
  "exit_with E code message err w = (Inl code, ou_Print E (Stderr message err) w)"

text \<open>Both ways through \<open>main\<close> end with the statistics of the server; that they are missing is no failure.\<close>

definition report_server :: "'w Outside \<Rightarrow> simulatorConfig \<Rightarrow> 'w \<Rightarrow> 'w" where
  "report_server E cfg w = (case fetchGatewayStats E (sc_baseURL cfg) w of
     (Inl err, w') \<Rightarrow> ou_Print E (Stderr ''failed to fetch server gateway stats:'' err) w'
   | (Inr gateways, w') \<Rightarrow> printServerStats E gateways w')"

text \<open>
  \<open>main\<close> up to the start of the traffic: \<open>Inl code\<close> is an exit with that code, \<open>Inr None\<close> the return after a
  blacklist scenario, \<open>Inr (Some (cfg, start, pool))\<close> a traffic run that begins at \<open>start\<close>.
\<close>

definition simulator_main :: "'w Outside \<Rightarrow> sim_flag list \<Rightarrow> ('w, int, (simulatorConfig \<times> time \<times> Pool) option) proc" where
  "simulator_main E flags =
     (let cfg = parseFlags flags in
      case simulatorConfig_validate cfg of
        Some err \<Rightarrow> exit_with E 2 ''invalid config:'' err
      | None \<Rightarrow>
        onError (healthCheck E (sc_baseURL cfg)) (exit_with E 1 ''service health check failed:'') (\<lambda>_.
        if sc_scenario cfg = ''order-blacklist'' then
          onError (runOrderBlacklistScenario E cfg) (exit_with E 1 ''order blacklist scenario failed:'') (\<lambda>_ w.
          (Inr None, report_server E cfg w))
        else (\<lambda>w. let (start, w') = ou_Now E w in (Inr (Some (cfg, start, start_pool cfg)), w'))))"

text \<open>\<open>main\<close> once the collector is done.\<close>

definition simulator_end :: "'w Outside \<Rightarrow> simulatorConfig \<Rightarrow> time \<Rightarrow> aggregate \<Rightarrow> 'w \<Rightarrow> 'w" where
  "simulator_end E cfg start agg w =
     (let (now, w') = ou_Now E w in report_server E cfg (printClientStats E cfg agg (Since start now) w'))"

text \<open>
  A run of a transaction gives one of the results it can give in some state \<open>w\<close>. The state is the run's
  own view of the outside: what the clock, the random numbers and the server will answer to it while
  the other workers run, so it covers every interleaving of their requests.
\<close>

definition can_give :: "'w Outside \<Rightarrow> simulatorConfig \<Rightarrow> int \<Rightarrow> sim_result \<Rightarrow> bool" where
  "can_give E cfg job item \<longleftrightarrow> (\<exists>w. fst (runTransaction E cfg job w) = item)"

text \<open>
  A run of the program with its exit code and the outside it leaves. What the workers did to the outside
  in the meantime is left open.
\<close>

inductive simulator_run :: "'w Outside \<Rightarrow> sim_flag list \<Rightarrow> 'w \<Rightarrow> int \<Rightarrow> 'w \<Rightarrow> bool" for E flags w where
  exits: "simulator_main E flags w = (Inl code, w') \<Longrightarrow> simulator_run E flags w code w'"
| scenario: "simulator_main E flags w = (Inr None, w') \<Longrightarrow> simulator_run E flags w 0 w'"
| traffic: "simulator_main E flags w = (Inr (Some (cfg, start, p)), w1) \<Longrightarrow>
    pool_steps cfg (can_give E cfg) p p' \<Longrightarrow> pl_done p' \<Longrightarrow>
    simulator_run E flags w 0 (simulator_end E cfg start (pl_agg p') w2)"

end
