(* ===== verification/SimulatorSpec.thy ===== *)
theory SimulatorSpec
  imports SimulatorReport
begin

text \<open>
  What the simulator reports: the summary of a traffic run, its totals, and what a passed blacklist
  scenario has seen.
\<close>

section \<open>Traffic\<close>

lemma can_give_total: "\<forall>job. \<exists>item. can_give E cfg job item"
  by (auto simp: can_give_def)

text \<open>
  C30: the summary of a finished traffic run does not depend on the schedule of the workers: it is the
  one of running every transaction from 1 to the total once and adding up the results in order.
\<close>
theorem traffic_summary:
  assumes "pool_steps cfg (can_give E cfg) (start_pool cfg) p" "pl_done p" "0 < sc_concurrency cfg"
    and "sc_total cfg < 2 ^ 63 - 1"
  shows "\<exists>res. (\<forall>job \<in> {1..sc_total cfg}. can_give E cfg job (res job)) \<and>
    pl_agg p = fold (\<lambda>item a. aggregate_record a item) (map res [1..sc_total cfg]) new_aggregate"
  using assms by (rule finished_summary)

text \<open>
  C32: a traffic run of n transactions with c workers ends: it takes at most 5 n + c + 3 steps, and it
  does not stop before the collector is done.
\<close>
theorem traffic_ends:
  assumes "(pool_step cfg (can_give E cfg) ^^ steps) (start_pool cfg) p" "simulatorConfig_validate cfg = None"
    and "sc_total cfg < 2 ^ 63 - 1"
  shows "int steps \<le> 5 * sc_total cfg + sc_concurrency cfg + 3 \<and>
    ((\<exists>p'. pool_step cfg (can_give E cfg) p p') \<or> pl_done p)"
proof -
  have "0 < sc_concurrency cfg" "0 \<le> sc_total cfg"
    using assms(2) by (auto simp: simulatorConfig_validate_def split: if_splits)
  from pool_run_ends [OF assms(1) this can_give_total assms(3)] show ?thesis by blast
qed

section \<open>Totals\<close>

definition count_of :: "(sim_result \<Rightarrow> bool) \<Rightarrow> sim_result list \<Rightarrow> int" where
  "count_of P items = int (length (filter P items))"

lemma count_of_snoc: "count_of P (items @ [i]) = count_of P items + (if P i then 1 else 0)"
  by (simp add: count_of_def)

lemma count_of_Cons: "count_of P (i # items) = count_of P items + (if P i then 1 else 0)"
  by (simp add: count_of_def)

lemma inc_in64: "in64 (n + 1) \<Longrightarrow> inc n b = n + (if b then 1 else 0)"
  by (simp add: inc_def)

lemma count_of_in64: "int (length items) < 2 ^ 63 - 1 \<Longrightarrow> in64 (count_of P items + 1)"
proof -
  assume "int (length items) < 2 ^ 63 - 1"
  moreover have "0 \<le> count_of P items" "count_of P items \<le> int (length items)" by (simp_all add: count_of_def)
  ultimately show ?thesis by (simp add: in64_def)
qed

definition at_gateway :: "(sim_result \<Rightarrow> bool) \<Rightarrow> string \<Rightarrow> sim_result \<Rightarrow> bool" where
  "at_gateway P g i \<longleftrightarrow> P i \<and> re_gateway i = g"

lemma called_back_succeeded: "called_back i \<Longrightarrow> succeeded i"
  by (simp add: called_back_def)

lemma summary_Nil: "summary [] = new_aggregate" "gateway_entry new_aggregate g = zero_gatewayAggregate"
  by (simp_all add: summary_def gateway_entry_def new_aggregate_def)

lemma bump_simps:
  "ga_initiated (bump i s) = inc (ga_initiated s) True"
  "succeeded i \<Longrightarrow> ga_callbacks (bump i s) = inc (ga_callbacks s) (called_back i)"
  by (simp_all add: bump_def Let_def called_back_def)

lemma summary_totals:
  assumes "int (length items) < 2 ^ 63"
  shows "ag_totalInitiated (summary items) = count_of succeeded items \<and>
    ag_initiateErrors (summary items) = count_of (\<lambda>i. \<not> succeeded i) items \<and>
    ag_totalCallbacks (summary items) = count_of called_back items \<and>
    ag_callbackErrors (summary items) = count_of (\<lambda>i. succeeded i \<and> re_callbackErr i \<noteq> None) items \<and>
    ag_successCallbacks (summary items) = count_of (\<lambda>i. called_back i \<and> re_callbackSuccess i) items \<and>
    ag_failureCallbacks (summary items) = count_of (\<lambda>i. called_back i \<and> \<not> re_callbackSuccess i) items \<and>
    ag_totalDuplicates (summary items) = count_of (\<lambda>i. called_back i \<and> re_duplicateSent i) items \<and>
    dom (ag_byGateway (summary items)) = re_gateway ` {i \<in> set items. succeeded i} \<and>
    (\<forall>g. ga_initiated (gateway_entry (summary items) g) = count_of (at_gateway succeeded g) items \<and>
      ga_callbacks (gateway_entry (summary items) g) = count_of (at_gateway called_back g) items)"
  using assms
proof (induction items rule: rev_induct)
  case Nil
  show ?case by (simp add: summary_Nil count_of_def new_aggregate_def) (simp add: zero_gatewayAggregate_def
    summary_Nil(2) [unfolded new_aggregate_def])
next
  case (snoc i items)
  have len: "int (length items) < 2 ^ 63 - 1" using snoc.prems by simp
  have IH: "ag_totalInitiated (summary items) = count_of succeeded items"
    "ag_initiateErrors (summary items) = count_of (\<lambda>i. \<not> succeeded i) items"
    "ag_totalCallbacks (summary items) = count_of called_back items"
    "ag_callbackErrors (summary items) = count_of (\<lambda>i. succeeded i \<and> re_callbackErr i \<noteq> None) items"
    "ag_successCallbacks (summary items) = count_of (\<lambda>i. called_back i \<and> re_callbackSuccess i) items"
    "ag_failureCallbacks (summary items) = count_of (\<lambda>i. called_back i \<and> \<not> re_callbackSuccess i) items"
    "ag_totalDuplicates (summary items) = count_of (\<lambda>i. called_back i \<and> re_duplicateSent i) items"
    "dom (ag_byGateway (summary items)) = re_gateway ` {i \<in> set items. succeeded i}"
    "ga_initiated (gateway_entry (summary items) g) = count_of (at_gateway succeeded g) items"
    "ga_callbacks (gateway_entry (summary items) g) = count_of (at_gateway called_back g) items" for g
    using snoc.IH len by auto
  note step = summary_snoc [symmetric] aggregate_record_simps IH inc_in64 [OF count_of_in64 [OF len]] count_of_snoc
  show ?case
    by (intro conjI allI)
      (auto simp: step gateway_entry_record bump_simps at_gateway_def [abs_def] called_back_succeeded)
qed

text \<open>The gateways share the totals among them.\<close>

lemma count_of_gateways:
  assumes "finite G" "\<forall>i \<in> set items. P i \<longrightarrow> re_gateway i \<in> G"
  shows "(\<Sum>g \<in> G. count_of (at_gateway P g) items) = count_of P items"
  using assms(2)
proof (induction items)
  case (Cons i items)
  have "(\<Sum>g \<in> G. count_of (at_gateway P g) (i # items)) =
      (\<Sum>g \<in> G. count_of (at_gateway P g) items) + (\<Sum>g \<in> G. if at_gateway P g i then 1 else 0)"
    by (simp only: count_of_Cons sum.distrib)
  also have "(\<Sum>g \<in> G. if at_gateway P g i then 1 else 0 :: int) = (if P i then 1 else 0)"
    using assms(1) Cons.prems by (simp add: at_gateway_def)
  finally show ?case using Cons by (simp add: count_of_Cons)
qed (simp add: count_of_def)

lemma count_of_split: "count_of P items = count_of (\<lambda>i. P i \<and> Q i) items + count_of (\<lambda>i. P i \<and> \<not> Q i) items"
  by (induction items) (auto simp: count_of_def)

lemma count_of_mono: "(\<And>i. P i \<Longrightarrow> Q i) \<Longrightarrow> count_of P items \<le> count_of Q items"
  by (induction items) (auto simp: count_of_def)

text \<open>The summary of a finished traffic run accounts for every transaction.\<close>

lemma traffic_accounts:
  assumes "pool_steps cfg (can_give E cfg) (start_pool cfg) p" "pl_done p"
    and "simulatorConfig_validate cfg = None" "sc_total cfg < 2 ^ 63 - 1"
  shows "let a = pl_agg p in
    ag_totalInitiated a + ag_initiateErrors a = sc_total cfg \<and>
    ag_successCallbacks a + ag_failureCallbacks a = ag_totalCallbacks a \<and>
    ag_totalCallbacks a + ag_callbackErrors a \<le> ag_totalInitiated a \<and>
    ag_totalDuplicates a \<le> ag_totalCallbacks a \<and>
    finite (dom (ag_byGateway a)) \<and>
    (\<Sum>g \<in> dom (ag_byGateway a). ga_initiated (gateway_entry a g)) = ag_totalInitiated a \<and>
    (\<Sum>g \<in> dom (ag_byGateway a). ga_callbacks (gateway_entry a g)) = ag_totalCallbacks a"
proof -
  have pos: "0 < sc_concurrency cfg" "0 < sc_total cfg"
    using assms(3) by (auto simp: simulatorConfig_validate_def split: if_splits)
  obtain res where res: "pl_agg p = summary (map res [1..sc_total cfg])"
    using finished_summary [OF assms(1,2) pos(1) assms(4)] unfolding summary_def by blast
  define items where "items = map res [1..sc_total cfg]"
  have len: "int (length items) = sc_total cfg" using pos(2) by (simp add: items_def)
  then have "int (length items) < 2 ^ 63" using assms(4) by simp
  note T = summary_totals [OF this]
  have all: "count_of succeeded items + count_of (\<lambda>i. \<not> succeeded i) items = sc_total cfg"
    using count_of_split [of "\<lambda>_. True" items succeeded] len by (simp add: count_of_def)
  have calls: "count_of called_back items + count_of (\<lambda>i. succeeded i \<and> re_callbackErr i \<noteq> None) items \<le>
      count_of succeeded items"
    using count_of_split [of succeeded items "\<lambda>i. re_callbackErr i \<noteq> None"]
      count_of_mono [of called_back "\<lambda>i. succeeded i \<and> \<not> re_callbackErr i \<noteq> None" items]
    by (simp add: called_back_def)
  have G: "finite (dom (ag_byGateway (summary items)))"
    "\<forall>i \<in> set items. succeeded i \<longrightarrow> re_gateway i \<in> dom (ag_byGateway (summary items))"
    "\<forall>i \<in> set items. called_back i \<longrightarrow> re_gateway i \<in> dom (ag_byGateway (summary items))"
    using T called_back_succeeded by auto
  show ?thesis
    unfolding res items_def [symmetric] Let_def
    using T all calls G(1) count_of_gateways [OF G(1,2)] count_of_gateways [OF G(1,3)]
      count_of_split [of called_back items re_callbackSuccess]
      count_of_mono [of "\<lambda>i. called_back i \<and> re_duplicateSent i" called_back items]
    by simp
qed

text \<open>The sum over the printed rows is the sum over the gateways.\<close>

lemma sum_rows: "finite (dom (ag_byGateway a)) \<Longrightarrow>
    (\<Sum>name \<leftarrow> summary_names a. f name) = (\<Sum>name \<in> dom (ag_byGateway a). f name)"
  by (simp add: summary_names_def sum_list_distinct_conv_sum_set)

lemmas main_cases = simulator_main_def exit_with_def onError_def Let_def

lemma simulator_traffic:
  assumes "simulator_main E flags w = (Inr (Some (cfg, start, p)), w')"
  shows "cfg = parseFlags flags" "p = start_pool cfg" "simulatorConfig_validate cfg = None"
    "sc_scenario cfg \<noteq> ''order-blacklist''"
  using assms by (auto simp: main_cases split: option.splits prod.splits sum.splits if_splits)

lemma simulator_scenario:
  assumes "simulator_main E flags w = (Inr None, w')"
  shows "sc_scenario (parseFlags flags) = ''order-blacklist''"
  using assms by (auto simp: main_cases split: option.splits prod.splits sum.splits if_splits)

text \<open>
  C29: a run of the simulator that exits with 0 and is not the blacklist scenario ends with its report, and the
  numbers in the report account for every transaction: initiations that worked and that failed add up
  to the requested total, callbacks of success and of failure to the callbacks sent, callbacks and failed
  callbacks never exceed the initiations, duplicates never the callbacks, and the rows of the gateways
  are in the order of their names, no name twice, and add up to the initiations and the callbacks.
\<close>
theorem simulator_reports:
  assumes "simulator_run E flags w 0 w'" "sc_scenario (parseFlags flags) \<noteq> ''order-blacklist''"
    and "sc_total (parseFlags flags) < 2 ^ 63 - 1"
  shows "\<exists>a d w1. w' = report_server E (parseFlags flags) (printClientStats E (parseFlags flags) a d w1) \<and>
    ag_totalInitiated a + ag_initiateErrors a = sc_total (parseFlags flags) \<and>
    ag_successCallbacks a + ag_failureCallbacks a = ag_totalCallbacks a \<and>
    ag_totalCallbacks a + ag_callbackErrors a \<le> ag_totalInitiated a \<and>
    ag_totalDuplicates a \<le> ag_totalCallbacks a \<and>
    sorted (summary_names a) \<and> distinct (summary_names a) \<and>
    (\<Sum>name \<leftarrow> summary_names a. ga_initiated (gateway_entry a name)) = ag_totalInitiated a \<and>
    (\<Sum>name \<leftarrow> summary_names a. ga_callbacks (gateway_entry a name)) = ag_totalCallbacks a"
  using assms(1)
proof cases
  case (traffic cfg start p w1 p' w2)
  note start = simulator_traffic [OF traffic(2)]
  have "simulatorConfig_validate cfg = None" "sc_total cfg < 2 ^ 63 - 1" using start assms(3) by simp_all
  note accounts = traffic_accounts [OF traffic(3) [unfolded start(2)] traffic(4) this]
  obtain now w3 where now: "ou_Now E w2 = (now, w3)" by fastforce
  show ?thesis
  proof (intro exI conjI)
    show "w' = report_server E (parseFlags flags) (printClientStats E (parseFlags flags) (pl_agg p') (Since start now) w3)"
      using traffic(1) start(1) now by (simp add: simulator_end_def)
    show "sorted (summary_names (pl_agg p'))" "distinct (summary_names (pl_agg p'))"
      by (simp_all add: summary_names_def)
  qed (use accounts start(1) in \<open>simp_all add: Let_def sum_rows\<close>)
qed (use assms(2) simulator_scenario in \<open>auto simp: main_cases split: option.splits prod.splits sum.splits if_splits\<close>)

text \<open>
  C38: the exit codes of the simulator. It exits with 2 exactly when the flags are rejected, and then has sent no
  request and printed nothing but the error; with 1 exactly when the service fails its health check or the blacklist
  scenario does not pass, with the error on the standard error; otherwise with 0.
\<close>
theorem simulator_exit_codes:
  assumes "simulator_run E flags w code w'"
  shows "case simulatorConfig_validate (parseFlags flags) of
      Some err \<Rightarrow> code = 2 \<and> w' = ou_Print E (Stderr ''invalid config:'' err) w
    | None \<Rightarrow> (case healthCheck E (sc_baseURL (parseFlags flags)) w of
        (Inl err, w1) \<Rightarrow> code = 1 \<and> w' = ou_Print E (Stderr ''service health check failed:'' err) w1
      | (Inr _, w1) \<Rightarrow>
        if sc_scenario (parseFlags flags) = ''order-blacklist'' then
         (case runOrderBlacklistScenario E (parseFlags flags) w1 of
            (Inl err, w2) \<Rightarrow> code = 1 \<and> w' = ou_Print E (Stderr ''order blacklist scenario failed:'' err) w2
          | (Inr _, w2) \<Rightarrow> code = 0 \<and> w' = report_server E (parseFlags flags) w2)
        else code = 0)"
  using assms by cases (auto simp: main_cases split: option.splits prod.splits sum.splits if_splits)

section \<open>The blacklist scenario\<close>

text \<open>
  Failing attempts of an order one after the other: each is initiated, then its failure is called
  back, then it is reported. \<open>gs\<close> are the gateways the router chose.
\<close>

fun failing_attempts :: "'w Outside \<Rightarrow> simulatorConfig \<Rightarrow> string \<Rightarrow> int \<Rightarrow> (string \<Rightarrow> int) \<Rightarrow> string list
    \<Rightarrow> 'w \<Rightarrow> 'w \<Rightarrow> bool" where
  "failing_attempts E cfg orderID attempt failures [] w w' \<longleftrightarrow> w' = w"
| "failing_attempts E cfg orderID attempt failures (g # gs) w w' \<longleftrightarrow> (\<exists>transaction w1 w2.
     sim_initiate E cfg orderID w = (Inr transaction, w1) \<and> tp_Gateway transaction = g \<and>
     sendCallback E (sc_baseURL cfg) transaction ''failure'' w1 = (Inr (), w2) \<and>
     failing_attempts E cfg orderID (attempt + 1) (failures(g := failures g + 1)) gs
       (ou_Print E (Stdout (attempt_line attempt g (failures g + 1))) w2) w')"

lemma wrapping_Inr: "wrapping pfx args m w = (Inr x, w') \<longleftrightarrow> m w = (Inr x, w')"
  by (auto simp: wrapping_def onError_def split: prod.splits sum.splits)

lemma println_run: "andThen (println E line) f w = f () (ou_Print E (Stdout line) w)"
  by (simp add: andThen_def println_def)

lemma blacklist_attempts_found:
  assumes "blacklist_attempts E cfg orderID threshold n attempt failures w = (Inr g, w')" "g \<noteq> ''''"
    and "\<forall>h. failures h < threshold"
  shows "\<exists>gs. length gs \<le> n \<and> gs \<noteq> [] \<and> last gs = g \<and> failing_attempts E cfg orderID attempt failures gs w w' \<and>
    failures g + int (count_list gs g) = threshold \<and>
    (\<forall>h. failures h + int (count_list (butlast gs) h) < threshold)"
  using assms
proof (induction n arbitrary: attempt failures w)
  case (Suc n)
  obtain t w1 where t: "sim_initiate E cfg orderID w = (Inr t, w1)"
    and rest: "andThen (wrapping ''attempt %d failure callback failed: '' [fmt_d attempt]
       (sendCallback E (sc_baseURL cfg) t ''failure'')) (\<lambda>_.
     let g = tp_Gateway t; failures' = failures(g := failures g + 1) in
     andThen (println E (attempt_line attempt g (failures' g))) (\<lambda>_.
     if failures' g \<ge> threshold then ret g
     else blacklist_attempts E cfg orderID threshold n (attempt + 1) failures')) w1 = (Inr g, w')"
    using Suc.prems(1) by (auto simp: wrapping_Inr elim: andThen_Inr)
  obtain w2 where w2: "sendCallback E (sc_baseURL cfg) t ''failure'' w1 = (Inr (), w2)"
    and run: "(let g = tp_Gateway t; failures' = failures(g := failures g + 1) in
     andThen (println E (attempt_line attempt g (failures' g))) (\<lambda>_.
     if failures' g \<ge> threshold then ret g
     else blacklist_attempts E cfg orderID threshold n (attempt + 1) failures')) w2 = (Inr g, w')"
    using rest by (auto simp: wrapping_Inr elim: andThen_Inr)
  let ?h = "tp_Gateway t" and ?f = "failures(tp_Gateway t := failures (tp_Gateway t) + 1)"
  let ?w3 = "ou_Print E (Stdout (attempt_line attempt ?h (failures ?h + 1))) w2"
  show ?case
  proof (cases "threshold \<le> failures ?h + 1")
    case True
    then have "g = ?h" "w' = ?w3" using run by (auto simp: Let_def println_run)
    moreover have "failures ?h + 1 = threshold" using True spec [OF Suc.prems(3), of ?h] by simp
    ultimately show ?thesis
      using t w2 Suc.prems(3) by (intro exI [of _ "[g]"]) auto
  next
    case False
    have "blacklist_attempts E cfg orderID threshold n (attempt + 1) ?f ?w3 = (Inr g, w')"
      using run False by (simp add: Let_def println_run)
    moreover have "\<forall>h. ?f h < threshold" using False Suc.prems(3) by simp
    ultimately obtain gs where gs: "length gs \<le> n" "gs \<noteq> []" "last gs = g" "failing_attempts E cfg orderID (attempt + 1) ?f gs ?w3 w'"
      "?f g + int (count_list gs g) = threshold" "\<forall>h. ?f h + int (count_list (butlast gs) h) < threshold"
      using Suc.IH [OF _ Suc.prems(2)] by blast
    have "failures g + int (count_list (?h # gs) g) = threshold" using gs(5) by (auto split: if_splits)
    moreover have "failures h + int (count_list (butlast (?h # gs)) h) < threshold" for h
      using gs(2,6) by (auto split: if_splits)
    ultimately show ?thesis
      using gs t w2 by (intro exI [of _ "?h # gs"]) auto
  qed
qed simp

text \<open>
  C31: a blacklist scenario that passes has seen what it tests: with at least two enabled gateways, the
  order failed at the gateways the router chose until one of them reached the threshold for the first
  time, within the maximal number of attempts, and the next initiation went to another gateway; it has printed
  every attempt with its gateway and the count of its failures, and the two gateways at the end.
\<close>
theorem scenario_passed:
  assumes "runOrderBlacklistScenario E cfg w = (Inr (), w')"
  shows "\<exists>gateways threshold gs w1 w2 w3 transaction. fetchGatewayStats E (sc_baseURL cfg) w = (Inr gateways, w1) \<and>
    2 \<le> length (filter gy_Enabled (gp_Gateways gateways)) \<and>
    threshold = (let t = gr_OrderGatewayFailureThreshold (gp_Routing gateways) in if t \<le> 0 then 2 else t) \<and>
    gs \<noteq> [] \<and> int (length gs) \<le> sc_maxAttempts cfg \<and>
    failing_attempts E cfg (sc_orderPrefix cfg @ ''-BLACKLIST'') 1 (\<lambda>_. 0) gs
      (print_lines E [''=== Order Gateway Blacklist Scenario ==='', ''Order ID: '' @ sc_orderPrefix cfg @ ''-BLACKLIST'',
        ''Failure threshold: '' @ fmt_d threshold] w1) w2 \<and>
    int (count_list gs (last gs)) = threshold \<and> (\<forall>g. int (count_list (butlast gs) g) < threshold) \<and>
    sim_initiate E cfg (sc_orderPrefix cfg @ ''-BLACKLIST'') w2 = (Inr transaction, w3) \<and>
    tp_Gateway transaction \<noteq> last gs \<and>
    w' = ou_Print E (Stdout (''blacklisted_gateway='' @ last gs @ '' next_gateway='' @ tp_Gateway transaction @
      '' result=passed'')) w3"
proof -
  obtain gateways w1 where fetch: "fetchGatewayStats E (sc_baseURL cfg) w = (Inr gateways, w1)"
    and enabled: "2 \<le> length (filter gy_Enabled (gp_Gateways gateways))"
    using assms by (auto simp: runOrderBlacklistScenario_def elim!: andThen_Inr split: if_splits)
  define threshold where "threshold = (let t = gr_OrderGatewayFailureThreshold (gp_Routing gateways) in
    if t \<le> 0 then 2 else t)"
  let ?orderID = "sc_orderPrefix cfg @ ''-BLACKLIST''"
  let ?w1 = "print_lines E [''=== Order Gateway Blacklist Scenario ==='', ''Order ID: '' @ ?orderID,
        ''Failure threshold: '' @ fmt_d threshold] w1"
  have run: "andThen (blacklist_attempts E cfg ?orderID threshold (nat (sc_maxAttempts cfg)) 1 (\<lambda>_. 0)) (\<lambda>blacklisted.
       if blacklisted = '''' then
         throw (Errorf ''no gateway reached failure threshold within %d attempts'' [fmt_d (sc_maxAttempts cfg)])
       else
         andThen (wrapping ''post-blacklist initiate failed: '' [] (sim_initiate E cfg ?orderID)) (\<lambda>next_tx.
         if tp_Gateway next_tx = blacklisted then
           throw (Errorf ''blacklisted gateway %q was selected again for order %q'' [blacklisted, ?orderID])
         else println E (''blacklisted_gateway='' @ blacklisted @ '' next_gateway='' @ tp_Gateway next_tx @ '' result=passed''))) ?w1 = (Inr (), w')"
    using assms enabled by (simp add: runOrderBlacklistScenario_def andThen_run(1) [of "fetchGatewayStats E (sc_baseURL cfg)", OF fetch] threshold_def Let_def println_run print_lines_def)
  obtain g w2 where loop: "blacklist_attempts E cfg ?orderID threshold (nat (sc_maxAttempts cfg)) 1 (\<lambda>_. 0) ?w1 =
      (Inr g, w2)" and g: "g \<noteq> ''''"
    and rest: "andThen (wrapping ''post-blacklist initiate failed: '' [] (sim_initiate E cfg ?orderID)) (\<lambda>next_tx.
       if tp_Gateway next_tx = g then
         throw (Errorf ''blacklisted gateway %q was selected again for order %q'' [g, ?orderID])
       else println E (''blacklisted_gateway='' @ g @ '' next_gateway='' @ tp_Gateway next_tx @ '' result=passed'')) w2 =
      (Inr (), w')"
    by (rule andThen_Inr [OF run]) (auto split: if_splits)
  obtain t w3 where t: "sim_initiate E cfg ?orderID w2 = (Inr t, w3)" "tp_Gateway t \<noteq> g"
    "w' = ou_Print E (Stdout (''blacklisted_gateway='' @ g @ '' next_gateway='' @ tp_Gateway t @ '' result=passed'')) w3"
    using rest by (auto simp: wrapping_Inr println_def elim!: andThen_Inr split: if_splits)
  have "0 < threshold" by (simp add: threshold_def Let_def)
  then have "\<forall>h. (\<lambda>_. 0 :: int) h < threshold" by simp
  from blacklist_attempts_found [OF loop g this] obtain gs where
    gs: "length gs \<le> nat (sc_maxAttempts cfg)" "gs \<noteq> []" "last gs = g" "failing_attempts E cfg ?orderID 1 (\<lambda>_. 0) gs ?w1 w2"
    "int (count_list gs g) = threshold" "\<forall>h. int (count_list (butlast gs) h) < threshold" by auto
  have "0 < length gs" using gs(2) by simp
  then have "int (length gs) \<le> sc_maxAttempts cfg" using gs(1) by linarith
  with fetch enabled gs t threshold_def show ?thesis by blast
qed

section \<open>Examples\<close>

text \<open>A run of one transaction with one worker, step by step.\<close>

definition small_config :: simulatorConfig where
  "small_config = parseFlags [FlagTotal 1, FlagConcurrency 1, FlagSuccessRate (Fin 1)]"

lemma small_config_simps [simp]:
  "sc_total small_config = 1" "sc_concurrency small_config = 1" "capacity small_config = 2"
  "simulatorConfig_validate small_config = None" "sc_maxAttempts small_config = 20"
  "sc_amount small_config = Fin 499"
  by (simp_all add: small_config_def parseFlags_def flag_defaults_def Let_def capacity_def Second_def
      simulatorConfig_validate_def)

definition finished_pool :: "sim_result \<Rightarrow> Pool" where
  "finished_pool item = \<lparr>pl_next = 2, pl_jobs = [], pl_jobsClosed = True, pl_workers = [Stopped], pl_results = [],
     pl_resultsClosed = True, pl_agg = aggregate_record new_aggregate item, pl_done = True\<rparr>"

lemma small_run:
  assumes "runs 1 item"
  shows "(pool_step small_config runs ^^ 9) (start_pool small_config) (finished_pool item)"
proof -
  let ?step = "pool_step small_config runs"
  define p where "p next jobs closed wk res rclosed agg fin = \<lparr>pl_next = next, pl_jobs = jobs, pl_jobsClosed = closed,
    pl_workers = [wk], pl_results = res, pl_resultsClosed = rclosed, pl_agg = agg, pl_done = fin\<rparr>"
    for "next" jobs closed wk res rclosed agg fin
  note step = pool_step.intros [where cfg = small_config and runs = runs]
  have s1: "?step (p 1 [] False Idle [] False new_aggregate False) (p 2 [1] False Idle [] False new_aggregate False)"
    using step(1) [of "p 1 [] False Idle [] False new_aggregate False"] by (simp add: p_def in64_def)
  have s2: "?step (p 2 [1] False Idle [] False new_aggregate False) (p 2 [1] True Idle [] False new_aggregate False)"
    using step(2) [of "p 2 [1] False Idle [] False new_aggregate False"] by (simp add: p_def)
  have s3: "?step (p 2 [1] True Idle [] False new_aggregate False)
      (p 2 [] True (Running 1) [] False new_aggregate False)"
    using step(3) [of 0 "p 2 [1] True Idle [] False new_aggregate False"] by (simp add: p_def)
  have s4: "?step (p 2 [] True (Running 1) [] False new_aggregate False)
      (p 2 [] True (Sending item) [] False new_aggregate False)"
    using step(4) [of 0 "p 2 [] True (Running 1) [] False new_aggregate False"] assms by (simp add: p_def)
  have s5: "?step (p 2 [] True (Sending item) [] False new_aggregate False)
      (p 2 [] True Idle [item] False new_aggregate False)"
    using step(5) [of 0 "p 2 [] True (Sending item) [] False new_aggregate False"] by (simp add: p_def)
  have s6: "?step (p 2 [] True Idle [item] False new_aggregate False)
      (p 2 [] True Idle [] False (aggregate_record new_aggregate item) False)"
    using step(8) [of "p 2 [] True Idle [item] False new_aggregate False"] by (simp add: p_def)
  have s7: "?step (p 2 [] True Idle [] False a False) (p 2 [] True Stopped [] False a False)" for a
    using step(6) [of 0 "p 2 [] True Idle [] False a False"] by (simp add: p_def)
  have s8: "?step (p 2 [] True Stopped [] False a False) (p 2 [] True Stopped [] True a False)" for a
    using step(7) [of "p 2 [] True Stopped [] False a False"] by (simp add: p_def)
  have s9: "?step (p 2 [] True Stopped [] True a False) (p 2 [] True Stopped [] True a True)" for a
    using step(9) [of "p 2 [] True Stopped [] True a False"] by (simp add: p_def)
  have ends: "start_pool small_config = p 1 [] False Idle [] False new_aggregate False"
    "finished_pool item = p 2 [] True Stopped [] True (aggregate_record new_aggregate item) True"
    by (simp_all add: start_pool_def finished_pool_def p_def)
  note next_step = relpowp_Suc_I2 [where P = ?step]
  have nine: "9 = Suc (Suc (Suc (Suc (Suc (Suc (Suc (Suc (Suc 0))))))))" by simp
  show ?thesis
    unfolding ends nine
    by (rule next_step, rule s1, rule next_step, rule s2, rule next_step, rule s3, rule next_step, rule s4,
      rule next_step, rule s5, rule next_step, rule s6, rule next_step, rule s7, rule next_step, rule s8,
      rule next_step, rule s9, rule relpowp_0_I)
qed

text \<open>A server with two gateways that fails over from the first to the second after two failures.\<close>

definition example_server :: "nat Outside" where
  "example_server = \<lparr>ou_Now = (\<lambda>n. (int n, n)), ou_Float64 = (\<lambda>n. (Fin 0, n)), ou_NewRequest = (\<lambda>_ _. None),
     ou_Do = (\<lambda>rq n. (Inr \<lparr>rs_StatusCode = 200, rs_Body =
        (if rq_Method rq = ''GET'' then ''stats'' else if even n then ''{}'' else if n < 5 then ''alpha'' else ''beta'', None)\<rparr>,
        n + 1)),
     ou_tokens = (\<lambda>s. Some (JObject (if s = ''{}'' then [] else [(''gateway'', JString s)]))),
     ou_first = (\<lambda>_. Some (JObject [(''gateways'', JArray [JObject [(''enabled'', JBool True)],
       JObject [(''enabled'', JBool True)]])])), ou_Print = (\<lambda>_ n. n)\<rparr>"

lemma example_server_simps:
  "ou_NewRequest example_server a b = None"
  "ou_Do example_server rq n = (Inr \<lparr>rs_StatusCode = 200, rs_Body =
     (if rq_Method rq = ''GET'' then ''stats'' else if even n then ''{}'' else if n < 5 then ''alpha'' else ''beta'', None)\<rparr>, n + 1)"
  "ou_Print example_server line n = n"
  by (simp_all add: example_server_def)

definition chosen :: "string \<Rightarrow> transactionResponse" where
  "chosen g = zero_transactionResponse\<lparr>tp_Gateway := g\<rparr>"

lemma example_initiate:
  assumes "odd n"
  shows "sim_initiate example_server small_config orderID n =
    (Inr (chosen (if n < 5 then ''alpha'' else ''beta'')), n + 1)"
proof -
  have "unmarshal_struct transactionResponse_fields (JObject [(''gateway'', JString g)]) zero_transactionResponse =
    Some (chosen g)" for g
    unfolding chosen_def by code_simp
  moreover have "float_json (Fin 499) = Some (JInt 499)" by (simp add: float_json_def)
  ultimately show ?thesis using assms
    by (auto simp: sim_initiate_def postJSON_def initiateRequest_json_def new_request_def example_server_simps
      read_all_def decode_text_def andThen_def)
      (auto simp: example_server_def)
qed

lemma example_callback:
  assumes "even n" "0 < n"
  shows "sendCallback example_server base t ''failure'' n = (Inr (), n + 1)"
  using assms
  by (auto simp: sendCallback_def postJSON_def new_request_def example_server_simps
      read_all_def decode_text_def andThen_def) (auto simp: example_server_def decode_any_map_def)

lemma example_stats:
  "\<exists>r. fetchGatewayStats example_server base 0 = (Inr r, 1) \<and> length (filter gy_Enabled (gp_Gateways r)) = 2 \<and>
     gr_OrderGatewayFailureThreshold (gp_Routing r) = 0"
proof -
  have "\<exists>r. unmarshal_struct gatewayResponse_fields (JObject [(''gateways'', JArray [JObject [(''enabled'', JBool True)],
       JObject [(''enabled'', JBool True)]])]) \<lparr>gp_Routing = zero_gatewayRouting, gp_Gateways = []\<rparr> = Some r \<and>
     length (filter gy_Enabled (gp_Gateways r)) = 2 \<and> gr_OrderGatewayFailureThreshold (gp_Routing r) = 0"
    by (intro exI [of _ "\<lparr>gp_Routing = zero_gatewayRouting,
      gp_Gateways = replicate 2 (zero_gatewayStatus\<lparr>gy_Enabled := True\<rparr>)\<rparr>"]) code_simp
  then show ?thesis
    by (auto simp: fetchGatewayStats_def new_request_def example_server_simps decode_text_def andThen_def)
      (auto simp: example_server_def)
qed

lemma example_scenario: "runOrderBlacklistScenario example_server small_config 0 = (Inr (), 6)"
proof -
  obtain r where r: "fetchGatewayStats example_server (sc_baseURL small_config) 0 = (Inr r, 1)"
    "length (filter gy_Enabled (gp_Gateways r)) = 2" "gr_OrderGatewayFailureThreshold (gp_Routing r) = 0"
    using example_stats by blast
  have gw: "tp_Gateway (chosen g) = g" for g by (simp add: chosen_def)
  have twenty: "(20 :: nat) = Suc (Suc 18)" by simp
  have "blacklist_attempts example_server small_config orderID 2 (Suc (Suc n)) 1 (\<lambda>_. 0) (Suc 0) = (Inr ''alpha'', 5)"
    for orderID n
    by (simp add: Let_def wrapping_def onError_def andThen_def example_initiate example_callback gw
      println_def example_server_simps)
  then have loop: "blacklist_attempts example_server small_config orderID 2 20 1 (\<lambda>_. 0) (Suc 0) = (Inr ''alpha'', 5)"
    for orderID unfolding twenty by blast
  show ?thesis
    unfolding runOrderBlacklistScenario_def andThen_run(1) [of "fetchGatewayStats _ _", OF r(1)]
    by (simp add: r(2,3) loop Let_def wrapping_def onError_def andThen_def example_initiate example_callback gw
      println_def example_server_simps)
qed

lemma scenario_passed_witness:
  "\<exists>gs transaction. gs \<noteq> [] \<and> length gs \<le> 20 \<and> count_list gs (last gs) = 2 \<and>
     (\<exists>w w'. sim_initiate example_server small_config (sc_orderPrefix small_config @ ''-BLACKLIST'') w =
       (Inr transaction, w')) \<and> tp_Gateway transaction \<noteq> last gs"
proof -
  obtain r where r: "fetchGatewayStats example_server (sc_baseURL small_config) 0 = (Inr r, 1)"
    "gr_OrderGatewayFailureThreshold (gp_Routing r) = 0"
    using example_stats by blast
  show ?thesis using scenario_passed [OF example_scenario] r by (auto simp: Let_def)
qed

definition example_item :: sim_result where
  "example_item = fst (runTransaction example_server small_config 1 0)"

lemma example_runs: "can_give example_server small_config 1 example_item"
  by (auto simp: can_give_def example_item_def)

lemmas example_run = small_run [where runs = "can_give example_server small_config", OF example_runs]

lemma finished_pool_simps: "pl_done (finished_pool item)" "pl_agg (finished_pool item) = aggregate_record new_aggregate item"
  by (simp_all add: finished_pool_def)

lemma traffic_summary_witness:
  "\<exists>item. can_give example_server small_config 1 item \<and>
     pl_agg (finished_pool example_item) = aggregate_record new_aggregate item"
  using traffic_summary [OF relpowp_imp_rtranclp [OF example_run] finished_pool_simps(1)] by auto

lemma traffic_ends_witness:
  "9 \<le> 5 * sc_total small_config + sc_concurrency small_config + 3 \<and> pl_done (finished_pool example_item)"
  using traffic_ends [OF example_run] finished_pool_simps(1) by simp

text \<open>The program with these flags, from its health check to its report.\<close>

definition small_flags :: "sim_flag list" where
  "small_flags = [FlagTotal 1, FlagConcurrency 1, FlagSuccessRate (Fin 1)]"

lemma small_flags_config: "parseFlags small_flags = small_config"
  by (simp add: small_flags_def small_config_def)

lemma small_scenario: "sc_scenario small_config \<noteq> ''order-blacklist''"
  by (simp add: small_config_def parseFlags_def flag_defaults_def Let_def)

lemma example_main: "simulator_main example_server small_flags 0 = (Inr (Some (small_config, 1, start_pool small_config)), 1)"
proof -
  have "healthCheck example_server (sc_baseURL small_config) 0 = (Inr (), 1)"
    by (simp add: healthCheck_def new_request_def example_server_simps andThen_def)
  then show ?thesis using small_scenario
    by (simp add: simulator_main_def small_flags_config onError_def example_server_def)
qed

lemma example_program: "simulator_run example_server small_flags 0 0
    (simulator_end example_server small_config 1 (aggregate_record new_aggregate example_item) 5)"
  using traffic [OF example_main relpowp_imp_rtranclp [OF example_run] finished_pool_simps(1), of 5]
  by (simp add: finished_pool_simps(2))

lemma simulator_reports_witness:
  "\<exists>a. ag_totalInitiated a + ag_initiateErrors a = 1 \<and>
     (\<Sum>name \<leftarrow> summary_names a. ga_initiated (gateway_entry a name)) = ag_totalInitiated a"
  using simulator_reports [OF example_program] small_scenario by (auto simp: small_flags_config)

lemma simulator_exit_codes_witness: "simulatorConfig_validate (parseFlags small_flags) = None \<and>
    (\<exists>w1. healthCheck example_server (sc_baseURL small_config) 0 = (Inr (), w1))"
  using simulator_exit_codes [OF example_program]
  by (auto simp: small_flags_config split: prod.splits sum.splits)

end
