(* ===== verification/Spec2Isabelle.thy ===== *)
theory Spec2Isabelle
  imports ConcurrentScenarios MainProgram RedisHealthSpec RedisHealthStats RedisTransactions SimulatorSpec
begin

text \<open>
  A verification development of the payment gateway router, a Go service that initiates payment
  transactions at one of several gateways, completes them by the gateways' callbacks, and keeps
  gateways that fail out of use.

  The program and its model.

  \<^item> \<open>internal/domain\<close>: types, errors, configuration defaults and validation. Theory \<open>Domain\<close>; Go's
    64-bit integers, \<open>float64\<close>, \<open>time\<close> with its RFC 3339 texts, \<open>strings\<close> and the decoding of JSON
    into structs are in \<open>GoNum\<close>, \<open>GoTime\<close>, \<open>GoTimeFormat\<close>, \<open>GoStrings\<close> and \<open>GoJson\<close>.
  \<^item> \<open>internal/ports\<close>: the interfaces. Theory \<open>Ports\<close>: a record of procedures for each, and a locale
    with the laws the services rely on.
  \<^item> \<open>internal/adapters/repository/memory\<close>: theories \<open>MemoryTransactions\<close>, \<open>MemoryHealth\<close>,
    \<open>MemoryBlacklist\<close>. Each interprets its locale.
  \<^item> \<open>internal/adapters/repository/redis\<close>: the same repositories over a Redis server. \<open>RedisClient\<close> has
    the client's commands and \<open>client.go\<close>, \<open>RedisServer\<close> what the commands do to a key space (the
    documented behaviour of Redis, a hypothesis on the client), \<open>RedisDocs\<close> the JSON documents and
    the Lua values; \<open>RedisBlacklist\<close>, \<open>RedisTransactions\<close> and \<open>RedisHealth\<close> have the operations
    with their Lua scripts. \<open>RedisHealthScripts\<close> shows what the scripts do to a stored document;
    \<open>RedisHealthSpec\<close> and \<open>RedisHealthStats\<close> compare with the memory repository.
  \<^item> \<open>internal/adapters/config\<close>: the configuration file that is polled and the runtime configuration.
    Theory \<open>ConfigProvider\<close>.
  \<^item> \<open>internal/service\<close>: theories \<open>Environment\<close> (clock, configuration reads, identifiers),
    \<open>HealthService\<close> and \<open>HealthMachine\<close>, \<open>RoutingService\<close> and \<open>RoutingSpec\<close>, \<open>BlacklistService\<close>,
    \<open>TransactionService\<close> and \<open>TransactionSpec\<close>. The services are written over any repositories, as
    in the code; what they do is proved in the locales, once.
  \<^item> \<open>internal/adapters/gateway\<close>: clients, callback decoders and registry. Theory \<open>GatewayAdapters\<close>.
  \<^item> \<open>internal/adapters/http\<close>: the handlers in theory \<open>HttpRouter\<close>, the routes in \<open>HttpServer\<close>.
  \<^item> \<open>cmd/payment-gateway-router/main.go\<close> with the memory backend: theory \<open>System\<close>, where the locale
    of all services is interpreted, requests are steps and \<open>reachable\<close> is closed under them.
    \<open>ProbeSlots\<close> and \<open>Requests\<close> hold what a request does to the parts of the state; \<open>Scenarios\<close> holds
    concrete runs. \<open>Interleaving\<close> and the theories \<open>Concurrent...\<close> have the requests as threads that
    interleave. \<open>MainProgram\<close> has the start of the program: the choice of the backend, the
    constructors of the services, and where the configurations they read come from.
  \<^item> \<open>cmd/simulator/main.go\<close>: the load generator. \<open>Simulator\<close> has its requests, one transaction, the
    summary and the blacklist scenario; \<open>SimulatorPool\<close> the channels, workers and collector as a step
    relation; \<open>SimulatorReport\<close> the printed report and the main function, with the formats of \<open>Printf\<close>
    and \<open>Duration\<close> in \<open>GoFormat\<close>; \<open>SimulatorSpec\<close> shows what a finished run reports and its exit code.

  State and operations. A method is a procedure: a function from the state to a result, an error
  (\<open>Inl\<close>) or a value (\<open>Inr\<close>), and the state it leaves (theory \<open>Prelude\<close>). The records of the services
  extend one another, so one record holds the environment, the caches, the counter and the
  repositories. The environment gives the readings of the clock, the configurations and the
  identifiers in the order they are asked for; every theorem holds for all of them.

  What is shown. Properties of one component stand at the end of its theory; those over whole requests
  stand here: callbacks are counted once; an order's gateway with too many failures is not chosen
  again; gateways move along the health diagram only and respect the cooldown; the caches and the
  probe counts are consistent; the effects of accepted, repeated, rejected and failed requests;
  selection is fair, safe, and succeeds when a gateway is healthy. \<open>HealthMachine\<close> has the
  refinement of the health service to the pure transition function \<open>next_state\<close>.

  Concurrency. \<open>net/http\<close> runs every request in a goroutine of its own. \<open>Interleaving\<close> has programs
  in atomic steps, the schedules of several of them, and rules for what each step keeps;
  \<open>ConcurrentServices\<close> has the services and handlers as such programs, where one step is one call of a
  repository, one access to a cache, the atomic addition to the counter, or one reading of the clock, the
  configuration or an identifier. Run alone, such a program is the procedure of the sequential model.
  \<open>ConcurrentQuiet\<close> shows which steps leave the transactions and failure counts alone;
  \<open>ConcurrentAccounts\<close> balances these two by what each thread still owes; \<open>ConcurrentRequests\<close> and
  \<open>ConcurrentBlacklist\<close> conclude for every schedule of any requests: of several callbacks of one transaction exactly
  one is counted, attempt numbers and identifiers are unique, the failure counts are those of the
  transactions, and a failed gateway is not chosen for a request that begins later.
  \<open>ConcurrentScenarios\<close> has concrete schedules, one of them a race that ends a cooldown early.

  The Redis repositories are compared with the memory repositories: every operation on a key space
  that represents a memory state gives the same answer and a key space that represents the next
  memory state, as long as names hold no colon, texts are printable and numbers are of moderate size
  (theories \<open>RedisBlacklist\<close>, \<open>RedisTransactions\<close>, \<open>RedisHealthSpec\<close>); the statistics agree up to the
  minute they are kept by, as long as the time to live of the counters is positive. The configuration in use is always one that was accepted, a transaction
  goes only to gateways of an accepted file, any HTTP request keeps the program within its reachable
  states, and a traffic run of the simulator ends with a summary
  that does not depend on the schedule and accounts for every transaction.

  Bounds. Counters of outcomes and attempt numbers are integers without wrap-around in the memory
  repositories; the selection counter is a 64-bit word, sums of weights, durations, minute buckets and the
  counters of the simulator wrap as in Go. The theorems that need a bound state it. The loops are
  structural recursions except the one over the minute buckets, whose counter wraps: where it ends, with
  how many turns, and where it does not is proved (\<open>RedisHealthStats\<close>; the error \<open>never_returns\<close> stands for
  a method that does not return), and the worker pool, whose runs are bounded (\<open>SimulatorPool\<close>).

  Not modelled: logging; the byte encoding of responses by \<open>net/http\<close>; the texts of errors
  made by libraries; the HTTP server, signals and shutdown of the main program; the transport
  settings of the simulator's HTTP client. In the concurrent model the lock that \<open>snapshot\<close> holds while it builds a snapshot
  is left out, so that it has more schedules than the code, and nothing is shown about
  deadlocks; the health diagram and the bounds on probes are
  shown for requests that run one after the other only (a race breaks the cooldown, \<open>ConcurrentScenarios\<close>). A
  method of a Redis repository runs without interruption. The services are proved over the memory repositories; with the Redis backend the main program is
  modelled up to the construction of the services.
\<close>

section \<open>The accounts of the program\<close>

text \<open>
  C1: in every reachable state the recorded gateway events belong to distinct transactions, each
  completed at that gateway with that status, and the counters of an order at a gateway are
  exactly the numbers of its transactions that failed and succeeded there: a callback is counted
  once, however often it is delivered and in whatever order requests are served.
\<close>
theorem callbacks_counted_once:
  assumes "reachable reg s"
  shows "distinct (map ge_TransactionID (mh_events (hs_repository s))) \<and>
    (\<forall>e \<in> set (mh_events (hs_repository s)). IsFinal (ge_Status e) \<and>
       (\<exists>x. mt_transactions (ts_transactions s) (ge_TransactionID e) = Some x \<and>
          tx_Gateway x = ge_Gateway e \<and> tx_Status x = ge_Status e)) \<and>
    (\<forall>o_id g.
       failures_of (bs_repository s) o_id g =
         int (card (outcomes (ts_transactions s) o_id g TransactionStatusFailure)) \<and>
       successes_of (bs_repository s) o_id g =
         int (card (outcomes (ts_transactions s) o_id g TransactionStatusSuccess)))"
  using sys_invD(4,5) [OF reachable_inv [OF assms]]
  by (auto simp: counters_ok_def events_ok_def event_ok_def)

theorem callbacks_counted_once_witness:
  "distinct (map ge_TransactionID (mh_events (hs_repository solo2))) \<and>
   failures_of (bs_repository solo2) ''ord1'' ''payu'' =
     int (card (outcomes (ts_transactions solo2) ''ord1'' ''payu'' TransactionStatusFailure))"
  using callbacks_counted_once [OF solo_reachable(4)] by blast

text \<open>
  C4: as long as every configuration asks for the same number of failures, an initiation never
  chooses a gateway at which the order already failed that often without a success.
\<close>
theorem initiate_avoids_failed_gateways:
  assumes "reachable reg s" "threshold_is n s" "in_OrderID input \<noteq> ''''"
    and "Initiate MemHealth MemTx MemBlacklist reg input s = (Inr x, s')"
    and "outcomes (ts_transactions s) (in_OrderID input) (tx_Gateway x) TransactionStatusSuccess = {}"
  shows "int (card (outcomes (ts_transactions s) (in_OrderID input) (tx_Gateway x)
      TransactionStatusFailure)) < n"
proof -
  note inv = sys_invD [OF reachable_inv [OF assms(1)]]
  have "tx_Gateway x \<notin> blacklisted_of (bs_repository s) (in_OrderID input)"
    using mem.Initiate_ok(2) [OF assms(4) inv(1)] assms(3) inv(6) by (simp add: excluded_for_def)
  then show ?thesis using reachable_blacklisted [OF assms(1,2)] assms(5) by auto
qed

theorem initiate_avoids_failed_gateways_witness:
  "int (card (outcomes (ts_transactions solo2) ''ord1'' ''payu'' TransactionStatusFailure)) < 2"
  using initiate_avoids_failed_gateways [OF solo_reachable(4) solo_threshold(3) _
      solo_initiate(2) [unfolded mem_Initiate_def]]
  by (simp add: outcomes_def solo_transactions)

text \<open>
  C7: requests that run one after the other, on a clock that never goes back: whatever request is served, every gateway that has a health state moves along an edge of the
  health diagram at an instant the clock has shown: a healthy gateway may trip, an unhealthy one
  stays until its cooldown is over and then becomes half-open, and a half-open one leaves that
  state only when it has a live probe.
\<close>
theorem health_follows_diagram:
  assumes "reachable reg s" "serves reg s s'" "clock_mono s"
    and "mh_states (hs_repository s) g = Some st"
  shows "\<exists>st' k. mh_states (hs_repository s') g = Some st' \<and> k \<le> env_ticks s' \<and>
    health_edge (env_clock s k) st st'"
  using serves_effect [OF assms(2) reachable_inv [OF assms(1)]] assms(3,4) by (simp add: health_moves_def)

theorem health_follows_diagram_witness:
  "\<exists>st' k. mh_states (hs_repository solo3) ''payu'' = Some st' \<and> k \<le> 10 \<and>
    health_edge (env_clock solo2 k) (the (mh_states (hs_repository solo2) ''payu'')) st'"
  using health_follows_diagram [OF solo_reachable(4)
      serves.initiate [OF solo_initiate(2) [unfolded mem_Initiate_def]] solo_mono(3), of "''payu''"]
  by (simp add: solo_health solo_env)

text \<open>
  C8: requests that run one after the other, on a clock that never goes back: an unhealthy gateway stays
  unhealthy for its whole cooldown. No request that ends before the cooldown does makes it half-open or healthy, or changes the end of the cooldown.
\<close>
theorem unhealthy_until_cooldown:
  assumes "reachable reg s" "serves reg s s'" "clock_mono s"
    and "mh_states (hs_repository s) g = Some st" "rt_State st = GatewayStateUnhealthy"
    and "env_clock s (env_ticks s') < rt_UnhealthyUntil st" "\<not> IsZero (rt_UnhealthyUntil st)"
  shows "\<exists>st'. mh_states (hs_repository s') g = Some st' \<and> rt_State st' = GatewayStateUnhealthy \<and>
    rt_UnhealthyUntil st' = rt_UnhealthyUntil st"
proof -
  from serves_effect [OF assms(2) reachable_inv [OF assms(1)]] assms(3,4)
  obtain st' k where st': "mh_states (hs_repository s') g = Some st'" "k \<le> env_ticks s'"
    "health_edge (env_clock s k) st st'" unfolding health_moves_def by blast
  with clock_monoD [OF assms(3) st'(2)] assms(5-7) show ?thesis by (auto simp: health_edge_iff)
qed

theorem unhealthy_until_cooldown_witness:
  "\<exists>st'. mh_states (hs_repository slow3) ''payu'' = Some st' \<and> rt_State st' = GatewayStateUnhealthy \<and>
    rt_UnhealthyUntil st' = 1700000064 * 10 ^ 9"
  using unhealthy_until_cooldown [OF slow_reachable slow_facts(1), of "''payu''"]
  by (simp add: slow_facts IsZero_def zero_time_def)

text \<open>
  C9: in every reachable state the cache of the health service agrees with the repository, the
  number of probes in flight of a gateway is the length of its list of probes, only a half-open
  gateway has probes, and the gateways of the routing snapshot are enabled, have a positive weight
  and come from a configuration that was read.
\<close>
theorem health_state_consistent:
  assumes "reachable reg s" "mh_states (hs_repository s) g = Some st"
  shows "rt_Gateway st = g \<and> rt_HalfOpenInFlight st = int (length (rt_HalfOpenProbes st)) \<and>
    (rt_State st = GatewayStateHealthy \<or> rt_State st = GatewayStateUnhealthy \<or>
     rt_State st = GatewayStateHalfOpen) \<and>
    (rt_HalfOpenProbes st \<noteq> [] \<longrightarrow> rt_State st = GatewayStateHalfOpen) \<and>
    (\<forall>e. hs_stateCache s g = Some e \<longrightarrow> cg_state e = st) \<and>
    (\<forall>c \<in> set (sn_healthy (rs_cache s)) \<union> set (sn_probes (rs_cache s)).
       gc_Enabled c \<and> 0 < gc_Weight c \<and> (\<exists>k < env_reads s. c \<in> set (ac_Gateways (env_config s k))))"
proof -
  note inv = routing_invD [OF sys_invD(1) [OF reachable_inv [OF assms(1)]]]
  have "wf_gateway g st" by (rule wf_statesD [OF health_invD(1) [OF inv(1)] assms(2)])
  moreover have "\<forall>e. hs_stateCache s g = Some e \<longrightarrow> cg_state e = st"
    using coherentD [OF health_invD(2) [OF inv(1)]] assms(2) by fastforce
  ultimately show ?thesis using inv(2)
    by (cases "rt_State st") (auto simp: wf_gateway_def snapshot_configured_def configured_def routable_def)
qed

theorem health_state_consistent_witness:
  "\<not> (\<exists>e. hs_stateCache solo3 ''payu'' = Some e \<and>
     cg_state e \<noteq> the (mh_states (hs_repository solo3) ''payu''))"
  using health_state_consistent [OF solo_reachable(5), of "''payu''"] by (auto simp: solo_health)

section \<open>Requests to initiate\<close>

text \<open>
  C10: an accepted initiation stores exactly one new transaction, under an identifier that was not
  in use: pending, with the next attempt number of its order, at a gateway that is registered,
  configured, enabled and not blacklisted for the order. Nothing else is recorded.
\<close>
theorem initiate_accepted:
  assumes "reachable reg s" "Initiate MemHealth MemTx MemBlacklist reg input s = (Inr x, s')"
  shows "mt_transactions (ts_transactions s) (tx_ID x) = None \<and>
    mt_transactions (ts_transactions s') = (mt_transactions (ts_transactions s))(tx_ID x \<mapsto> x) \<and>
    tx_ID x = env_ids s (env_issued s) ''txn'' \<and>
    tx_Status x = TransactionStatusPending \<and> tx_CompletedAt x = None \<and>
    tx_OrderID x = in_OrderID input \<and> tx_Amount x = in_Amount input \<and>
    tx_PaymentInstrument x = in_PaymentInstrument input \<and>
    tx_AttemptNo x = MemTx_attempts (ts_transactions s) (tx_OrderID x) + 1 \<and>
    (in_OrderID input \<noteq> '''' \<longrightarrow> tx_Gateway x \<notin> blacklisted_of (bs_repository s) (in_OrderID input)) \<and>
    (\<exists>client. reg (tx_Gateway x) = Some client) \<and>
    (\<exists>k < env_reads s'. \<exists>c \<in> set (ac_Gateways (env_config s k)).
       gc_Name c = tx_Gateway x \<and> gc_Enabled c \<and> 0 < gc_Weight c) \<and>
    bs_repository s' = bs_repository s \<and> mh_events (hs_repository s') = mh_events (hs_repository s)"
proof -
  note D = sys_invD [OF reachable_inv [OF assms(1)]]
  note ok = mem.Initiate_ok [OF assms(2) D(1)]
  have "mh_events (hs_repository s') = mh_events (hs_repository s)"
    using preservesD [OF events_Initiate _ assms(2)] by (simp add: events_are_def)
  moreover obtain ref now where "x = initiated input (env_ids s (env_issued s) ''txn'')
      (MemTx_attempts (ts_transactions s) (in_OrderID input) + 1) (tx_Gateway x) ref now"
    using ok(1) by blast
  note fields = initiated_fields [OF this]
  moreover have "\<exists>k < env_reads s'. \<exists>c \<in> set (ac_Gateways (env_config s k)).
      gc_Name c = tx_Gateway x \<and> gc_Enabled c \<and> 0 < gc_Weight c"
    using ok(4,12) unfolding configured_def routable_def by metis
  ultimately show ?thesis using ok(2,3,5,6,9) D(6) fields by (simp add: excluded_for_def split: if_splits)
qed

theorem initiate_accepted_witness:
  "mt_transactions (ts_transactions solo2) ''txn_1'' = None \<and>
   mt_transactions (ts_transactions solo3) = (mt_transactions (ts_transactions solo2))(''txn_1'' \<mapsto> txn1)"
  using initiate_accepted [OF solo_reachable(4) solo_initiate(2) [unfolded mem_Initiate_def],
      unfolded txn_simps] by blast

text \<open>
  C14: an initiation that fails, whatever the reason, stores no transaction and records nothing
  against its order or a gateway; at most it has used up an attempt number of the order.
\<close>
theorem initiate_failed:
  assumes "reachable reg s" "Initiate MemHealth MemTx MemBlacklist reg' input s = (Inl er, s')"
  shows "mt_transactions (ts_transactions s') = mt_transactions (ts_transactions s) \<and>
    bs_repository s' = bs_repository s \<and> mh_events (hs_repository s') = mh_events (hs_repository s) \<and>
    (\<forall>o_id. MemTx_attempts (ts_transactions s) o_id \<le> MemTx_attempts (ts_transactions s') o_id \<and>
      MemTx_attempts (ts_transactions s') o_id \<le> MemTx_attempts (ts_transactions s) o_id +
        (if o_id = in_OrderID input then 1 else 0))"
proof -
  note failed = mem.Initiate_failed [OF assms(2) sys_invD(1) [OF reachable_inv [OF assms(1)]]]
  have "mh_events (hs_repository s') = mh_events (hs_repository s)"
    using preservesD [OF events_Initiate _ assms(2)] by (simp add: events_are_def)
  then show ?thesis using failed(2,3,4) by auto
qed

theorem initiate_failed_witness:
  "mt_transactions (ts_transactions (snd solo_refused)) = mt_transactions (ts_transactions solo2)"
  using initiate_failed [OF solo_reachable(4) solo_refused_run] by blast

text \<open>
  C15: an initiation that fails after it was admitted as the probe of a half-open gateway gives the
  probe slot back: if no gateway held a probe of the new identifier before, none is left with one of that
  transaction.
\<close>
theorem initiate_failed_releases_probe:
  assumes "reachable reg s" "Initiate MemHealth MemTx MemBlacklist reg' input s = (Inl er, s')"
    and "all_free (env_ids s (env_issued s) ''txn'') (mh_states (hs_repository s))"
  shows "\<not> (\<exists>g st p. mh_states (hs_repository s') g = Some st \<and> p \<in> set (rt_HalfOpenProbes st) \<and>
    hp_TransactionID p = env_ids s (env_issued s) ''txn'')"
  using free_Initiate_failed [OF assms(2) reachable_inv [OF assms(1)] assms(3)]
  by (auto simp: all_free_def probe_free_def)

theorem initiate_failed_releases_probe_witness:
  "\<not> (\<exists>g st p. mh_states (hs_repository (snd solo_refused)) g = Some st \<and>
    p \<in> set (rt_HalfOpenProbes st) \<and> hp_TransactionID p = ''txn_1'')"
  using initiate_failed_releases_probe [OF solo_reachable(4) solo_refused_run, unfolded solo2_id]
    solo2_free by simp

text \<open>
  The attempt numbers of an order's stored transactions are positive, pairwise different and
  not above the order's counter, in every reachable state.
\<close>
theorem attempt_numbers_unique:
  assumes "reachable reg s" "mt_transactions (ts_transactions s) i = Some x"
    and "mt_transactions (ts_transactions s) j = Some y" "i \<noteq> j" "tx_OrderID x = tx_OrderID y"
  shows "1 \<le> tx_AttemptNo x \<and> tx_AttemptNo x \<le> MemTx_attempts (ts_transactions s) (tx_OrderID x) \<and>
    tx_AttemptNo x \<noteq> tx_AttemptNo y"
  using sys_invD(3) [OF reachable_inv [OF assms(1)]] assms(2-5) unfolding attempts_ok_def by blast

theorem attempt_numbers_unique_witness: "tx_AttemptNo txn1 \<noteq> tx_AttemptNo txn0"
  using attempt_numbers_unique [OF solo_reachable(5), of "''txn_1''" txn1 "''txn_0''"
      "completed_at (1700000003 * 10 ^ 9) TransactionStatusFailure '''' txn0"]
  by (simp add: solo_transactions)

section \<open>Callbacks\<close>

text \<open>
  C13: a callback is rejected, with an error and with nothing stored or recorded, exactly when it
  names no stored transaction, another gateway or order, a status that is not final, or an outcome
  other than the one the transaction already has.
\<close>
theorem callback_rejected:
  assumes "reachable reg s" "Callback MemHealth MemTx MemBlacklist input s = (r, s')"
  shows "((\<exists>er. r = Inl er) \<longleftrightarrow>
      (case mt_transactions (ts_transactions s) (cb_TransactionID input) of
        None \<Rightarrow> True
      | Some x \<Rightarrow> tx_Gateway x \<noteq> cb_Gateway input \<or>
          (cb_OrderID input \<noteq> '''' \<and> tx_OrderID x \<noteq> cb_OrderID input) \<or>
          \<not> IsFinal (cb_Status input) \<or> (IsFinal (tx_Status x) \<and> tx_Status x \<noteq> cb_Status input))) \<and>
    (\<forall>er. r = Inl er \<longrightarrow> s' = s\<lparr>env_ticks := env_ticks s'\<rparr>)"
proof (cases r)
  case (Inl er)
  from Callback_Inl [OF assms(2) [unfolded Inl] reachable_inv [OF assms(1)]] Inl show ?thesis
    by (auto simp: acceptable_def callback_matches_def split: option.splits)
next
  case (Inr res)
  from assms(2) [unfolded Inr] reachable_inv [OF assms(1)] show ?thesis
    by (cases rule: Callback_Inr) (use Inr in \<open>auto simp: callback_matches_def\<close>)
qed

theorem callback_rejected_witness:
  "\<exists>er s'. Callback MemHealth MemTx MemBlacklist
     (outcome_of ''txn_0'' ''payu'' TransactionStatusSuccess) solo2 = (Inl er, s')"
  using callback_rejected [OF solo_reachable(4) prod.collapse [symmetric],
      of "outcome_of ''txn_0'' ''payu'' TransactionStatusSuccess"]
  by (simp add: solo_transactions outcome_of_def prod_eq_iff)

text \<open>
  C11: an accepted callback for a pending transaction completes it with the callback's status and
  reason at the instant of the callback, leaves the other transactions and the attempt numbers
  alone, records exactly one new event, for its gateway, and is not reported as a repetition.
\<close>
theorem callback_completes:
  assumes "reachable reg s" "Callback MemHealth MemTx MemBlacklist input s = (Inr res, s')"
    and "mt_transactions (ts_transactions s) (cb_TransactionID input) = Some x"
    and "tx_Status x = TransactionStatusPending"
  shows "\<not> cr_Idempotent res \<and>
    cr_Transaction res = x\<lparr>tx_Status := cb_Status input, tx_FailureReason := cb_Reason input,
      tx_UpdatedAt := env_clock s (env_ticks s), tx_CompletedAt := Some (env_clock s (env_ticks s))\<rparr> \<and>
    mt_transactions (ts_transactions s') =
      (mt_transactions (ts_transactions s))(cb_TransactionID input \<mapsto> cr_Transaction res) \<and>
    MemTx_attempts (ts_transactions s') = MemTx_attempts (ts_transactions s) \<and>
    (\<exists>keep now. mh_events (hs_repository s') = filter keep (mh_events (hs_repository s)) @
      [\<lparr>ge_Gateway = tx_Gateway x, ge_TransactionID = cb_TransactionID input,
        ge_Status = cb_Status input, ge_CreatedAt = now\<rparr>])"
  using assms(2) reachable_inv [OF assms(1)]
proof (cases rule: Callback_Inr)
  case (1 y)
  then have "y = x" using assms(3) by simp
  then have "\<not> IsFinal (tx_Status y)" using assms(4) by simp
  with 1 \<open>y = x\<close> show ?thesis by (simp add: completed_at_def)
qed

theorem callback_completes_witness:
  "mt_transactions (ts_transactions solo2) = (mt_transactions (ts_transactions solo1))
     (''txn_0'' \<mapsto> completed_at (1700000003 * 10 ^ 9) TransactionStatusFailure '''' txn0)"
  using callback_completes [OF solo_reachable(3) solo_callback [unfolded mem_Callback_def], of txn0]
  by (simp add: solo_transactions outcome_of_def)

text \<open>
  C12: a callback that was accepted is accepted again, as a repetition with the same transaction;
  the second delivery changes no transaction, no counter and no event.
\<close>
theorem callback_idempotent:
  assumes "reachable reg s" "Callback MemHealth MemTx MemBlacklist input s = (Inr res, s1)"
    and "Callback MemHealth MemTx MemBlacklist input s1 = (r, s2)"
  shows "\<exists>res2. r = Inr res2 \<and> cr_Idempotent res2 \<and> cr_Transaction res2 = cr_Transaction res \<and>
    ts_transactions s2 = ts_transactions s1 \<and> bs_repository s2 = bs_repository s1 \<and>
    mh_events (hs_repository s2) = mh_events (hs_repository s1)"
proof -
  have inv: "sys_inv s" "sys_inv s1"
    using reachable_inv [OF assms(1)] Callback_inv [OF assms(2)] by simp_all
  note stored = Callback_stored [OF assms(2) inv(1)]
  have y: "mt_transactions (ts_transactions s1) (cb_TransactionID input) = Some (cr_Transaction res)"
    "tx_Status (cr_Transaction res) = cb_Status input" "callback_matches input (cr_Transaction res)"
    using stored by simp_all
  then have "acceptable (mt_transactions (ts_transactions s1)) input"
    using stored(4) by (simp add: acceptable_def)
  with Callback_Inl(2) [OF _ inv(2)] assms(3) obtain res2 where r: "r = Inr res2" by (cases r) auto
  from assms(3) [unfolded r] inv(2) show ?thesis
  proof (cases rule: Callback_Inr)
    case (1 x)
    then have "x = cr_Transaction res" using y(1) by simp
    then have "IsFinal (tx_Status x)" using y(2) stored(4) by simp
    with 1 r \<open>x = cr_Transaction res\<close> show ?thesis by simp
  qed
qed

theorem callback_idempotent_witness:
  "\<exists>res s'. Callback MemHealth MemTx MemBlacklist
       (outcome_of ''txn_0'' ''payu'' TransactionStatusFailure) solo2 = (Inr res, s') \<and>
     cr_Idempotent res \<and> ts_transactions s' = ts_transactions solo2"
  using callback_idempotent [OF solo_reachable(3) solo_callback [unfolded mem_Callback_def]
      prod.collapse [symmetric]] by (auto simp: prod_eq_iff)

section \<open>Witnesses of the properties of the components\<close>

lemmas solo_routing_inv = solo_inv [THEN sys_invD(1)]
lemmas solo_health_inv = solo_routing_inv [THEN routing_invD(1)]

theorem RecordOutcome_refines_witness:
  "\<exists>st stats s'. HealthService_RecordOutcome MemHealth ''payu'' ''txn_1'' TransactionStatusSuccess solo3 =
     (Inr (st, stats), s') \<and> same_state st (next_state (ac_Routing solo_config) (1700000010 * 10 ^ 9)
       ''txn_1'' TransactionStatusSuccess stats (the (mh_states (hs_repository solo3) ''payu'')))"
  using RecordOutcome_refines [OF solo_health_inv(4) IsFinal_simps(1), of "''payu''" "''txn_1''"]
  by (fastforce simp: solo_env solo_health)

theorem stale_outcome_keeps_probes_witness:
  "\<exists>st stats s'. HealthService_RecordOutcome MemHealth ''payu'' ''txn_0'' TransactionStatusFailure solo3 =
     (Inr (st, stats), s') \<and> rt_State st = GatewayStateHalfOpen \<and>
     rt_HalfOpenProbes st = [\<lparr>hp_TransactionID = ''txn_1'', hp_ExpiresAtUnixMilli = 1700000068000\<rparr>]"
  using stale_outcome_keeps_probes [OF solo_health_inv(4), of "''payu''" _ "''txn_0''" TransactionStatusFailure]
  by (fastforce simp: solo_env solo_health live_probes_def live_probe_def UnixMilli_def)

theorem PrepareForRouting_cooldown_witness:
  "\<exists>st s'. PrepareForRouting MemHealth ''payu'' (ac_Routing solo_config) solo2 = (Inr st, s') \<and>
     rt_State st = GatewayStateHalfOpen"
  using PrepareForRouting_cooldown [OF solo_health_inv(3), of "''payu''" _ "ac_Routing solo_config"]
  by (fastforce simp: solo_env solo_health IsZero_def zero_time_def)

theorem selections_fair_witness:
  "count_list (selections 100 (ac_Gateways yaml_config) yaml_system)
     \<lparr>gc_Name = ''payu'', gc_Enabled = True, gc_Weight = 30\<rparr> = 30"
  using selections_fair [of "ac_Gateways yaml_config"
      "\<lparr>gc_Name = ''payu'', gc_Enabled = True, gc_Weight = 30\<rparr>" yaml_system]
  by (simp add: good_candidates_def yaml_system_def fresh_system_def)

theorem SelectGateway_sound_witness:
  "\<exists>st k. mh_states (hs_repository solo_probe) ''payu'' = Some st \<and>
     rt_State st = GatewayStateHalfOpen \<and> ''txn_9'' \<in> hp_TransactionID ` set (rt_HalfOpenProbes st) \<and>
     rt_HalfOpenInFlight st \<le> rc_HalfOpenProbeCount (ac_Routing (WithDefaults (env_config solo2 k)))"
  using SelectGateway_sound [OF solo_routing_inv(3) solo_probe_run] by fastforce

theorem snapshot_exact_witness:
  "\<exists>snap s'. snapshot MemHealth solo0 = (Inr snap, s') \<and> rs_cache s' = snap \<and>
     sn_healthy snap = filter (healthy_in (mh_states (hs_repository s'))) (ac_Gateways solo_config)"
  using snapshot_exact [OF solo_routing_inv(1)]
  by (fastforce simp: solo_env solo0_def fresh_system_def empty_snapshot_def zero_time_def Before_def)

theorem SelectGateway_succeeds_witness:
  "\<exists>sel s'. SelectGateway MemHealth \<lparr>sr_TransactionID = ''txn_9'', sr_OrderID = ''ord1'',
     sr_ExcludedGateways = {}\<rparr> solo0 = (Inr sel, s')"
  by (rule SelectGateway_succeeds [OF solo_routing_inv(1) solo_mono(1),
        where g = "\<lparr>gc_Name = ''payu'', gc_Enabled = True, gc_Weight = 1\<rparr>"])
    (simp_all add: solo_env solo0_def fresh_system_def empty_snapshot_def zero_time_def routable_def
      MemHealth_New_def)

theorem handleCallback_response_witness:
  "rp_Status (fst (response_of (handleCallback MemHealth MemTx MemBlacklist None failure_body) solo1)) = 200"
proof -
  have dec: "decodeCallback None (Some (JObject [(''transaction_id'', JString ''txn_0''),
     (''status'', JString ''failure''), (''gateway'', JString ''payu'')])) =
     Inr \<lparr>cb_TransactionID = ''txn_0'', cb_OrderID = '''', cb_Gateway = ''payu'',
       cb_Status = TransactionStatusFailure, cb_Reason = ''''\<rparr>" by code_simp
  have clean: "cleaned \<lparr>cb_TransactionID = ''txn_0'', cb_OrderID = '''', cb_Gateway = ''payu'',
       cb_Status = TransactionStatusFailure, cb_Reason = ''''\<rparr> =
     \<lparr>cb_TransactionID = ''txn_0'', cb_OrderID = '''', cb_Gateway = ''payu'',
       cb_Status = TransactionStatusFailure, cb_Reason = ''''\<rparr>" by code_simp
  show ?thesis
    using handleCallback_response [OF solo_reachable(3) prod.collapse [symmetric], of None failure_body]
    by (simp add: failure_body_def dec clean callback_status_def solo_transactions)
qed

theorem handleInitiate_response_witness:
  "mt_transactions (ts_transactions (snd (response_of
     (handleInitiate MemHealth MemTx MemBlacklist no_clients ReadFails) solo2))) =
   mt_transactions (ts_transactions solo2)"
  using handleInitiate_response [OF solo_reachable(4) prod.collapse [symmetric], of no_clients ReadFails]
  by (simp add: handleInitiate_def decodeJSON_def response_of_def)

theorem handleGateways_response_witness:
  "\<exists>rows s'. response_of (handleGateways MemHealth) solo3 =
     (\<lparr>rp_Status = 200, rp_Body = GatewaysBody (ac_Routing solo_config) rows\<rparr>, s') \<and>
     map (gc_Name \<circ> fst) rows = [''payu'']"
  using handleGateways_response [OF solo_reachable(5)]
  by (fastforce simp: solo_env map_comp_map [symmetric] simp del: map_map map_comp_map)

end
